(* ===== verification/Prelude.thy ===== *)
theory Prelude
  imports Complex_Main "HOL-Library.Word"
begin

text \<open>
  Shared vocabulary of the development: Go errors as values, fallible operations that read and
  write a store, the facts about composing them (what an operation preserves, that a refused
  operation left the store alone), decoded JSON, and the few string functions of Go's standard
  library that the modelled code calls.
\<close>

section \<open>Errors and fallible operations\<close>

text \<open>
  A Go error is its sentinel, the class that \<open>errors.Is\<close> tests (\<open>ErrValidation\<close>,
  \<open>ErrForbidden\<close>, \<open>ErrTransition\<close> and \<open>ErrNotEntitled\<close> of internal/services, \<open>ErrNotFound\<close> and
  \<open>ErrConflict\<close> of internal/repository), with the fixed part of its message. \<open>ErrStore\<close>
  is any other error of a repository call: the database itself failed.
\<close>

datatype sentinel = ErrValidation | ErrForbidden | ErrTransition | ErrNotFound | ErrConflict | ErrStore | ErrNotEntitled | ErrNotConfigured

datatype error = Err (err_class: sentinel) (err_msg: string)

type_synonym 'a result = "error + 'a"

text \<open>
  An operation reads and writes a store of type \<open>'s\<close> and returns a value or an error. The
  store is returned in both cases: an operation that fails half-way has already written.
\<close>

type_synonym ('s, 'a) op = "'s \<Rightarrow> 'a result \<times> 's"

definition ok :: "'a \<Rightarrow> ('s, 'a) op" where
  "ok x s = (Inr x, s)"

definition fail :: "error \<Rightarrow> ('s, 'a) op" where
  "fail e s = (Inl e, s)"

definition andThen :: "('s, 'a) op \<Rightarrow> ('a \<Rightarrow> ('s, 'b) op) \<Rightarrow> ('s, 'b) op" where
  "andThen m f s = (case m s of (Inl e, s') \<Rightarrow> (Inl e, s') | (Inr x, s') \<Rightarrow> f x s')"

text \<open>\<open>refuse b e\<close> is the early return \<open>if b { return e }\<close>.\<close>

definition refuse :: "bool \<Rightarrow> error \<Rightarrow> ('s, unit) op" where
  "refuse b e = (if b then fail e else ok ())"

definition from_result :: "'a result \<Rightarrow> ('s, 'a) op" where
  "from_result r s = (r, s)"

text \<open>\<open>rewrap e m\<close> answers \<open>e\<close> where \<open>m\<close> answered any error at all.\<close>

definition rewrap :: "error \<Rightarrow> ('s, 'a) op \<Rightarrow> ('s, 'a) op" where
  "rewrap e m s = (case m s of (Inl _, s') \<Rightarrow> (Inl e, s') | (Inr x, s') \<Rightarrow> (Inr x, s'))"

text \<open>\<open>attempt m\<close> hands the error of \<open>m\<close> to the caller as a value: the code that looks at
  \<open>err\<close> and goes on.\<close>

definition attempt :: "('s, 'a) op \<Rightarrow> ('s, 'a result) op" where
  "attempt m s = (case m s of (r, s') \<Rightarrow> (Inr r, s'))"

named_theorems op_defs

declare ok_def [op_defs] fail_def [op_defs] andThen_def [op_defs] refuse_def [op_defs]
  from_result_def [op_defs] rewrap_def [op_defs] attempt_def [op_defs]

subsection \<open>Reading a run backwards\<close>

lemma ok_eq [simp]: "ok x s = (r, s') \<longleftrightarrow> r = Inr x \<and> s' = s"
  by (auto simp: ok_def)

lemma fail_eq [simp]: "fail e s = (r, s') \<longleftrightarrow> r = Inl e \<and> s' = s"
  by (auto simp: fail_def)

lemma from_result_eq [simp]: "from_result r s = (r', s') \<longleftrightarrow> r = r' \<and> s' = s"
  by (auto simp: from_result_def)

lemma refuse_Inr [simp]: "refuse b e s = (Inr u, s') \<longleftrightarrow> \<not> b \<and> s' = s"
  by (auto simp: refuse_def)

lemma refuse_Inl [simp]: "refuse b e s = (Inl e', s') \<longleftrightarrow> b \<and> e' = e \<and> s' = s"
  by (auto simp: refuse_def)

lemma andThen_Inr:
  "andThen m f s = (Inr y, s') \<longleftrightarrow> (\<exists>x s1. m s = (Inr x, s1) \<and> f x s1 = (Inr y, s'))"
  by (auto simp: andThen_def split: prod.splits sum.splits)

lemma andThen_Inl:
  "andThen m f s = (Inl e, s') \<longleftrightarrow>
     m s = (Inl e, s') \<or> (\<exists>x s1. m s = (Inr x, s1) \<and> f x s1 = (Inl e, s'))"
  by (auto simp: andThen_def split: prod.splits sum.splits)

lemma rewrap_Inr [simp]: "rewrap e m s = (Inr x, s') \<longleftrightarrow> m s = (Inr x, s')"
  by (auto simp: rewrap_def split: prod.splits sum.splits)

lemma rewrap_Inl: "rewrap e m s = (Inl e', s') \<longleftrightarrow> e' = e \<and> (\<exists>e0. m s = (Inl e0, s'))"
  by (auto simp: rewrap_def split: prod.splits sum.splits)

lemma attempt_Inr [simp]: "attempt m s = (Inr r, s') \<longleftrightarrow> m s = (r, s')"
  by (auto simp: attempt_def split: prod.splits)

lemma attempt_Inl [simp]: "attempt m s = (Inl e, s') \<longleftrightarrow> False"
  by (auto simp: attempt_def split: prod.splits)

lemma andThen_ok [simp]: "andThen (ok x) f = f x"
  by (rule ext) (simp add: andThen_def ok_def)

lemma andThen_fail [simp]: "andThen (fail e) f = fail e"
  by (rule ext) (simp add: andThen_def fail_def)

lemma andThen_refuse_True [simp]: "andThen (refuse True e) f = fail e"
  by (rule ext) (simp add: op_defs)

lemma andThen_refuse_False [simp]: "andThen (refuse False e) f = f ()"
  by (rule ext) (simp add: op_defs)

lemmas op_Inr = andThen_Inr rewrap_Inr attempt_Inr refuse_Inr
lemmas op_Inl = andThen_Inl rewrap_Inl attempt_Inl refuse_Inl

subsection \<open>What an operation preserves, and refusals that write nothing\<close>

text \<open>
  \<open>keeps f m\<close>: whatever \<open>m\<close> answers, the part \<open>f\<close> of the store is as it was.
  \<open>clean m\<close>: when \<open>m\<close> answers an error, the whole store is as it was.
\<close>

definition keeps :: "('s \<Rightarrow> 'v) \<Rightarrow> ('s, 'a) op \<Rightarrow> bool" where
  "keeps f m \<longleftrightarrow> (\<forall>s. f (snd (m s)) = f s)"

definition preserves :: "('s \<Rightarrow> bool) \<Rightarrow> ('s, 'a) op \<Rightarrow> bool" where
  "preserves P m \<longleftrightarrow> (\<forall>s. P s \<longrightarrow> P (snd (m s)))"

definition clean :: "('s, 'a) op \<Rightarrow> bool" where
  "clean m \<longleftrightarrow> (\<forall>s e s'. m s = (Inl e, s') \<longrightarrow> s' = s)"

text \<open>\<open>follows R m\<close>: from any store, \<open>m\<close> only goes where \<open>R\<close> leads, whatever it answers.\<close>

definition follows :: "('s \<Rightarrow> 's \<Rightarrow> bool) \<Rightarrow> ('s, 'a) op \<Rightarrow> bool" where
  "follows R m \<longleftrightarrow> (\<forall>s. R s (snd (m s)))"

text \<open>An operation that only reads.\<close>

definition readonly :: "('s, 'a) op \<Rightarrow> bool" where
  "readonly m \<longleftrightarrow> keeps (\<lambda>s. s) m"

named_theorems op_rules

lemma keepsD: "keeps f m \<Longrightarrow> m s = (r, s') \<Longrightarrow> f s' = f s"
  unfolding keeps_def by (metis snd_conv)

lemma preservesD: "preserves P m \<Longrightarrow> m s = (r, s') \<Longrightarrow> P s \<Longrightarrow> P s'"
  unfolding preserves_def by (metis snd_conv)

lemma readonlyD: "readonly m \<Longrightarrow> m s = (r, s') \<Longrightarrow> s' = s"
  unfolding readonly_def keeps_def by (metis snd_conv)

lemma cleanD: "clean m \<Longrightarrow> m s = (Inl e, s') \<Longrightarrow> s' = s"
  by (auto simp: clean_def)

lemma readonlyI: "(\<And>s r s'. m s = (r, s') \<Longrightarrow> s' = s) \<Longrightarrow> readonly m"
  unfolding readonly_def keeps_def by (metis prod.collapse)

lemma cleanI: "(\<And>s e s'. m s = (Inl e, s') \<Longrightarrow> s' = s) \<Longrightarrow> clean m"
  by (auto simp: clean_def)

lemma keeps_readonly: "readonly m \<Longrightarrow> keeps f m"
  by (simp add: readonly_def keeps_def)

lemma preserves_readonly: "readonly m \<Longrightarrow> preserves P m"
  by (simp add: readonly_def keeps_def preserves_def)

lemma clean_readonly: "readonly m \<Longrightarrow> clean m"
  by (auto simp: clean_def dest: readonlyD)

lemma preserves_keeps: "keeps f m \<Longrightarrow> preserves (\<lambda>s. P (f s)) m"
  by (simp add: keeps_def preserves_def)

lemma keeps_ok [op_rules]: "keeps f (ok x)"
  by (simp add: keeps_def ok_def)

lemma keeps_fail [op_rules]: "keeps f (fail e)"
  by (simp add: keeps_def fail_def)

lemma keeps_refuse [op_rules]: "keeps f (refuse b e)"
  by (simp add: keeps_def refuse_def ok_def fail_def)

lemma keeps_from_result [op_rules]: "keeps f (from_result r)"
  by (simp add: keeps_def from_result_def)

lemma keeps_andThen [op_rules]:
  assumes "keeps f m" and "\<And>x. keeps f (g x)"
  shows "keeps f (andThen m g)"
  using assms by (auto simp: keeps_def andThen_def split: prod.splits sum.splits) (metis snd_conv)+

lemma keeps_rewrap [op_rules]: "keeps f m \<Longrightarrow> keeps f (rewrap e m)"
  by (auto simp: keeps_def rewrap_def split: prod.splits sum.splits) (metis snd_conv)+

lemma keeps_attempt [op_rules]: "keeps f m \<Longrightarrow> keeps f (attempt m)"
  by (auto simp: keeps_def attempt_def split: prod.splits) (metis snd_conv)

lemma preserves_ok [op_rules]: "preserves P (ok x)"
  by (simp add: preserves_def ok_def)

lemma preserves_fail [op_rules]: "preserves P (fail e)"
  by (simp add: preserves_def fail_def)

lemma preserves_refuse [op_rules]: "preserves P (refuse b e)"
  by (simp add: preserves_def refuse_def ok_def fail_def)

lemma preserves_from_result [op_rules]: "preserves P (from_result r)"
  by (simp add: preserves_def from_result_def)

lemma preserves_andThen [op_rules]:
  assumes "preserves P m" and "\<And>x. preserves P (g x)"
  shows "preserves P (andThen m g)"
  unfolding preserves_def
proof (intro allI impI)
  fix s assume "P s"
  obtain r s1 where m: "m s = (r, s1)" by fastforce
  from preservesD [OF assms(1) m \<open>P s\<close>] have "P s1" .
  with m assms(2) show "P (snd (andThen m g s))"
    by (cases r) (auto simp: andThen_def preserves_def)
qed

text \<open>A computed value: what follows may use how it was computed.\<close>

lemma preserves_result:
  "(\<And>x. r = Inr x \<Longrightarrow> preserves P (g x)) \<Longrightarrow> preserves P (andThen (from_result r) g)"
  by (cases r) (auto simp: preserves_def op_defs)

lemma preserves_rewrap [op_rules]: "preserves P m \<Longrightarrow> preserves P (rewrap e m)"
  by (auto simp: preserves_def rewrap_def split: prod.splits sum.splits)

lemma preserves_attempt [op_rules]: "preserves P m \<Longrightarrow> preserves P (attempt m)"
  by (auto simp: preserves_def attempt_def split: prod.splits)

lemma readonly_ok [op_rules]: "readonly (ok x)"
  by (simp add: readonly_def keeps_ok)

lemma readonly_fail [op_rules]: "readonly (fail e)"
  by (simp add: readonly_def keeps_fail)

lemma readonly_refuse [op_rules]: "readonly (refuse b e)"
  by (simp add: readonly_def keeps_refuse)

lemma readonly_from_result [op_rules]: "readonly (from_result r)"
  by (simp add: readonly_def keeps_from_result)

lemma readonly_andThen [op_rules]:
  "readonly m \<Longrightarrow> (\<And>x. readonly (g x)) \<Longrightarrow> readonly (andThen m g)"
  unfolding readonly_def by (rule keeps_andThen)

lemma readonly_rewrap [op_rules]: "readonly m \<Longrightarrow> readonly (rewrap e m)"
  unfolding readonly_def by (rule keeps_rewrap)

lemma readonly_attempt [op_rules]: "readonly m \<Longrightarrow> readonly (attempt m)"
  unfolding readonly_def by (rule keeps_attempt)

lemma clean_ok [op_rules]: "clean (ok x)"
  by (rule clean_readonly) (rule readonly_ok)

lemma clean_fail [op_rules]: "clean (fail e)"
  by (rule clean_readonly) (rule readonly_fail)

lemma clean_refuse [op_rules]: "clean (refuse b e)"
  by (rule clean_readonly) (rule readonly_refuse)

lemma clean_from_result [op_rules]: "clean (from_result r)"
  by (rule clean_readonly) (rule readonly_from_result)

text \<open>Reads first, one write last: the shape of an operation that is refused cleanly.\<close>

lemma clean_andThen_readonly [op_rules]:
  assumes "readonly m" and "\<And>x. clean (g x)"
  shows "clean (andThen m g)"
  using assms by (auto simp: clean_def andThen_Inl dest: readonlyD)

text \<open>Once the write is done, what follows may not fail.\<close>

lemma clean_andThen_ok: "clean m \<Longrightarrow> clean (andThen m (\<lambda>x. ok (g x)))"
  by (auto simp: clean_def andThen_Inl)

definition leads :: "('s \<Rightarrow> 's \<Rightarrow> bool) \<Rightarrow> ('s, 'a) op \<Rightarrow> 's \<Rightarrow> bool" where
  "leads R m s \<longleftrightarrow> R s (snd (m s))"

lemma follows_leads: "(\<And>s. leads R m s) \<Longrightarrow> follows R m"
  by (simp add: follows_def leads_def)

lemma leads_choice:
  "leads R a s \<Longrightarrow> leads R b s \<Longrightarrow> leads R (if c then a else b) s"
  "(c \<Longrightarrow> leads R a s) \<Longrightarrow> (\<not> c \<Longrightarrow> leads R b s) \<Longrightarrow> leads R (if c then a else b) s"
  by simp_all

lemma followsD: "follows R m \<Longrightarrow> m s = (r, s') \<Longrightarrow> R s s'"
  unfolding follows_def by (metis snd_conv)

lemma followsI: "(\<And>s r s'. m s = (r, s') \<Longrightarrow> R s s') \<Longrightarrow> follows R m"
  unfolding follows_def by (metis prod.collapse)

lemma follows_choice [op_rules]:
  "follows R a \<Longrightarrow> follows R b \<Longrightarrow> follows R (if c then a else b)"
  "(v = None \<Longrightarrow> follows R n) \<Longrightarrow> (\<And>x. v = Some x \<Longrightarrow> follows R (h x)) \<Longrightarrow>
     follows R (case v of None \<Rightarrow> n | Some x \<Rightarrow> h x)"
  "(\<And>e. follows R (p e)) \<Longrightarrow> (\<And>v. follows R (q v)) \<Longrightarrow>
     follows R (case r of Inl e \<Rightarrow> p e | Inr v \<Rightarrow> q v)"
  "(\<And>a b. follows R (g a b)) \<Longrightarrow> follows R (case t of (a, b) \<Rightarrow> g a b)"
  by (simp, (cases v, simp, simp), (cases r, simp, simp), cases t, simp)

text \<open>A read in front: the store is still the one it was read from.\<close>

lemma read_Inr:
  assumes "readonly m"
  shows "andThen m f s = (Inr y, s') \<longleftrightarrow> (\<exists>x. m s = (Inr x, s) \<and> f x s = (Inr y, s'))"
  using assms by (auto simp: andThen_Inr dest: readonlyD)

lemma op_if [op_rules]:
  "keeps f a \<Longrightarrow> keeps f b \<Longrightarrow> keeps f (if c then a else b)"
  "preserves P a \<Longrightarrow> preserves P b \<Longrightarrow> preserves P (if c then a else b)"
  "readonly a \<Longrightarrow> readonly b \<Longrightarrow> readonly (if c then a else b)"
  "clean a \<Longrightarrow> clean b \<Longrightarrow> clean (if c then a else b)"
  by simp_all

lemma op_case_option [op_rules]:
  "(v = None \<Longrightarrow> keeps f n) \<Longrightarrow> (\<And>x. v = Some x \<Longrightarrow> keeps f (h x)) \<Longrightarrow>
     keeps f (case v of None \<Rightarrow> n | Some x \<Rightarrow> h x)"
  "(v = None \<Longrightarrow> preserves P n) \<Longrightarrow> (\<And>x. v = Some x \<Longrightarrow> preserves P (h x)) \<Longrightarrow>
     preserves P (case v of None \<Rightarrow> n | Some x \<Rightarrow> h x)"
  "(v = None \<Longrightarrow> readonly n) \<Longrightarrow> (\<And>x. v = Some x \<Longrightarrow> readonly (h x)) \<Longrightarrow>
     readonly (case v of None \<Rightarrow> n | Some x \<Rightarrow> h x)"
  "(v = None \<Longrightarrow> clean n) \<Longrightarrow> (\<And>x. v = Some x \<Longrightarrow> clean (h x)) \<Longrightarrow>
     clean (case v of None \<Rightarrow> n | Some x \<Rightarrow> h x)"
  by (cases v; simp)+

lemma op_case_sum [op_rules]:
  "(\<And>e. keeps f (n e)) \<Longrightarrow> (\<And>v. keeps f (h v)) \<Longrightarrow>
     keeps f (case r of Inl e \<Rightarrow> n e | Inr v \<Rightarrow> h v)"
  "(\<And>e. preserves P (n e)) \<Longrightarrow> (\<And>v. preserves P (h v)) \<Longrightarrow>
     preserves P (case r of Inl e \<Rightarrow> n e | Inr v \<Rightarrow> h v)"
  "(\<And>e. readonly (n e)) \<Longrightarrow> (\<And>v. readonly (h v)) \<Longrightarrow>
     readonly (case r of Inl e \<Rightarrow> n e | Inr v \<Rightarrow> h v)"
  "(\<And>e. clean (n e)) \<Longrightarrow> (\<And>v. clean (h v)) \<Longrightarrow>
     clean (case r of Inl e \<Rightarrow> n e | Inr v \<Rightarrow> h v)"
  by (cases r; simp)+

lemma op_case_prod [op_rules]:
  "(\<And>a b. keeps f (h a b)) \<Longrightarrow> keeps f (case p of (a, b) \<Rightarrow> h a b)"
  "(\<And>a b. preserves P (h a b)) \<Longrightarrow> preserves P (case p of (a, b) \<Rightarrow> h a b)"
  "(\<And>a b. readonly (h a b)) \<Longrightarrow> readonly (case p of (a, b) \<Rightarrow> h a b)"
  "(\<And>a b. clean (h a b)) \<Longrightarrow> clean (case p of (a, b) \<Rightarrow> h a b)"
  by (cases p; simp)+

subsection \<open>Where a store may go\<close>

text \<open>
  A reflexive and transitive relation on stores: a composition follows it when its parts do.
\<close>

locale store_order =
  fixes R :: "'s \<Rightarrow> 's \<Rightarrow> bool"
  assumes stays: "R s s" and onward: "R s t \<Longrightarrow> R t u \<Longrightarrow> R s u"
begin

lemma follows_readonly: "readonly m \<Longrightarrow> follows R m"
  by (rule followsI) (auto dest: readonlyD simp: stays)

lemma follows_andThen:
  assumes "follows R m" and "\<And>x. follows R (g x)"
  shows "follows R (andThen m g)"
proof (rule followsI)
  fix s r s' assume a: "andThen m g s = (r, s')"
  obtain r1 s1 where m: "m s = (r1, s1)" by fastforce
  with assms(1) have "R s s1" by (rule followsD)
  moreover from a m assms(2) have "R s1 s'"
    by (cases r1) (auto simp: andThen_def stays intro: followsD)
  ultimately show "R s s'" by (rule onward)
qed

lemma follows_rewrap: "follows R m \<Longrightarrow> follows R (rewrap e m)"
  by (auto simp: follows_def rewrap_def split: prod.splits sum.splits) (metis snd_conv)+

lemma follows_attempt: "follows R m \<Longrightarrow> follows R (attempt m)"
  by (auto simp: follows_def attempt_def split: prod.splits) (metis snd_conv)

lemma follows_pure: "follows R (ok x)" "follows R (fail e)" "follows R (refuse b e)" "follows R (from_result r)"
  by (auto simp: follows_def op_defs stays)

text \<open>A computed value: what follows may use how it was computed.\<close>

lemma follows_result:
  "(\<And>x. r = Inr x \<Longrightarrow> follows R (g x)) \<Longrightarrow> follows R (andThen (from_result r) g)"
  by (cases r) (auto simp: follows_def op_defs stays)

text \<open>From one store: reads tell what was read, a write is followed from where it stands.\<close>

lemma leads_read:
  assumes "readonly m" and "\<And>x. m s = (Inr x, s) \<Longrightarrow> leads R (g x) s"
  shows "leads R (andThen m g) s"
proof -
  obtain r s1 where m: "m s = (r, s1)" by fastforce
  with assms(1) have "s1 = s" by (rule readonlyD)
  with m assms(2) show ?thesis by (cases r) (auto simp: leads_def andThen_def stays)
qed

lemma leads_write:
  assumes "leads R m s" and "\<And>x. follows R (g x)"
  shows "leads R (andThen m g) s"
proof -
  obtain r s1 where m: "m s = (r, s1)" by fastforce
  with assms(1) have 1: "R s s1" by (simp add: leads_def)
  show ?thesis
  proof (cases r)
    case (Inr x)
    from assms(2) [of x] have "R s1 (snd (g x s1))" by (simp add: follows_def)
    with m Inr 1 show ?thesis by (auto simp: leads_def andThen_def intro: onward)
  qed (use m 1 in \<open>simp add: leads_def andThen_def\<close>)
qed

lemma leads_follows: "follows R m \<Longrightarrow> leads R m s"
  by (simp add: follows_def leads_def)

lemmas follow_rules = follows_pure follows_andThen follows_rewrap follows_attempt

end

section \<open>Decoded JSON\<close>

text \<open>
  A value of \<open>interface{}\<close> as \<open>encoding/json\<close> leaves it, and the free-form detail column
  (\<open>models.JSONB\<close>, a map from keys to such values). A number is a float64; every finite
  float64 is a rational.
\<close>

datatype json = JNull | JBool bool | JNum rat | JStr string | JArr "json list"
  | JObj "(string \<times> json) list"

type_synonym detail = "string \<Rightarrow> json option"

text \<open>Go's conversion of a float64 to an int: towards zero.\<close>

definition go_int :: "rat \<Rightarrow> int" where
  "go_int r = (if 0 \<le> r then \<lfloor>r\<rfloor> else \<lceil>r\<rceil>)"

definition json_string :: "json option \<Rightarrow> string option" where
  "json_string v = (case v of Some (JStr s) \<Rightarrow> Some s | _ \<Rightarrow> None)"

lemma go_int_of_int [simp]: "go_int (of_int k) = k"
  by (simp add: go_int_def)

section \<open>Strings\<close>

text \<open>\<open>strings.TrimSpace\<close> on the ASCII white space characters.\<close>

definition is_space :: "char \<Rightarrow> bool" where
  "is_space c \<longleftrightarrow> c \<in> {CHR '' '', CHR 0x09, CHR 0x0A, CHR 0x0B, CHR 0x0C, CHR 0x0D}"

definition trim_space :: "string \<Rightarrow> string" where
  "trim_space s = rev (dropWhile is_space (rev (dropWhile is_space s)))"

definition lower_char :: "char \<Rightarrow> char" where
  "lower_char c = (let n = (of_char c :: nat) in if 65 \<le> n \<and> n \<le> 90 then char_of (n + 32) else c)"

text \<open>
  The simple case folding of \<open>strings.EqualFold\<close>, for comparison with an ASCII string. Two
  runes outside ASCII fold onto ASCII letters: U+017F onto s and U+212A onto k; they are spelled
  in UTF-8, as the bytes of a Go string are. Any other rune stays outside ASCII.
\<close>

fun fold_case :: "string \<Rightarrow> string" where
  "fold_case [] = []"
| "fold_case (c # cs) =
     (if c = CHR 0xC5 \<and> take 1 cs = [CHR 0xBF] then CHR ''s'' # fold_case (drop 1 cs)
      else if c = CHR 0xE2 \<and> take 2 cs = [CHR 0x84, CHR 0xAA] then CHR ''k'' # fold_case (drop 2 cs)
      else lower_char c # fold_case cs)"

definition equal_fold :: "string \<Rightarrow> string \<Rightarrow> bool" where
  "equal_fold s t \<longleftrightarrow> fold_case s = fold_case t"

lemma equal_fold_refl [simp]: "equal_fold s s"
  by (simp add: equal_fold_def)

section \<open>Numbers\<close>

text \<open>Decimal digits, and \<open>%0*d\<close>.\<close>

fun digits :: "nat \<Rightarrow> string" where
  "digits n = (if n < 10 then [char_of (48 + n)] else digits (n div 10) @ [char_of (48 + n mod 10)])"

declare digits.simps [simp del]

definition zero_padded :: "nat \<Rightarrow> nat \<Rightarrow> string" where
  "zero_padded w n = replicate (w - length (digits n)) (CHR ''0'') @ digits n"

definition undigits :: "string \<Rightarrow> nat" where
  "undigits s = foldl (\<lambda>n c. 10 * n + (of_char c - 48)) 0 s"

lemma undigits_snoc [simp]: "undigits (s @ [c]) = 10 * undigits s + (of_char c - 48)"
  by (simp add: undigits_def)

lemma undigits_digits [simp]: "undigits (digits n) = n"
proof (induction n rule: digits.induct)
  case (1 n)
  have c: "of_char (char_of (48 + m) :: char) - 48 = (m :: nat)" if "m < 10" for m
    using that by simp
  show ?case
  proof (cases "n < 10")
    case True
    then show ?thesis using c [of n] by (simp add: digits.simps [of n] undigits_def)
  next
    case False
    then show ?thesis using 1 c [of "n mod 10"] by (simp add: digits.simps [of n])
  qed
qed

lemma undigits_padded [simp]: "undigits (zero_padded w n) = n"
proof -
  have "undigits (replicate k (CHR ''0'') @ s) = undigits s" for k s
  proof -
    have "foldl (\<lambda>n c. 10 * n + (of_char c - 48)) 0 (replicate k (CHR ''0'')) = (0::nat)"
      by (induction k) simp_all
    then show ?thesis by (simp add: undigits_def)
  qed
  then show ?thesis by (simp add: zero_padded_def)
qed

text \<open>
  \<open>decimal.Round(n)\<close> and the rounding of a NUMERIC column to its scale: to the nearest, half away
  from zero.
\<close>

definition round_to :: "nat \<Rightarrow> rat \<Rightarrow> rat" where
  "round_to n x = (let s = 10 ^ n; k = \<lfloor>\<bar>x\<bar> * s + 1 / 2\<rfloor> in if x < 0 then - (of_int k / s) else of_int k / s)"

lemma round_to_error: "\<bar>round_to n x - x\<bar> \<le> 1 / (2 * 10 ^ n)"
proof -
  let ?s = "10 ^ n :: rat" and ?k = "\<lfloor>\<bar>x\<bar> * 10 ^ n + 1 / 2\<rfloor>"
  have s: "0 < ?s" by simp
  have "of_int ?k \<le> \<bar>x\<bar> * ?s + 1 / 2" "\<bar>x\<bar> * ?s + 1 / 2 < of_int ?k + 1"
    using floor_correct [of "\<bar>x\<bar> * ?s + 1 / 2"] by simp_all
  then have "\<bar>of_int ?k - \<bar>x\<bar> * ?s\<bar> \<le> 1 / 2" by linarith
  then have "\<bar>of_int ?k - \<bar>x\<bar> * ?s\<bar> / ?s \<le> 1 / 2 / ?s" by (intro divide_right_mono) simp_all
  moreover have "\<bar>of_int ?k - \<bar>x\<bar> * ?s\<bar> / ?s = \<bar>(of_int ?k - \<bar>x\<bar> * ?s) / ?s\<bar>" by (simp add: abs_divide)
  moreover have "(of_int ?k - \<bar>x\<bar> * ?s) / ?s = of_int ?k / ?s - \<bar>x\<bar>" using s by (simp add: diff_divide_distrib)
  ultimately have "\<bar>of_int ?k / ?s - \<bar>x\<bar>\<bar> \<le> 1 / (2 * ?s)" by simp
  then show ?thesis by (auto simp: round_to_def Let_def abs_if split: if_splits)
qed

definition cents :: "rat \<Rightarrow> bool" where
  "cents x \<longleftrightarrow> x * 100 \<in> \<int>"

lemma round_to_cents [simp]: "cents (round_to 2 x)"
  by (simp add: cents_def round_to_def Let_def)

lemma cents_round: "cents x \<Longrightarrow> round_to 2 x = x"
proof -
  assume "cents x"
  then obtain k where "x * 100 = of_int k" by (auto simp: cents_def Ints_def)
  then have x: "x = of_int k / 100" by simp
  have "\<lfloor>\<bar>x\<bar> * 100 + 1 / 2\<rfloor> = \<bar>k\<bar>" by (rule floor_unique) (simp_all add: x)
  then show ?thesis unfolding round_to_def Let_def by (auto simp: x abs_if)
qed

text \<open>A value that a NUMERIC column with \<open>n\<close> digits before the point takes.\<close>

definition numeric_fits :: "nat \<Rightarrow> rat \<Rightarrow> bool" where
  "numeric_fits n x \<longleftrightarrow> \<bar>x\<bar> < 10 ^ n"

section \<open>Optional values\<close>

definition the_default :: "'a \<Rightarrow> 'a option \<Rightarrow> 'a" where
  "the_default x v = (case v of None \<Rightarrow> x | Some y \<Rightarrow> y)"

section \<open>Lists\<close>

lemma map_of_in_keys: "map_of xs k = Some v \<Longrightarrow> k \<in> set (map fst xs)"
  by (force dest: map_of_SomeD)

lemma find_Some_iff_first:
  "find P xs = Some x \<Longrightarrow> x \<in> set xs \<and> P x"
  by (induction xs) (auto split: if_splits)

lemma find_append:
  "find P (xs @ ys) = (case find P xs of None \<Rightarrow> find P ys | Some x \<Rightarrow> Some x)"
  by (induction xs) auto

end
