(* ===== verification/Status.thy ===== *)
theory Status
  imports Prelude
begin

text \<open>
  internal/models/status.go: the order and shipment state machines, the role and permission each
  move needs, the display labels, and the order a shipment's statuses happen in. Statuses and
  roles are strings, as in the code: a target status arrives in a request body.
\<close>

section \<open>Status codes and roles\<close>

text \<open>Order statuses.\<close>

abbreviation OrderDraft :: string where "OrderDraft \<equiv> ''draft''"
abbreviation OrderSubmitted :: string where "OrderSubmitted \<equiv> ''submitted''"
abbreviation OrderApproved :: string where "OrderApproved \<equiv> ''approved''"
abbreviation OrderReadyToPlan :: string where "OrderReadyToPlan \<equiv> ''readyToPlan''"
abbreviation OrderAssigned :: string where "OrderAssigned \<equiv> ''assigned''"
abbreviation OrderInTransit :: string where "OrderInTransit \<equiv> ''inTransit''"
abbreviation OrderDelivered :: string where "OrderDelivered \<equiv> ''delivered''"
abbreviation OrderCompleted :: string where "OrderCompleted \<equiv> ''completed''"
abbreviation OrderCancelled :: string where "OrderCancelled \<equiv> ''cancelled''"
abbreviation OrderCancelRequested :: string where "OrderCancelRequested \<equiv> ''cancelRequested''"
abbreviation OrderRejected :: string where "OrderRejected \<equiv> ''rejected''"

text \<open>Shipment statuses.\<close>

abbreviation ShipmentAssigned :: string where "ShipmentAssigned \<equiv> ''assigned''"
abbreviation ShipmentToLoading :: string where "ShipmentToLoading \<equiv> ''toLoading''"
abbreviation ShipmentAtLoading :: string where "ShipmentAtLoading \<equiv> ''atLoading''"
abbreviation ShipmentLoadingApproved :: string where "ShipmentLoadingApproved \<equiv> ''loadingApproved''"
abbreviation ShipmentLoading :: string where "ShipmentLoading \<equiv> ''loading''"
abbreviation ShipmentLoaded :: string where "ShipmentLoaded \<equiv> ''loaded''"
abbreviation ShipmentToUnloading :: string where "ShipmentToUnloading \<equiv> ''toUnloading''"
abbreviation ShipmentAtUnloading :: string where "ShipmentAtUnloading \<equiv> ''atUnloading''"
abbreviation ShipmentUnloadingApproved :: string where "ShipmentUnloadingApproved \<equiv> ''unloadingApproved''"
abbreviation ShipmentUnloading :: string where "ShipmentUnloading \<equiv> ''unloading''"
abbreviation ShipmentUnloaded :: string where "ShipmentUnloaded \<equiv> ''unloaded''"
abbreviation ShipmentFinished :: string where "ShipmentFinished \<equiv> ''finished''"
abbreviation ShipmentCancelled :: string where "ShipmentCancelled \<equiv> ''cancelled''"

text \<open>Agreement statuses.\<close>

abbreviation AgreementDraft :: string where "AgreementDraft \<equiv> ''draft''"
abbreviation AgreementSubmitted :: string where "AgreementSubmitted \<equiv> ''submitted''"
abbreviation AgreementPendingApproval :: string where "AgreementPendingApproval \<equiv> ''pendingApproval''"
abbreviation AgreementActive :: string where "AgreementActive \<equiv> ''active''"
abbreviation AgreementRejected :: string where "AgreementRejected \<equiv> ''rejected''"
abbreviation AgreementSuperseded :: string where "AgreementSuperseded \<equiv> ''superseded''"
abbreviation AgreementExpired :: string where "AgreementExpired \<equiv> ''expired''"
abbreviation AgreementCancelled :: string where "AgreementCancelled \<equiv> ''cancelled''"

text \<open>Invoice statuses.\<close>

abbreviation InvoiceDraft :: string where "InvoiceDraft \<equiv> ''draft''"
abbreviation InvoiceIssued :: string where "InvoiceIssued \<equiv> ''issued''"
abbreviation InvoiceSubmitted :: string where "InvoiceSubmitted \<equiv> ''submitted''"
abbreviation InvoiceVerified :: string where "InvoiceVerified \<equiv> ''verified''"
abbreviation InvoicePaid :: string where "InvoicePaid \<equiv> ''paid''"
abbreviation InvoiceCancelled :: string where "InvoiceCancelled \<equiv> ''cancelled''"

text \<open>Roles. \<open>RoleSystem\<close> names moves the service makes on its own; it is never a caller's.\<close>

abbreviation RoleSuperadmin :: string where "RoleSuperadmin \<equiv> ''superadmin''"
abbreviation RoleAdmin :: string where "RoleAdmin \<equiv> ''admin''"
abbreviation RoleShipper :: string where "RoleShipper \<equiv> ''shipper''"
abbreviation RoleTransporter :: string where "RoleTransporter \<equiv> ''transporter''"
abbreviation RoleDriver :: string where "RoleDriver \<equiv> ''driver''"
abbreviation RoleManager :: string where "RoleManager \<equiv> ''manager''"
abbreviation RoleWarehousePic :: string where "RoleWarehousePic \<equiv> ''warehousePic''"
abbreviation RoleSystem :: string where "RoleSystem \<equiv> ''system''"

section \<open>The machines\<close>

datatype transition = Transition (tr_To: string) (tr_AllowedRoles: "string list")

type_synonym machine = "(string \<times> transition list) list"

definition personas :: "string list" where
  "personas = [RoleSuperadmin, RoleAdmin, RoleShipper, RoleTransporter, RoleDriver, RoleManager,
     RoleWarehousePic]"

definition NormaliseRole :: "string \<Rightarrow> string" where
  "NormaliseRole role = (case find (\<lambda>known. equal_fold role known) personas of
     Some known \<Rightarrow> known | None \<Rightarrow> role)"

text \<open>The order state machine.\<close>

definition orderTransitions :: machine where
  "orderTransitions =
  [(OrderDraft, [Transition OrderSubmitted [RoleShipper, RoleAdmin, RoleSuperadmin],
      Transition OrderCancelled [RoleShipper, RoleAdmin, RoleSuperadmin]]),
   (OrderSubmitted, [Transition OrderApproved [RoleTransporter, RoleManager, RoleAdmin, RoleSuperadmin],
      Transition OrderRejected [RoleTransporter, RoleManager, RoleAdmin, RoleSuperadmin],
      Transition OrderCancelled [RoleShipper, RoleAdmin, RoleSuperadmin]]),
   (OrderApproved, [Transition OrderReadyToPlan [RoleTransporter, RoleManager, RoleAdmin, RoleSuperadmin],
      Transition OrderAssigned [RoleTransporter, RoleManager, RoleAdmin, RoleSuperadmin],
      Transition OrderCancelRequested [RoleShipper],
      Transition OrderCancelled [RoleAdmin, RoleSuperadmin]]),
   (OrderReadyToPlan, [Transition OrderAssigned [RoleTransporter, RoleManager, RoleAdmin, RoleSuperadmin],
      Transition OrderCancelRequested [RoleShipper],
      Transition OrderCancelled [RoleAdmin, RoleSuperadmin]]),
   (OrderAssigned, [Transition OrderInTransit [],
      Transition OrderReadyToPlan [RoleTransporter, RoleManager, RoleAdmin, RoleSuperadmin],
      Transition OrderCancelRequested [RoleShipper],
      Transition OrderCancelled [RoleAdmin, RoleSuperadmin]]),
   (OrderInTransit, [Transition OrderCompleted [],
      Transition OrderDelivered [],
      Transition OrderCancelled [RoleAdmin, RoleSuperadmin]]),
   (OrderDelivered, [Transition OrderCompleted [RoleShipper, RoleWarehousePic, RoleAdmin, RoleSuperadmin]]),
   (OrderCancelRequested, [Transition OrderCancelled [RoleTransporter, RoleManager, RoleAdmin, RoleSuperadmin],
      Transition OrderReadyToPlan [RoleTransporter, RoleManager, RoleAdmin, RoleSuperadmin],
      Transition OrderAssigned [RoleTransporter, RoleManager, RoleAdmin, RoleSuperadmin]]),
   (OrderCompleted, []),
   (OrderCancelled, []),
   (OrderRejected, [])]"

text \<open>The shipment state machine.\<close>

definition shipmentTransitions :: machine where
  "shipmentTransitions =
  [(ShipmentAssigned, [Transition ShipmentToLoading [RoleDriver],
      Transition ShipmentCancelled [RoleTransporter, RoleManager, RoleAdmin, RoleSuperadmin]]),
   (ShipmentToLoading, [Transition ShipmentAtLoading [RoleDriver],
      Transition ShipmentCancelled [RoleTransporter, RoleManager, RoleAdmin, RoleSuperadmin]]),
   (ShipmentAtLoading, [Transition ShipmentLoading [RoleDriver]]),
   (ShipmentLoadingApproved, [Transition ShipmentLoading [RoleDriver]]),
   (ShipmentLoading, [Transition ShipmentLoaded [RoleSystem, RoleAdmin, RoleSuperadmin]]),
   (ShipmentLoaded, [Transition ShipmentToUnloading [RoleDriver, RoleSystem]]),
   (ShipmentToUnloading, [Transition ShipmentAtUnloading [RoleDriver]]),
   (ShipmentAtUnloading, [Transition ShipmentUnloading [RoleDriver]]),
   (ShipmentUnloadingApproved, [Transition ShipmentUnloading [RoleDriver]]),
   (ShipmentUnloading, [Transition ShipmentUnloaded [RoleSystem, RoleAdmin, RoleSuperadmin]]),
   (ShipmentUnloaded, [Transition ShipmentFinished [RoleSystem, RoleWarehousePic, RoleAdmin, RoleSuperadmin]]),
   (ShipmentFinished, []),
   (ShipmentCancelled, [])]"

text \<open>A refusal, and the sentence it prints.\<close>

record transition_error =
  te_From :: string
  te_To :: string
  te_Role :: string
  te_Reason :: string

definition transition_error_text :: "transition_error \<Rightarrow> string" where
  "transition_error_text e =
     ''cannot move from '' @ te_From e @ '' to '' @ te_To e @ '': '' @ te_Reason e"

text \<open>
  \<open>canTransition\<close>: the loop takes the first entry whose target is the one asked for and decides
  there. \<open>None\<close> is the nil error: the move is allowed.
\<close>

fun try_transitions :: "transition list \<Rightarrow> string \<Rightarrow> string \<Rightarrow> string \<Rightarrow> transition_error option" where
  "try_transitions [] from to role =
     Some \<lparr>te_From = from, te_To = to, te_Role = role, te_Reason = ''no such transition''\<rparr>"
| "try_transitions (t # ts) from to role =
     (if tr_To t \<noteq> to then try_transitions ts from to role
      else if tr_AllowedRoles t = [] \<or> role = RoleSuperadmin \<or> role = RoleAdmin then None
      else if role \<in> set (tr_AllowedRoles t) then None
      else Some \<lparr>te_From = from, te_To = to, te_Role = role,
             te_Reason = ''role '' @ role @ '' may not make this change''\<rparr>)"

definition canTransition :: "machine \<Rightarrow> string \<Rightarrow> string \<Rightarrow> string \<Rightarrow> transition_error option" where
  "canTransition machine from to role =
     (case map_of machine from of
        None \<Rightarrow> Some \<lparr>te_From = from, te_To = to, te_Role = role,
                  te_Reason = ''unknown current state''\<rparr>
      | Some allowed \<Rightarrow>
          if allowed = [] then Some \<lparr>te_From = from, te_To = to, te_Role = role,
                  te_Reason = from @ '' is a final state''\<rparr>
          else try_transitions allowed from to role)"

definition CanTransitionOrder :: "string \<Rightarrow> string \<Rightarrow> string \<Rightarrow> transition_error option" where
  "CanTransitionOrder from to role = canTransition orderTransitions from to role"

definition CanTransitionShipment :: "string \<Rightarrow> string \<Rightarrow> string \<Rightarrow> transition_error option" where
  "CanTransitionShipment from to role = canTransition shipmentTransitions from to role"

text \<open>\<open>machine[from]\<close> of an absent key is the empty slice.\<close>

definition entries :: "machine \<Rightarrow> string \<Rightarrow> transition list" where
  "entries machine from = (case map_of machine from of None \<Rightarrow> [] | Some ts \<Rightarrow> ts)"

definition next_states :: "machine \<Rightarrow> string \<Rightarrow> string \<Rightarrow> string list" where
  "next_states machine from role =
     map tr_To (filter (\<lambda>t. canTransition machine from (tr_To t) role = None) (entries machine from))"

definition NextOrderStates :: "string \<Rightarrow> string \<Rightarrow> string list" where
  "NextOrderStates from role = next_states orderTransitions from role"

definition NextShipmentStates :: "string \<Rightarrow> string \<Rightarrow> string list" where
  "NextShipmentStates from role = next_states shipmentTransitions from role"

definition IsOrderFinal :: "string \<Rightarrow> bool" where
  "IsOrderFinal status = (case map_of orderTransitions status of None \<Rightarrow> False | Some t \<Rightarrow> t = [])"

section \<open>The order a shipment's statuses happen in\<close>

definition shipmentChain :: "string list" where
  "shipmentChain =
  [ShipmentAssigned, ShipmentToLoading, ShipmentAtLoading, ShipmentLoadingApproved,
   ShipmentLoading, ShipmentLoaded, ShipmentToUnloading, ShipmentAtUnloading,
   ShipmentUnloadingApproved, ShipmentUnloading, ShipmentUnloaded, ShipmentFinished]"

fun chain_index :: "string list \<Rightarrow> int \<Rightarrow> string \<Rightarrow> int" where
  "chain_index [] i status = -1"
| "chain_index (s # ss) i status = (if s = status then i else chain_index ss (i + 1) status)"

definition shipmentChainIndex :: "string \<Rightarrow> int" where
  "shipmentChainIndex status = chain_index shipmentChain 0 status"

definition ShipmentStatusAtOrPast :: "string \<Rightarrow> string \<Rightarrow> bool" where
  "ShipmentStatusAtOrPast status mark =
     (let here = shipmentChainIndex status; want = shipmentChainIndex mark
      in if here < 0 \<or> want < 0 then False else want \<le> here)"

definition NextShipmentStatusTowards :: "string \<Rightarrow> string \<Rightarrow> string" where
  "NextShipmentStatusTowards from to =
     (let here = shipmentChainIndex from; want = shipmentChainIndex to
      in if here < 0 \<or> want < 0 \<or> want \<le> here then []
         else (case find (\<lambda>s. \<not> (s = ShipmentLoadingApproved \<or> s = ShipmentUnloadingApproved))
                      (map (\<lambda>i. shipmentChain ! nat i) [here + 1 .. want]) of
                 Some s \<Rightarrow> s | None \<Rightarrow> []))"

section \<open>Labels and permissions\<close>

abbreviation DomainOrder :: string where "DomainOrder \<equiv> ''order''"
abbreviation DomainShipment :: string where "DomainShipment \<equiv> ''shipment''"
abbreviation DomainAgreement :: string where "DomainAgreement \<equiv> ''agreement''"
abbreviation DomainInvoice :: string where "DomainInvoice \<equiv> ''invoice''"

datatype label = Label (label_ID: string) (label_EN: string)

definition statusLabels :: "(string \<times> (string \<times> label) list) list" where
  "statusLabels =
  [(DomainOrder,
   [(OrderDraft, Label ''Draft'' ''Draft''),
    (OrderSubmitted, Label ''Menunggu Persetujuan'' ''Awaiting Approval''),
    (OrderApproved, Label ''Disetujui'' ''Approved''),
    (OrderReadyToPlan, Label ''Order siap diproses'' ''Order ready to be processed''),
    (OrderAssigned, Label ''Driver dipilih'' ''Driver selected''),
    (OrderInTransit, Label ''Dalam Perjalanan'' ''In Transit''),
    (OrderDelivered, Label ''Terkirim'' ''Delivered''),
    (OrderCompleted, Label ''Order Selesai'' ''Order Completed''),
    (OrderCancelled, Label ''Order Dibatalkan'' ''Order Cancelled''),
    (OrderCancelRequested, Label ''Permintaan Pembatalan'' ''Cancellation Requested''),
    (OrderRejected, Label ''Ditolak'' ''Rejected'')]),
   (DomainShipment,
   [(ShipmentAssigned, Label ''Menunggu Driver Menerima Order'' ''Waiting for the driver to accept''),
    (ShipmentToLoading, Label ''Menuju Titik Muat'' ''Towards Loading Point''),
    (ShipmentAtLoading, Label ''Sampai di Titik Muat'' ''Arrived at Loading Point''),
    (ShipmentLoadingApproved, Label ''Muat disetujui PIC'' ''Load PIC approved''),
    (ShipmentLoading, Label ''Mulai Muat'' ''Start Loading''),
    (ShipmentLoaded, Label ''POD Muat Terverifikasi'' ''Load POD Verified''),
    (ShipmentToUnloading, Label ''Menuju Titik Bongkar'' ''Towards Unloading Point''),
    (ShipmentAtUnloading, Label ''Sampai di Titik Bongkar'' ''Arrived at Unloading Point''),
    (ShipmentUnloadingApproved, Label ''Bongkar disetujui PIC'' ''Unload PIC approved''),
    (ShipmentUnloading, Label ''Mulai Bongkar'' ''Start Unloading''),
    (ShipmentUnloaded, Label ''POD Bongkar Terverifikasi'' ''Unload POD Verified''),
    (ShipmentFinished, Label ''Selesai Shipment'' ''Completed Shipment''),
    (ShipmentCancelled, Label ''Dibatalkan'' ''Cancelled'')]),
   (DomainAgreement,
   [(AgreementDraft, Label ''Draft'' ''Draft''),
    (AgreementSubmitted, Label ''Menunggu Persetujuan'' ''Awaiting Approval''),
    (AgreementActive, Label ''Aktif'' ''Active''),
    (AgreementRejected, Label ''Ditolak'' ''Rejected''),
    (AgreementExpired, Label ''Kadaluarsa'' ''Expired''),
    (AgreementCancelled, Label ''Dibatalkan'' ''Cancelled'')]),
   (DomainInvoice,
   [(InvoiceDraft, Label ''Draft'' ''Draft''),
    (InvoiceIssued, Label ''Diterbitkan'' ''Issued''),
    (InvoiceSubmitted, Label ''Diajukan'' ''Submitted''),
    (InvoiceVerified, Label ''Terverifikasi'' ''Verified''),
    (InvoicePaid, Label ''Lunas'' ''Paid''),
    (InvoiceCancelled, Label ''Dibatalkan'' ''Cancelled'')])]"

text \<open>An absent domain is the nil map, in which every code is absent.\<close>

definition label_of :: "string \<Rightarrow> string \<Rightarrow> label option" where
  "label_of domain code = (case map_of statusLabels domain of None \<Rightarrow> None | Some m \<Rightarrow> map_of m code)"

definition StatusLabel :: "string \<Rightarrow> string \<Rightarrow> string" where
  "StatusLabel domain code = (case label_of domain code of Some l \<Rightarrow> label_ID l | None \<Rightarrow> code)"

definition StatusAlias :: "string \<Rightarrow> string \<Rightarrow> string" where
  "StatusAlias domain code = (case label_of domain code of Some l \<Rightarrow> label_EN l | None \<Rightarrow> code)"

text \<open>The code ranges over the map, whose order Go leaves open; this is one such order.\<close>

definition KnownStatuses :: "string \<Rightarrow> string list" where
  "KnownStatuses domain = (case map_of statusLabels domain of None \<Rightarrow> [] | Some m \<Rightarrow> map fst m)"

definition orderStatusPermission :: "(string \<times> string) list" where
  "orderStatusPermission =
  [(OrderDraft, ''order.update''),
   (OrderSubmitted, ''order.create''),
   (OrderApproved, ''order.approve''),
   (OrderRejected, ''order.approve''),
   (OrderReadyToPlan, ''order.readyToPlan''),
   (OrderAssigned, ''order.assignDriver''),
   (OrderCancelRequested, ''order.cancel''),
   (OrderCancelled, ''order.cancel''),
   (OrderInTransit, ''shipment.update''),
   (OrderDelivered, ''shipment.update''),
   (OrderCompleted, ''shipment.update'')]"

definition shipmentStatusPermission :: "(string \<times> string) list" where
  "shipmentStatusPermission =
  [(ShipmentAssigned, ''shipment.update''),
   (ShipmentToLoading, ''shipment.update''),
   (ShipmentAtLoading, ''shipment.update''),
   (ShipmentLoading, ''shipment.update''),
   (ShipmentLoaded, ''shipment.update''),
   (ShipmentToUnloading, ''shipment.update''),
   (ShipmentAtUnloading, ''shipment.update''),
   (ShipmentUnloading, ''shipment.update''),
   (ShipmentUnloaded, ''shipment.update''),
   (ShipmentFinished, ''shipment.update''),
   (ShipmentCancelled, ''order.cancel''),
   (ShipmentLoadingApproved, ''shipment.verifyLoading''),
   (ShipmentUnloadingApproved, ''shipment.verifyUnloading'')]"


definition PermissionForOrderStatus :: "string \<Rightarrow> string \<times> bool" where
  "PermissionForOrderStatus to =
     (case map_of orderStatusPermission to of Some key \<Rightarrow> (key, True) | None \<Rightarrow> ([], False))"

definition PermissionForShipmentStatus :: "string \<Rightarrow> string \<times> bool" where
  "PermissionForShipmentStatus to =
     (case map_of shipmentStatusPermission to of Some key \<Rightarrow> (key, True) | None \<Rightarrow> ([], False))"

section \<open>What a move is\<close>

definition edges :: "machine \<Rightarrow> (string \<times> transition) list" where
  "edges machine = concat (map (\<lambda>(from, ts). map (\<lambda>t. (from, t)) ts) machine)"

text \<open>One permitted step, whoever takes it.\<close>

inductive moves :: "machine \<Rightarrow> string \<Rightarrow> string \<Rightarrow> bool" for machine where
  move: "canTransition machine from to role = None \<Longrightarrow> moves machine from to"

inductive_cases movesE: "moves machine from to"

text \<open>The role test of one entry.\<close>

definition may_take :: "transition \<Rightarrow> string \<Rightarrow> bool" where
  "may_take t role \<longleftrightarrow> tr_AllowedRoles t = [] \<or> role = RoleSuperadmin \<or> role = RoleAdmin \<or>
     role \<in> set (tr_AllowedRoles t)"

lemma try_transitions_None:
  "try_transitions ts from to role = None \<longleftrightarrow>
     (\<exists>t. find (\<lambda>t. tr_To t = to) ts = Some t \<and> may_take t role)"
  by (induction ts) (auto simp: may_take_def)

lemma canTransition_None:
  "canTransition machine from to role = None \<longleftrightarrow>
     (\<exists>t. find (\<lambda>t. tr_To t = to) (entries machine from) = Some t \<and> may_take t role)"
  by (cases "map_of machine from")
     (auto simp: canTransition_def entries_def try_transitions_None)

lemma entries_edges: "t \<in> set (entries machine from) \<Longrightarrow> (from, t) \<in> set (edges machine)"
  by (cases "map_of machine from") (force simp: entries_def edges_def dest: map_of_SomeD)+

lemma canTransition_edge:
  assumes "canTransition machine from to role = None"
  obtains t where "(from, t) \<in> set (edges machine)" "tr_To t = to" "may_take t role"
proof -
  from assms obtain t where "find (\<lambda>t. tr_To t = to) (entries machine from) = Some t" "may_take t role"
    by (auto simp: canTransition_None)
  then show thesis
    using that [of t] entries_edges [of t] find_Some_iff_first [of _ "entries machine from" t] by blast
qed

lemma moves_edge:
  "moves machine from to \<Longrightarrow> \<exists>t. (from, t) \<in> set (edges machine) \<and> tr_To t = to"
  by (auto elim!: movesE canTransition_edge)

lemma edges_keys: "(from, t) \<in> set (edges machine) \<Longrightarrow> from \<in> set (map fst machine)"
  by (force simp: edges_def)

lemma next_states_iff:
  "to \<in> set (next_states machine from role) \<longleftrightarrow> canTransition machine from to role = None"
proof
  assume "canTransition machine from to role = None"
  then obtain t where f: "find (\<lambda>t. tr_To t = to) (entries machine from) = Some t" "may_take t role"
    by (auto simp: canTransition_None)
  then have "t \<in> set (entries machine from)" "tr_To t = to" by (auto dest: find_Some_iff_first)
  with \<open>canTransition machine from to role = None\<close> show "to \<in> set (next_states machine from role)"
    by (auto simp: next_states_def)
qed (auto simp: next_states_def)

section \<open>A machine and its permission map\<close>

text \<open>
  What the handlers rely on: a listed target is itself a state of the machine, and has an entry in
  the permission map (a status without one is refused by the handler, whoever asks).
\<close>

locale status_machine =
  fixes table :: machine and permission :: "string \<Rightarrow> string \<times> bool"
  assumes closed: "(from, t) \<in> set (edges table) \<Longrightarrow> tr_To t \<in> set (map fst table)"
    and guarded: "(from, t) \<in> set (edges table) \<Longrightarrow> snd (permission (tr_To t))"
begin

lemma move_known: "moves table from to \<Longrightarrow> from \<in> set (map fst table) \<and> to \<in> set (map fst table)"
  using moves_edge closed edges_keys by blast

lemma move_guarded: "moves table from to \<Longrightarrow> snd (permission to)"
  using moves_edge guarded by blast

lemma run_known:
  "(moves table)\<^sup>*\<^sup>* from to \<Longrightarrow> from \<in> set (map fst table) \<Longrightarrow> to \<in> set (map fst table)"
  by (induction rule: rtranclp_induct) (auto dest: move_known)

lemma final_stays:
  assumes "map_of table from = Some []" and "(moves table)\<^sup>*\<^sup>* from to"
  shows "to = from"
  using assms(2)
proof (cases rule: converse_rtranclpE)
  case (step mid)
  then have False using assms(1) by (auto elim!: movesE simp: canTransition_def)
  then show ?thesis ..
qed simp

lemma admin_takes_any_listed:
  assumes "(from, t) \<in> set (edges table)" and "distinct (map fst table)"
    and "role = RoleAdmin \<or> role = RoleSuperadmin"
  shows "canTransition table from (tr_To t) role = None"
proof -
  from assms(1) obtain ts where ts: "(from, ts) \<in> set table" "t \<in> set ts"
    by (auto simp: edges_def)
  then have "entries table from = ts" using assms(2) by (simp add: entries_def)
  moreover have "find (\<lambda>t'. tr_To t' = tr_To t) ts \<noteq> None" using ts(2) by (auto simp: find_None_iff)
  ultimately show ?thesis using assms(3) by (auto simp: canTransition_None may_take_def)
qed

end

text \<open>
  A machine whose every listed step goes up a rank never returns to a state it has left, and its
  runs are no longer than the rank is high.
\<close>

locale ranked_machine = status_machine +
  fixes rank :: "string \<Rightarrow> nat"
  assumes climbs: "(from, t) \<in> set (edges table) \<Longrightarrow> rank from < rank (tr_To t)"
begin

lemma move_climbs: "moves table from to \<Longrightarrow> rank from < rank to"
  using moves_edge climbs by blast

lemma run_length: "(moves table ^^ n) from to \<Longrightarrow> rank from + n \<le> rank to"
proof (induction n arbitrary: to)
  case (Suc n)
  then obtain mid where "(moves table ^^ n) from mid" "moves table mid to" by auto
  then show ?case using Suc.IH [of mid] move_climbs [of mid to] by simp
qed simp

lemma no_return: "moves table from mid \<Longrightarrow> (moves table)\<^sup>*\<^sup>* mid to \<Longrightarrow> to \<noteq> from"
proof -
  assume "moves table from mid" and r: "(moves table)\<^sup>*\<^sup>* mid to"
  from r obtain n where "(moves table ^^ n) mid to" by (auto dest: rtranclp_imp_relpowp)
  then show ?thesis using run_length move_climbs [OF \<open>moves table from mid\<close>] by fastforce
qed

end

subsection \<open>The two machines of the service\<close>

lemma order_table_checked:
  "list_all (\<lambda>(from, t). tr_To t \<in> set (map fst orderTransitions) \<and>
     snd (PermissionForOrderStatus (tr_To t))) (edges orderTransitions)"
  by (simp add: orderTransitions_def edges_def PermissionForOrderStatus_def orderStatusPermission_def)

interpretation order_machine: status_machine orderTransitions PermissionForOrderStatus
  using order_table_checked by unfold_locales (auto simp: list_all_iff)

text \<open>A shipment's rank is its place on the chain; cancelled comes after the last place.\<close>

definition shipment_rank :: "string \<Rightarrow> nat" where
  "shipment_rank s = (if s = ShipmentCancelled then 12 else nat (shipmentChainIndex s))"

lemma shipment_table_checked:
  "list_all (\<lambda>(from, t). tr_To t \<in> set (map fst shipmentTransitions) \<and>
     snd (PermissionForShipmentStatus (tr_To t)) \<and> shipment_rank from < shipment_rank (tr_To t) \<and>
     tr_To t \<noteq> ShipmentLoadingApproved \<and> tr_To t \<noteq> ShipmentUnloadingApproved)
     (edges shipmentTransitions)"
  by (simp add: shipmentTransitions_def edges_def PermissionForShipmentStatus_def
      shipmentStatusPermission_def shipment_rank_def shipmentChainIndex_def shipmentChain_def)

interpretation shipment_machine: ranked_machine shipmentTransitions PermissionForShipmentStatus shipment_rank
  using shipment_table_checked by unfold_locales (auto simp: list_all_iff)

section \<open>The chain\<close>

lemma chain_index_ge: "chain_index ss i s = -1 \<or> i \<le> chain_index ss i s"
  by (induction ss i s rule: chain_index.induct) auto

lemma chain_index_mem: "0 \<le> i \<Longrightarrow> 0 \<le> chain_index ss i s \<longleftrightarrow> s \<in> set ss"
  by (induction ss i s rule: chain_index.induct) auto

lemma chain_index_found: "s \<in> set ss \<Longrightarrow> i \<le> chain_index ss i s"
proof (induction ss i s rule: chain_index.induct)
  case (2 x ss i s)
  then show ?case by (cases "x = s") auto
qed simp

lemma shipmentChainIndex_nonneg: "0 \<le> shipmentChainIndex s \<longleftrightarrow> s \<in> set shipmentChain"
  by (simp add: shipmentChainIndex_def chain_index_mem)

lemma chain_index_self: "s \<in> set ss \<Longrightarrow> ss ! nat (chain_index ss i s - i) = s"
proof (induction ss i s rule: chain_index.induct)
  case (2 x ss i s)
  show ?case
  proof (cases "x = s")
    case False
    with "2" have "ss ! nat (chain_index ss (i + 1) s - (i + 1)) = s" by simp
    moreover have "i + 1 \<le> chain_index ss (i + 1) s"
      using chain_index_found [of s ss "i + 1"] "2.prems" False by simp
    moreover have "nat (chain_index ss (i + 1) s - (i + 1)) = nat (chain_index ss (i + 1) s - i) - 1"
      by arith
    ultimately show ?thesis using False by (simp add: nth_Cons')
  qed simp
qed simp

lemma chain_indices:
  "shipmentChainIndex ShipmentAssigned = 0" "shipmentChainIndex ShipmentToLoading = 1"
  "shipmentChainIndex ShipmentAtLoading = 2" "shipmentChainIndex ShipmentLoadingApproved = 3"
  "shipmentChainIndex ShipmentLoading = 4" "shipmentChainIndex ShipmentLoaded = 5"
  "shipmentChainIndex ShipmentToUnloading = 6" "shipmentChainIndex ShipmentAtUnloading = 7"
  "shipmentChainIndex ShipmentUnloadingApproved = 8" "shipmentChainIndex ShipmentUnloading = 9"
  "shipmentChainIndex ShipmentUnloaded = 10" "shipmentChainIndex ShipmentFinished = 11"
  "shipmentChainIndex ShipmentCancelled = -1"
  by (simp_all add: shipmentChainIndex_def shipmentChain_def)

lemma chain_nth:
  assumes "0 \<le> k" and "k \<le> 11"
  shows "shipmentChainIndex (shipmentChain ! nat k) = k"
proof -
  have "list_all (\<lambda>k. shipmentChainIndex (shipmentChain ! nat k) = k) [0..11]"
    by (simp add: upto_rec1 shipmentChain_def chain_indices)
  with assms show ?thesis by (simp add: list_all_iff)
qed

lemma chain_index_le: "shipmentChainIndex s \<le> 11"
  by (simp add: shipmentChainIndex_def shipmentChain_def)

abbreviation on_the_flow :: "string \<Rightarrow> bool" where
  "on_the_flow s \<equiv> \<not> (s = ShipmentLoadingApproved \<or> s = ShipmentUnloadingApproved)"

text \<open>From each of the twelve places, the next one that is still in use is one permitted step away.\<close>

lemma successor_checked:
  "list_all (\<lambda>i. case find on_the_flow (map (\<lambda>i. shipmentChain ! nat i) [i + 1 .. 11]) of
       None \<Rightarrow> True
     | Some s \<Rightarrow> CanTransitionShipment (shipmentChain ! nat i) s RoleDriver = None \<or>
         CanTransitionShipment (shipmentChain ! nat i) s RoleSystem = None) [0..11]"
  by (simp add: upto_rec1 shipmentChain_def CanTransitionShipment_def canTransition_def
      shipmentTransitions_def)

lemma towards_step:
  assumes "NextShipmentStatusTowards from to = next" and "next \<noteq> []"
  shows "shipmentChainIndex from < shipmentChainIndex next"
    and "shipmentChainIndex next \<le> shipmentChainIndex to"
    and "on_the_flow next"
    and "CanTransitionShipment from next RoleDriver = None \<or>
      CanTransitionShipment from next RoleSystem = None"
proof -
  let ?i = "shipmentChainIndex from" and ?j = "shipmentChainIndex to"
  let ?at = "\<lambda>i. shipmentChain ! nat i"
  from assms have ij: "0 \<le> ?i" "?i < ?j"
    and f: "find on_the_flow (map ?at [?i + 1 .. ?j]) = Some next"
    by (auto simp: NextShipmentStatusTowards_def Let_def split: if_splits option.splits)
  have "next \<in> set (map ?at [?i + 1 .. ?j])" and flow: "on_the_flow next"
    using find_Some_iff_first [OF f] by simp_all
  then obtain k where k: "?i + 1 \<le> k" "k \<le> ?j" "next = ?at k" by auto
  have "k \<le> 11" using k(2) chain_index_le [of to] by simp
  then have "shipmentChainIndex next = k" using k(1,3) ij(1) chain_nth by simp
  then show "?i < shipmentChainIndex next" "shipmentChainIndex next \<le> ?j" using k by simp_all
  show "on_the_flow next" by (rule flow)
  have "?at ?i = from" using ij(1)
    using chain_index_self [of "from" shipmentChain 0]
    by (simp add: shipmentChainIndex_nonneg) (simp add: shipmentChainIndex_def)
  moreover have "[?i + 1 .. 11] = [?i + 1 .. ?j] @ [?j + 1 .. 11]"
    using ij chain_index_le [of to] by (intro upto_split2) auto
  then have "find on_the_flow (map ?at [?i + 1 .. 11]) = Some next"
    using f by (simp add: find_append)
  moreover have i: "?i \<in> set [0..11]" using ij chain_index_le [of "from"] by simp
  ultimately show "CanTransitionShipment from next RoleDriver = None \<or>
      CanTransitionShipment from next RoleSystem = None"
    using bspec [OF successor_checked [unfolded list_all_iff] i] by simp
qed

section \<open>Moves of the shipment machine\<close>

lemma shipment_move_target:
  "moves shipmentTransitions from to \<Longrightarrow>
     to \<noteq> ShipmentLoadingApproved \<and> to \<noteq> ShipmentUnloadingApproved"
  using shipment_table_checked by (fastforce dest: moves_edge simp: list_all_iff)

end
