(* ===== verification/Entities.thy ===== *)
theory Entities
  imports Status
begin

text \<open>
  The rows of internal/models (orders, shipments, stops, proofs of delivery, handovers, status
  history), the caller, the notifications, the environment of one request, and the database as one
  record of tables. A pointer field is an option; a column that no modelled operation reads or
  writes (legacy ids, display names, creation times of most tables) is left out, and the display
  strings \<open>Status\<close> and \<open>StatusAlias\<close>, which are computed from the status code after every
  read, are the functions \<open>StatusLabel\<close> and \<open>StatusAlias\<close> of theory Status.
\<close>

type_synonym uuid = nat

abbreviation (input) uuid_Nil :: uuid where "uuid_Nil \<equiv> 0"

text \<open>An instant, in nanoseconds.\<close>

type_synonym time = int

abbreviation hour :: time where "hour \<equiv> 3600000000000"
abbreviation day :: time where "day \<equiv> 86400000000000"

text \<open>\<open>decimal.Decimal\<close> is an exact decimal number; a float64 coordinate is a rational too.\<close>

type_synonym money = rat

type_synonym int16 = "16 word"

record position =
  pos_Latitude :: rat
  pos_Longitude :: rat

section \<open>Rows\<close>

record order =
  o_ID :: uuid
  o_OrderNumber :: string
  o_AgreementID :: "uuid option"
  o_AgreementRootID :: "uuid option"
  o_ShipperCompanyID :: uuid
  o_TransporterCompanyID :: "uuid option"
  o_CreatedByUserID :: uuid
  o_OrderKind :: string
  o_StatusCode :: string
  o_DriverID :: "string option"
  o_DriverUserID :: "uuid option"
  o_TruckID :: "string option"
  o_OriginWarehouseID :: "string option"
  o_DestinationWarehouseID :: "string option"
  o_CargoTypeID :: "string option"
  o_ItemTypeID :: "string option"
  o_Quantity :: "money option"
  o_WeightKg :: "money option"
  o_VolumeM3 :: "money option"
  o_PickupAt :: "time option"
  o_DeliveryAt :: "time option"
  o_ExpiresAt :: "time option"
  o_Price :: "money option"
  o_CurrencyID :: "string option"
  o_CustomerID :: "string option"
  o_ReferenceNumber :: "string option"
  o_GeofencingEnabled :: "bool option"
  o_Detail :: detail
  o_CancelledAt :: "time option"
  o_CancelledByUserID :: "uuid option"
  o_CancelReason :: "string option"

definition InvolvesCompany :: "order \<Rightarrow> uuid \<Rightarrow> bool" where
  "InvolvesCompany o1 companyID =
     (if o_ShipperCompanyID o1 = companyID then True
      else o_TransporterCompanyID o1 = Some companyID)"

record status_entry =
  he_OrderID :: uuid
  he_FromStatusCode :: "string option"
  he_ToStatusCode :: string
  he_ChangedByUserID :: "uuid option"
  he_Source :: string
  he_Note :: "string option"

abbreviation SourceUser :: string where "SourceUser \<equiv> ''user''"
abbreviation SourceSystem :: string where "SourceSystem \<equiv> ''system''"

record shipment =
  sh_ID :: uuid
  sh_OrderID :: uuid
  sh_DriverID :: "string option"
  sh_DriverUserID :: "uuid option"
  sh_TruckID :: "string option"
  sh_TelemetryIMEI :: "string option"
  sh_StatusCode :: string
  sh_StartedToLoadingAt :: "time option"
  sh_ArrivedLoadingAt :: "time option"
  sh_LoadingStartedAt :: "time option"
  sh_LoadingFinishedAt :: "time option"
  sh_StartedToUnloadingAt :: "time option"
  sh_ArrivedUnloadingAt :: "time option"
  sh_UnloadingStartedAt :: "time option"
  sh_UnloadingFinishedAt :: "time option"
  sh_FinishedAt :: "time option"
  sh_LoadingLatitude :: "rat option"
  sh_LoadingLongitude :: "rat option"
  sh_UnloadingLatitude :: "rat option"
  sh_UnloadingLongitude :: "rat option"
  sh_LoadingWithinGeofence :: "bool option"
  sh_UnloadingWithinGeofence :: "bool option"
  sh_AcceptedAt :: "time option"
  sh_AcceptedLatitude :: "rat option"
  sh_AcceptedLongitude :: "rat option"
  sh_LoadingCargoMatches :: "bool option"
  sh_LoadingCargoNote :: "string option"
  sh_LoadingCargoCheckedAt :: "time option"
  sh_LoadingCargoCheckedBy :: "uuid option"
  sh_UnloadingCargoMatches :: "bool option"
  sh_UnloadingCargoNote :: "string option"
  sh_UnloadingCargoCheckedAt :: "time option"
  sh_UnloadingCargoCheckedBy :: "uuid option"
  sh_UnloadingCargoCheckedVia :: "string option"
  sh_UnloadingAuditWeightKg :: "money option"
  sh_UnloadingAuditVolumeM3 :: "money option"
  sh_UnloadingAuditQuantity :: "money option"
  sh_ManifestFinalizedAt :: "time option"
  sh_ManifestFinalizedBy :: "string option"
  sh_ManifestFinalizedNote :: "string option"
  sh_CreatedAt :: time

text \<open>A shipment as the code builds it: every column it does not name is null.\<close>

definition new_shipment :: "uuid \<Rightarrow> string option \<Rightarrow> uuid option \<Rightarrow> string option \<Rightarrow> string \<Rightarrow> shipment" where
  "new_shipment order driver user truck status =
     \<lparr>sh_ID = uuid_Nil, sh_OrderID = order, sh_DriverID = driver, sh_DriverUserID = user,
      sh_TruckID = truck, sh_TelemetryIMEI = None, sh_StatusCode = status,
      sh_StartedToLoadingAt = None, sh_ArrivedLoadingAt = None, sh_LoadingStartedAt = None,
      sh_LoadingFinishedAt = None, sh_StartedToUnloadingAt = None, sh_ArrivedUnloadingAt = None,
      sh_UnloadingStartedAt = None, sh_UnloadingFinishedAt = None, sh_FinishedAt = None,
      sh_LoadingLatitude = None, sh_LoadingLongitude = None, sh_UnloadingLatitude = None,
      sh_UnloadingLongitude = None, sh_LoadingWithinGeofence = None,
      sh_UnloadingWithinGeofence = None, sh_AcceptedAt = None, sh_AcceptedLatitude = None,
      sh_AcceptedLongitude = None, sh_LoadingCargoMatches = None, sh_LoadingCargoNote = None,
      sh_LoadingCargoCheckedAt = None, sh_LoadingCargoCheckedBy = None,
      sh_UnloadingCargoMatches = None, sh_UnloadingCargoNote = None,
      sh_UnloadingCargoCheckedAt = None, sh_UnloadingCargoCheckedBy = None,
      sh_UnloadingCargoCheckedVia = None, sh_UnloadingAuditWeightKg = None,
      sh_UnloadingAuditVolumeM3 = None, sh_UnloadingAuditQuantity = None,
      sh_ManifestFinalizedAt = None, sh_ManifestFinalizedBy = None,
      sh_ManifestFinalizedNote = None, sh_CreatedAt = 0\<rparr>"

abbreviation StopLoad :: string where "StopLoad \<equiv> ''load''"
abbreviation StopUnload :: string where "StopUnload \<equiv> ''unload''"

record order_stop =
  st_ID :: uuid
  st_OrderID :: uuid
  st_Seq :: int16
  st_Kind :: string
  st_ShipmentNo :: int16
  st_WarehouseID :: string
  st_PICName :: "string option"
  st_PICPhone :: "string option"
  st_ArrivedAt :: "time option"
  st_ArrivedLatitude :: "money option"
  st_ArrivedLongitude :: "money option"
  st_WithinGeofence :: "bool option"
  st_StartedAt :: "time option"
  st_FinishedAt :: "time option"
  st_CargoMatches :: "bool option"
  st_CargoNote :: "string option"
  st_CargoCheckedAt :: "time option"
  st_PodID :: "uuid option"

abbreviation PodSubmitted :: string where "PodSubmitted \<equiv> ''submitted''"
abbreviation PodApproved :: string where "PodApproved \<equiv> ''approved''"
abbreviation PodRejected :: string where "PodRejected \<equiv> ''rejected''"

record shipment_pod =
  pd_ID :: uuid
  pd_ShipmentID :: uuid
  pd_Stage :: string
  pd_Photos :: "(string \<times> string) list"
  pd_Note :: "string option"
  pd_Status :: string
  pd_RejectionReason :: "string option"
  pd_StopID :: "uuid option"
  pd_SubmittedByUserID :: "uuid option"
  pd_SubmittedAt :: time
  pd_ReviewedByUserID :: "uuid option"
  pd_ReviewedAt :: "time option"

record handover =
  hv_ID :: uuid
  hv_ShipmentID :: uuid
  hv_Stage :: string
  hv_StopID :: "uuid option"
  hv_PICName :: "string option"
  hv_PICWhatsApp :: string
  hv_FieldToken :: "string option"
  hv_CodeHash :: string
  hv_Attempts :: int16
  hv_MaxAttempts :: int16
  hv_SentAt :: time
  hv_ExpiresAt :: time
  hv_VerifiedAt :: "time option"
  hv_CodeRecipient :: string
  hv_FieldVerifiedAt :: "time option"
  hv_FieldAttempts :: int16
  hv_FieldPICUserID :: "uuid option"
  hv_VerifiedLat :: "money option"
  hv_VerifiedLon :: "money option"
  hv_VerifiedWithinGeofence :: "bool option"

text \<open>
  An agreement with its price lines and the clients it covers (\<open>Preload("Rates")\<close>). The generated
  column \<open>LaneLevel\<close> of a line is a function of its other columns.
\<close>

record agreement_rate =
  ar_ID :: uuid
  ar_OriginWarehouseID :: "string option"
  ar_DestinationWarehouseID :: "string option"
  ar_OriginCityID :: "string option"
  ar_DestinationCityID :: "string option"
  ar_OriginDistrictID :: "string option"
  ar_DestinationDistrictID :: "string option"
  ar_CustomerCompanyID :: "uuid option"
  ar_TruckTypeID :: "string option"
  ar_PricingTypeID :: "string option"
  ar_Price :: money
  ar_MinQuantity :: "money option"
  ar_CurrencyID :: "string option"
  ar_LeadTimeHours :: "int option"
  ar_DistanceMeters :: "int option"
  ar_RouteCacheKey :: "string option"
  ar_RoutedAt :: "time option"
  ar_RouteStatus :: "string option"

record agreement_customer =
  gc_CustomerCompanyID :: uuid
  gc_Label :: "string option"

record agreement =
  ag_ID :: uuid
  ag_AgreementNumber :: string
  ag_ShipperCompanyID :: uuid
  ag_TransporterCompanyID :: uuid
  ag_Version :: int
  ag_RootAgreementID :: uuid
  ag_SupersedesAgreementID :: "uuid option"
  ag_RevisionKind :: "string option"
  ag_RevisionNote :: "string option"
  ag_RequestedByUserID :: "uuid option"
  ag_RequestedAt :: "time option"
  ag_ApprovedByUserID :: "uuid option"
  ag_ApprovedAt :: "time option"
  ag_RejectedByUserID :: "uuid option"
  ag_RejectedAt :: "time option"
  ag_DecisionNote :: "string option"
  ag_SupersededAt :: "time option"
  ag_CreatedByUserID :: uuid
  ag_StatusCode :: string
  ag_ValidFrom :: time
  ag_ValidUntil :: time
  ag_Verified :: bool
  ag_VerifiedByUserID :: "uuid option"
  ag_VerifiedAt :: "time option"
  ag_PaymentTypeID :: "string option"
  ag_CurrencyID :: "string option"
  ag_Detail :: detail
  ag_Rates :: "agreement_rate list"
  ag_Customers :: "agreement_customer list"

text \<open>An invoice with its lines.\<close>

record invoice_line =
  il_OrderID :: uuid
  il_Description :: "string option"
  il_Quantity :: money
  il_UnitPrice :: money
  il_Amount :: money

record invoice =
  iv_ID :: uuid
  iv_InvoiceNumber :: string
  iv_ShipperCompanyID :: uuid
  iv_TransporterCompanyID :: uuid
  iv_StatusCode :: string
  iv_Subtotal :: money
  iv_PPNPercentage :: money
  iv_PPNAmount :: money
  iv_PPH23Percentage :: money
  iv_PPH23Amount :: money
  iv_Adjustment :: money
  iv_Total :: money
  iv_CurrencyID :: "string option"
  iv_IssuedAt :: "time option"
  iv_DueAt :: "time option"
  iv_SubmittedAt :: "time option"
  iv_VerifiedAt :: "time option"
  iv_PaidAt :: "time option"
  iv_CancelledAt :: "time option"
  iv_Notes :: "string option"
  iv_Detail :: detail
  iv_Lines :: "invoice_line list"

record order_item =
  oi_OrderID :: uuid
  oi_CatalogItemID :: "string option"
  oi_ShipmentNo :: int16
  oi_Name :: string
  oi_Quantity :: "money option"
  oi_Unit :: "string option"
  oi_Packaging :: "string option"
  oi_WeightKg :: "money option"
  oi_LengthCm :: "money option"
  oi_WidthCm :: "money option"
  oi_HeightCm :: "money option"
  oi_VolumeM3 :: "money option"
  oi_HandlingNotes :: "string option"
  oi_SortOrder :: nat

text \<open>One decision of a company about one field of its forms.\<close>

record field_override =
  fo_CompanyID :: uuid
  fo_Entity :: string
  fo_Key :: string
  fo_Requirement :: string
  fo_LabelOverride :: "string option"
  fo_UpdatedByUserID :: "uuid option"

text \<open>
  A planned road and what of it is tolled (internal/routing/mapid.go): the geometry as pairs of
  longitude and latitude, toll status over ranges of its indices, and the fare per vehicle class
  (\<open>Toll.Prices\<close>; the gates and the bounding box are left out). A cached road is stored with its
  distance and duration in whole metres and seconds.
\<close>

record toll_segment =
  ts_From :: int
  ts_To :: int
  ts_Status :: string

record route =
  ro_DistanceMeters :: rat
  ro_Duration :: rat
  ro_Geometry :: "rat list list"
  ro_TollSegments :: "toll_segment list"
  ro_Toll :: "(string \<times> int) list option"

record route_cache_entry =
  rc_CacheKey :: string
  rc_Profile :: string
  rc_AvoidTolls :: bool
  rc_Points :: "position list"
  rc_DistanceMeters :: int
  rc_DurationSeconds :: int
  rc_Geometry :: "rat list list"
  rc_TollSegments :: "toll_segment list"
  rc_Toll :: "(string \<times> int) list option"
  rc_HasToll :: bool
  rc_TollDistanceMeters :: int
  rc_ExpiresAt :: time

record order_route =
  rt_OrderID :: uuid
  rt_Leg :: string
  rt_CacheKey :: string
  rt_From :: position
  rt_To :: position
  rt_ReroutedAt :: "time option"
  rt_ReroutedByUserID :: "uuid option"

text \<open>The driver's advance of an order (its components stored as JSON lines) and its superseded versions.\<close>

record allowance_component =
  al_Code :: string
  al_Label :: string
  al_Amount :: money
  al_Note :: string

record order_allowance =
  oa_OrderID :: uuid
  oa_HaulDistanceMeters :: "int option"
  oa_ApproachDistanceMeters :: "int option"
  oa_TollEstimate :: "money option"
  oa_Components :: "allowance_component list"
  oa_Total :: money
  oa_CurrencyID :: "string option"
  oa_Note :: "string option"
  oa_EnteredByUserID :: "uuid option"
  oa_EnteredAt :: "time option"
  oa_FinalisedAt :: "time option"
  oa_FinalisedByUserID :: "uuid option"

record allowance_revision =
  ah_OrderID :: uuid
  ah_Components :: "allowance_component list"
  ah_Total :: money
  ah_Reason :: "string option"
  ah_ChangedByUserID :: "uuid option"
  ah_ChangedAt :: time

record tracking_link =
  tk_Token :: string
  tk_OrderID :: uuid
  tk_CompanyID :: uuid
  tk_CreatedBy :: "uuid option"
  tk_CreatedAt :: time
  tk_RevokedAt :: "time option"

section \<open>The caller\<close>

record actor =
  a_UserID :: uuid
  a_CompanyID :: uuid
  a_Role :: string
  a_PlatformStaff :: bool
  a_ActingFor :: bool
  a_StatusBypass :: bool

text \<open>
  \<open>machineRole\<close> of internal/services/order_service.go: the role the machines are asked about. A
  token's own persona stands; anyone else is whichever side of the order their company is on. The
  order may be nil.
\<close>

definition machineRole :: "actor \<Rightarrow> order option \<Rightarrow> string" where
  "machineRole actor ord =
     (if a_StatusBypass actor then RoleAdmin
      else if a_Role actor \<in> {RoleAdmin, RoleSuperadmin, RoleDriver, RoleWarehousePic, RoleManager}
      then a_Role actor
      else case ord of
          None \<Rightarrow> a_Role actor
        | Some ord' \<Rightarrow>
            if o_TransporterCompanyID ord' = Some (a_CompanyID actor) then RoleTransporter
            else if o_ShipperCompanyID ord' = a_CompanyID actor then RoleShipper
            else a_Role actor)"

abbreviation is_admin :: "actor \<Rightarrow> bool" where
  "is_admin actor \<equiv> a_Role actor = RoleAdmin \<or> a_Role actor = RoleSuperadmin"

section \<open>Notifications\<close>

text \<open>
  What \<open>clients.Notifier.Notify\<close> is handed: the event type (the name of the generated constant
  without its \<open>EVENT_TYPE_\<close> prefix), the subject, the audience, who acted, and the parts of the
  idempotency key. \<open>ToUserNames\<close> is \<open>ToUsers\<close> of ids that came as text from another service. The
  display parameters are left out. Delivery is another service's.
\<close>

datatype audience = ToCompanyRoles uuid "string list" | ToUsers "uuid list"
  | ToUserNames "string list" | ToPhone string

datatype key_part = KeyText string | KeyID uuid | KeyTime time

record event =
  ev_Type :: string
  ev_SubjectID :: uuid
  ev_SubjectType :: string
  ev_Audience :: audience
  ev_ActorID :: "uuid option"
  ev_Key :: "key_part list"

section \<open>The database\<close>

record db =
  db_orders :: "order list"
  db_history :: "status_entry list"
  db_shipments :: "shipment list"
  db_stops :: "order_stop list"
  db_pods :: "shipment_pod list"
  db_handovers :: "handover list"
  db_agreements :: "agreement list"
  db_items :: "order_item list"
  db_overrides :: "field_override list"
  db_sequences :: "string \<times> string \<Rightarrow> int"
  db_next_uuid :: nat
  db_outbox :: "event list"
  db_invoices :: "invoice list"
  db_routes :: "order_route list"
  db_route_cache :: "route_cache_entry list"
  db_allowances :: "order_allowance list"
  db_allowance_history :: "allowance_revision list"
  db_tracking_links :: "tracking_link list"
  db_next_ref :: nat

text \<open>
  Every table empty, every number sequence at its start; \<open>db_next_uuid\<close> stands for
  \<open>gen_random_uuid()\<close>, which repeats no id, and \<open>db_next_ref\<close> for \<open>uuid.New()\<close> and the ids of the
  commercial tables (agreements, their lines and invoices), which are never compared with the others.
\<close>

definition empty_db :: db where
  "empty_db = \<lparr>db_orders = [], db_history = [], db_shipments = [], db_stops = [], db_pods = [],
     db_handovers = [], db_agreements = [], db_items = [], db_overrides = [],
     db_sequences = (\<lambda>_. 0), db_next_uuid = 1, db_outbox = [],
     db_invoices = [], db_routes = [], db_route_cache = [], db_allowances = [], db_allowance_history = [],
     db_tracking_links = [], db_next_ref = 1\<rparr>"

section \<open>The environment of a request\<close>

text \<open>
  What a request finds and does not change: the time (one instant for the whole request), which
  repository calls fail because the database does (an outage lasts as long as the request), the
  answers of the other services (master data: warehouses, drivers, trucks; \<open>None\<close> is an error
  answer), and which optional collaborators the server wired in. \<open>distance\<close> stands for the
  float64 computation of \<open>haversineMeters\<close>; its arguments are the two positions.

  \<open>pick_rate key rows\<close> is the database's \<open>ORDER BY key DESC LIMIT 1\<close>, \<open>set_column col v\<close> the
  database's assignment of a request's value to a column of orders (\<open>None\<close> where it refuses the
  value), \<open>year_text\<close> and \<open>second_text\<close> the time formatted as 2006 and as 060102150405,
  \<open>rand_code\<close> and \<open>rand_token\<close> what the cryptographic source answers (a number below a million and
  32 bytes in base64; \<open>None\<close> where it fails), \<open>uuid_string\<close> the text of an id, \<open>sha256\<close> the
  digest and \<open>parse_decimal\<close> what \<open>decimal.NewFromString\<close> reads. \<open>CompanySettings\<close> answers the two tax rates of a company, \<open>company_code\<close> its
  abbreviation and \<open>company_name\<close> its name (empty where not known), \<open>MapidRoute\<close> and \<open>TollFor\<close> the routing service,
  \<open>Live\<close> the tracking service.
\<close>

datatype commerce_call =
    AgreementsFindByIDForService | AgreementsCreate | AgreementsUpdateFields | AgreementsFindExpired
  | AgreementsLineage | AgreementsActiveVersion | AgreementsPendingApprovals | AgreementsCreateRevision
  | AgreementsApprove | AgreementsReject | AgreementsPriceHistory | AgreementsRatesNeedingRoute
  | AgreementsUpdateRate
  | InvoicesFindByID | InvoicesFindByIDForService | InvoicesCreate | InvoicesApplyStatus
  | InvoicesOrdersAlreadyBilled

datatype dispatch_call =
    RoutesListByOrder | RoutesFindLeg | RoutesUpsert | RoutesLastKnownPositions | RoutesDriverActivity | CacheLookup | CacheSave | CacheEvict
  | AllowancesFindByOrder | AllowancesSave | AllowancesFinalise | AllowancesHistory | AllowancesList
  | LinksFindActiveByOrder | LinksFindByToken | LinksCreate | LinksRevoke | ShipmentsListActive

datatype repo_call =
    OrdersFindByID | OrdersFindByIDForService | OrdersFindByNumber | OrdersFindByIDs | OrdersCreate
  | OrdersApplyStatus | OrdersUpdateFields | OrdersNextNumber
  | ShipmentsFindByID | ShipmentsFindByOrder | ShipmentsCreate | ShipmentsApplyStatus
  | ShipmentsUpdateFields
  | StopsReplace | StopsListByOrder | StopsUpdateFields | StopsFindByID
  | PodsSubmit | PodsFindByID | PodsListByShipment | PodsHasApproved | PodsReview
  | HandoversIssue | HandoversFindLive | HandoversIsVerified | HandoversFindByFieldToken
  | HandoversLatestForStage | HandoversRecordFieldAttempt | HandoversMarkFieldVerified
  | HandoversSetPICName | HandoversRecordAttempt | HandoversMarkVerified
  | OrdersHistory | AgreementsFindByID | AgreementsFindRate | ItemsReplaceForOrder
  | FieldsOverrides | FieldsSetOverride | PodsLatest
  | Commerce commerce_call | Dispatch dispatch_call

record warehouse =
  w_Name :: string
  w_Address :: string
  w_CityID :: string
  w_Latitude :: rat
  w_Longitude :: rat
  w_GeofenceRadiusMeters :: int
  w_PicName :: string
  w_PicPhone :: string
  w_PicUserIds :: "string list"

record driver =
  d_ID :: string
  d_FullName :: string
  d_Status :: string
  d_Phone :: string
  d_UserID :: string

record truck =
  t_TruckTypeID :: string
  t_Imei :: string
  t_PoliceNumber :: string
  t_ID :: string
  t_CompanyID :: string
  t_DriverIds :: "string list"
  t_Status :: string
  t_IsAvailable :: bool

text \<open>A device's last fix, as the tracking service reports it.\<close>

record live_fix =
  lf_Position :: position
  lf_Time :: time
  lf_Kecamatan :: string
  lf_City :: string

text \<open>What the routing service answers: it is not configured, it fails, or a road.\<close>

datatype routed = NotConfigured | Unroutable | Routed route

record env =
  now :: time
  down :: "repo_call \<Rightarrow> bool"
  GetWarehouse :: "string \<Rightarrow> warehouse option"
  GetDriver :: "string \<Rightarrow> driver option"
  GetTruck :: "string \<Rightarrow> truck option"
  DriverIsPairedWithTruck :: "string \<Rightarrow> string \<Rightarrow> bool option"
  distance :: "position \<Rightarrow> position \<Rightarrow> rat"
  parse_uuid :: "string \<Rightarrow> uuid option"
  stops_wired :: bool
  handovers_wired :: bool
  masterdata_wired :: bool
  WebFieldEnabled :: bool
  fields_wired :: bool
  items_wired :: bool
  pods_wired :: bool
  ActiveAgreementVerifiedOnly :: "uuid \<Rightarrow> bool option"
  ValidateReferences :: "uuid \<Rightarrow> (string \<times> string) list \<Rightarrow> bool"
  pick_rate :: "(agreement_rate \<Rightarrow> nat) \<Rightarrow> agreement_rate list \<Rightarrow> agreement_rate option"
  set_column :: "string \<Rightarrow> json \<Rightarrow> (order \<Rightarrow> order) option"
  uuid_string :: "uuid \<Rightarrow> string"
  year_text :: string
  second_text :: string
  rand_code :: "nat option"
  rand_token :: "string option"
  sha256 :: "string \<Rightarrow> string"
  consoleBaseURL :: string
  CompanySettings :: "uuid \<Rightarrow> (rat \<times> rat) option"
  company_code :: "uuid \<Rightarrow> string"
  company_name :: "uuid \<Rightarrow> string"
  dispatch_wired :: bool
  MapidRoute :: "position list \<Rightarrow> string \<Rightarrow> bool \<Rightarrow> routed"
  TollFor :: "rat list list \<Rightarrow> (string \<times> int) list option option"
  telemetry_configured :: bool
  Live :: "string list \<Rightarrow> (string \<times> live_fix) list option"
  ListTrucks :: "uuid \<Rightarrow> truck list option"
  ListAvailableTrucks :: "uuid \<Rightarrow> truck list option"
  GetTruckType :: "string \<Rightarrow> string \<Rightarrow> (string \<times> json option) option"
  agreements_wired :: bool
  parse_decimal :: "string \<Rightarrow> rat option"

abbreviation warehouse_pos :: "warehouse \<Rightarrow> position" where
  "warehouse_pos w \<equiv> \<lparr>pos_Latitude = w_Latitude w, pos_Longitude = w_Longitude w\<rparr>"

text \<open>An environment for evaluation: every service answers nothing, nothing is down.\<close>

fun best_rate :: "(agreement_rate \<Rightarrow> nat) \<Rightarrow> agreement_rate list \<Rightarrow> agreement_rate option" where
  "best_rate key [] = None"
| "best_rate key (r # rs) =
     (case best_rate key rs of
        None \<Rightarrow> Some r
      | Some s \<Rightarrow> if key r < key s then Some s else Some r)"

definition calm :: env where
  "calm = \<lparr>now = 1000, down = (\<lambda>_. False), GetWarehouse = (\<lambda>_. None), GetDriver = (\<lambda>_. None),
     GetTruck = (\<lambda>_. None), DriverIsPairedWithTruck = (\<lambda>_ _. Some True), distance = (\<lambda>_ _. 0),
     parse_uuid = (\<lambda>_. None), stops_wired = True, handovers_wired = True,
     masterdata_wired = True, WebFieldEnabled = False, fields_wired = False, items_wired = True, pods_wired = True,
     ActiveAgreementVerifiedOnly = (\<lambda>_. Some False), ValidateReferences = (\<lambda>_ _. True),
     pick_rate = best_rate, set_column = (\<lambda>_ _. None), uuid_string = (\<lambda>_. []),
     year_text = ''2025'', second_text = ''250102030405'', rand_code = Some 42, rand_token = Some ''tok'',
     sha256 = (\<lambda>s. s), consoleBaseURL = [], CompanySettings = (\<lambda>_. Some (0, 0)), company_code = (\<lambda>_. []),
     company_name = (\<lambda>_. []),
     dispatch_wired = True, MapidRoute = (\<lambda>_ _ _. NotConfigured), TollFor = (\<lambda>_. None),
     telemetry_configured = False, Live = (\<lambda>_. None), ListTrucks = (\<lambda>_. Some []),
     ListAvailableTrucks = (\<lambda>_. Some []), GetTruckType = (\<lambda>_ _. None), agreements_wired = True,
     parse_decimal = (\<lambda>_. None)\<rparr>"

end
