(* ===== verification/Repository.thy ===== *)
theory Repository
  imports Entities
begin

text \<open>
  internal/repository: the queries and updates of orders, shipments, order stops and proofs of
  delivery that the services call. A table is a list of rows; \<open>UPDATE .. WHERE\<close> maps over the rows
  that match, \<open>RowsAffected\<close> counts them, and a call that the environment says is down answers
  \<open>ErrStore\<close> and changes nothing (each call is one statement or one transaction).
\<close>

section \<open>Statements over a table\<close>

definition update_where :: "('r \<Rightarrow> bool) \<Rightarrow> ('r \<Rightarrow> 'r) \<Rightarrow> 'r list \<Rightarrow> 'r list" where
  "update_where P f rows = map (\<lambda>r. if P r then f r else r) rows"

definition rows_affected :: "('r \<Rightarrow> bool) \<Rightarrow> 'r list \<Rightarrow> nat" where
  "rows_affected P rows = length (filter P rows)"

definition call :: "env \<Rightarrow> repo_call \<Rightarrow> (db, 'a) op \<Rightarrow> (db, 'a) op" where
  "call E c m = (if down E c then fail (Err ErrStore ''repository: query'') else m)"

definition query :: "(db \<Rightarrow> 'a result) \<Rightarrow> (db, 'a) op" where
  "query f d = (f d, d)"

definition exec :: "(db \<Rightarrow> db) \<Rightarrow> (db, unit) op" where
  "exec f d = (Inr (), f d)"

definition one :: "'a option \<Rightarrow> 'a result" where
  "one v = (case v of None \<Rightarrow> Inl (Err ErrNotFound ''repository: not found'') | Some x \<Rightarrow> Inr x)"

definition fresh_uuid :: "(db, uuid) op" where
  "fresh_uuid d = (Inr (db_next_uuid d), d\<lparr>db_next_uuid := db_next_uuid d + 1\<rparr>)"

text \<open>\<open>Notify\<close> hands an event over and reports nothing back.\<close>

definition notify :: "event \<Rightarrow> (db, unit) op" where
  "notify ev = exec (\<lambda>d. d\<lparr>db_outbox := db_outbox d @ [ev]\<rparr>)"

section \<open>Orders\<close>

definition Orders_FindByID :: "env \<Rightarrow> uuid \<Rightarrow> uuid \<Rightarrow> (db, order) op" where
  "Orders_FindByID E companyID i = call E OrdersFindByID (query (\<lambda>d.
     one (find (\<lambda>r. o_ID r = i \<and>
            (o_ShipperCompanyID r = companyID \<or> o_TransporterCompanyID r = Some companyID))
          (db_orders d))))"

definition Orders_FindByIDForService :: "env \<Rightarrow> uuid \<Rightarrow> (db, order) op" where
  "Orders_FindByIDForService E i = call E OrdersFindByIDForService (query (\<lambda>d.
     one (find (\<lambda>r. o_ID r = i) (db_orders d))))"

definition Orders_FindByNumber :: "env \<Rightarrow> string \<Rightarrow> (db, order) op" where
  "Orders_FindByNumber E number = call E OrdersFindByNumber (query (\<lambda>d.
     one (find (\<lambda>r. o_OrderNumber r = number) (db_orders d))))"

text \<open>The row and its opening history entry, in one transaction; a second row of the same number
  is the unique violation.\<close>

definition Orders_Create :: "env \<Rightarrow> order \<Rightarrow> (db, order) op" where
  "Orders_Create E ord = call E OrdersCreate (\<lambda>d.
     if list_ex (\<lambda>r. o_OrderNumber r = o_OrderNumber ord) (db_orders d)
     then (Inl (Err ErrConflict ''repository: conflict''), d)
     else
       let row = ord\<lparr>o_ID := db_next_uuid d\<rparr>
       in (Inr row, d\<lparr>db_next_uuid := db_next_uuid d + 1, db_orders := db_orders d @ [row],
             db_history := db_history d @
               [\<lparr>he_OrderID = o_ID row, he_FromStatusCode = None, he_ToStatusCode = o_StatusCode row,
                 he_ChangedByUserID = Some (o_CreatedByUserID row), he_Source = SourceUser,
                 he_Note = None\<rparr>]\<rparr>))"

record status_change =
  sc_OrderID :: uuid
  sc_From :: string
  sc_To :: string
  sc_Actor :: "uuid option"
  sc_Source :: string
  sc_Note :: "string option"
  sc_Fields :: "order \<Rightarrow> order"

text \<open>The guarded update and its history row; zero rows affected rolls the transaction back.\<close>

definition Orders_ApplyStatus :: "env \<Rightarrow> status_change \<Rightarrow> (db, unit) op" where
  "Orders_ApplyStatus E ch = call E OrdersApplyStatus (\<lambda>d.
     let P = (\<lambda>r. o_ID r = sc_OrderID ch \<and> o_StatusCode r = sc_From ch)
     in if rows_affected P (db_orders d) = 0
        then (Inl (Err ErrConflict ''the order is no longer in state''), d)
        else (Inr (), d\<lparr>
          db_orders := update_where P (\<lambda>r. sc_Fields ch (r\<lparr>o_StatusCode := sc_To ch\<rparr>)) (db_orders d),
          db_history := db_history d @
            [\<lparr>he_OrderID = sc_OrderID ch, he_FromStatusCode = Some (sc_From ch),
              he_ToStatusCode = sc_To ch, he_ChangedByUserID = sc_Actor ch,
              he_Source = (if sc_Source ch = [] then SourceUser else sc_Source ch),
              he_Note = sc_Note ch\<rparr>]\<rparr>))"

definition Orders_UpdateFields :: "env \<Rightarrow> uuid \<Rightarrow> (order \<Rightarrow> order) \<Rightarrow> (db, unit) op" where
  "Orders_UpdateFields E i f = call E OrdersUpdateFields (\<lambda>d.
     if rows_affected (\<lambda>r. o_ID r = i) (db_orders d) = 0
     then (Inl (Err ErrNotFound ''repository: not found''), d)
     else (Inr (), d\<lparr>db_orders := update_where (\<lambda>r. o_ID r = i) f (db_orders d)\<rparr>))"

section \<open>Shipments\<close>

definition Shipments_FindByID :: "env \<Rightarrow> uuid \<Rightarrow> (db, shipment) op" where
  "Shipments_FindByID E i = call E ShipmentsFindByID (query (\<lambda>d.
     one (find (\<lambda>r. sh_ID r = i) (db_shipments d))))"

text \<open>\<open>ORDER BY created_at DESC\<close> and the first row.\<close>

fun newest :: "('r \<Rightarrow> int) \<Rightarrow> 'r list \<Rightarrow> 'r option" where
  "newest t [] = None"
| "newest t (r # rs) = (case newest t rs of None \<Rightarrow> Some r
     | Some r' \<Rightarrow> if t r < t r' then Some r' else Some r)"

definition Shipments_FindByOrder :: "env \<Rightarrow> uuid \<Rightarrow> (db, shipment) op" where
  "Shipments_FindByOrder E i = call E ShipmentsFindByOrder (query (\<lambda>d.
     one (newest sh_CreatedAt (filter (\<lambda>r. sh_OrderID r = i) (db_shipments d)))))"

definition Shipments_Create :: "env \<Rightarrow> shipment \<Rightarrow> (db, shipment) op" where
  "Shipments_Create E s = call E ShipmentsCreate (\<lambda>d.
     let row = s\<lparr>sh_ID := db_next_uuid d, sh_CreatedAt := now E\<rparr>
     in (Inr row, d\<lparr>db_next_uuid := db_next_uuid d + 1, db_shipments := db_shipments d @ [row]\<rparr>))"

definition Shipments_ApplyStatus ::
  "env \<Rightarrow> uuid \<Rightarrow> string \<Rightarrow> string \<Rightarrow> (shipment \<Rightarrow> shipment) \<Rightarrow> (db, unit) op" where
  "Shipments_ApplyStatus E i from to cols = call E ShipmentsApplyStatus (\<lambda>d.
     let P = (\<lambda>r. sh_ID r = i \<and> sh_StatusCode r = from)
     in if rows_affected P (db_shipments d) = 0
        then (Inl (Err ErrConflict ''the shipment is no longer in state''), d)
        else (Inr (), d\<lparr>db_shipments :=
                update_where P (\<lambda>r. cols (r\<lparr>sh_StatusCode := to\<rparr>)) (db_shipments d)\<rparr>))"

definition Shipments_UpdateFields :: "env \<Rightarrow> uuid \<Rightarrow> (shipment \<Rightarrow> shipment) \<Rightarrow> (db, unit) op" where
  "Shipments_UpdateFields E i f = call E ShipmentsUpdateFields (exec (\<lambda>d.
     d\<lparr>db_shipments := update_where (\<lambda>r. sh_ID r = i) f (db_shipments d)\<rparr>))"

section \<open>Order stops\<close>

text \<open>
  \<open>Replace\<close>: the old rows are deleted, which sets the \<open>stop_id\<close> of every proof of delivery and
  handover that named one to null (migrations 000018 and 000021), and the new rows get new ids.
\<close>

fun number_stops :: "uuid \<Rightarrow> nat \<Rightarrow> order_stop list \<Rightarrow> order_stop list" where
  "number_stops orderID n [] = []"
| "number_stops orderID n (s # ss) =
     s\<lparr>st_ID := n, st_OrderID := orderID\<rparr> # number_stops orderID (n + 1) ss"

definition detach :: "uuid set \<Rightarrow> uuid option \<Rightarrow> uuid option" where
  "detach gone sid = (case sid of None \<Rightarrow> None | Some i \<Rightarrow> if i \<in> gone then None else Some i)"

text \<open>
  The two partial unique indexes of migrations 000018 and 000021: one live code, and one open
  submission, per shipment, stage and stop. A statement that would break one is rolled back.
\<close>

definition live_codes :: "db \<Rightarrow> (uuid \<times> string \<times> uuid option) list" where
  "live_codes d = map (\<lambda>h. (hv_ShipmentID h, hv_Stage h, hv_StopID h))
     (filter (\<lambda>h. hv_VerifiedAt h = None) (db_handovers d))"

definition open_pods :: "db \<Rightarrow> (uuid \<times> string \<times> uuid option) list" where
  "open_pods d = map (\<lambda>p. (pd_ShipmentID p, pd_Stage p, pd_StopID p))
     (filter (\<lambda>p. pd_Status p = PodSubmitted) (db_pods d))"

definition indexes_ok :: "db \<Rightarrow> bool" where
  "indexes_ok d \<longleftrightarrow> distinct (live_codes d) \<and> distinct (open_pods d)"

definition Stops_Replace :: "env \<Rightarrow> uuid \<Rightarrow> order_stop list \<Rightarrow> (db, unit) op" where
  "Stops_Replace E orderID stops = (if stops = [] then ok () else call E StopsReplace (\<lambda>d.
     let gone = set (map st_ID (filter (\<lambda>r. st_OrderID r = orderID) (db_stops d)));
         d' = d\<lparr>db_stops := filter (\<lambda>r. st_OrderID r \<noteq> orderID) (db_stops d)
                  @ number_stops orderID (db_next_uuid d) stops,
                db_next_uuid := db_next_uuid d + length stops,
                db_pods := map (\<lambda>p. p\<lparr>pd_StopID := detach gone (pd_StopID p)\<rparr>) (db_pods d),
                db_handovers := map (\<lambda>h. h\<lparr>hv_StopID := detach gone (hv_StopID h)\<rparr>) (db_handovers d)\<rparr>
     in if indexes_ok d' then (Inr (), d') else (Inl (Err ErrStore ''duplicate key''), d)))"

definition stops_of :: "uuid \<Rightarrow> db \<Rightarrow> order_stop list" where
  "stops_of orderID d = sort_key (\<lambda>r. sint (st_Seq r)) (filter (\<lambda>r. st_OrderID r = orderID) (db_stops d))"

definition Stops_ListByOrder :: "env \<Rightarrow> uuid \<Rightarrow> (db, order_stop list) op" where
  "Stops_ListByOrder E orderID = call E StopsListByOrder (query (\<lambda>d. Inr (stops_of orderID d)))"

definition Stops_UpdateFields :: "env \<Rightarrow> uuid \<Rightarrow> (order_stop \<Rightarrow> order_stop) \<Rightarrow> (db, unit) op" where
  "Stops_UpdateFields E i f = call E StopsUpdateFields (exec (\<lambda>d.
     d\<lparr>db_stops := update_where (\<lambda>r. st_ID r = i) f (db_stops d)\<rparr>))"

definition Stops_FindByID :: "env \<Rightarrow> uuid \<Rightarrow> (db, order_stop) op" where
  "Stops_FindByID E i = call E StopsFindByID (query (\<lambda>d. one (find (\<lambda>r. st_ID r = i) (db_stops d))))"

section \<open>Proofs of delivery\<close>

text \<open>The open submissions of the shipment and stage are deleted, then the new one is stored; its
  \<open>stop_id\<close> references a stop.\<close>

definition stop_exists :: "db \<Rightarrow> uuid option \<Rightarrow> bool" where
  "stop_exists d sid = (case sid of None \<Rightarrow> True | Some i \<Rightarrow> i \<in> set (map st_ID (db_stops d)))"

definition Pods_Submit :: "env \<Rightarrow> shipment_pod \<Rightarrow> (db, shipment_pod) op" where
  "Pods_Submit E pod = call E PodsSubmit (\<lambda>d.
     let row = pod\<lparr>pd_ID := db_next_uuid d\<rparr>
     in if \<not> stop_exists d (pd_StopID pod)
        then (Inl (Err ErrStore ''repository: submit pod''), d)
        else (Inr row, d\<lparr>db_next_uuid := db_next_uuid d + 1,
           db_pods := filter (\<lambda>p. \<not> (pd_ShipmentID p = pd_ShipmentID pod \<and>
               pd_Stage p = pd_Stage pod \<and> pd_Status p = PodSubmitted)) (db_pods d) @ [row]\<rparr>))"

definition Pods_FindByID :: "env \<Rightarrow> uuid \<Rightarrow> (db, shipment_pod) op" where
  "Pods_FindByID E i = call E PodsFindByID (query (\<lambda>d. one (find (\<lambda>p. pd_ID p = i) (db_pods d))))"

definition Pods_ListByShipment :: "env \<Rightarrow> uuid \<Rightarrow> (db, shipment_pod list) op" where
  "Pods_ListByShipment E i = call E PodsListByShipment (query (\<lambda>d.
     Inr (rev (sort_key pd_SubmittedAt (filter (\<lambda>p. pd_ShipmentID p = i) (db_pods d))))))"

text \<open>\<open>DISTINCT ON (stage) .. ORDER BY stage, submitted_at DESC\<close>.\<close>

definition Pods_Latest :: "env \<Rightarrow> uuid \<Rightarrow> (db, shipment_pod list) op" where
  "Pods_Latest E shipmentID = call E PodsLatest (query (\<lambda>d.
     let rows = filter (\<lambda>p. pd_ShipmentID p = shipmentID) (db_pods d)
     in Inr (List.map_filter (\<lambda>stage. newest pd_SubmittedAt (filter (\<lambda>p. pd_Stage p = stage) rows))
          (remdups (map pd_Stage rows)))))"

definition Pods_HasApproved :: "env \<Rightarrow> uuid \<Rightarrow> string \<Rightarrow> uuid option \<Rightarrow> (db, bool) op" where
  "Pods_HasApproved E shipmentID stage stopID = call E PodsHasApproved (query (\<lambda>d.
     Inr (0 < rows_affected (\<lambda>p. pd_ShipmentID p = shipmentID \<and> pd_Stage p = stage \<and>
            pd_Status p = PodApproved \<and> (stopID = None \<or> pd_StopID p = stopID)) (db_pods d))))"

definition Pods_Review ::
  "env \<Rightarrow> uuid \<Rightarrow> string \<Rightarrow> string option \<Rightarrow> uuid \<Rightarrow> (db, unit) op" where
  "Pods_Review E i status reason by_user = call E PodsReview (\<lambda>d.
     let P = (\<lambda>p. pd_ID p = i \<and> pd_Status p = PodSubmitted)
     in if rows_affected P (db_pods d) = 0
        then (Inl (Err ErrConflict ''this submission has already been reviewed''), d)
        else (Inr (), d\<lparr>db_pods := update_where P (\<lambda>p. p\<lparr>pd_Status := status,
                pd_RejectionReason := reason, pd_ReviewedByUserID := Some by_user,
                pd_ReviewedAt := Some (now E)\<rparr>) (db_pods d)\<rparr>))"

section \<open>What the statements change\<close>

lemma update_where_Nil [simp]: "update_where P f [] = []"
  by (simp add: update_where_def)

lemma update_where_Cons [simp]:
  "update_where P f (r # rs) = (if P r then f r else r) # update_where P f rs"
  by (simp add: update_where_def)

lemma length_update_where [simp]: "length (update_where P f rows) = length rows"
  by (simp add: update_where_def)

lemma map_update_where: "(\<And>r. P r \<Longrightarrow> g (f r) = g r) \<Longrightarrow> map g (update_where P f rows) = map g rows"
  by (auto simp: update_where_def)

lemma update_where_none: "(\<And>r. r \<in> set rows \<Longrightarrow> \<not> P r) \<Longrightarrow> update_where P f rows = rows"
  by (induction rows) auto

lemma rows_affected_0 [simp]: "rows_affected P rows = 0 \<longleftrightarrow> (\<forall>r\<in>set rows. \<not> P r)"
  by (auto simp: rows_affected_def filter_empty_conv)

lemma rows_affected_pos: "0 < rows_affected P rows \<longleftrightarrow> (\<exists>r\<in>set rows. P r)"
  by (auto simp: rows_affected_def filter_empty_conv)

lemma find_id_iff:
  assumes "distinct (map key rows)"
  shows "find (\<lambda>r. key r = k) rows = Some r \<longleftrightarrow> r \<in> set rows \<and> key r = k"
  using assms by (induction rows) (auto simp: image_iff)

lemma find_update_where:
  assumes "\<And>r. key (f r) = key r"
  shows "find (\<lambda>r. key r = k) (update_where (\<lambda>r. key r = i) f rows) =
    (if k = i then map_option f (find (\<lambda>r. key r = k) rows) else find (\<lambda>r. key r = k) rows)"
  using assms by (induction rows) auto

lemma query_eq [simp]: "query f d = (r, d') \<longleftrightarrow> f d = r \<and> d' = d"
  by (auto simp: query_def)

lemma exec_eq [simp]: "exec f d = (r, d') \<longleftrightarrow> r = Inr () \<and> d' = f d"
  by (auto simp: exec_def)

lemma notify_eq: "notify ev d = (r, d') \<longleftrightarrow> r = Inr () \<and> d' = d\<lparr>db_outbox := db_outbox d @ [ev]\<rparr>"
  by (simp add: notify_def)

lemma one_Inr [simp]: "one v = Inr x \<longleftrightarrow> v = Some x"
  by (auto simp: one_def split: option.splits)

lemma call_Inr: "call E c m d = (Inr x, d') \<longleftrightarrow> \<not> down E c \<and> m d = (Inr x, d')"
  by (auto simp: call_def)

lemma call_Inl:
  "call E c m d = (Inl e, d') \<longleftrightarrow>
     (if down E c then e = Err ErrStore ''repository: query'' \<and> d' = d else m d = (Inl e, d'))"
  by (auto simp: call_def)

lemma keeps_query [op_rules]: "keeps f (query g)"
  by (simp add: keeps_def query_def)

lemma readonly_query [op_rules]: "readonly (query g)"
  by (simp add: readonly_def keeps_query)

lemma preserves_query [op_rules]: "preserves P (query g)"
  by (simp add: preserves_def query_def)

lemma op_call [op_rules]:
  "keeps f m \<Longrightarrow> keeps f (call E c m)"
  "preserves P m \<Longrightarrow> preserves P (call E c m)"
  "readonly m \<Longrightarrow> readonly (call E c m)"
  "clean m \<Longrightarrow> clean (call E c m)"
  by (simp_all add: call_def op_rules)

lemma keeps_exec: "(\<And>d. f (g d) = f d) \<Longrightarrow> keeps f (exec g)"
  by (simp add: keeps_def exec_def)

lemma clean_exec [op_rules]: "clean (exec g)"
  by (simp add: clean_def exec_def)

lemma clean_notify [op_rules]: "clean (notify ev)"
  unfolding notify_def by (rule clean_exec)

text \<open>The reads.\<close>

lemmas reads = Orders_FindByID_def Orders_FindByIDForService_def Orders_FindByNumber_def
  Shipments_FindByID_def Shipments_FindByOrder_def Stops_ListByOrder_def Stops_FindByID_def
  Pods_FindByID_def Pods_ListByShipment_def Pods_HasApproved_def Pods_Latest_def

lemma readonly_reads [op_rules]:
  "readonly (Orders_FindByID E c i)" "readonly (Orders_FindByIDForService E i)"
  "readonly (Orders_FindByNumber E n)" "readonly (Shipments_FindByID E i)"
  "readonly (Shipments_FindByOrder E i)" "readonly (Stops_ListByOrder E i)"
  "readonly (Stops_FindByID E i)" "readonly (Pods_FindByID E i)"
  "readonly (Pods_ListByShipment E i)" "readonly (Pods_HasApproved E i st sid)" "readonly (Pods_Latest E i)"
  by (simp_all add: reads op_rules)

lemmas keeps_reads [op_rules] = readonly_reads [THEN keeps_readonly]
lemmas preserves_reads [op_rules] = readonly_reads [THEN preserves_readonly]
lemmas clean_reads [op_rules] = readonly_reads [THEN clean_readonly]

text \<open>Every write is one statement or one transaction: a refused one wrote nothing.\<close>

lemma clean_writes [op_rules]:
  "clean (Orders_Create E ord)" "clean (Orders_ApplyStatus E ch)" "clean (Orders_UpdateFields E i f)"
  "clean (Shipments_Create E s)" "clean (Shipments_ApplyStatus E i from to g)"
  "clean (Shipments_UpdateFields E i g)" "clean (Stops_Replace E i ss)"
  "clean (Stops_UpdateFields E i h)" "clean (Pods_Submit E p)" "clean (Pods_Review E i st rs u)"
  by (auto simp: clean_def Orders_Create_def Orders_ApplyStatus_def Orders_UpdateFields_def
      Shipments_Create_def Shipments_ApplyStatus_def Shipments_UpdateFields_def Stops_Replace_def
      Stops_UpdateFields_def Pods_Submit_def Pods_Review_def call_Inl Let_def split: if_splits)

section \<open>Compare-and-set\<close>

text \<open>Several callers' changes, taken one after the other: how many of them succeed.\<close>

fun winners :: "('c \<Rightarrow> ('s, 'a) op) \<Rightarrow> 'c list \<Rightarrow> 's \<Rightarrow> nat" where
  "winners f [] s = 0"
| "winners f (c # cs) s = (case f c s of
     (Inl e, s1) \<Rightarrow> winners f cs s1 | (Inr u, s1) \<Rightarrow> 1 + winners f cs s1)"

text \<open>
  The contract of \<open>ApplyStatus\<close> (and of \<open>Review\<close>), over the identifiers and statuses of the
  rows: a change applies only while some row of its key is still in the state it expects, and then
  that row is in the state it asks for. A change is tame when the further columns it sets are
  neither the identifier nor the status; every caller's is.
\<close>

locale cas_table =
  fixes view :: "'s \<Rightarrow> ('k \<times> string) list"
    and key :: "'c \<Rightarrow> 'k" and from_of :: "'c \<Rightarrow> string" and to_of :: "'c \<Rightarrow> string"
    and tame :: "'c \<Rightarrow> bool" and apply_change :: "'c \<Rightarrow> ('s, unit) op" and up :: bool
  assumes refused: "apply_change c s = (Inl e, s') \<Longrightarrow> s' = s"
    and matched: "apply_change c s = (Inr u, s') \<Longrightarrow> (key c, from_of c) \<in> set (view s)"
    and applied: "apply_change c s = (Inr u, s') \<Longrightarrow> tame c \<Longrightarrow>
      view s' = map (\<lambda>(k, st). (k, if k = key c \<and> st = from_of c then to_of c else st)) (view s)"
    and progress: "up \<Longrightarrow> (key c, from_of c) \<in> set (view s) \<Longrightarrow> \<exists>s'. apply_change c s = (Inr (), s')"
begin

lemma applied_leaves:
  assumes "apply_change c s = (Inr u, s')" and "tame c" and "to_of c \<noteq> from_of c"
  shows "(key c, from_of c) \<notin> set (view s')"
  using applied [OF assms(1,2)] assms(3) by (auto split: if_splits)

lemma others_stay:
  assumes "apply_change c s = (Inr u, s')" and "tame c" and "k \<noteq> key c"
  shows "(k, st) \<in> set (view s') \<longleftrightarrow> (k, st) \<in> set (view s)"
  using applied [OF assms(1,2)] assms(3) by force

lemma no_winner:
  assumes "(k, st) \<notin> set (view s)" and "\<forall>c\<in>set cs. key c = k \<and> from_of c = st"
  shows "winners apply_change cs s = 0"
  using assms
proof (induction cs arbitrary: s)
  case (Cons c cs)
  obtain r s1 where a: "apply_change c s = (r, s1)" by fastforce
  with Cons.prems matched obtain e where "r = Inl e" by (cases r) fastforce+
  with a refused have "s1 = s" by auto
  with a \<open>r = Inl e\<close> Cons show ?case by simp
qed simp

lemma at_most_one_winner:
  assumes "\<forall>c\<in>set cs. key c = k \<and> from_of c = st \<and> to_of c \<noteq> st \<and> tame c"
  shows "winners apply_change cs s \<le> 1"
  using assms
proof (induction cs arbitrary: s)
  case (Cons c cs)
  obtain r s1 where a: "apply_change c s = (r, s1)" by fastforce
  show ?case
  proof (cases r)
    case (Inl e)
    with Cons a show ?thesis by simp
  next
    case (Inr u)
    with a Cons.prems have "(k, st) \<notin> set (view s1)"
      using applied_leaves [of c s u s1] by auto
    with Cons.prems have "winners apply_change cs s1 = 0" by (intro no_winner) auto
    with a Inr show ?thesis by simp
  qed
qed simp

lemma exactly_one_winner:
  assumes "up" and "(k, st) \<in> set (view s)" and "cs \<noteq> []"
    and "\<forall>c\<in>set cs. key c = k \<and> from_of c = st \<and> to_of c \<noteq> st \<and> tame c"
  shows "winners apply_change cs s = 1"
proof -
  from assms(3) obtain c cs' where cs: "cs = c # cs'" by (cases cs) auto
  with assms(4) have c: "key c = k" "from_of c = st" by auto
  with assms(1,2) progress obtain s1 where a: "apply_change c s = (Inr (), s1)" by blast
  then have "0 < winners apply_change cs s" by (simp add: cs)
  with at_most_one_winner [OF assms(4), of s] show ?thesis by simp
qed

end

definition order_view :: "db \<Rightarrow> (uuid \<times> string) list" where
  "order_view d = map (\<lambda>r. (o_ID r, o_StatusCode r)) (db_orders d)"

definition tame_order_change :: "status_change \<Rightarrow> bool" where
  "tame_order_change ch \<longleftrightarrow>
     (\<forall>r. o_ID (sc_Fields ch r) = o_ID r \<and> o_StatusCode (sc_Fields ch r) = o_StatusCode r)"

interpretation order_cas: cas_table order_view sc_OrderID sc_From sc_To tame_order_change
  "Orders_ApplyStatus E" "\<not> down E OrdersApplyStatus"
proof (unfold_locales, goal_cases)
  case (1 c s e s')
  then show ?case by (rule cleanD [OF clean_writes(2)])
next
  case (2 c s u s')
  then show ?case
    by (force simp: Orders_ApplyStatus_def call_Inr Let_def order_view_def split: if_splits)
next
  case (3 c s u s')
  then show ?case
    by (auto simp: Orders_ApplyStatus_def call_Inr Let_def order_view_def tame_order_change_def
        update_where_def split: if_splits)
next
  case (4 c s)
  then show ?case by (force simp: Orders_ApplyStatus_def call_def Let_def order_view_def)
qed

record shipment_change =
  shc_ID :: uuid
  shc_From :: string
  shc_To :: string
  shc_Fields :: "shipment \<Rightarrow> shipment"

definition shipment_view :: "db \<Rightarrow> (uuid \<times> string) list" where
  "shipment_view d = map (\<lambda>r. (sh_ID r, sh_StatusCode r)) (db_shipments d)"

definition tame_columns :: "(shipment \<Rightarrow> shipment) \<Rightarrow> bool" where
  "tame_columns f \<longleftrightarrow> (\<forall>r. sh_ID (f r) = sh_ID r \<and> sh_OrderID (f r) = sh_OrderID r \<and>
     sh_StatusCode (f r) = sh_StatusCode r \<and> sh_DriverUserID (f r) = sh_DriverUserID r)"

interpretation shipment_cas: cas_table shipment_view shc_ID shc_From shc_To "\<lambda>c. tame_columns (shc_Fields c)"
  "\<lambda>c. Shipments_ApplyStatus E (shc_ID c) (shc_From c) (shc_To c) (shc_Fields c)"
  "\<not> down E ShipmentsApplyStatus"
proof (unfold_locales, goal_cases)
  case (1 c s e s')
  then show ?case by (rule cleanD [OF clean_writes(5)])
next
  case (2 c s u s')
  then show ?case
    by (force simp: Shipments_ApplyStatus_def call_Inr Let_def shipment_view_def split: if_splits)
next
  case (3 c s u s')
  then show ?case
    by (auto simp: Shipments_ApplyStatus_def call_Inr Let_def shipment_view_def tame_columns_def
        update_where_def split: if_splits)
next
  case (4 c s)
  then show ?case by (force simp: Shipments_ApplyStatus_def call_def Let_def shipment_view_def)
qed

record pod_decision =
  pr_PodID :: uuid
  pr_Status :: string
  pr_Reason :: "string option"
  pr_By :: uuid

definition pod_view :: "db \<Rightarrow> (uuid \<times> string) list" where
  "pod_view d = map (\<lambda>p. (pd_ID p, pd_Status p)) (db_pods d)"

interpretation pod_cas: cas_table pod_view pr_PodID "\<lambda>_. PodSubmitted" pr_Status "\<lambda>_. True"
  "\<lambda>c. Pods_Review E (pr_PodID c) (pr_Status c) (pr_Reason c) (pr_By c)" "\<not> down E PodsReview"
proof (unfold_locales, goal_cases)
  case (1 c s e s')
  then show ?case by (rule cleanD [OF clean_writes(10)])
next
  case (2 c s u s')
  then show ?case by (force simp: Pods_Review_def call_Inr Let_def pod_view_def split: if_splits)
next
  case (3 c s u s')
  then show ?case
    by (auto simp: Pods_Review_def call_Inr Let_def pod_view_def update_where_def split: if_splits)
next
  case (4 c s)
  then show ?case by (force simp: Pods_Review_def call_def Let_def pod_view_def)
qed

end
