(* ===== verification/Codes.thy ===== *)
theory Codes
  imports Repository
begin

text \<open>
  The HandoverRepository of internal/repository/allowance.go: the register of handover codes. A code
  belongs to a shipment, a stage and a visit (or to the stage as a whole, without one); it is live
  until it is verified, and the register holds at most one live code of each visit.
\<close>

section \<open>The register's operations\<close>

definition scopeToStop :: "uuid option \<Rightarrow> handover \<Rightarrow> bool" where
  "scopeToStop stopID h = (case stopID of None \<Rightarrow> hv_StopID h = None | Some i \<Rightarrow> hv_StopID h = Some i)"

definition live_for :: "uuid \<Rightarrow> string \<Rightarrow> uuid option \<Rightarrow> handover \<Rightarrow> bool" where
  "live_for shipmentID stage stopID h \<longleftrightarrow> hv_ShipmentID h = shipmentID \<and> hv_Stage h = stage \<and>
     hv_VerifiedAt h = None \<and> scopeToStop stopID h"

text \<open>The live code of the visit is deleted, then the new one is stored, in one transaction.\<close>

definition Handovers_Issue :: "env \<Rightarrow> handover \<Rightarrow> (db, handover) op" where
  "Handovers_Issue E h = call E HandoversIssue (\<lambda>d.
     let row = h\<lparr>hv_ID := db_next_uuid d\<rparr>
     in if \<not> stop_exists d (hv_StopID h)
        then (Inl (Err ErrStore ''repository: issue handover''), d)
        else (Inr row, d\<lparr>db_next_uuid := db_next_uuid d + 1,
           db_handovers := filter (\<lambda>r. \<not> live_for (hv_ShipmentID h) (hv_Stage h) (hv_StopID h) r)
             (db_handovers d) @ [row]\<rparr>))"

definition Handovers_FindLive :: "env \<Rightarrow> uuid \<Rightarrow> string \<Rightarrow> uuid option \<Rightarrow> (db, handover) op" where
  "Handovers_FindLive E shipmentID stage stopID = call E HandoversFindLive (query (\<lambda>d.
     one (find (live_for shipmentID stage stopID) (db_handovers d))))"

definition IsVerified :: "db \<Rightarrow> uuid \<Rightarrow> string \<Rightarrow> uuid option \<Rightarrow> bool \<times> time option" where
  "IsVerified d shipmentID stage stopID =
     (case sort_key (\<lambda>h. the (hv_VerifiedAt h)) (filter (\<lambda>h. hv_ShipmentID h = shipmentID \<and>
        hv_Stage h = stage \<and> hv_VerifiedAt h \<noteq> None \<and> scopeToStop stopID h) (db_handovers d)) of
        [] \<Rightarrow> (False, None)
      | r # _ \<Rightarrow> (True, hv_VerifiedAt r))"

definition Handovers_IsVerified ::
  "env \<Rightarrow> uuid \<Rightarrow> string \<Rightarrow> uuid option \<Rightarrow> (db, bool \<times> time option) op" where
  "Handovers_IsVerified E shipmentID stage stopID =
     call E HandoversIsVerified (query (\<lambda>d. Inr (IsVerified d shipmentID stage stopID)))"

definition Handovers_FindByFieldToken :: "env \<Rightarrow> string \<Rightarrow> (db, handover) op" where
  "Handovers_FindByFieldToken E token = call E HandoversFindByFieldToken (query (\<lambda>d.
     one (find (\<lambda>h. hv_FieldToken h = Some token) (db_handovers d))))"

definition Handovers_LatestForStage :: "env \<Rightarrow> uuid \<Rightarrow> string \<Rightarrow> uuid option \<Rightarrow> (db, handover) op" where
  "Handovers_LatestForStage E shipmentID stage stopID = call E HandoversLatestForStage (query (\<lambda>d.
     one (newest hv_SentAt (filter (\<lambda>h. hv_ShipmentID h = shipmentID \<and> hv_Stage h = stage \<and>
       scopeToStop stopID h) (db_handovers d)))))"

text \<open>A SMALLINT counter: the increment of its largest value is an error of the database.\<close>

definition bump :: "(handover \<Rightarrow> int16) \<Rightarrow> (handover \<Rightarrow> handover) \<Rightarrow> uuid \<Rightarrow> (db, unit) op" where
  "bump col inc i d =
     (if list_ex (\<lambda>h. hv_ID h = i \<and> sint (col h) = 32767) (db_handovers d)
      then (Inl (Err ErrStore ''smallint out of range''), d)
      else (Inr (), d\<lparr>db_handovers := update_where (\<lambda>h. hv_ID h = i) inc (db_handovers d)\<rparr>))"

definition Handovers_RecordFieldAttempt :: "env \<Rightarrow> uuid \<Rightarrow> (db, unit) op" where
  "Handovers_RecordFieldAttempt E i = call E HandoversRecordFieldAttempt
     (bump hv_FieldAttempts (\<lambda>h. h\<lparr>hv_FieldAttempts := hv_FieldAttempts h + 1\<rparr>) i)"

definition Handovers_MarkFieldVerified :: "env \<Rightarrow> uuid \<Rightarrow> uuid option \<Rightarrow> (db, unit) op" where
  "Handovers_MarkFieldVerified E i picUserID = call E HandoversMarkFieldVerified (exec (\<lambda>d.
     d\<lparr>db_handovers := update_where (\<lambda>h. hv_ID h = i)
         (\<lambda>h. let h' = h\<lparr>hv_FieldVerifiedAt := Some (now E)\<rparr>
              in if picUserID = None then h' else h'\<lparr>hv_FieldPICUserID := picUserID\<rparr>)
         (db_handovers d)\<rparr>))"

definition Handovers_SetPICName :: "env \<Rightarrow> uuid \<Rightarrow> string \<Rightarrow> (db, unit) op" where
  "Handovers_SetPICName E i name = call E HandoversSetPICName (exec (\<lambda>d.
     d\<lparr>db_handovers := update_where (\<lambda>h. hv_ID h = i) (\<lambda>h. h\<lparr>hv_PICName := Some name\<rparr>)
         (db_handovers d)\<rparr>))"

definition Handovers_RecordAttempt :: "env \<Rightarrow> uuid \<Rightarrow> (db, unit) op" where
  "Handovers_RecordAttempt E i = call E HandoversRecordAttempt
     (bump hv_Attempts (\<lambda>h. h\<lparr>hv_Attempts := hv_Attempts h + 1\<rparr>) i)"

definition Handovers_MarkVerified ::
  "env \<Rightarrow> uuid \<Rightarrow> money option \<Rightarrow> money option \<Rightarrow> bool option \<Rightarrow> (db, unit) op" where
  "Handovers_MarkVerified E i lat lon at_site = call E HandoversMarkVerified (exec (\<lambda>d.
     d\<lparr>db_handovers := update_where (\<lambda>h. hv_ID h = i \<and> hv_VerifiedAt h = None)
         (\<lambda>h. h\<lparr>hv_VerifiedAt := Some (now E), hv_VerifiedLat := lat, hv_VerifiedLon := lon,
                hv_VerifiedWithinGeofence := at_site\<rparr>) (db_handovers d)\<rparr>))"

text \<open>\<open>VerifiedStopIDs\<close>: the map is filled in order of confirmation and keeps the first.\<close>

fun first_seen :: "handover list \<Rightarrow> (uuid \<rightharpoonup> time) \<Rightarrow> (uuid \<rightharpoonup> time)" where
  "first_seen [] out = out"
| "first_seen (h # hs) out = (case (hv_StopID h, hv_VerifiedAt h) of
     (Some i, Some t) \<Rightarrow> first_seen hs (if out i = None then out(i \<mapsto> t) else out)
   | _ \<Rightarrow> first_seen hs out)"

definition VerifiedStopIDs :: "db \<Rightarrow> uuid \<Rightarrow> (uuid \<rightharpoonup> time)" where
  "VerifiedStopIDs d shipmentID =
     first_seen (sort_key (\<lambda>h. the (hv_VerifiedAt h)) (filter (\<lambda>h. hv_ShipmentID h = shipmentID \<and>
       hv_StopID h \<noteq> None \<and> hv_VerifiedAt h \<noteq> None) (db_handovers d))) Map.empty"

section \<open>Reads and writes\<close>

lemma scopeToStop_iff [simp]: "scopeToStop stopID h \<longleftrightarrow> hv_StopID h = stopID"
  by (auto simp: scopeToStop_def split: option.splits)

lemma readonly_codes [op_rules]:
  "readonly (Handovers_FindLive E i st sid)" "readonly (Handovers_IsVerified E i st sid)"
  "readonly (Handovers_FindByFieldToken E tok)" "readonly (Handovers_LatestForStage E i st sid)"
  by (simp_all add: Handovers_FindLive_def Handovers_IsVerified_def Handovers_FindByFieldToken_def
      Handovers_LatestForStage_def op_rules)

lemmas keeps_codes [op_rules] = readonly_codes [THEN keeps_readonly]
lemmas preserves_codes [op_rules] = readonly_codes [THEN preserves_readonly]
lemmas clean_codes [op_rules] = readonly_codes [THEN clean_readonly]

lemma clean_bump: "clean (bump col inc i)"
  by (simp add: clean_def bump_def)

lemma clean_code_writes [op_rules]:
  "clean (Handovers_Issue E h)" "clean (Handovers_RecordFieldAttempt E i)"
  "clean (Handovers_MarkFieldVerified E i u)" "clean (Handovers_SetPICName E i nm)"
  "clean (Handovers_RecordAttempt E i)" "clean (Handovers_MarkVerified E i lat lon w)"
  by (auto simp: clean_def Handovers_Issue_def Handovers_RecordFieldAttempt_def
      Handovers_MarkFieldVerified_def Handovers_SetPICName_def Handovers_RecordAttempt_def
      Handovers_MarkVerified_def call_Inl Let_def dest: cleanD [OF clean_bump] split: if_splits)

section \<open>One live code per visit\<close>

definition one_live :: "db \<Rightarrow> bool" where
  "one_live d \<longleftrightarrow> distinct (live_codes d)"

text \<open>An update that keeps a row's key, and never makes a row live again.\<close>

lemma distinct_live_update:
  assumes "\<And>r. k (f r) = k r" and "\<And>r. live (f r) \<Longrightarrow> live r"
  shows "set (map k (filter live (update_where P f rows))) \<subseteq> set (map k (filter live rows)) \<and>
    (distinct (map k (filter live rows)) \<longrightarrow> distinct (map k (filter live (update_where P f rows))))"
proof (induction rows)
  case (Cons r rows)
  then show ?case using assms by (cases "P r") (auto simp: image_subset_iff)
qed simp

lemma one_live_update:
  assumes "one_live d"
    and "\<And>h. (hv_ShipmentID (f h), hv_Stage (f h), hv_StopID (f h)) =
      (hv_ShipmentID h, hv_Stage h, hv_StopID h)"
    and "\<And>h. hv_VerifiedAt (f h) = None \<Longrightarrow> hv_VerifiedAt h = None"
  shows "one_live (d\<lparr>db_handovers := update_where P f (db_handovers d)\<rparr>)"
  using assms distinct_live_update [of "\<lambda>h. (hv_ShipmentID h, hv_Stage h, hv_StopID h)" f
      "\<lambda>h. hv_VerifiedAt h = None" P "db_handovers d"]
  by (simp add: one_live_def live_codes_def)

lemma one_live_Issue:
  assumes "Handovers_Issue E h d = (r, d')" and "one_live d"
  shows "one_live d'"
proof -
  have "distinct (map k (filter P (filter Q rows)))" if "distinct (map k (filter P rows))"
    for k :: "handover \<Rightarrow> uuid \<times> string \<times> uuid option" and P Q rows
    using that by (induction rows) (auto split: if_splits)
  then show ?thesis
    using assms by (cases r) (auto simp: Handovers_Issue_def call_Inr call_Inl Let_def one_live_def
        live_codes_def live_for_def split: if_splits)
qed

lemma one_live_codes [op_rules]:
  "preserves one_live (Handovers_Issue E h)"
  "preserves one_live (Handovers_RecordFieldAttempt E i)"
  "preserves one_live (Handovers_MarkFieldVerified E i u)"
  "preserves one_live (Handovers_SetPICName E i nm)"
  "preserves one_live (Handovers_RecordAttempt E i)"
  "preserves one_live (Handovers_MarkVerified E i lat lon w)"
proof -
  show "preserves one_live (Handovers_Issue E h)"
    using one_live_Issue by (auto simp: preserves_def) (metis prod.collapse)
  have bump: "preserves one_live (bump col inc i)"
    if "\<And>h. (hv_ShipmentID (inc h), hv_Stage (inc h), hv_StopID (inc h)) =
        (hv_ShipmentID h, hv_Stage h, hv_StopID h)" "\<And>h. hv_VerifiedAt (inc h) = hv_VerifiedAt h"
    for col inc using that by (auto simp: preserves_def bump_def intro!: one_live_update)
  then show "preserves one_live (Handovers_RecordFieldAttempt E i)"
    "preserves one_live (Handovers_RecordAttempt E i)"
    unfolding Handovers_RecordFieldAttempt_def Handovers_RecordAttempt_def
    by (intro op_rules bump; simp)+
  have ex: "preserves one_live (exec (\<lambda>d. d\<lparr>db_handovers := update_where P f (db_handovers d)\<rparr>))"
    if "\<And>h. (hv_ShipmentID (f h), hv_Stage (f h), hv_StopID (f h)) =
        (hv_ShipmentID h, hv_Stage h, hv_StopID h)"
      "\<And>h. hv_VerifiedAt (f h) = None \<Longrightarrow> hv_VerifiedAt h = None" for P f
    using that by (auto simp: preserves_def exec_def intro!: one_live_update)
  show "preserves one_live (Handovers_MarkFieldVerified E i u)"
    "preserves one_live (Handovers_SetPICName E i nm)"
    "preserves one_live (Handovers_MarkVerified E i lat lon w)"
    unfolding Handovers_MarkFieldVerified_def Handovers_SetPICName_def Handovers_MarkVerified_def
    by (intro op_rules ex; simp add: Let_def split: if_splits)+
qed

text \<open>So the code found is the code there is.\<close>

lemma live_unique:
  assumes "one_live d" and "h1 \<in> set (db_handovers d)" and "h2 \<in> set (db_handovers d)"
    and "live_for i st sid h1" and "live_for i st sid h2"
  shows "h1 = h2"
proof -
  let ?k = "\<lambda>h. (hv_ShipmentID h, hv_Stage h, hv_StopID h)"
  let ?rows = "filter (\<lambda>h. hv_VerifiedAt h = None) (db_handovers d)"
  from assms have "h1 \<in> set ?rows" "h2 \<in> set ?rows" "?k h1 = ?k h2" by (auto simp: live_for_def)
  moreover have "inj_on ?k (set ?rows)"
    using assms(1) by (simp add: one_live_def live_codes_def distinct_map)
  ultimately show ?thesis by (auto dest: inj_onD)
qed

section \<open>The life of a code\<close>

lemma IsVerified_iff:
  "fst (IsVerified d i st sid) \<longleftrightarrow>
     (\<exists>h\<in>set (db_handovers d). hv_ShipmentID h = i \<and> hv_Stage h = st \<and> hv_StopID h = sid \<and>
        hv_VerifiedAt h \<noteq> None)"
proof -
  let ?rows = "filter (\<lambda>h. hv_ShipmentID h = i \<and> hv_Stage h = st \<and> hv_VerifiedAt h \<noteq> None \<and>
    scopeToStop sid h) (db_handovers d)"
  have "fst (IsVerified d i st sid) \<longleftrightarrow> sort_key (\<lambda>h. the (hv_VerifiedAt h)) ?rows \<noteq> []"
    by (simp add: IsVerified_def split: list.splits)
  also have "\<dots> \<longleftrightarrow> ?rows \<noteq> []" by (simp only: length_0_conv [symmetric] length_sort)
  finally show ?thesis by (auto simp: filter_empty_conv)
qed

lemma first_seen_dom:
  "dom (first_seen hs out) =
     dom out \<union> {i. \<exists>h\<in>set hs. hv_StopID h = Some i \<and> hv_VerifiedAt h \<noteq> None}"
  by (induction hs out rule: first_seen.induct) (auto split: option.splits)

lemma VerifiedStopIDs_iff:
  "i \<in> dom (VerifiedStopIDs d sh) \<longleftrightarrow>
     (\<exists>h\<in>set (db_handovers d). hv_ShipmentID h = sh \<and> hv_StopID h = Some i \<and> hv_VerifiedAt h \<noteq> None)"
  by (auto simp: VerifiedStopIDs_def first_seen_dom)

lemma issued_is_live:
  assumes "Handovers_Issue E h d = (Inr row, d')" and "hv_VerifiedAt h = None"
  shows "Handovers_FindLive E (hv_ShipmentID h) (hv_Stage h) (hv_StopID h) d' =
    (if down E HandoversFindLive then (Inl (Err ErrStore ''repository: query''), d') else (Inr row, d'))"
proof -
  let ?P = "live_for (hv_ShipmentID h) (hv_Stage h) (hv_StopID h)"
  have "find ?P (filter (\<lambda>r. \<not> ?P r) rows @ [row]) = Some row" if "?P row" for rows
    using that by (induction rows) auto
  moreover have "?P row" "db_handovers d' = filter (\<lambda>r. \<not> ?P r) (db_handovers d) @ [row]"
    using assms by (auto simp: Handovers_Issue_def call_Inr Let_def live_for_def split: if_splits)
  ultimately show ?thesis by (simp add: Handovers_FindLive_def call_def fail_def query_def one_def)
qed

end
