(* ===== verification/Runs.thy ===== *)
theory Runs
  imports Codes "HOL-Library.Multiset"
begin

text \<open>
  What the statements leave alone, and where they may take the store: the relations that say that
  orders and shipments only move along their machines, and that what was approved, verified or
  recorded stays so. Each is a \<open>store_order\<close>; the services' operations are shown to follow it.
\<close>

section \<open>Frames\<close>

lemma keeps_comp: "keeps g m \<Longrightarrow> keeps (\<lambda>d. f (g d)) m"
  by (simp add: keeps_def)

lemma frame_orders [op_rules]:
  "keeps db_orders (Shipments_Create E s)" "keeps db_orders (Shipments_ApplyStatus E i from to g)"
  "keeps db_orders (Shipments_UpdateFields E i g)" "keeps db_orders (Stops_Replace E i ss)"
  "keeps db_orders (Stops_UpdateFields E i h)" "keeps db_orders (Pods_Submit E p)"
  "keeps db_orders (Pods_Review E i st rs u)" "keeps db_orders (Handovers_Issue E hv)"
  "keeps db_orders (Handovers_RecordFieldAttempt E i)" "keeps db_orders (Handovers_MarkFieldVerified E i u')"
  "keeps db_orders (Handovers_SetPICName E i nm)" "keeps db_orders (Handovers_RecordAttempt E i)"
  "keeps db_orders (Handovers_MarkVerified E i lat lon w)" "keeps db_orders (notify ev)"
  by (auto simp: keeps_def call_def fail_def exec_def Let_def notify_def ok_def bump_def
      Shipments_Create_def Shipments_ApplyStatus_def Shipments_UpdateFields_def Stops_Replace_def
      Stops_UpdateFields_def Pods_Submit_def Pods_Review_def Handovers_Issue_def
      Handovers_RecordFieldAttempt_def Handovers_MarkFieldVerified_def Handovers_SetPICName_def
      Handovers_RecordAttempt_def Handovers_MarkVerified_def)

lemma frame_shipments [op_rules]:
  "keeps db_shipments (Orders_Create E ord)" "keeps db_shipments (Orders_ApplyStatus E ch)"
  "keeps db_shipments (Orders_UpdateFields E i f)" "keeps db_shipments (Stops_Replace E i ss)"
  "keeps db_shipments (Stops_UpdateFields E i h)" "keeps db_shipments (Pods_Submit E p)"
  "keeps db_shipments (Pods_Review E i st rs u)" "keeps db_shipments (Handovers_Issue E hv)"
  "keeps db_shipments (Handovers_RecordFieldAttempt E i)" "keeps db_shipments (Handovers_MarkFieldVerified E i u')"
  "keeps db_shipments (Handovers_SetPICName E i nm)" "keeps db_shipments (Handovers_RecordAttempt E i)"
  "keeps db_shipments (Handovers_MarkVerified E i lat lon w)" "keeps db_shipments (notify ev)"
  by (auto simp: keeps_def call_def fail_def exec_def Let_def notify_def ok_def bump_def
      Orders_Create_def Orders_ApplyStatus_def Orders_UpdateFields_def Stops_Replace_def
      Stops_UpdateFields_def Pods_Submit_def Pods_Review_def Handovers_Issue_def
      Handovers_RecordFieldAttempt_def Handovers_MarkFieldVerified_def Handovers_SetPICName_def
      Handovers_RecordAttempt_def Handovers_MarkVerified_def)

lemma frame_stops [op_rules]:
  "keeps db_stops (Orders_Create E ord)" "keeps db_stops (Orders_ApplyStatus E ch)"
  "keeps db_stops (Orders_UpdateFields E i f)" "keeps db_stops (Shipments_Create E s)"
  "keeps db_stops (Shipments_ApplyStatus E i from to g)" "keeps db_stops (Shipments_UpdateFields E i g)"
  "keeps db_stops (Pods_Submit E p)" "keeps db_stops (Pods_Review E i st rs u)"
  "keeps db_stops (Handovers_Issue E hv)" "keeps db_stops (Handovers_RecordFieldAttempt E i)"
  "keeps db_stops (Handovers_MarkFieldVerified E i u')" "keeps db_stops (Handovers_SetPICName E i nm)"
  "keeps db_stops (Handovers_RecordAttempt E i)" "keeps db_stops (Handovers_MarkVerified E i lat lon w)"
  "keeps db_stops (notify ev)"
  by (auto simp: keeps_def call_def fail_def exec_def Let_def notify_def ok_def bump_def
      Orders_Create_def Orders_ApplyStatus_def Orders_UpdateFields_def Shipments_Create_def
      Shipments_ApplyStatus_def Shipments_UpdateFields_def Pods_Submit_def Pods_Review_def
      Handovers_Issue_def Handovers_RecordFieldAttempt_def Handovers_MarkFieldVerified_def
      Handovers_SetPICName_def Handovers_RecordAttempt_def Handovers_MarkVerified_def)

lemma frame_pods [op_rules]:
  "keeps db_pods (Orders_Create E ord)" "keeps db_pods (Orders_ApplyStatus E ch)"
  "keeps db_pods (Orders_UpdateFields E i f)" "keeps db_pods (Shipments_Create E s)"
  "keeps db_pods (Shipments_ApplyStatus E i from to g)" "keeps db_pods (Shipments_UpdateFields E i g)"
  "keeps db_pods (Stops_UpdateFields E i h)" "keeps db_pods (Handovers_Issue E hv)"
  "keeps db_pods (Handovers_RecordFieldAttempt E i)" "keeps db_pods (Handovers_MarkFieldVerified E i u')"
  "keeps db_pods (Handovers_SetPICName E i nm)" "keeps db_pods (Handovers_RecordAttempt E i)"
  "keeps db_pods (Handovers_MarkVerified E i lat lon w)" "keeps db_pods (notify ev)"
  by (auto simp: keeps_def call_def fail_def exec_def Let_def notify_def ok_def bump_def
      Orders_Create_def Orders_ApplyStatus_def Orders_UpdateFields_def Shipments_Create_def
      Shipments_ApplyStatus_def Shipments_UpdateFields_def Stops_UpdateFields_def
      Handovers_Issue_def Handovers_RecordFieldAttempt_def Handovers_MarkFieldVerified_def
      Handovers_SetPICName_def Handovers_RecordAttempt_def Handovers_MarkVerified_def)

lemma frame_handovers [op_rules]:
  "keeps db_handovers (Orders_Create E ord)" "keeps db_handovers (Orders_ApplyStatus E ch)"
  "keeps db_handovers (Orders_UpdateFields E i f)" "keeps db_handovers (Shipments_Create E s)"
  "keeps db_handovers (Shipments_ApplyStatus E i from to g)" "keeps db_handovers (Shipments_UpdateFields E i g)"
  "keeps db_handovers (Stops_UpdateFields E i h)" "keeps db_handovers (Pods_Submit E p)"
  "keeps db_handovers (Pods_Review E i st rs u)" "keeps db_handovers (notify ev)"
  by (auto simp: keeps_def call_def fail_def exec_def Let_def notify_def ok_def
      Orders_Create_def Orders_ApplyStatus_def Orders_UpdateFields_def Shipments_Create_def
      Shipments_ApplyStatus_def Shipments_UpdateFields_def Stops_UpdateFields_def Pods_Submit_def
      Pods_Review_def)

section \<open>Statuses move along the machines\<close>

definition rows_run :: "(string \<Rightarrow> string \<Rightarrow> bool) \<Rightarrow> ('k \<times> string) list \<Rightarrow> ('k \<times> string) list \<Rightarrow> bool" where
  "rows_run step old new \<longleftrightarrow> (\<exists>kept added. new = kept @ added \<and>
     list_all2 (\<lambda>(k, s) (k', s'). k = k' \<and> step\<^sup>*\<^sup>* s s') old kept)"

lemma rows_run_refl: "rows_run step rows rows"
  unfolding rows_run_def by (intro exI [of _ rows] exI [of _ "[]"]) (auto intro!: list.rel_refl)

lemma rows_run_trans:
  assumes "rows_run step a b" and "rows_run step b c"
  shows "rows_run step a c"
proof -
  let ?P = "\<lambda>(k, s) (k', s'). k = k' \<and> step\<^sup>*\<^sup>* s s'"
  from assms obtain b1 b2 c1 c2 where 1: "b = b1 @ b2" "list_all2 ?P a b1"
    and 2: "c = c1 @ c2" "list_all2 ?P b c1" by (auto simp: rows_run_def)
  then obtain c11 c12 where c: "c1 = c11 @ c12" "list_all2 ?P b1 c11"
    by (auto simp: list_all2_append1)
  have "list_all2 ?P a c11" by (rule list_all2_trans [OF _ 1(2) c(2)]) auto
  then show ?thesis unfolding rows_run_def 2(1) c(1) by (metis append_assoc)
qed

lemma rows_run_add: "rows_run step rows (rows @ new)"
  unfolding rows_run_def by (intro exI conjI) (auto intro!: list.rel_refl)

lemma rows_run_move:
  assumes "step\<^sup>*\<^sup>* from to"
  shows "rows_run step rows (map (\<lambda>(k, st). (k, if k = i \<and> st = from then to else st)) rows)"
  unfolding rows_run_def using assms
  by (intro exI [of _ "map (\<lambda>(k, st). (k, if k = i \<and> st = from then to else st)) rows"] exI [of _ "[]"])
     (auto simp: list_all2_map2 intro!: list.rel_refl)

text \<open>A row that was there is still there, where a run of its machine leads.\<close>

lemma rows_run_status:
  assumes "rows_run step old new" and "(k, s) \<in> set old"
  shows "\<exists>s'. (k, s') \<in> set new \<and> step\<^sup>*\<^sup>* s s'"
proof -
  let ?P = "\<lambda>(k, s) (k', s'). k = k' \<and> step\<^sup>*\<^sup>* s s'"
  from assms(1) obtain kept added where "new = kept @ added" "list_all2 ?P old kept"
    by (auto simp: rows_run_def)
  moreover obtain i where "i < length old" "old ! i = (k, s)"
    using assms(2) by (metis in_set_conv_nth)
  ultimately have "(case kept ! i of (k', s') \<Rightarrow> k = k' \<and> step\<^sup>*\<^sup>* s s')" "kept ! i \<in> set new"
    using list_all2_nthD [of ?P old kept i] list_all2_lengthD [of ?P old kept] by auto
  then show ?thesis by (cases "kept ! i") auto
qed

lemma rows_run_ids:
  assumes "rows_run step old new"
  shows "\<exists>added. map fst new = map fst old @ added"
proof -
  let ?P = "\<lambda>(k, s) (k', s'). k = k' \<and> step\<^sup>*\<^sup>* s s'"
  from assms obtain kept added where "new = kept @ added" "list_all2 ?P old kept"
    by (auto simp: rows_run_def)
  moreover from this(2) have "map fst kept = map fst old" by (induction rule: list_all2_induct) auto
  ultimately show ?thesis by auto
qed

definition shipments_run :: "db \<Rightarrow> db \<Rightarrow> bool" where
  "shipments_run d d' \<longleftrightarrow> rows_run (moves shipmentTransitions) (shipment_view d) (shipment_view d')"

definition orders_run :: "db \<Rightarrow> db \<Rightarrow> bool" where
  "orders_run d d' \<longleftrightarrow> rows_run (moves orderTransitions) (order_view d) (order_view d')"

interpretation shipments: store_order shipments_run
  by unfold_locales (auto simp: shipments_run_def intro: rows_run_refl rows_run_trans)

interpretation orders: store_order orders_run
  by unfold_locales (auto simp: orders_run_def intro: rows_run_refl rows_run_trans)

lemma shipments_run_same: "keeps db_shipments m \<Longrightarrow> follows shipments_run m"
  by (auto simp: keeps_def follows_def shipments_run_def shipment_view_def rows_run_refl)

lemma orders_run_same: "keeps db_orders m \<Longrightarrow> follows orders_run m"
  by (auto simp: keeps_def follows_def orders_run_def order_view_def rows_run_refl)

lemmas run_rules [op_rules] = shipments.follow_rules orders.follow_rules
  frame_shipments [THEN shipments_run_same] frame_orders [THEN orders_run_same]
  readonly_reads [THEN shipments.follows_readonly] readonly_codes [THEN shipments.follows_readonly]
  readonly_reads [THEN orders.follows_readonly] readonly_codes [THEN orders.follows_readonly]

lemma shipments_run_apply:
  assumes "from = to \<or> moves shipmentTransitions from to" and "tame_columns cols"
  shows "follows shipments_run (Shipments_ApplyStatus E i from to cols)"
proof (rule followsI)
  fix d r d' assume a: "Shipments_ApplyStatus E i from to cols d = (r, d')"
  show "shipments_run d d'"
  proof (cases r)
    case (Inl e)
    with a show ?thesis by (auto simp: shipments.stays dest: cleanD [OF clean_writes(5)])
  next
    case (Inr u)
    with a have "shipment_view d' =
        map (\<lambda>(k, st). (k, if k = i \<and> st = from then to else st)) (shipment_view d)"
      using assms(2) shipment_cas.applied
        [of E "\<lparr>shc_ID = i, shc_From = from, shc_To = to, shc_Fields = cols\<rparr>" d u d']
      by auto
    moreover have "(moves shipmentTransitions)\<^sup>*\<^sup>* from to" using assms(1) by auto
    ultimately show ?thesis by (simp add: shipments_run_def rows_run_move)
  qed
qed

lemma shipments_run_create [op_rules]: "follows shipments_run (Shipments_Create E s)"
  by (auto simp: follows_def Shipments_Create_def call_def fail_def Let_def shipments_run_def
      shipment_view_def rows_run_refl rows_run_add)

lemma shipments_run_update:
  "tame_columns cols \<Longrightarrow> follows shipments_run (Shipments_UpdateFields E i cols)"
  by (auto simp: follows_def Shipments_UpdateFields_def call_def fail_def exec_def shipments_run_def
      shipment_view_def rows_run_refl tame_columns_def comp_def map_update_where)

lemma orders_run_apply:
  assumes "sc_From ch = sc_To ch \<or> moves orderTransitions (sc_From ch) (sc_To ch)" and "tame_order_change ch"
  shows "follows orders_run (Orders_ApplyStatus E ch)"
proof (rule followsI)
  fix d r d' assume a: "Orders_ApplyStatus E ch d = (r, d')"
  show "orders_run d d'"
  proof (cases r)
    case (Inl e)
    with a show ?thesis by (auto simp: orders.stays dest: cleanD [OF clean_writes(2)])
  next
    case (Inr u)
    with a have "order_view d' = map (\<lambda>(k, st). (k, if k = sc_OrderID ch \<and> st = sc_From ch
        then sc_To ch else st)) (order_view d)"
      using assms(2) order_cas.applied [of E ch d u d'] by simp
    moreover have "(moves orderTransitions)\<^sup>*\<^sup>* (sc_From ch) (sc_To ch)" using assms(1) by auto
    ultimately show ?thesis by (simp add: orders_run_def rows_run_move)
  qed
qed

lemma orders_run_create [op_rules]: "follows orders_run (Orders_Create E ord)"
  by (auto simp: follows_def Orders_Create_def call_def fail_def Let_def orders_run_def
      order_view_def rows_run_refl rows_run_add)

lemma orders_run_update:
  assumes "\<And>r. o_ID (f r) = o_ID r" and "\<And>r. o_StatusCode (f r) = o_StatusCode r"
  shows "follows orders_run (Orders_UpdateFields E i f)"
  using assms by (auto simp: follows_def Orders_UpdateFields_def call_def fail_def Let_def
      orders_run_def order_view_def rows_run_refl comp_def map_update_where)

section \<open>Identifiers\<close>

text \<open>No two rows of a table share an id, and no row has an id that is still to be handed out.\<close>

definition well_keyed :: "db \<Rightarrow> bool" where
  "well_keyed d \<longleftrightarrow>
     distinct (map o_ID (db_orders d)) \<and> (\<forall>r\<in>set (db_orders d). o_ID r < db_next_uuid d) \<and>
     distinct (map sh_ID (db_shipments d)) \<and> (\<forall>r\<in>set (db_shipments d). sh_ID r < db_next_uuid d) \<and>
     distinct (map st_ID (db_stops d)) \<and> (\<forall>r\<in>set (db_stops d). st_ID r < db_next_uuid d) \<and>
     distinct (map pd_ID (db_pods d)) \<and> (\<forall>r\<in>set (db_pods d). pd_ID r < db_next_uuid d) \<and>
     distinct (map hv_ID (db_handovers d)) \<and> (\<forall>r\<in>set (db_handovers d). hv_ID r < db_next_uuid d)"

lemma well_keyed_empty: "well_keyed empty_db"
  by (simp add: well_keyed_def empty_db_def)

lemma keyed_update:
  assumes "\<And>r. k (f r) = k r"
  shows "map k (update_where P f rows) = map k rows"
    and "(\<forall>r\<in>set (update_where P f rows). k r < n) \<longleftrightarrow> (\<forall>r\<in>set rows. k r < (n::nat))"
  using assms by (induction rows) auto

lemma keyed_filter: "distinct (map k rows) \<Longrightarrow> distinct (map k (filter P rows))"
  by (induction rows) auto

lemma ids_number_stops: "map st_ID (number_stops i n ss) = [n..<n + length ss]"
proof (induction ss arbitrary: n)
  case (Cons s ss)
  then show ?case using upt_conv_Cons [of n "Suc (n + length ss)"] by simp
qed simp

lemma well_keyed_creates [op_rules]:
  "preserves well_keyed (Orders_Create E ord)" "preserves well_keyed (Shipments_Create E s)"
  "preserves well_keyed (Pods_Submit E p)" "preserves well_keyed (Handovers_Issue E hv)"
  by (auto simp: preserves_def Orders_Create_def Shipments_Create_def Pods_Submit_def
      Handovers_Issue_def call_def fail_def Let_def well_keyed_def less_Suc_eq keyed_filter)

lemma well_keyed_Replace [op_rules]: "preserves well_keyed (Stops_Replace E i ss)"
proof -
  have "map pd_ID (map (\<lambda>p. p\<lparr>pd_StopID := f p\<rparr>) ps) = map pd_ID ps"
    "map hv_ID (map (\<lambda>h. h\<lparr>hv_StopID := g h\<rparr>) hs) = map hv_ID hs" for f g ps hs
    by simp_all
  moreover have "st_ID r \<in> {n..<n + length ss}" if "r \<in> set (number_stops i n ss)" for r n
    using arg_cong [OF ids_number_stops [of i n ss], of set] that by (auto simp: image_iff)
  ultimately show ?thesis
    by (fastforce simp: preserves_def Stops_Replace_def call_def fail_def ok_def Let_def
        well_keyed_def keyed_filter ids_number_stops comp_def)
qed

lemma well_keyed_updates [op_rules]:
  "preserves well_keyed (Pods_Review E i st rs u)"
  "preserves well_keyed (Handovers_RecordFieldAttempt E i)"
  "preserves well_keyed (Handovers_MarkFieldVerified E i u')"
  "preserves well_keyed (Handovers_SetPICName E i nm)"
  "preserves well_keyed (Handovers_RecordAttempt E i)"
  "preserves well_keyed (Handovers_MarkVerified E i lat lon w)" "preserves well_keyed (notify ev)"
  by (auto simp: preserves_def call_def fail_def exec_def Let_def notify_def bump_def keyed_update
      Pods_Review_def Handovers_RecordFieldAttempt_def Handovers_MarkFieldVerified_def
      Handovers_SetPICName_def Handovers_RecordAttempt_def Handovers_MarkVerified_def well_keyed_def)

lemma well_keyed_shipment_update:
  assumes "\<And>r. sh_ID (f r) = sh_ID r"
  shows "preserves well_keyed (Shipments_UpdateFields E i f)"
    and "preserves well_keyed (Shipments_ApplyStatus E i from to f)"
  using assms by (auto simp: preserves_def call_def fail_def exec_def Let_def keyed_update
      Shipments_UpdateFields_def Shipments_ApplyStatus_def well_keyed_def)

lemma well_keyed_order_update:
  assumes "\<And>r. o_ID (f r) = o_ID r"
  shows "preserves well_keyed (Orders_UpdateFields E i f)"
  using assms by (auto simp: preserves_def call_def fail_def Let_def keyed_update
      Orders_UpdateFields_def well_keyed_def)

lemma well_keyed_order_change:
  assumes "\<And>r. o_ID (sc_Fields ch r) = o_ID r"
  shows "preserves well_keyed (Orders_ApplyStatus E ch)"
  using assms by (auto simp: preserves_def call_def fail_def Let_def keyed_update
      Orders_ApplyStatus_def well_keyed_def)

lemma well_keyed_stop_update:
  assumes "\<And>r. st_ID (f r) = st_ID r"
  shows "preserves well_keyed (Stops_UpdateFields E i f)"
  using assms by (auto simp: preserves_def call_def fail_def exec_def keyed_update
      Stops_UpdateFields_def well_keyed_def)

section \<open>Live codes\<close>

lemma one_live_same: "keeps db_handovers m \<Longrightarrow> preserves one_live m"
  by (auto simp: preserves_def keeps_def one_live_def live_codes_def)

lemmas one_live_frame [op_rules] = frame_handovers [THEN one_live_same]

lemma one_live_Replace [op_rules]: "preserves one_live (Stops_Replace E i ss)"
  by (auto simp: preserves_def Stops_Replace_def call_def fail_def ok_def Let_def indexes_ok_def one_live_def)

section \<open>Journeys in visit order\<close>

definition passed :: "order_stop \<Rightarrow> bool" where
  "passed s \<longleftrightarrow> st_ArrivedAt s \<noteq> None \<or> st_FinishedAt s \<noteq> None"

text \<open>Nobody has arrived at a stop while an earlier one was neither reached nor finished.\<close>

fun in_order :: "order_stop list \<Rightarrow> bool" where
  "in_order [] = True"
| "in_order (s # ss) = ((passed s \<or> (\<forall>t\<in>set ss. st_ArrivedAt t = None)) \<and> in_order ss)"

definition journeys_in_order :: "db \<Rightarrow> bool" where
  "journeys_in_order d \<longleftrightarrow> (\<forall>i. in_order (stops_of i d))"

lemma journeys_in_order_same: "keeps db_stops m \<Longrightarrow> preserves journeys_in_order m"
  by (auto simp: preserves_def keeps_def journeys_in_order_def stops_of_def)

lemmas journeys_frame [op_rules] = frame_stops [THEN journeys_in_order_same]

lemma insort_key_map: "(\<And>x. f (g x) = f x) \<Longrightarrow> insort_key f (g x) (map g xs) = map g (insort_key f x xs)"
  by (induction xs) auto

lemma sort_key_map: "(\<And>x. f (g x) = f x) \<Longrightarrow> sort_key f (map g xs) = map g (sort_key f xs)"
  by (induction xs) (simp_all add: insort_key_map)

lemma stops_of_update:
  assumes "\<And>r. st_OrderID (f r) = st_OrderID r" and "\<And>r. st_Seq (f r) = st_Seq r"
  shows "stops_of i (d\<lparr>db_stops := update_where P f (db_stops d)\<rparr>) = update_where P f (stops_of i d)"
proof -
  have "filter (\<lambda>r. st_OrderID r = i) (update_where P f rows) =
      update_where P f (filter (\<lambda>r. st_OrderID r = i) rows)" for rows
    using assms(1) by (induction rows) auto
  then show ?thesis
    using sort_key_map [of "\<lambda>r. sint (st_Seq r)" "\<lambda>r. if P r then f r else r"
        "filter (\<lambda>r. st_OrderID r = i) (db_stops d)"] assms(2)
    by (simp add: stops_of_def update_where_def)
qed

lemma stops_of_subset: "set (stops_of i d) = {r \<in> set (db_stops d). st_OrderID r = i}"
  by (auto simp: stops_of_def)

lemma distinct_stops_of: "well_keyed d \<Longrightarrow> distinct (map st_ID (stops_of i d))"
proof -
  assume "well_keyed d"
  then have "distinct (map st_ID (filter (\<lambda>r. st_OrderID r = i) (db_stops d)))"
    by (simp add: well_keyed_def keyed_filter)
  moreover have "mset (map st_ID (stops_of i d)) =
      mset (map st_ID (filter (\<lambda>r. st_OrderID r = i) (db_stops d)))"
    by (simp add: stops_of_def)
  ultimately show ?thesis by (metis mset_eq_imp_distinct_iff)
qed

text \<open>Recording more about a stop that was passed, or closing one, keeps the journey in order.\<close>

lemma in_order_update:
  assumes "in_order ss" and "\<And>r. passed r \<Longrightarrow> passed (f r)" and "\<And>r. st_ArrivedAt (f r) = st_ArrivedAt r"
  shows "in_order (update_where P f ss)"
proof -
  have "(\<forall>t\<in>set (update_where P f ts). st_ArrivedAt t = None) \<longleftrightarrow> (\<forall>t\<in>set ts. st_ArrivedAt t = None)" for ts
    using assms(3) by (induction ts) auto
  then show ?thesis using assms(1,2) by (induction ss) auto
qed

lemma journeys_stop_update:
  assumes "\<And>r. st_OrderID (f r) = st_OrderID r" and "\<And>r. st_Seq (f r) = st_Seq r"
    and "\<And>r. passed r \<Longrightarrow> passed (f r)" and "\<And>r. st_ArrivedAt (f r) = st_ArrivedAt r"
  shows "preserves journeys_in_order (Stops_UpdateFields E i f)"
proof -
  have "stops_of j (d\<lparr>db_stops := update_where (\<lambda>r. st_ID r = i) f (db_stops d)\<rparr>) =
      update_where (\<lambda>r. st_ID r = i) f (stops_of j d)" for j d
    by (rule stops_of_update) (rule assms)+
  then show ?thesis
    by (auto simp: preserves_def Stops_UpdateFields_def call_def fail_def exec_def
        journeys_in_order_def intro!: in_order_update assms)
qed

section \<open>What is on record stays on record\<close>

text \<open>
  Decided submissions, confirmed codes, and the arrivals and starts of visits, as sets of what is
  recorded of whom. While ids are unique, none of it is lost or rewritten.
\<close>

definition decided_pods :: "db \<Rightarrow> (uuid \<times> string) set" where
  "decided_pods d = {(i, st). (i, st) \<in> set (pod_view d) \<and> st \<noteq> PodSubmitted}"

definition confirmed_codes :: "db \<Rightarrow> (uuid \<times> time) set" where
  "confirmed_codes d = {(i, t). \<exists>h\<in>set (db_handovers d). hv_ID h = i \<and> hv_VerifiedAt h = Some t}"

lemma confirmed_codes_alt:
  "confirmed_codes d = {(i, t). (i, Some t) \<in> set (map (\<lambda>h. (hv_ID h, hv_VerifiedAt h)) (db_handovers d))}"
  by (force simp: confirmed_codes_def)

definition arrivals :: "db \<Rightarrow> (uuid \<times> time) set" where
  "arrivals d = {(i, t). \<exists>s\<in>set (db_stops d). st_ID s = i \<and> st_ArrivedAt s = Some t}"

definition starts :: "db \<Rightarrow> (uuid \<times> time) set" where
  "starts d = {(i, t). \<exists>s\<in>set (db_stops d). st_ID s = i \<and> st_StartedAt s = Some t}"

definition records_kept :: "db \<Rightarrow> db \<Rightarrow> bool" where
  "records_kept d d' \<longleftrightarrow> (well_keyed d \<longrightarrow> well_keyed d' \<and> decided_pods d \<subseteq> decided_pods d' \<and>
     confirmed_codes d \<subseteq> confirmed_codes d' \<and> arrivals d \<subseteq> arrivals d' \<and> starts d \<subseteq> starts d')"

interpretation records: store_order records_kept
  by unfold_locales (auto simp: records_kept_def)

lemma records_same:
  assumes "preserves well_keyed m" and "keeps db_pods m" and "keeps db_handovers m" and "keeps db_stops m"
  shows "follows records_kept m"
  using assms by (auto simp: follows_def records_kept_def preserves_def keeps_def decided_pods_def
      pod_view_def confirmed_codes_def arrivals_def starts_def)

lemma records_creates [op_rules]:
  "follows records_kept (Orders_Create E ord)" "follows records_kept (Shipments_Create E s)"
  "follows records_kept (notify ev)"
  by (rule records_same; intro op_rules)+

lemma records_Pods_Submit [op_rules]: "follows records_kept (Pods_Submit E p)"
proof -
  have "keeps db_handovers (Pods_Submit E p)" "keeps db_stops (Pods_Submit E p)"
    "preserves well_keyed (Pods_Submit E p)" by (intro op_rules)+
  moreover have "decided_pods d \<subseteq> decided_pods (snd (Pods_Submit E p d))" for d
    by (auto simp: Pods_Submit_def call_def fail_def Let_def decided_pods_def pod_view_def)
  ultimately show ?thesis
    by (auto simp: follows_def records_kept_def preserves_def keeps_def confirmed_codes_def
        arrivals_def starts_def)
qed

lemma in_update_where:
  "r \<in> set rows \<Longrightarrow> \<not> P r \<Longrightarrow> r \<in> set (update_where P f rows)"
  "r \<in> set rows \<Longrightarrow> P r \<Longrightarrow> f r \<in> set (update_where P f rows)"
  by (induction rows) auto

lemma records_Pods_Review [op_rules]: "follows records_kept (Pods_Review E i st rs u)"
proof -
  have "keeps db_handovers (Pods_Review E i st rs u)" "keeps db_stops (Pods_Review E i st rs u)"
    "preserves well_keyed (Pods_Review E i st rs u)" by (intro op_rules)+
  moreover have "decided_pods d \<subseteq> decided_pods (snd (Pods_Review E i st rs u d))" for d
    by (auto simp: Pods_Review_def call_def fail_def Let_def decided_pods_def pod_view_def
        intro!: image_eqI in_update_where(1))
  ultimately show ?thesis
    by (auto simp: follows_def records_kept_def preserves_def keeps_def confirmed_codes_def
        arrivals_def starts_def)
qed

lemma records_code_write:
  assumes "preserves well_keyed m" and "keeps db_pods m" and "keeps db_stops m"
    and "\<And>d. confirmed_codes d \<subseteq> confirmed_codes (snd (m d))"
  shows "follows records_kept m"
  using assms by (auto simp: follows_def records_kept_def preserves_def keeps_def decided_pods_def
      pod_view_def arrivals_def starts_def)

lemma records_codes [op_rules]:
  "follows records_kept (Handovers_Issue E h)" "follows records_kept (Handovers_RecordFieldAttempt E i)"
  "follows records_kept (Handovers_MarkFieldVerified E i u)" "follows records_kept (Handovers_SetPICName E i nm)"
  "follows records_kept (Handovers_RecordAttempt E i)" "follows records_kept (Handovers_MarkVerified E i lat lon w)"
proof -
  have up: "confirmed_codes d \<subseteq> confirmed_codes (d\<lparr>db_handovers := update_where P f (db_handovers d)\<rparr>)"
    if "\<And>r. hv_ID (f r) = hv_ID r" "\<And>r. P r \<Longrightarrow> hv_VerifiedAt r = None \<or> hv_VerifiedAt (f r) = hv_VerifiedAt r"
    for d P f
  proof
    fix x assume "x \<in> confirmed_codes d"
    then obtain h where h: "h \<in> set (db_handovers d)" "x = (hv_ID h, the (hv_VerifiedAt h))" "hv_VerifiedAt h \<noteq> None"
      by (auto simp: confirmed_codes_def)
    then have "\<exists>g\<in>set (update_where P f (db_handovers d)). hv_ID g = hv_ID h \<and> hv_VerifiedAt g = hv_VerifiedAt h"
      using that in_update_where [OF h(1), of P f] by (cases "P h") metis+
    with h show "x \<in> confirmed_codes (d\<lparr>db_handovers := update_where P f (db_handovers d)\<rparr>)"
      by (auto simp: confirmed_codes_def)
  qed
  show "follows records_kept (Handovers_Issue E h)"
    by (rule records_code_write; (intro op_rules)?)
       (auto simp: Handovers_Issue_def call_def fail_def Let_def confirmed_codes_def live_for_def)
  show "follows records_kept (Handovers_RecordFieldAttempt E i)"
    by (rule records_code_write; (intro op_rules)?)
       (auto simp: Handovers_RecordFieldAttempt_def call_def fail_def bump_def intro!: up [THEN subsetD])
  show "follows records_kept (Handovers_RecordAttempt E i)"
    by (rule records_code_write; (intro op_rules)?)
       (auto simp: Handovers_RecordAttempt_def call_def fail_def bump_def intro!: up [THEN subsetD])
  show "follows records_kept (Handovers_MarkFieldVerified E i u)"
    by (rule records_code_write; (intro op_rules)?)
       (auto simp: Handovers_MarkFieldVerified_def call_def fail_def exec_def Let_def intro!: up [THEN subsetD] split: if_splits)
  show "follows records_kept (Handovers_SetPICName E i nm)"
    by (rule records_code_write; (intro op_rules)?)
       (auto simp: Handovers_SetPICName_def call_def fail_def exec_def intro!: up [THEN subsetD])
  show "follows records_kept (Handovers_MarkVerified E i lat lon w)"
    by (rule records_code_write; (intro op_rules)?)
       (auto simp: Handovers_MarkVerified_def call_def fail_def exec_def intro!: up [THEN subsetD])
qed

lemmas records_rules [op_rules] = records.follow_rules
  readonly_reads [THEN records.follows_readonly] readonly_codes [THEN records.follows_readonly]

text \<open>A write of columns that are no record at all.\<close>

lemma records_shipment_write:
  assumes "\<And>r. sh_ID (f r) = sh_ID r"
  shows "follows records_kept (Shipments_UpdateFields E i f)"
    and "follows records_kept (Shipments_ApplyStatus E i from to f)"
  by (rule records_same; intro op_rules well_keyed_shipment_update assms)+

lemma records_order_write:
  "(\<And>r. o_ID (f r) = o_ID r) \<Longrightarrow> follows records_kept (Orders_UpdateFields E i f)"
  "(\<And>r. o_ID (sc_Fields ch r) = o_ID r) \<Longrightarrow> follows records_kept (Orders_ApplyStatus E ch)"
  by (rule records_same; intro op_rules well_keyed_order_update well_keyed_order_change; assumption?)+

text \<open>A write to one stop, from a store where it is known what that stop has on record.\<close>

lemma records_stop_write:
  assumes "\<And>r. st_ID (f r) = st_ID r"
    and "\<And>r. r \<in> set (db_stops d) \<Longrightarrow> st_ID r = i \<Longrightarrow>
      (st_ArrivedAt r = None \<or> st_ArrivedAt (f r) = st_ArrivedAt r) \<and>
      (st_StartedAt r = None \<or> st_StartedAt (f r) = st_StartedAt r)"
  shows "leads records_kept (Stops_UpdateFields E i f) d"
proof -
  let ?d' = "d\<lparr>db_stops := update_where (\<lambda>r. st_ID r = i) f (db_stops d)\<rparr>"
  have "preserves well_keyed (Stops_UpdateFields E i f)" by (rule well_keyed_stop_update) (rule assms(1))
  moreover
  have row: "\<exists>s\<in>set (db_stops ?d'). st_ID s = st_ID r \<and>
      (st_ArrivedAt r = None \<or> st_ArrivedAt s = st_ArrivedAt r) \<and>
      (st_StartedAt r = None \<or> st_StartedAt s = st_StartedAt r)" if "r \<in> set (db_stops d)" for r
    using assms that in_update_where [OF that, of "\<lambda>r. st_ID r = i" f]
    by (cases "st_ID r = i") auto
  have "arrivals d \<subseteq> arrivals ?d'" "starts d \<subseteq> starts ?d'"
    using row by (fastforce simp: arrivals_def starts_def)+
  ultimately show ?thesis
    by (auto simp: leads_def records_kept_def preserves_def Stops_UpdateFields_def call_def fail_def
        exec_def decided_pods_def pod_view_def confirmed_codes_def)
qed

lemma records_stop_plain:
  assumes "\<And>r. st_ID (f r) = st_ID r" and "\<And>r. st_ArrivedAt (f r) = st_ArrivedAt r"
    and "\<And>r. st_StartedAt (f r) = st_StartedAt r"
  shows "follows records_kept (Stops_UpdateFields E i f)"
  by (rule follows_leads) (rule records_stop_write; simp add: assms)

end
