(* ===== verification/FieldConfig.thy ===== *)
theory FieldConfig
  imports Runs "HOL-Library.AList" "HOL-Library.Char_ord" "HOL-Library.List_Lexorder"
begin

text \<open>
  internal/fieldconfig (catalog.go, resolve.go), internal/services/fieldconfig_service.go and the
  FieldConfigRepository of internal/repository/dispatch.go: which fields of the agreement and order
  forms a company requires, accepts or refuses. The code declares the fields, the database holds a
  company's decisions, and the same resolved answer draws the form and judges a submission.
\<close>

section \<open>The catalogue\<close>

abbreviation Required :: string where "Required \<equiv> ''required''"
abbreviation Optional :: string where "Optional \<equiv> ''optional''"
abbreviation Hidden :: string where "Hidden \<equiv> ''hidden''"

abbreviation EntityAgreement :: string where "EntityAgreement \<equiv> ''agreement''"
abbreviation EntityOrder :: string where "EntityOrder \<equiv> ''order''"

abbreviation TypeString :: string where "TypeString \<equiv> ''string''"
abbreviation TypeNumber :: string where "TypeNumber \<equiv> ''number''"
abbreviation TypeBoolean :: string where "TypeBoolean \<equiv> ''boolean''"
abbreviation TypeDate :: string where "TypeDate \<equiv> ''date''"
abbreviation TypeDateTime :: string where "TypeDateTime \<equiv> ''datetime''"
abbreviation TypeRef :: string where "TypeRef \<equiv> ''ref''"
abbreviation TypeList :: string where "TypeList \<equiv> ''list''"

definition Valid :: "string \<Rightarrow> bool" where
  "Valid r \<longleftrightarrow> r = Required \<or> r = Optional \<or> r = Hidden"

text \<open>A declared field; its entity is the one it is catalogued under.\<close>

datatype field = Field (fd_Key: string) (fd_DataType: string) (fd_Locked: bool) (fd_Default: string)
  (fd_Group: string) (fd_Label: string) (fd_Help: string) (fd_Sort: int)

definition agreementFields :: "field list" where
  "agreementFields =
  [Field ''customerId'' TypeRef False Required ''Parties'' ''Customer'' [] 10,
   Field ''agreementType'' TypeString False Required ''Parties'' ''Agreement type'' ''Single or multiple shipment'' 20,
   Field ''validFrom'' TypeDate False Required ''Validity'' ''Effective date'' [] 30,
   Field ''validUntil'' TypeDate False Required ''Validity'' ''Expiry date'' [] 40,
   Field ''route.originCityId'' TypeRef False Required ''Route'' ''Origin city'' [] 50,
   Field ''route.destinationCityId'' TypeRef False Required ''Route'' ''Destination city'' [] 60,
   Field ''route.originDistrictId'' TypeRef False Hidden ''Route'' ''Origin kecamatan'' ''Enable when lanes are priced below city level.'' 70,
   Field ''route.destinationDistrictId'' TypeRef False Hidden ''Route'' ''Destination kecamatan'' ''Enable when lanes are priced below city level.'' 80,
   Field ''truckTypeId'' TypeRef False Optional ''Fleet'' ''Truck type'' [] 90,
   Field ''truckMatrix'' TypeList False Hidden ''Fleet'' ''Truck type matrix'' ''Enable to agree specific body-and-size combinations rather than a single truck type.'' 95,
   Field ''cargoTypeId'' TypeRef False Optional ''Cargo'' ''Cargo type'' [] 100,
   Field ''cargoItemIds'' TypeList False Optional ''Cargo'' ''Cargo items'' [] 110,
   Field ''pricingTypeId'' TypeRef False Required ''Commercial'' ''Pricing type'' [] 120,
   Field ''price'' TypeNumber False Required ''Commercial'' ''Price'' [] 130,
   Field ''minQuantity'' TypeNumber False Optional ''Commercial'' ''Minimum load'' [] 140,
   Field ''paymentTypeId'' TypeRef False Optional ''Commercial'' ''Payment terms'' [] 150,
   Field ''termsAndConditions'' TypeString False Optional ''Commercial'' ''Terms and conditions'' [] 160,
   Field ''paymentTermDays'' TypeNumber False Optional ''Commercial'' ''Payment terms (TOP days)'' [] 165,
   Field ''incomeTaxIncluded'' TypeBoolean False Optional ''Commercial'' ''PPh 23 included in price'' [] 170,
   Field ''minLoad'' TypeNumber False Optional ''Commercial'' ''Minimum load'' [] 175,
   Field ''maxLoad'' TypeNumber False Optional ''Commercial'' ''Maximum load'' [] 180,
   Field ''lanes.loadingPoints'' TypeList False Hidden ''Route'' ''Loading points'' ''Enable to name the warehouses in the contract instead of pricing a city pair.'' 85,
   Field ''lanes.unloadingPoints'' TypeList False Hidden ''Route'' ''Unloading points'' ''One per shipment, paired with the loading point of the same position.'' 86,
   Field ''multiCustomers'' TypeList False Hidden ''Parties'' ''Additional customers'' ''Enable for a contract covering several customers, each with its own lanes.'' 25,
   Field ''billingSplit'' TypeString False Hidden ''Commercial'' ''Billing split'' ''How one agreed price is divided between those customers: by tonnage, or equally.'' 185,
   Field ''allowance.upfrontPercent'' TypeNumber False Hidden ''Commercial'' ''Driver allowance paid upfront (%)'' ''Enable to agree the allowance on the contract instead of per order.'' 190]"

definition orderFields :: "field list" where
  "orderFields =
  [Field ''customerId'' TypeRef False Required ''Parties'' ''Customer'' [] 10,
   Field ''agreementId'' TypeRef False Required ''Parties'' ''Agreement'' [] 20,
   Field ''originWarehouseId'' TypeRef True Required ''Route'' ''Loading point'' [] 30,
   Field ''destinationWarehouseId'' TypeRef True Required ''Route'' ''Unloading point'' [] 40,
   Field ''pickupAt'' TypeDateTime False Required ''Schedule'' ''Estimated loading time'' [] 50,
   Field ''expiresAt'' TypeDateTime False Optional ''Schedule'' ''Order expiry'' [] 60,
   Field ''cargoTypeId'' TypeRef False Optional ''Cargo'' ''Cargo type'' [] 70,
   Field ''items'' TypeList False Hidden ''Cargo'' ''Itemised cargo'' ''Enable to record every component with its own weight and dimensions.'' 80,
   Field ''quantity'' TypeNumber False Optional ''Cargo'' ''Quantity'' [] 90,
   Field ''weightKg'' TypeNumber False Optional ''Cargo'' ''Total weight (kg)'' [] 100,
   Field ''volumeM3'' TypeNumber False Optional ''Cargo'' (''Total volume (m'' @ [CHR 0xC2, CHR 0xB3] @ '')'') [] 110,
   Field ''referenceNumber'' TypeString False Optional ''Reference'' ''Customer reference'' [] 120,
   Field ''notes'' TypeString False Optional ''Reference'' ''Notes'' [] 130,
   Field ''additionalNeeds'' TypeList False Optional ''Requirements'' ''Additional needs'' ''Insurance, tarpaulin, escort.'' 140,
   Field ''orderSafety'' TypeRef False Hidden ''Requirements'' ''Order safety'' ''Standard, GPS tracking, security escort, high value.'' 150,
   Field ''externalId'' TypeString False Hidden ''Reference'' ''External ID'' ''Your own system's identifier for this order.'' 160,
   Field ''warehouseLabel'' TypeString False Hidden ''Reference'' ''Warehouse label'' [] 170]"

definition index :: "field list \<Rightarrow> (string \<times> field) list" where
  "index flds = fold (\<lambda>f. AList.update (fd_Key f) f) flds []"

text \<open>An entity that is not declared is the nil map.\<close>

definition Catalog :: "string \<Rightarrow> (string \<times> field) list option" where
  "Catalog entity =
     (if entity = EntityAgreement then Some (index agreementFields)
      else if entity = EntityOrder then Some (index orderFields) else None)"

definition catalog :: "string \<Rightarrow> (string \<times> field) list" where
  "catalog entity = (case Catalog entity of Some m \<Rightarrow> m | None \<Rightarrow> [])"

text \<open>\<open>sortFields\<close>: each field sinks to the left past those with a greater sort number.\<close>

fun sink :: "field \<Rightarrow> field list \<Rightarrow> field list" where
  "sink f [] = [f]"
| "sink f (g # left) = (if fd_Sort f < fd_Sort g then g # sink f left else f # g # left)"

definition sortFields :: "field list \<Rightarrow> field list" where
  "sortFields flds = rev (fold sink flds [])"

definition Declared :: "string \<Rightarrow> field list" where
  "Declared entity = sortFields (map snd (catalog entity))"

section \<open>A company's configuration\<close>

record resolved =
  rs_Field :: field
  rs_Requirement :: string
  rs_EffectiveLabel :: string
  rs_Overridden :: bool

record override =
  ov_Entity :: string
  ov_Key :: string
  ov_Requirement :: string
  ov_LabelOverride :: string

text \<open>The map of resolved fields is an association list, each key once.\<close>

record config =
  cfg_Entity :: string
  cfg_Fields :: "(string \<times> resolved) list"

definition undecided :: "field \<Rightarrow> resolved" where
  "undecided f = \<lparr>rs_Field = f, rs_Requirement = fd_Default f, rs_EffectiveLabel = fd_Label f,
     rs_Overridden = False\<rparr>"

definition decide :: "override \<Rightarrow> resolved \<Rightarrow> resolved" where
  "decide ov current =
     (let c1 = (if Valid (ov_Requirement ov)
           then current\<lparr>rs_Requirement := ov_Requirement ov, rs_Overridden := True\<rparr> else current)
      in if ov_LabelOverride ov \<noteq> []
         then c1\<lparr>rs_EffectiveLabel := ov_LabelOverride ov, rs_Overridden := True\<rparr> else c1)"

definition apply_override ::
  "string \<Rightarrow> override \<Rightarrow> (string \<times> resolved) list \<Rightarrow> (string \<times> resolved) list" where
  "apply_override entity ov flds =
     (if ov_Entity ov \<noteq> entity then flds
      else case map_of flds (ov_Key ov) of
        None \<Rightarrow> flds
      | Some current \<Rightarrow> if fd_Locked (rs_Field current) then flds
          else AList.update (ov_Key ov) (decide ov current) flds)"

definition Resolve :: "string \<Rightarrow> override list \<Rightarrow> config" where
  "Resolve entity overrides =
     \<lparr>cfg_Entity = entity,
      cfg_Fields = fold (apply_override entity) overrides
        (map (\<lambda>(k, f). (k, undecided f)) (catalog entity))\<rparr>"

definition Visible :: "config \<Rightarrow> string \<Rightarrow> bool" where
  "Visible c key = (case map_of (cfg_Fields c) key of Some f \<Rightarrow> rs_Requirement f \<noteq> Hidden | None \<Rightarrow> False)"

definition RequirementOf :: "config \<Rightarrow> string \<Rightarrow> string" where
  "RequirementOf c key =
     (case map_of (cfg_Fields c) key of Some f \<Rightarrow> rs_Requirement f | None \<Rightarrow> Optional)"

record validation_error =
  ve_Missing :: "string list"
  ve_NotWanted :: "string list"
  ve_labels :: "(string \<times> string) list"

definition labelsFor :: "validation_error \<Rightarrow> string list \<Rightarrow> string list" where
  "labelsFor e keys = map (\<lambda>k. case map_of (ve_labels e) k of Some l \<Rightarrow> l | None \<Rightarrow> k) keys"

fun join :: "string \<Rightarrow> string list \<Rightarrow> string" where
  "join sep [] = []"
| "join sep [s] = s"
| "join sep (s # ss) = s @ sep @ join sep ss"

definition validation_error_text :: "validation_error \<Rightarrow> string" where
  "validation_error_text e = join ''; ''
     ((if ve_Missing e = [] then [] else [''missing required: '' @ join '', '' (labelsFor e (ve_Missing e))]) @
      (if ve_NotWanted e = [] then []
       else [''not enabled for your company: '' @ join '', '' (labelsFor e (ve_NotWanted e))]))"

text \<open>\<open>present\<close> says which keys the request supplied.\<close>

definition Config_Validate :: "config \<Rightarrow> (string \<Rightarrow> bool) \<Rightarrow> validation_error option" where
  "Config_Validate c present =
     (let missing = sort (map fst (filter (\<lambda>(k, f). rs_Requirement f = Required \<and> \<not> present k) (cfg_Fields c)));
          notWanted = sort (map fst (filter (\<lambda>(k, f). rs_Requirement f = Hidden \<and> present k) (cfg_Fields c)))
      in if missing = [] \<and> notWanted = [] then None
         else Some \<lparr>ve_Missing = missing, ve_NotWanted = notWanted,
                ve_labels = map (\<lambda>(k, f). (k, rs_EffectiveLabel f)) (cfg_Fields c)\<rparr>)"

definition CheckOverride :: "string \<Rightarrow> string \<Rightarrow> string \<Rightarrow> unit result" where
  "CheckOverride entity key r =
     (case map_of (catalog entity) key of
        None \<Rightarrow> Inl (Err ErrValidation (''fieldconfig: '' @ entity @ '' has no field '' @ key))
      | Some f \<Rightarrow>
          if fd_Locked f then Inl (Err ErrValidation (''fieldconfig: '' @ fd_Label f @ '' cannot be reconfigured''))
          else if \<not> Valid r then Inl (Err ErrValidation (''fieldconfig: '' @ r @ '' is not a requirement''))
          else Inr ())"

section \<open>The register of decisions\<close>

definition decides_on :: "uuid \<Rightarrow> string \<Rightarrow> string \<Rightarrow> field_override \<Rightarrow> bool" where
  "decides_on c e k r \<longleftrightarrow> fo_CompanyID r = c \<and> fo_Entity r = e \<and> fo_Key r = k"

definition to_override :: "field_override \<Rightarrow> override" where
  "to_override r = \<lparr>ov_Entity = fo_Entity r, ov_Key = fo_Key r, ov_Requirement = fo_Requirement r,
     ov_LabelOverride = (case fo_LabelOverride r of Some l \<Rightarrow> l | None \<Rightarrow> [])\<rparr>"

definition Overrides :: "env \<Rightarrow> uuid \<Rightarrow> string \<Rightarrow> (db, override list) op" where
  "Overrides E companyID entity = call E FieldsOverrides (query (\<lambda>d.
     Inr (map to_override (filter (\<lambda>r. fo_CompanyID r = companyID \<and> fo_Entity r = entity) (db_overrides d)))))"

text \<open>The default of a key that is not declared is the empty requirement.\<close>

definition default_of :: "string \<Rightarrow> string \<Rightarrow> string" where
  "default_of entity key = (case map_of (catalog entity) key of Some f \<Rightarrow> fd_Default f | None \<Rightarrow> [])"

definition SetOverride ::
  "env \<Rightarrow> uuid \<Rightarrow> string \<Rightarrow> string \<Rightarrow> string \<Rightarrow> string option \<Rightarrow> uuid \<Rightarrow> (db, unit) op" where
  "SetOverride E companyID entity key requirement label actorID = call E FieldsSetOverride
     (if requirement = default_of entity key \<and> (label = None \<or> label = Some [])
      then exec (\<lambda>d. d\<lparr>db_overrides := filter (\<lambda>r. \<not> decides_on companyID entity key r) (db_overrides d)\<rparr>)
      else exec (\<lambda>d. d\<lparr>db_overrides :=
        (if list_ex (decides_on companyID entity key) (db_overrides d)
         then update_where (decides_on companyID entity key)
                (\<lambda>r. r\<lparr>fo_Requirement := requirement, fo_LabelOverride := label,
                       fo_UpdatedByUserID := Some actorID\<rparr>) (db_overrides d)
         else db_overrides d @ [\<lparr>fo_CompanyID = companyID, fo_Entity = entity, fo_Key = key,
                fo_Requirement = requirement, fo_LabelOverride = label,
                fo_UpdatedByUserID = Some actorID\<rparr>])\<rparr>))"

section \<open>The service\<close>

definition FieldConfig_For :: "env \<Rightarrow> uuid \<Rightarrow> string \<Rightarrow> (db, config) op" where
  "FieldConfig_For E companyID entity =
     (case Catalog entity of
        None \<Rightarrow> fail (Err ErrValidation (''no configurable entity '' @ entity))
      | Some _ \<Rightarrow> andThen (Overrides E companyID entity) (\<lambda>overrides. ok (Resolve entity overrides)))"

record field_setting =
  fs_Key :: string
  fs_Requirement :: string
  fs_LabelOverride :: "string option"

fun check_all :: "string \<Rightarrow> field_setting list \<Rightarrow> unit result" where
  "check_all entity [] = Inr ()"
| "check_all entity (s # ss) =
     (case CheckOverride entity (fs_Key s) (fs_Requirement s) of Inl e \<Rightarrow> Inl e | Inr _ \<Rightarrow> check_all entity ss)"

fun write_all :: "env \<Rightarrow> actor \<Rightarrow> string \<Rightarrow> field_setting list \<Rightarrow> (db, unit) op" where
  "write_all E actor entity [] = ok ()"
| "write_all E actor entity (s # ss) =
     andThen (SetOverride E (a_CompanyID actor) entity (fs_Key s) (fs_Requirement s) (fs_LabelOverride s)
       (a_UserID actor)) (\<lambda>_. write_all E actor entity ss)"

definition FieldConfig_Update :: "env \<Rightarrow> actor \<Rightarrow> string \<Rightarrow> field_setting list \<Rightarrow> (db, config) op" where
  "FieldConfig_Update E actor entity settings =
     andThen (from_result (check_all entity settings)) (\<lambda>_.
     andThen (write_all E actor entity settings) (\<lambda>_.
     FieldConfig_For E (a_CompanyID actor) entity))"

definition FieldConfig_Validate :: "env \<Rightarrow> uuid \<Rightarrow> string \<Rightarrow> (string \<Rightarrow> bool) \<Rightarrow> (db, unit) op" where
  "FieldConfig_Validate E companyID entity present =
     andThen (FieldConfig_For E companyID entity) (\<lambda>cfg.
     case Config_Validate cfg present of
       Some e \<Rightarrow> fail (Err ErrValidation (validation_error_text e))
     | None \<Rightarrow> ok ())"

section \<open>Facts\<close>

lemma readonly_fields [op_rules]:
  "readonly (Overrides E c e)" "readonly (FieldConfig_For E c e)" "readonly (FieldConfig_Validate E c e p)"
proof -
  show 1: "readonly (Overrides E c e)" for c e
    unfolding Overrides_def by (intro op_rules)
  show 2: "readonly (FieldConfig_For E c e)" for c e
    unfolding FieldConfig_For_def by (intro op_rules 1)
  show "readonly (FieldConfig_Validate E c e p)"
    unfolding FieldConfig_Validate_def by (intro op_rules 2)
qed

lemmas fields_read_rules [op_rules] = readonly_fields [THEN keeps_readonly]
  readonly_fields [THEN preserves_readonly] readonly_fields [THEN clean_readonly]

subsection \<open>The catalogue\<close>

lemma index_distinct: "distinct (map fst (index flds))"
proof -
  have "distinct (map fst m) \<Longrightarrow> distinct (map fst (fold (\<lambda>f. AList.update (fd_Key f) f) flds m))" for m
    by (induction flds arbitrary: m) (auto intro: distinct_update)
  then show ?thesis by (simp add: index_def)
qed

lemma catalog_distinct: "distinct (map fst (catalog entity))"
  by (simp add: catalog_def Catalog_def index_distinct)

lemma catalog_declared: "list_all (\<lambda>(k, f). fd_Key f = k \<and> Valid (fd_Default f) \<and>
    (fd_Locked f \<longrightarrow> fd_Default f = Required)) (catalog EntityAgreement @ catalog EntityOrder)"
  by code_simp

lemma catalog_valid:
  assumes "map_of (catalog entity) k = Some f"
  shows "fd_Key f = k \<and> Valid (fd_Default f) \<and> (fd_Locked f \<longrightarrow> fd_Default f = Required)"
proof -
  from assms have "(k, f) \<in> set (catalog entity)" by (rule map_of_SomeD)
  moreover from this have "entity = EntityAgreement \<or> entity = EntityOrder"
    by (auto simp: catalog_def Catalog_def split: if_splits)
  ultimately show ?thesis using catalog_declared by (auto simp: list_all_iff)
qed

lemma set_sink [simp]: "set (sink f left) = insert f (set left)"
  by (induction left) auto

lemma sorted_sink:
  "sorted (map fd_Sort (rev left)) \<Longrightarrow> sorted (map fd_Sort (rev (sink f left)))"
  by (induction left) (auto simp: sorted_append)

lemma sorted_sortFields: "sorted (map fd_Sort (sortFields flds))"
proof -
  have "sorted (map fd_Sort (rev acc)) \<Longrightarrow> sorted (map fd_Sort (rev (fold sink flds acc)))" for acc
    by (induction flds arbitrary: acc) (auto intro: sorted_sink)
  then show ?thesis by (simp add: sortFields_def)
qed

lemma set_sortFields [simp]: "set (sortFields flds) = set flds"
proof -
  have "set (fold sink flds acc) = set flds \<union> set acc" for acc
    by (induction flds arbitrary: acc) auto
  then show ?thesis by (simp add: sortFields_def)
qed

subsection \<open>Resolving\<close>

lemma keys_apply [simp]: "map fst (apply_override entity ov flds) = map fst flds"
proof -
  have "map fst (AList.update k v flds) = map fst flds" if "map_of flds k = Some w" for k v w
    using that by (induction flds) (auto split: if_splits)
  then show ?thesis by (auto simp: apply_override_def split: option.splits)
qed

lemma keys_fold [simp]: "map fst (fold (apply_override entity) ovs flds) = map fst flds"
  by (induction ovs arbitrary: flds) auto

lemma keys_Resolve [simp]: "map fst (cfg_Fields (Resolve entity ovs)) = map fst (catalog entity)"
  by (simp add: Resolve_def comp_def case_prod_beta)

text \<open>What one override does to one entry.\<close>

lemma map_of_apply:
  "map_of (apply_override entity ov flds) k =
     (if ov_Entity ov = entity \<and> ov_Key ov = k
      then map_option (\<lambda>c. if fd_Locked (rs_Field c) then c else decide ov c) (map_of flds k)
      else map_of flds k)"
  by (auto simp: apply_override_def update_conv split: option.splits)

lemma decide_field [simp]: "rs_Field (decide ov c) = rs_Field c"
  by (simp add: decide_def Let_def)

lemma decide_requirement:
  "rs_Requirement (decide ov c) = (if Valid (ov_Requirement ov) then ov_Requirement ov else rs_Requirement c)"
  by (simp add: decide_def Let_def)

lemma map_of_start:
  "map_of (map (\<lambda>(k, f). (k, undecided f)) m) k = map_option undecided (map_of m k)"
  by (induction m) auto

text \<open>The requirement a list of overrides leaves a key with.\<close>

definition demanded :: "string \<Rightarrow> string \<Rightarrow> override list \<Rightarrow> string \<Rightarrow> string" where
  "demanded entity k ovs r = fold (\<lambda>ov r. if ov_Entity ov = entity \<and> ov_Key ov = k \<and> Valid (ov_Requirement ov)
     then ov_Requirement ov else r) ovs r"

lemma map_of_fold:
  "map_of flds k = Some c \<Longrightarrow>
     \<exists>c'. map_of (fold (apply_override entity) ovs flds) k = Some c' \<and> rs_Field c' = rs_Field c \<and>
       (if fd_Locked (rs_Field c) then c' = c
        else rs_Requirement c' = demanded entity k ovs (rs_Requirement c))"
proof (induction ovs arbitrary: flds c)
  case (Cons ov ovs)
  let ?c = "if ov_Entity ov = entity \<and> ov_Key ov = k \<and> \<not> fd_Locked (rs_Field c) then decide ov c else c"
  have "map_of (apply_override entity ov flds) k = Some ?c"
    using Cons.prems by (simp add: map_of_apply)
  from Cons.IH [OF this] show ?case
    by (auto simp: demanded_def decide_requirement split: if_splits)
qed (simp add: demanded_def)

lemma Resolve_declared:
  assumes "map_of (catalog entity) k = Some f"
  obtains c where "map_of (cfg_Fields (Resolve entity ovs)) k = Some c" "rs_Field c = f"
    "fd_Locked f \<Longrightarrow> c = undecided f"
    "\<not> fd_Locked f \<Longrightarrow> rs_Requirement c = demanded entity k ovs (fd_Default f)"
proof -
  have "map_of (map (\<lambda>(k, f). (k, undecided f)) (catalog entity)) k = Some (undecided f)"
    using assms by (simp add: map_of_start)
  from map_of_fold [OF this, of entity ovs] show thesis
    using that by (auto simp: Resolve_def undecided_def split: if_splits)
qed

lemma Resolve_undeclared:
  "map_of (catalog entity) k = None \<longleftrightarrow> map_of (cfg_Fields (Resolve entity ovs)) k = None"
  by (simp only: map_of_eq_None_iff set_map [symmetric] keys_Resolve)

lemma RequirementOf_Resolve:
  assumes "map_of (catalog entity) k = Some f"
  shows "RequirementOf (Resolve entity ovs) k =
    (if fd_Locked f then Required else demanded entity k ovs (fd_Default f))"
  by (rule Resolve_declared [OF assms, of ovs])
     (use catalog_valid [OF assms] in \<open>auto simp: RequirementOf_def undecided_def\<close>)

subsection \<open>Judging a submission\<close>

lemma Config_Validate_None:
  assumes "distinct (map fst (cfg_Fields c))"
  shows "Config_Validate c present = None \<longleftrightarrow>
    (\<forall>k r. map_of (cfg_Fields c) k = Some r \<longrightarrow>
       (rs_Requirement r = Required \<longrightarrow> present k) \<and> (rs_Requirement r = Hidden \<longrightarrow> \<not> present k))"
proof -
  have "sort xs = [] \<longleftrightarrow> xs = []" for xs :: "string list"
    by (metis set_empty set_sort)
  then show ?thesis
    using assms by (auto simp: Config_Validate_def Let_def filter_empty_conv)
qed

lemma Config_Validate_Some:
  assumes "Config_Validate c present = Some e"
  shows "set (ve_Missing e) = {k. \<exists>r. (k, r) \<in> set (cfg_Fields c) \<and> rs_Requirement r = Required \<and> \<not> present k}"
    and "set (ve_NotWanted e) = {k. \<exists>r. (k, r) \<in> set (cfg_Fields c) \<and> rs_Requirement r = Hidden \<and> present k}"
    and "sorted (ve_Missing e)" and "sorted (ve_NotWanted e)"
  using assms by (force simp: Config_Validate_def Let_def split: if_splits)+

subsection \<open>Storing decisions\<close>

definition decisions_unique :: "db \<Rightarrow> bool" where
  "decisions_unique d \<longleftrightarrow> distinct (map (\<lambda>r. (fo_CompanyID r, fo_Entity r, fo_Key r)) (db_overrides d))"

lemma unique_SetOverride [op_rules]: "preserves decisions_unique (SetOverride E c e k r l u)"
proof -
  have "map (\<lambda>r. (fo_CompanyID r, fo_Entity r, fo_Key r)) (update_where P (\<lambda>row::field_override. row\<lparr>fo_Requirement := r,
      fo_LabelOverride := l, fo_UpdatedByUserID := Some u\<rparr>) rows) =
      map (\<lambda>r. (fo_CompanyID r, fo_Entity r, fo_Key r)) rows" for P rows
    by (rule map_update_where) simp
  then show ?thesis
    by (auto simp: preserves_def SetOverride_def call_def fail_def exec_def decisions_unique_def keyed_filter
        decides_on_def list_ex_iff)
qed

text \<open>The requirement a company's stored decision gives a key.\<close>

definition effective :: "db \<Rightarrow> uuid \<Rightarrow> string \<Rightarrow> string \<Rightarrow> string \<Rightarrow> string" where
  "effective d c e k r = (case find (decides_on c e k) (db_overrides d) of
     Some row \<Rightarrow> if Valid (fo_Requirement row) then fo_Requirement row else r | None \<Rightarrow> r)"

lemma demanded_stored:
  assumes "decisions_unique d"
  shows "demanded e k (map to_override (filter (\<lambda>r. fo_CompanyID r = c \<and> fo_Entity r = e) (db_overrides d))) r =
    effective d c e k r"
proof -
  have none: "demanded e k (map to_override (filter (\<lambda>r. fo_CompanyID r = c \<and> fo_Entity r = e) rows)) r = r"
    if "\<forall>row\<in>set rows. \<not> decides_on c e k row" for rows r
    using that by (induction rows) (auto simp: demanded_def to_override_def decides_on_def)
  have "demanded e k (map to_override (filter (\<lambda>r. fo_CompanyID r = c \<and> fo_Entity r = e) rows)) r =
      (case find (decides_on c e k) rows of
         Some row \<Rightarrow> if Valid (fo_Requirement row) then fo_Requirement row else r | None \<Rightarrow> r)"
    if "distinct (map (\<lambda>r. (fo_CompanyID r, fo_Entity r, fo_Key r)) rows)" for rows
    using that
  proof (induction rows)
    case (Cons row rows)
    show ?case
    proof (cases "decides_on c e k row")
      case True
      from Cons.prems have "(fo_CompanyID row, fo_Entity row, fo_Key row) \<notin>
          (\<lambda>r. (fo_CompanyID r, fo_Entity r, fo_Key r)) ` set rows" by simp
      with True have rest: "\<forall>row\<in>set rows. \<not> decides_on c e k row"
        by (auto simp: decides_on_def image_iff)
      have "demanded e k (map to_override (filter (\<lambda>r. fo_CompanyID r = c \<and> fo_Entity r = e) (row # rows))) r =
          demanded e k (map to_override (filter (\<lambda>r. fo_CompanyID r = c \<and> fo_Entity r = e) rows))
            (if Valid (fo_Requirement row) then fo_Requirement row else r)"
        using True by (simp add: demanded_def to_override_def decides_on_def)
      with True show ?thesis using none [OF rest] by simp
    next
      case False
      then have "demanded e k (map to_override (filter (\<lambda>r. fo_CompanyID r = c \<and> fo_Entity r = e) (row # rows))) r =
          demanded e k (map to_override (filter (\<lambda>r. fo_CompanyID r = c \<and> fo_Entity r = e) rows)) r"
        by (auto simp: demanded_def to_override_def decides_on_def)
      with False Cons show ?thesis by simp
    qed
  qed (simp add: demanded_def)
  with assms show ?thesis by (simp add: decisions_unique_def effective_def)
qed

lemma For_Inr:
  assumes "FieldConfig_For E c e d = (Inr cfg, d')" and "decisions_unique d"
    and "map_of (catalog e) k = Some f"
  shows "RequirementOf cfg k = (if fd_Locked f then Required else effective d c e k (fd_Default f))"
  using assms demanded_stored [OF assms(2), of e k c]
  by (auto simp: FieldConfig_For_def andThen_Inr Overrides_def call_Inr RequirementOf_Resolve
      split: option.splits)

lemma For_undeclared:
  assumes "FieldConfig_For E c e d = (Inr cfg, d')" and "map_of (catalog e) k = None"
  shows "RequirementOf cfg k = Optional"
proof -
  from assms(1) obtain ovs where "cfg = Resolve e ovs"
    by (auto simp: FieldConfig_For_def andThen_Inr split: option.splits)
  with assms(2) show ?thesis
    using Resolve_undeclared [of e k ovs] by (simp add: RequirementOf_def)
qed

lemma find_filter_other: "(\<And>x. P x \<Longrightarrow> Q x) \<Longrightarrow> find P (filter Q xs) = find P xs"
  by (induction xs) auto

lemma find_update_other:
  "(\<And>x. P x \<Longrightarrow> \<not> Q x) \<Longrightarrow> (\<And>x. Q x \<Longrightarrow> P (f x) = P x) \<Longrightarrow> find P (update_where Q f xs) = find P xs"
  by (induction xs) auto

lemma find_filter_none: "find P (filter (\<lambda>x. \<not> P x) xs) = None"
  by (induction xs) auto

lemma find_update_same:
  "(\<And>x. P (f x) = P x) \<Longrightarrow> find P (update_where P f xs) = map_option f (find P xs)"
  by (induction xs) auto

lemma SetOverride_effective:
  assumes "SetOverride E c e k req label u d = (Inr x, d')" and "Valid req"
  shows "effective d' c e k (default_of e k) = req"
    and "(c', e', k') \<noteq> (c, e, k) \<Longrightarrow> effective d' c' e' k' r = effective d c' e' k' r"
proof -
  let ?P = "decides_on c e k"
  have up: "?P (row\<lparr>fo_Requirement := req, fo_LabelOverride := label, fo_UpdatedByUserID := Some u\<rparr>) = ?P row" for row
    by (simp add: decides_on_def)
  have ex: "list_ex ?P rows \<longleftrightarrow> find ?P rows \<noteq> None" for rows
    by (induction rows) auto
  have P: "?P \<lparr>fo_CompanyID = c, fo_Entity = e, fo_Key = k, fo_Requirement = req,
      fo_LabelOverride = label, fo_UpdatedByUserID = Some u\<rparr>"
    by (simp add: decides_on_def)
  show "effective d' c e k (default_of e k) = req"
    using assms P by (auto simp: SetOverride_def call_Inr effective_def find_filter_none
        find_update_same [of ?P, OF up] ex find_append split: if_splits option.splits)
  assume o: "(c', e', k') \<noteq> (c, e, k)"
  have other: "decides_on c' e' k' row \<Longrightarrow> \<not> ?P row" for row
    using o by (auto simp: decides_on_def)
  have "find (decides_on c' e' k') (update_where ?P (\<lambda>r. r\<lparr>fo_Requirement := req, fo_LabelOverride := label,
      fo_UpdatedByUserID := Some u\<rparr>) rows) = find (decides_on c' e' k') rows" for rows
    using other by (intro find_update_other) (auto simp: decides_on_def)
  then have "find (decides_on c' e' k') (db_overrides d') = find (decides_on c' e' k') (db_overrides d)"
    using assms(1) other P
    by (auto simp: SetOverride_def call_Inr find_filter_other find_append split: if_splits option.splits)
  then show "effective d' c' e' k' r = effective d c' e' k' r" by (simp add: effective_def)
qed

text \<open>What a list of settings asks of one key.\<close>

definition requested :: "field_setting list \<Rightarrow> string \<Rightarrow> string \<Rightarrow> string" where
  "requested settings k r = fold (\<lambda>s r. if fs_Key s = k then fs_Requirement s else r) settings r"

lemma CheckOverride_Inr:
  "CheckOverride e k r = Inr u \<longleftrightarrow> (\<exists>f. map_of (catalog e) k = Some f \<and> \<not> fd_Locked f \<and> Valid r)"
  by (auto simp: CheckOverride_def split: option.splits)

lemma check_all_Inr:
  "check_all e ss = Inr u \<longleftrightarrow>
     (\<forall>s\<in>set ss. \<exists>f. map_of (catalog e) (fs_Key s) = Some f \<and> \<not> fd_Locked f \<and> Valid (fs_Requirement s))"
proof (induction ss)
  case (Cons s ss)
  show ?case
  proof (cases "CheckOverride e (fs_Key s) (fs_Requirement s)")
    case (Inl err)
    then have "\<nexists>f. map_of (catalog e) (fs_Key s) = Some f \<and> \<not> fd_Locked f \<and> Valid (fs_Requirement s)"
      using CheckOverride_Inr [of e "fs_Key s" "fs_Requirement s" "()"] by auto
    with Inl show ?thesis by auto
  next
    case (Inr v)
    with CheckOverride_Inr [of e "fs_Key s" "fs_Requirement s" v] Cons show ?thesis by auto
  qed
qed simp

lemma requested_untouched: "\<forall>s\<in>set ss. fs_Key s \<noteq> k \<Longrightarrow> requested ss k r = r"
  by (induction ss) (auto simp: requested_def)

lemma write_all_effective:
  assumes "write_all E actor e ss d = (Inr u, d')" and "\<forall>s\<in>set ss. Valid (fs_Requirement s)"
  shows "effective d' (a_CompanyID actor) e k (default_of e k) =
      requested ss k (effective d (a_CompanyID actor) e k (default_of e k)) \<and>
    ((c', e') \<noteq> (a_CompanyID actor, e) \<longrightarrow> effective d' c' e' k' r = effective d c' e' k' r)"
  using assms
proof (induction ss arbitrary: d)
  case (Cons s ss)
  from Cons.prems obtain v d1 where s: "SetOverride E (a_CompanyID actor) e (fs_Key s) (fs_Requirement s)
      (fs_LabelOverride s) (a_UserID actor) d = (Inr v, d1)" and r: "write_all E actor e ss d1 = (Inr u, d')"
    by (auto simp: andThen_Inr)
  have v: "Valid (fs_Requirement s)" "\<forall>s\<in>set ss. Valid (fs_Requirement s)" using Cons.prems by auto
  have "effective d1 (a_CompanyID actor) e k (default_of e k) =
      (if fs_Key s = k then fs_Requirement s else effective d (a_CompanyID actor) e k (default_of e k))"
    using SetOverride_effective [OF s v(1)] by auto
  with Cons.IH [OF r v(2)] SetOverride_effective(2) [OF s v(1)] show ?case by (auto simp: requested_def)
qed (simp add: requested_def)

lemma unique_write_all: "preserves decisions_unique (write_all E actor e ss)"
  by (induction ss) (auto intro!: op_rules)

lemma FieldConfig_Update_Inr:
  assumes run: "FieldConfig_Update E actor e settings d = (Inr cfg, d')" and "decisions_unique d"
    and before: "FieldConfig_For E (a_CompanyID actor) e d = (Inr old, d)"
  shows "RequirementOf cfg k = requested settings k (RequirementOf old k)"
proof -
  from run obtain u where chk: "check_all e settings = Inr ()"
    and w: "write_all E actor e settings d = (Inr u, d')"
    and after: "FieldConfig_For E (a_CompanyID actor) e d' = (Inr cfg, d')"
    using readonlyD [OF readonly_fields(2)]
    by (fastforce simp: FieldConfig_Update_def andThen_Inr)
  have u': "decisions_unique d'" by (rule preservesD [OF unique_write_all w assms(2)])
  from chk have each: "\<forall>s\<in>set settings. \<exists>f. map_of (catalog e) (fs_Key s) = Some f \<and> \<not> fd_Locked f \<and>
      Valid (fs_Requirement s)" by (simp add: check_all_Inr)
  show ?thesis
  proof (cases "map_of (catalog e) k")
    case None
    with each have "requested settings k r = r" for r
      by (intro requested_untouched) auto
    then show ?thesis using For_undeclared [OF before None] For_undeclared [OF after None] by simp
  next
    case (Some f)
    show ?thesis
    proof (cases "fd_Locked f")
      case True
      with each Some have "requested settings k r = r" for r
        by (intro requested_untouched) auto
      then show ?thesis using For_Inr [OF before assms(2) Some] For_Inr [OF after u' Some] True by simp
    next
      case False
      with each have "\<forall>s\<in>set settings. Valid (fs_Requirement s)" by auto
      from write_all_effective [OF w this, of k]
      show ?thesis using For_Inr [OF before assms(2) Some] For_Inr [OF after u' Some] False Some
        by (simp add: default_of_def)
    qed
  qed
qed

end
