(* ===== verification/Agreements.thy ===== *)
theory Agreements
  imports Runs
begin

text \<open>
  When an agreement may price an order and which of its lines does: \<open>UnusableReason\<close> of
  internal/models/models.go, \<open>FindByID\<close> and \<open>FindRate\<close> of the AgreementRepository in
  internal/repository/repository.go, and the two fallbacks at the end of
  internal/services/order_service.go.
\<close>

section \<open>Usable agreements\<close>

text \<open>
  Calendar days, as day numbers: the Jakarta calendar (seven hours ahead of UTC, no summer time) and
  the UTC calendar the validity dates are stored in. The code compares midnights of those days in
  one zone, which compares the days.
\<close>

definition jakarta_day :: "time \<Rightarrow> int" where
  "jakarta_day t = (t + 7 * hour) div day"

definition utc_day :: "time \<Rightarrow> int" where
  "utc_day t = t div day"

text \<open>The reason, without the dates it prints; empty where the agreement can be used.\<close>

definition UnusableReason :: "agreement \<Rightarrow> time \<Rightarrow> bool \<Rightarrow> string" where
  "UnusableReason a on strictVerification =
     (if ag_StatusCode a \<noteq> AgreementActive
      then ''status '' @ StatusLabel DomainAgreement (ag_StatusCode a) @ '' (bukan Aktif)''
      else if strictVerification \<and> \<not> ag_Verified a then ''belum diverifikasi''
      else if jakarta_day on < utc_day (ag_ValidFrom a) then ''berlaku mulai ''
      else if utc_day (ag_ValidUntil a) < jakarta_day on then ''berakhir ''
      else [])"

definition IsUsable :: "agreement \<Rightarrow> time \<Rightarrow> bool \<Rightarrow> bool" where
  "IsUsable a on strictVerification \<longleftrightarrow> UnusableReason a on strictVerification = []"

lemma IsUsable_iff:
  "IsUsable a on strict \<longleftrightarrow> ag_StatusCode a = AgreementActive \<and> (strict \<longrightarrow> ag_Verified a) \<and>
     utc_day (ag_ValidFrom a) \<le> jakarta_day on \<and> jakarta_day on \<le> utc_day (ag_ValidUntil a)"
  by (auto simp: IsUsable_def UnusableReason_def)

section \<open>Reading agreements\<close>

definition Agreements_FindByID :: "env \<Rightarrow> uuid \<Rightarrow> uuid \<Rightarrow> (db, agreement) op" where
  "Agreements_FindByID E companyID i = call E AgreementsFindByID (query (\<lambda>d.
     one (find (\<lambda>a. ag_ID a = i \<and> (ag_ShipperCompanyID a = companyID \<or> ag_TransporterCompanyID a = companyID))
       (db_agreements d))))"

record lane =
  ln_OriginCityID :: string
  ln_DestinationCityID :: string
  ln_OriginDistrictID :: string
  ln_DestinationDistrictID :: string
  ln_TruckTypeID :: string

text \<open>\<open>column = value OR column IS NULL\<close>.\<close>

definition equals_or_null :: "string option \<Rightarrow> string \<Rightarrow> bool" where
  "equals_or_null column v \<longleftrightarrow> column = Some v \<or> column = None"

definition rate_covers :: "lane \<Rightarrow> agreement_rate \<Rightarrow> bool" where
  "rate_covers l r \<longleftrightarrow>
     equals_or_null (ar_OriginCityID r) (ln_OriginCityID l) \<and>
     equals_or_null (ar_DestinationCityID r) (ln_DestinationCityID l) \<and>
     equals_or_null (ar_TruckTypeID r) (ln_TruckTypeID l) \<and>
     (ln_OriginDistrictID l \<noteq> [] \<longrightarrow> equals_or_null (ar_OriginDistrictID r) (ln_OriginDistrictID l)) \<and>
     (ln_DestinationDistrictID l \<noteq> [] \<longrightarrow>
        equals_or_null (ar_DestinationDistrictID r) (ln_DestinationDistrictID l))"

definition specificity :: "agreement_rate \<Rightarrow> nat" where
  "specificity r = of_bool (ar_OriginCityID r \<noteq> None) + of_bool (ar_DestinationCityID r \<noteq> None) +
     of_bool (ar_TruckTypeID r \<noteq> None) + of_bool (ar_OriginDistrictID r \<noteq> None) +
     of_bool (ar_DestinationDistrictID r \<noteq> None)"

definition FindRate :: "env \<Rightarrow> uuid \<Rightarrow> lane \<Rightarrow> (db, agreement_rate) op" where
  "FindRate E agreementID l = call E AgreementsFindRate (query (\<lambda>d.
     one (pick_rate E specificity (filter (rate_covers l)
       (concat (map ag_Rates (filter (\<lambda>a. ag_ID a = agreementID) (db_agreements d))))))))"

text \<open>What is relied on of \<open>ORDER BY ... DESC LIMIT 1\<close>.\<close>

definition orders_by_key :: "env \<Rightarrow> bool" where
  "orders_by_key E \<longleftrightarrow> (\<forall>key rates. (rates = [] \<longrightarrow> pick_rate E key rates = None) \<and>
     (\<forall>r. pick_rate E key rates = Some r \<longrightarrow> r \<in> set rates \<and> (\<forall>s\<in>set rates. key s \<le> key r)) \<and>
     (rates \<noteq> [] \<longrightarrow> pick_rate E key rates \<noteq> None))"

lemma best_rate_Some:
  "best_rate key rates = Some r \<Longrightarrow> r \<in> set rates \<and> (\<forall>s\<in>set rates. key s \<le> key r)"
proof (induction rates arbitrary: r)
  case (Cons x rates)
  show ?case
  proof (cases "best_rate key rates")
    case None
    then have "rates = []" by (cases rates) (auto split: option.splits if_splits)
    with Cons.prems show ?thesis by simp
  next
    case (Some s)
    with Cons.IH [OF Some] Cons.prems show ?thesis by (auto split: if_splits)
  qed
qed simp

lemma best_rate_None: "best_rate key rates = None \<longleftrightarrow> rates = []"
  by (cases rates) (auto split: option.splits if_splits)

lemma calm_orders_by_key: "orders_by_key calm"
  using best_rate_Some by (auto simp: orders_by_key_def calm_def best_rate_None)

lemma FindRate_Inr:
  assumes "FindRate E i l d = (Inr r, d')" and "orders_by_key E"
  shows "d' = d \<and> (\<exists>a\<in>set (db_agreements d). ag_ID a = i \<and> r \<in> set (ag_Rates a)) \<and> rate_covers l r \<and>
    (\<forall>a\<in>set (db_agreements d). \<forall>s\<in>set (ag_Rates a). ag_ID a = i \<and> rate_covers l s \<longrightarrow> specificity s \<le> specificity r)"
proof -
  let ?rows = "filter (rate_covers l) (concat (map ag_Rates (filter (\<lambda>a. ag_ID a = i) (db_agreements d))))"
  from assms(1) have "d' = d" and p: "pick_rate E specificity ?rows = Some r"
    by (auto simp: FindRate_def call_Inr)
  from p assms(2) have "r \<in> set ?rows" "\<forall>s\<in>set ?rows. specificity s \<le> specificity r"
    unfolding orders_by_key_def by blast+
  with \<open>d' = d\<close> show ?thesis by auto
qed

section \<open>The fallbacks\<close>

definition deref :: "string option \<Rightarrow> string" where
  "deref s = (case s of None \<Rightarrow> [] | Some v \<Rightarrow> v)"

definition singlePricedAgreement :: "agreement \<Rightarrow> agreement_rate option" where
  "singlePricedAgreement a =
     (case ag_Rates a of
        [] \<Rightarrow> None
      | first # rest \<Rightarrow>
          if list_ex (\<lambda>r. ar_Price r \<noteq> ar_Price first \<or>
               deref (ar_PricingTypeID r) \<noteq> deref (ar_PricingTypeID first)) rest
          then None else Some first)"

definition same_warehouses :: "agreement_rate \<Rightarrow> order \<Rightarrow> bool" where
  "same_warehouses r ord \<longleftrightarrow>
     ar_OriginWarehouseID r \<noteq> None \<and> ar_DestinationWarehouseID r \<noteq> None \<and>
     ar_OriginWarehouseID r = o_OriginWarehouseID ord \<and>
     ar_DestinationWarehouseID r = o_DestinationWarehouseID ord"

definition rateByWarehouseOrOnlyRate :: "agreement \<Rightarrow> order \<Rightarrow> agreement_rate option" where
  "rateByWarehouseOrOnlyRate a ord =
     (case find (\<lambda>r. same_warehouses r ord) (ag_Rates a) of
        Some r \<Rightarrow> Some r
      | None \<Rightarrow> singlePricedAgreement a)"

text \<open>
  A price is never guessed: the fallback answers a line written for the order's own two warehouses,
  or a price that every line of the contract carries.
\<close>

lemma fallback_rate:
  assumes "rateByWarehouseOrOnlyRate a ord = Some r"
  shows "r \<in> set (ag_Rates a) \<and>
    (same_warehouses r ord \<or> (\<forall>s\<in>set (ag_Rates a). ar_Price s = ar_Price r))"
proof (cases "find (\<lambda>r. same_warehouses r ord) (ag_Rates a)")
  case (Some s)
  with assms find_Some_iff_first [OF Some] show ?thesis by (simp add: rateByWarehouseOrOnlyRate_def)
next
  case None
  with assms show ?thesis
    by (auto simp: rateByWarehouseOrOnlyRate_def singlePricedAgreement_def list_ex_iff
        split: list.splits if_splits)
qed

lemma readonly_agreements [op_rules]: "readonly (Agreements_FindByID E c i)" "readonly (FindRate E i l)"
  unfolding Agreements_FindByID_def FindRate_def by (intro op_rules)+

lemmas agreement_read_rules [op_rules] = readonly_agreements [THEN keeps_readonly]
  readonly_agreements [THEN preserves_readonly] readonly_agreements [THEN clean_readonly]

end
