(* ===== verification/Journey.thy ===== *)
theory Journey
  imports Runs
begin

text \<open>
  internal/services/order_flow.go and order_stops.go: which flow an order runs, the order its
  points are visited in, the stop rows derived from its detail, and the rebuild of the stored rows.
\<close>

section \<open>Point lists of the detail\<close>

fun nonblank_strings :: "json list \<Rightarrow> string list" where
  "nonblank_strings [] = []"
| "nonblank_strings (JStr s # vs) = (if s \<noteq> [] then s # nonblank_strings vs else nonblank_strings vs)"
| "nonblank_strings (_ # vs) = nonblank_strings vs"

definition warehouseList :: "detail \<Rightarrow> string \<Rightarrow> string list" where
  "warehouseList detail k = (case detail k of Some (JArr raw) \<Rightarrow> nonblank_strings raw | _ \<Rightarrow> [])"

record stop_pic =
  pic_Name :: string
  pic_Phone :: string

definition string_or_empty :: "json option \<Rightarrow> string" where
  "string_or_empty v = (case json_string v of Some s \<Rightarrow> s | None \<Rightarrow> [])"

definition pic_of :: "json \<Rightarrow> stop_pic" where
  "pic_of v = (case v of
     JObj m \<Rightarrow> \<lparr>pic_Name = string_or_empty (map_of m ''name''),
                 pic_Phone = string_or_empty (map_of m ''phone'')\<rparr>
   | _ \<Rightarrow> \<lparr>pic_Name = [], pic_Phone = []\<rparr>)"

definition picList :: "detail \<Rightarrow> string \<Rightarrow> stop_pic list" where
  "picList detail k = (case detail k of Some (JArr raw) \<Rightarrow> map pic_of raw | _ \<Rightarrow> [])"

section \<open>The two flows\<close>

abbreviation FlowSingle :: string where "FlowSingle \<equiv> ''single''"
abbreviation FlowMulti :: string where "FlowMulti \<equiv> ''multi''"

definition ShipmentCount :: "order \<Rightarrow> nat" where
  "ShipmentCount ord =
     (let loads = length (warehouseList (o_Detail ord) ''loadingPoints'');
          unloads = length (warehouseList (o_Detail ord) ''unloadingPoints'');
          n = (if loads < unloads then unloads else loads)
      in if n = 0 then 1 else n)"

definition OrderFlow :: "order \<Rightarrow> string" where
  "OrderFlow ord = (if 1 < ShipmentCount ord then FlowMulti else FlowSingle)"

section \<open>The visit order\<close>

record stop_ref =
  sr_Kind :: string
  sr_Index :: int

abbreviation load_ref :: "int \<Rightarrow> stop_ref" where
  "load_ref k \<equiv> \<lparr>sr_Kind = StopLoad, sr_Index = k\<rparr>"

abbreviation unload_ref :: "int \<Rightarrow> stop_ref" where
  "unload_ref k \<equiv> \<lparr>sr_Kind = StopUnload, sr_Index = k\<rparr>"

text \<open>One entry of \<open>stopSequence\<close>; \<open>None\<close> is the early \<open>return nil\<close>.\<close>

definition ref_of :: "json \<Rightarrow> stop_ref option" where
  "ref_of v = (case v of
     JObj m \<Rightarrow>
       (case (if map_of m ''type'' \<in> {Some (JStr ''muat''), Some (JStr StopLoad)} then Some StopLoad
              else if map_of m ''type'' \<in> {Some (JStr ''bongkar''), Some (JStr StopUnload)}
              then Some StopUnload else None) of
          None \<Rightarrow> None
        | Some kind \<Rightarrow>
            (case map_of m ''index'' of
               Some (JNum idx) \<Rightarrow> Some \<lparr>sr_Kind = kind, sr_Index = go_int idx\<rparr>
             | _ \<Rightarrow> None))
   | _ \<Rightarrow> None)"

fun refs_of :: "json list \<Rightarrow> stop_ref list option" where
  "refs_of [] = Some []"
| "refs_of (v # vs) = (case ref_of v of None \<Rightarrow> None
     | Some r \<Rightarrow> (case refs_of vs of None \<Rightarrow> None | Some rs \<Rightarrow> Some (r # rs)))"

definition storedSequence :: "detail \<Rightarrow> stop_ref list" where
  "storedSequence detail = (case detail ''stopSequence'' of
     Some (JArr raw) \<Rightarrow> (case refs_of raw of Some rs \<Rightarrow> rs | None \<Rightarrow> [])
   | _ \<Rightarrow> [])"

text \<open>The loop of \<open>validateSequence\<close>, with the two sets of indices already seen.\<close>

fun check_refs :: "stop_ref list \<Rightarrow> int \<Rightarrow> int \<Rightarrow> int set \<Rightarrow> int set \<Rightarrow> error option" where
  "check_refs [] loads unloads seenLoad seenUnload = None"
| "check_refs (r # rs) loads unloads seenLoad seenUnload =
     (if sr_Kind r = StopLoad then
        (if sr_Index r < 0 \<or> loads \<le> sr_Index r \<or> sr_Index r \<in> seenLoad
         then Some (Err ErrValidation ''stopSequence names loading point twice or not at all'')
         else check_refs rs loads unloads (insert (sr_Index r) seenLoad) seenUnload)
      else if sr_Kind r = StopUnload then
        (if sr_Index r < 0 \<or> unloads \<le> sr_Index r \<or> sr_Index r \<in> seenUnload
         then Some (Err ErrValidation ''stopSequence names unloading point twice or not at all'')
         else if sr_Index r < loads \<and> sr_Index r \<notin> seenLoad
         then Some (Err ErrValidation ''a shipment must be loaded before it is unloaded'')
         else check_refs rs loads unloads seenLoad (insert (sr_Index r) seenUnload))
      else check_refs rs loads unloads seenLoad seenUnload)"

definition validateSequence :: "stop_ref list \<Rightarrow> nat \<Rightarrow> nat \<Rightarrow> error option" where
  "validateSequence seq loads unloads =
     (if length seq \<noteq> loads + unloads
      then Some (Err ErrValidation ''stopSequence must list all points'')
      else check_refs seq (int loads) (int unloads) {} {})"

definition default_visit :: "nat \<Rightarrow> nat \<Rightarrow> stop_ref list" where
  "default_visit loads unloads =
     map (\<lambda>i. load_ref (int i)) [0..<loads] @ map (\<lambda>i. unload_ref (int i)) [0..<unloads]"

definition visitOrder :: "order \<Rightarrow> nat \<Rightarrow> nat \<Rightarrow> stop_ref list" where
  "visitOrder ord loads unloads =
     (let chosen = storedSequence (o_Detail ord)
      in if chosen = [] then default_visit loads unloads
         else if validateSequence chosen loads unloads \<noteq> None then default_visit loads unloads
         else chosen)"

definition ValidateStopSequence :: "order \<Rightarrow> error option" where
  "ValidateStopSequence ord =
     (let seq = storedSequence (o_Detail ord)
      in if seq = [] then None
         else validateSequence seq (length (warehouseList (o_Detail ord) ''loadingPoints''))
                (length (warehouseList (o_Detail ord) ''unloadingPoints'')))"

section \<open>The stop rows\<close>

definition maxStopsPerOrder :: nat where
  "maxStopsPerOrder = 200"

definition stopNo :: "int \<Rightarrow> int16" where
  "stopNo n = (if n < 1 then 1
     else if int maxStopsPerOrder < n then word_of_int (int maxStopsPerOrder)
     else word_of_int n)"

definition nonempty :: "string \<Rightarrow> string option" where
  "nonempty s = (if s = [] then None else Some s)"

definition blank_stop :: "int16 \<Rightarrow> int16 \<Rightarrow> string \<Rightarrow> string \<Rightarrow> order_stop" where
  "blank_stop seq no kind wh =
     \<lparr>st_ID = uuid_Nil, st_OrderID = uuid_Nil, st_Seq = seq, st_Kind = kind, st_ShipmentNo = no,
      st_WarehouseID = wh, st_PICName = None, st_PICPhone = None, st_ArrivedAt = None,
      st_ArrivedLatitude = None, st_ArrivedLongitude = None, st_WithinGeofence = None,
      st_StartedAt = None, st_FinishedAt = None, st_CargoMatches = None, st_CargoNote = None,
      st_CargoCheckedAt = None, st_PodID = None\<rparr>"

text \<open>The loop of \<open>stopsForOrder\<close>; the list built so far is its accumulator.\<close>

fun build_stops :: "string list \<Rightarrow> string list \<Rightarrow> stop_pic list \<Rightarrow> stop_pic list \<Rightarrow>
    stop_ref list \<Rightarrow> order_stop list \<Rightarrow> order_stop list" where
  "build_stops loads unloads loadPICs unloadPICs [] stops = stops"
| "build_stops loads unloads loadPICs unloadPICs (r # rs) stops =
     (let ids = (if sr_Kind r = StopUnload then unloads else loads);
          pics = (if sr_Kind r = StopUnload then unloadPICs else loadPICs);
          i = nat (sr_Index r)
      in if length ids \<le> i \<or> ids ! i = []
         then build_stops loads unloads loadPICs unloadPICs rs stops
         else if maxStopsPerOrder \<le> length stops then stops
         else
           let stop = blank_stop (stopNo (int (length stops) + 1)) (stopNo (sr_Index r + 1))
                        (sr_Kind r) (ids ! i);
               stop' = (if i < length pics
                        then stop\<lparr>st_PICName := nonempty (pic_Name (pics ! i)),
                                  st_PICPhone := nonempty (pic_Phone (pics ! i))\<rparr>
                        else stop)
           in build_stops loads unloads loadPICs unloadPICs rs (stops @ [stop']))"

text \<open>The point lists, or the order's two warehouse columns where a list is empty.\<close>

definition load_points :: "order \<Rightarrow> string list" where
  "load_points ord = (let loads = warehouseList (o_Detail ord) ''loadingPoints'' in
     if loads = [] then (case o_OriginWarehouseID ord of Some w \<Rightarrow> [w] | None \<Rightarrow> []) else loads)"

definition unload_points :: "order \<Rightarrow> string list" where
  "unload_points ord = (let unloads = warehouseList (o_Detail ord) ''unloadingPoints'' in
     if unloads = [] then (case o_DestinationWarehouseID ord of Some w \<Rightarrow> [w] | None \<Rightarrow> []) else unloads)"

definition stopsForOrder :: "order \<Rightarrow> order_stop list" where
  "stopsForOrder ord =
     (let loads = load_points ord; unloads = unload_points ord
      in if loads = [] \<or> unloads = [] then []
         else build_stops loads unloads
                (picList (o_Detail ord) ''loadingPics'') (picList (o_Detail ord) ''unloadingPics'')
                (visitOrder ord (length loads) (length unloads)) [])"

section \<open>Rebuilding the stored stops\<close>

definition stopLabel :: "order_stop \<Rightarrow> string" where
  "stopLabel stop = (if st_Kind stop = StopLoad then ''titik muat'' else ''titik bongkar'')"

definition same_point :: "order_stop \<Rightarrow> order_stop \<Rightarrow> bool" where
  "same_point a b \<longleftrightarrow> st_Seq a = st_Seq b \<and> st_Kind a = st_Kind b \<and>
     st_ShipmentNo a = st_ShipmentNo b \<and> st_WarehouseID a = st_WarehouseID b"

definition sameJourney :: "order_stop list \<Rightarrow> order_stop list \<Rightarrow> bool" where
  "sameJourney old want = (length old = length want \<and>
     list_all (\<lambda>(a, b). same_point a b) (zip old want))"

definition visited :: "order_stop \<Rightarrow> bool" where
  "visited s \<longleftrightarrow> st_ArrivedAt s \<noteq> None \<or> st_StartedAt s \<noteq> None \<or> st_FinishedAt s \<noteq> None"

definition firstVisited :: "order_stop list \<Rightarrow> order_stop option" where
  "firstVisited stops = find visited stops"

definition SyncStops :: "env \<Rightarrow> order \<Rightarrow> (db, unit) op" where
  "SyncStops E ord =
     (if \<not> stops_wired E then ok ()
      else case ValidateStopSequence ord of
        Some e \<Rightarrow> fail e
      | None \<Rightarrow>
          (let want = stopsForOrder ord in
           andThen (Stops_ListByOrder E (o_ID ord)) (\<lambda>old.
             if sameJourney old want then ok ()
             else case firstVisited old of
               Some s \<Rightarrow> fail (Err ErrValidation (''perjalanan sudah dimulai di '' @ stopLabel s))
             | None \<Rightarrow> Stops_Replace E (o_ID ord) want)))"

section \<open>What a visit order has to be\<close>

text \<open>
  Stated without the code's bookkeeping: every point is named exactly once, and the unloading of a
  shipment comes after its own loading. A point's kind is load or unload in every sequence the
  code checks, which \<open>proper\<close> says.
\<close>

definition all_points :: "nat \<Rightarrow> nat \<Rightarrow> stop_ref set" where
  "all_points loads unloads =
     (\<lambda>i. load_ref (int i)) ` {..<loads} \<union> (\<lambda>i. unload_ref (int i)) ` {..<unloads}"

definition loaded_first :: "stop_ref list \<Rightarrow> nat \<Rightarrow> bool" where
  "loaded_first seq loads \<longleftrightarrow>
     (\<forall>pre k post. seq = pre @ unload_ref k # post \<longrightarrow> k < int loads \<longrightarrow> load_ref k \<in> set pre)"

definition good_visit :: "stop_ref list \<Rightarrow> nat \<Rightarrow> nat \<Rightarrow> bool" where
  "good_visit seq loads unloads \<longleftrightarrow>
     distinct seq \<and> set seq = all_points loads unloads \<and> loaded_first seq loads"

definition proper :: "stop_ref list \<Rightarrow> bool" where
  "proper seq \<longleftrightarrow> (\<forall>r\<in>set seq. sr_Kind r = StopLoad \<or> sr_Kind r = StopUnload)"

lemma ref_cases:
  "sr_Kind r = StopLoad \<or> sr_Kind r = StopUnload \<Longrightarrow>
     r = load_ref (sr_Index r) \<or> r = unload_ref (sr_Index r)"
  by (cases r) auto

lemma card_all_points: "card (all_points loads unloads) = loads + unloads"
proof -
  have "card ((\<lambda>i. load_ref (int i)) ` {..<loads}) = loads"
    "card ((\<lambda>i. unload_ref (int i)) ` {..<unloads}) = unloads"
    by (subst card_image; simp add: inj_on_def)+
  then show ?thesis unfolding all_points_def by (subst card_Un_disjoint) auto
qed

lemma finite_all_points: "finite (all_points loads unloads)"
  by (simp add: all_points_def)

text \<open>The precedence rule, read from left to right with the loading points already seen.\<close>

fun loads_ahead :: "int set \<Rightarrow> int \<Rightarrow> stop_ref list \<Rightarrow> bool" where
  "loads_ahead SL l [] = True"
| "loads_ahead SL l (r # rs) =
     ((sr_Kind r = StopUnload \<longrightarrow> sr_Index r < l \<longrightarrow> sr_Index r \<in> SL) \<and>
      loads_ahead (if sr_Kind r = StopLoad then insert (sr_Index r) SL else SL) l rs)"

lemma loads_ahead_iff:
  "loads_ahead SL l rs \<longleftrightarrow>
     (\<forall>pre k post. rs = pre @ unload_ref k # post \<longrightarrow> k < l \<longrightarrow> k \<in> SL \<or> load_ref k \<in> set pre)"
proof (induction rs arbitrary: SL)
  case (Cons r rs)
  note IH = Cons.IH
  have 1: "(\<forall>k. r = unload_ref k \<longrightarrow> k < l \<longrightarrow> k \<in> SL) \<longleftrightarrow>
      (sr_Kind r = StopUnload \<longrightarrow> sr_Index r < l \<longrightarrow> sr_Index r \<in> SL)"
    by (cases r) auto
  have 2: "k \<in> (if sr_Kind r = StopLoad then insert (sr_Index r) SL else SL) \<or> load_ref k \<in> set pre \<longleftrightarrow>
      k \<in> SL \<or> load_ref k \<in> set (r # pre)" for pre k
    by (cases r) auto
  show ?case
  proof
    assume h: "loads_ahead SL l (r # rs)"
    show "\<forall>pre k post. r # rs = pre @ unload_ref k # post \<longrightarrow> k < l \<longrightarrow> k \<in> SL \<or> load_ref k \<in> set pre"
    proof (intro allI impI)
      fix pre k post assume eq: "r # rs = pre @ unload_ref k # post" and k: "k < l"
      show "k \<in> SL \<or> load_ref k \<in> set pre"
      proof (cases pre)
        case Nil
        with eq h k 1 show ?thesis by auto
      next
        case (Cons p pre')
        with eq have "p = r" and rs: "rs = pre' @ unload_ref k # post" by auto
        from h have "loads_ahead (if sr_Kind r = StopLoad then insert (sr_Index r) SL else SL) l rs"
          by simp
        then have "k \<in> SL \<or> load_ref k \<in> set (r # pre')"
          unfolding 2 [symmetric] using IH rs k by blast
        then show ?thesis using Cons \<open>p = r\<close> by simp
      qed
    qed
  next
    assume h: "\<forall>pre k post. r # rs = pre @ unload_ref k # post \<longrightarrow> k < l \<longrightarrow> k \<in> SL \<or> load_ref k \<in> set pre"
    then have "\<forall>k. r = unload_ref k \<longrightarrow> k < l \<longrightarrow> k \<in> SL" by (auto dest: spec [of _ "[]"])
    moreover have "loads_ahead (if sr_Kind r = StopLoad then insert (sr_Index r) SL else SL) l rs"
      unfolding IH 2 using h by (metis append_Cons)
    ultimately show "loads_ahead SL l (r # rs)" using 1 by simp
  qed
qed simp

lemma loads_ahead_empty: "loads_ahead {} (int loads) rs = loaded_first rs loads"
  by (simp add: loads_ahead_iff loaded_first_def)

lemma check_refs_None:
  assumes "proper rs"
  shows "check_refs rs l u SL SU = None \<longleftrightarrow>
     distinct rs \<and> loads_ahead SL l rs \<and>
     (\<forall>k. load_ref k \<in> set rs \<longrightarrow> 0 \<le> k \<and> k < l \<and> k \<notin> SL) \<and>
     (\<forall>k. unload_ref k \<in> set rs \<longrightarrow> 0 \<le> k \<and> k < u \<and> k \<notin> SU)"
  using assms
proof (induction rs arbitrary: SL SU)
  case (Cons r rs)
  then have "proper rs" "r = load_ref (sr_Index r) \<or> r = unload_ref (sr_Index r)"
    using ref_cases [of r] by (auto simp: proper_def)
  then show ?case by (elim disjE; cases r) (auto simp: Cons.IH)
qed simp

lemma points_bounded:
  assumes "proper seq"
  shows "(\<forall>k. load_ref k \<in> set seq \<longrightarrow> 0 \<le> k \<and> k < int loads) \<and>
      (\<forall>k. unload_ref k \<in> set seq \<longrightarrow> 0 \<le> k \<and> k < int unloads) \<longleftrightarrow>
      set seq \<subseteq> all_points loads unloads" (is "?L \<longleftrightarrow> ?R")
proof
  have mem: "load_ref k \<in> all_points loads unloads \<longleftrightarrow> 0 \<le> k \<and> k < int loads"
    "unload_ref k \<in> all_points loads unloads \<longleftrightarrow> 0 \<le> k \<and> k < int unloads" for k
    by (auto simp: all_points_def image_iff intro: bexI [of _ "nat k"])
  show "?R" if ?L
  proof
    fix x assume x: "x \<in> set seq"
    with assms have "x = load_ref (sr_Index x) \<or> x = unload_ref (sr_Index x)"
      by (intro ref_cases) (auto simp: proper_def)
    then show "x \<in> all_points loads unloads"
    proof
      assume "x = load_ref (sr_Index x)"
      with x that mem(1) [of "sr_Index x"] show ?thesis by simp
    next
      assume "x = unload_ref (sr_Index x)"
      with x that mem(2) [of "sr_Index x"] show ?thesis by simp
    qed
  qed
  show "?R \<Longrightarrow> ?L" using mem by blast
qed

lemma validateSequence_None:
  assumes "proper seq"
  shows "validateSequence seq loads unloads = None \<longleftrightarrow> good_visit seq loads unloads"
proof -
  have "validateSequence seq loads unloads = None \<longleftrightarrow>
      length seq = loads + unloads \<and> distinct seq \<and> loaded_first seq loads \<and>
      set seq \<subseteq> all_points loads unloads"
    unfolding points_bounded [OF assms, symmetric]
    by (auto simp: validateSequence_def check_refs_None [OF assms] loads_ahead_empty)
  also have "\<dots> \<longleftrightarrow> good_visit seq loads unloads"
    unfolding good_visit_def
    by (metis card_all_points card_subset_eq distinct_card finite_all_points order_refl)
  finally show ?thesis .
qed

lemma refs_of_proper: "refs_of vs = Some rs \<Longrightarrow> proper rs"
proof (induction vs arbitrary: rs)
  case (Cons v vs)
  then obtain r rs' where "ref_of v = Some r" "refs_of vs = Some rs'" "rs = r # rs'"
    by (auto split: option.splits)
  moreover from this(1) have "sr_Kind r = StopLoad \<or> sr_Kind r = StopUnload"
    by (auto simp: ref_of_def split: json.splits option.splits if_splits)
  ultimately show ?case using Cons.IH by (auto simp: proper_def)
qed (simp add: proper_def)

lemma storedSequence_proper: "proper (storedSequence detail)"
  unfolding storedSequence_def
  by (cases "detail ''stopSequence''")
     (auto split: option.split json.split intro: refs_of_proper, simp_all add: proper_def)

lemma loads_ahead_loads:
  "loads_ahead SL l (map (\<lambda>i. load_ref (int i)) is @ rs) = loads_ahead (SL \<union> int ` set is) l rs"
  by (induction "is" arbitrary: SL) auto

lemma loads_ahead_unloads:
  "loads_ahead SL l (map (\<lambda>i. unload_ref (int i)) is) \<longleftrightarrow> (\<forall>i\<in>set is. int i < l \<longrightarrow> int i \<in> SL)"
  by (induction "is") auto

lemma default_visit_good: "good_visit (default_visit loads unloads) loads unloads"
proof -
  have "loaded_first (default_visit loads unloads) loads"
    by (simp add: loads_ahead_empty [symmetric] default_visit_def loads_ahead_loads
        loads_ahead_unloads)
  moreover have "distinct (default_visit loads unloads)"
    by (auto simp: default_visit_def distinct_map inj_on_def)
  moreover have "set (default_visit loads unloads) = all_points loads unloads"
    by (simp add: default_visit_def all_points_def atLeast0LessThan)
  ultimately show ?thesis by (simp add: good_visit_def)
qed

lemma visitOrder_good: "good_visit (visitOrder ord loads unloads) loads unloads"
  using validateSequence_None [OF storedSequence_proper [of "o_Detail ord"]]
  by (auto simp: visitOrder_def Let_def default_visit_good)

section \<open>What the stop rows are\<close>

lemma sint_stopNo: "sint (stopNo n) = max 1 (min 200 n)"
proof -
  have "sint (word_of_int k :: int16) = k" if "0 \<le> k" "k \<le> 200" for k
    using that by (simp add: sint_sbintrunc' signed_take_bit_int_eq_self)
  then show ?thesis by (auto simp: stopNo_def maxStopsPerOrder_def)
qed

text \<open>
  The reference: keep the points that exist, cut the list at the limit, and number what is left.
\<close>

definition keep_ref :: "string list \<Rightarrow> string list \<Rightarrow> stop_ref \<Rightarrow> bool" where
  "keep_ref loads unloads r =
     (let ids = (if sr_Kind r = StopUnload then unloads else loads); i = nat (sr_Index r)
      in i < length ids \<and> ids ! i \<noteq> [])"

definition place ::
  "string list \<Rightarrow> string list \<Rightarrow> stop_pic list \<Rightarrow> stop_pic list \<Rightarrow> nat \<Rightarrow> stop_ref \<Rightarrow> order_stop" where
  "place loads unloads loadPICs unloadPICs n r =
     (let ids = (if sr_Kind r = StopUnload then unloads else loads);
          pics = (if sr_Kind r = StopUnload then unloadPICs else loadPICs);
          i = nat (sr_Index r);
          stop = blank_stop (stopNo (int n + 1)) (stopNo (sr_Index r + 1)) (sr_Kind r) (ids ! i)
      in if i < length pics
         then stop\<lparr>st_PICName := nonempty (pic_Name (pics ! i)),
                   st_PICPhone := nonempty (pic_Phone (pics ! i))\<rparr>
         else stop)"

definition plan_stops ::
  "string list \<Rightarrow> string list \<Rightarrow> stop_pic list \<Rightarrow> stop_pic list \<Rightarrow> stop_ref list \<Rightarrow> nat \<Rightarrow> order_stop list" where
  "plan_stops loads unloads loadPICs unloadPICs rs n =
     map (\<lambda>(i, r). place loads unloads loadPICs unloadPICs i r)
       (enumerate n (take (maxStopsPerOrder - n) (filter (keep_ref loads unloads) rs)))"

lemma build_stops_plan:
  "build_stops l u lp up rs stops = stops @ plan_stops l u lp up rs (length stops)"
proof (induction rs arbitrary: stops)
  case (Cons r rs)
  show ?case
  proof (cases "keep_ref l u r \<and> length stops < maxStopsPerOrder")
    case True
    then obtain m where m: "maxStopsPerOrder - length stops = Suc m"
      by (metis Suc_diff_Suc)
    then have "maxStopsPerOrder - Suc (length stops) = m" by simp
    with True m show ?thesis
      by (auto simp: Cons.IH keep_ref_def plan_stops_def place_def Let_def)
  next
    case False
    then show ?thesis
      by (auto simp: Cons.IH keep_ref_def plan_stops_def Let_def)
  qed
qed (simp add: plan_stops_def)

lemma length_plan_stops: "length (plan_stops l u lp up rs 0) \<le> 200"
  by (simp add: plan_stops_def maxStopsPerOrder_def)

lemma place_fields [simp]:
  "st_Seq (place l u lp up n r) = stopNo (int n + 1)"
  "st_Kind (place l u lp up n r) = sr_Kind r"
  "st_ShipmentNo (place l u lp up n r) = stopNo (sr_Index r + 1)"
  "st_WarehouseID (place l u lp up n r) =
     (if sr_Kind r = StopUnload then u else l) ! nat (sr_Index r)"
  by (simp_all add: place_def blank_stop_def Let_def)

lemma place_not_visited: "\<not> visited (place l u lp up n r)"
  by (simp add: place_def blank_stop_def visited_def Let_def)

lemma plan_stops_nth:
  assumes "i < length (plan_stops l u lp up rs 0)"
  shows "plan_stops l u lp up rs 0 ! i =
    place l u lp up i (take 200 (filter (keep_ref l u) rs) ! i)"
  using assms by (simp add: plan_stops_def nth_enumerate_eq maxStopsPerOrder_def)

lemma stopsForOrder_plan:
  "stopsForOrder ord = [] \<or>
   stopsForOrder ord = plan_stops (load_points ord) (unload_points ord)
     (picList (o_Detail ord) ''loadingPics'') (picList (o_Detail ord) ''unloadingPics'')
     (visitOrder ord (length (load_points ord)) (length (unload_points ord))) 0"
  by (auto simp: stopsForOrder_def Let_def build_stops_plan)

lemma length_stopsForOrder: "length (stopsForOrder ord) \<le> 200"
  using stopsForOrder_plan [of ord] length_plan_stops by (metis le0 list.size(3))

lemma stopsForOrder_seq:
  assumes "i < length (stopsForOrder ord)"
  shows "sint (st_Seq (stopsForOrder ord ! i)) = int i + 1"
proof -
  have "i < 200" using assms length_stopsForOrder [of ord] by simp
  then show ?thesis
    using assms stopsForOrder_plan [of ord] by (auto simp: plan_stops_nth sint_stopNo)
qed

lemma nonblank_strings_nonblank: "s \<in> set (nonblank_strings vs) \<Longrightarrow> s \<noteq> []"
  by (induction vs rule: nonblank_strings.induct) (auto split: if_splits)

lemma load_points_nonblank:
  assumes "o_OriginWarehouseID ord \<noteq> Some []" and "k < length (load_points ord)"
  shows "load_points ord ! k \<noteq> []"
proof -
  have "load_points ord ! k \<in> set (load_points ord)" using assms(2) by simp
  then show ?thesis
    using assms(1) by (auto simp: load_points_def warehouseList_def Let_def nonblank_strings_nonblank
        split: if_splits option.splits json.splits)
qed

text \<open>Where a kept reference stands among the rows, an earlier kept one stands before it.\<close>

lemma filter_before:
  assumes "i < length (filter P xs)" and "filter P xs ! i = x" and "distinct xs"
    and "xs = pre @ x # post" and "y \<in> set pre" and "P y"
  shows "\<exists>j<i. filter P xs ! j = y"
proof -
  have "P x" using assms(1,2) nth_mem by fastforce
  let ?p = "filter P pre"
  have f: "filter P xs = ?p @ x # filter P post" using assms(4) \<open>P x\<close> by simp
  have "distinct (filter P xs)" using assms(3) by simp
  moreover have "filter P xs ! length ?p = x" "length ?p < length (filter P xs)" using f by simp_all
  ultimately have "i = length ?p" using assms(1,2) by (metis nth_eq_iff_index_eq)
  moreover obtain j where "j < length ?p" "?p ! j = y"
    using assms(5,6) by (metis in_set_conv_nth mem_Collect_eq set_filter)
  ultimately show ?thesis using f by (metis nth_append)
qed

lemma paired_before:
  assumes i: "i < length (stopsForOrder ord)" and u: "st_Kind (stopsForOrder ord ! i) = StopUnload"
    and len: "length (load_points ord) = length (unload_points ord)"
    and nb: "o_OriginWarehouseID ord \<noteq> Some []"
  shows "\<exists>j<i. st_Kind (stopsForOrder ord ! j) = StopLoad \<and>
    st_ShipmentNo (stopsForOrder ord ! j) = st_ShipmentNo (stopsForOrder ord ! i)"
proof -
  define l where "l = load_points ord"
  define v where "v = visitOrder ord (length l) (length (unload_points ord))"
  define fs where "fs = filter (keep_ref l (unload_points ord)) v"
  obtain lp up where S: "stopsForOrder ord = plan_stops l (unload_points ord) lp up v 0"
    using stopsForOrder_plan [of ord] i by (auto simp: l_def v_def)
  then have i': "i < length (plan_stops l (unload_points ord) lp up v 0)" using i by simp
  then have il: "i < length fs" "i < 200" by (auto simp: plan_stops_def fs_def maxStopsPerOrder_def)
  have nth: "j \<le> i \<Longrightarrow> stopsForOrder ord ! j = place l (unload_points ord) lp up j (fs ! j)" for j
    using i' il unfolding S by (subst plan_stops_nth) (simp_all add: fs_def)
  have kind: "sr_Kind (fs ! i) = StopUnload" using u nth [of i] by simp
  have good: "good_visit v (length l) (length (unload_points ord))"
    unfolding v_def by (rule visitOrder_good)
  have mem: "fs ! i \<in> set v" using il(1) nth_mem [of i fs] by (simp add: fs_def)
  then have "fs ! i \<in> all_points (length l) (length (unload_points ord))"
    using good by (simp add: good_visit_def)
  with kind obtain k where k: "fs ! i = unload_ref (int k)" "k < length (unload_points ord)"
    by (auto simp: all_points_def)
  obtain pre post where v: "v = pre @ unload_ref (int k) # post"
    using mem k(1) by (metis split_list)
  then have load: "load_ref (int k) \<in> set pre"
    using good k(2) len by (auto simp: good_visit_def loaded_first_def l_def)
  have "keep_ref l (unload_points ord) (load_ref (int k))"
    using load_points_nonblank [OF nb, of k] k(2) len by (simp add: keep_ref_def l_def)
  then obtain j where "j < i" "fs ! j = load_ref (int k)"
    using filter_before [of i "keep_ref l (unload_points ord)" v, OF _ _ _ v load] il(1) k(1) good
    by (auto simp: fs_def good_visit_def)
  then show ?thesis using nth [of j] nth [of i] k(1) by auto
qed

section \<open>What a rebuild does\<close>

lemma number_stops_fields:
  "map st_Seq (number_stops i n ss) = map st_Seq ss"
  "list_all2 same_point (number_stops i n ss) ss"
  "list_all (\<lambda>s. st_OrderID s = i) (number_stops i n ss)"
  by (induction ss arbitrary: n) (auto simp: same_point_def)

lemma sameJourney_iff: "sameJourney old want \<longleftrightarrow> list_all2 same_point old want"
  by (auto simp: sameJourney_def list_all2_iff list_all_iff)

lemma sorted_stopsForOrder: "sorted (map (\<lambda>r. sint (st_Seq r)) (stopsForOrder ord))"
  by (auto simp: sorted_iff_nth_mono stopsForOrder_seq)

lemma stops_of_replaced:
  assumes "Stops_Replace E i ss d = (Inr u, d')" and "ss \<noteq> []"
    and "sorted (map (\<lambda>r. sint (st_Seq r)) ss)"
  shows "stops_of i d' = number_stops i (db_next_uuid d) ss"
proof -
  have f: "filter (\<lambda>r. st_OrderID r = i) (number_stops i n ss) = number_stops i n ss" for n
    using number_stops_fields(3) [of i n ss] by (auto simp: list_all_iff filter_id_conv)
  have "map (\<lambda>r. sint (st_Seq r)) (number_stops i n ss) = map (\<lambda>r. sint (st_Seq r)) ss" for n
    using number_stops_fields(1) [of i n ss] by (metis (no_types) list.map_comp comp_def map_eq_conv)
  with assms show ?thesis
    by (auto simp: Stops_Replace_def call_Inr Let_def stops_of_def f sort_key_id_if_sorted split: if_splits)
qed

lemma stops_of_others:
  assumes "Stops_Replace E i ss d = (Inr u, d')" and "j \<noteq> i"
  shows "stops_of j d' = stops_of j d"
proof -
  have gone: "filter (\<lambda>r. st_OrderID r = j) (number_stops i n ss) = []" for n
    using number_stops_fields(3) [of i n ss] assms(2) by (auto simp: list_all_iff filter_empty_conv)
  have "(\<lambda>x::order_stop. st_OrderID x \<noteq> i \<and> st_OrderID x = j) = (\<lambda>x. st_OrderID x = j)"
    using assms(2) by auto
  with gone assms(1) show ?thesis
    by (auto simp: Stops_Replace_def call_Inr Let_def stops_of_def split: if_splits)
qed

text \<open>The three ways a rebuild can end.\<close>

lemma SyncStops_cases:
  assumes "SyncStops E ord d = (r, d')"
  obtains (kept) "d' = d"
    and "r = Inr () \<Longrightarrow> stops_wired E \<Longrightarrow> sameJourney (stops_of (o_ID ord) d) (stopsForOrder ord)"
  | (rebuilt) "Stops_Replace E (o_ID ord) (stopsForOrder ord) d = (Inr (), d')"
    "r = Inr ()" "firstVisited (stops_of (o_ID ord) d) = None"
  using assms
  unfolding SyncStops_def Let_def Stops_ListByOrder_def
  by (cases r) (auto simp: andThen_Inr andThen_Inl call_Inr call_Inl
      dest: cleanD [OF clean_writes(7)] split: if_splits option.splits)

lemma clean_SyncStops [op_rules]: "clean (SyncStops E ord)"
  by (auto simp: clean_def elim: SyncStops_cases)

lemma SyncStops_keeps:
  assumes "\<And>d rows pods hands n. f (d\<lparr>db_stops := rows, db_next_uuid := n, db_pods := pods, db_handovers := hands\<rparr>) = f d"
  shows "keeps f (SyncStops E ord)"
proof -
  have "keeps f (Stops_Replace E i ss)" for i ss
    unfolding Stops_Replace_def Let_def by (intro op_rules) (simp add: keeps_def assms)
  then show ?thesis unfolding SyncStops_def Let_def by (intro op_rules) auto
qed

lemma SyncStops_begun:
  assumes "firstVisited (stops_of (o_ID ord) d) \<noteq> None"
  shows "snd (SyncStops E ord d) = d"
  using assms by (cases "SyncStops E ord d") (auto elim: SyncStops_cases)

lemma SyncStops_result:
  assumes "SyncStops E ord d = (Inr (), d')" and "stops_wired E" and "stopsForOrder ord \<noteq> []"
  shows "sameJourney (stops_of (o_ID ord) d') (stopsForOrder ord)"
  using assms(1)
proof (cases rule: SyncStops_cases)
  case rebuilt
  with assms(3) have "stops_of (o_ID ord) d' = number_stops (o_ID ord) (db_next_uuid d) (stopsForOrder ord)"
    by (intro stops_of_replaced sorted_stopsForOrder)
  then show ?thesis by (simp add: sameJourney_iff number_stops_fields)
qed (use assms(2) in auto)

lemma SyncStops_others:
  assumes "SyncStops E ord d = (r, d')" and "j \<noteq> o_ID ord"
  shows "stops_of j d' = stops_of j d"
  using assms(1) by (cases rule: SyncStops_cases) (auto intro: stops_of_others [OF _ assms(2)])

section \<open>Choosing the visit order\<close>

definition put_sequence :: "(string \<times> json) list list \<Rightarrow> detail \<Rightarrow> detail" where
  "put_sequence seq detail = (if seq = [] then detail(''stopSequence'' := None)
     else detail(''stopSequence'' \<mapsto> JArr (map JObj seq)))"

definition SetStopSequence ::
  "env \<Rightarrow> actor \<Rightarrow> uuid \<Rightarrow> (string \<times> json) list list \<Rightarrow> (db, order) op" where
  "SetStopSequence E actor i seq = andThen (Orders_FindByID E (a_CompanyID actor) i) (\<lambda>ord.
     let candidate = ord\<lparr>o_Detail := put_sequence seq (o_Detail ord)\<rparr>
     in case ValidateStopSequence candidate of
          Some e \<Rightarrow> fail e
        | None \<Rightarrow>
            andThen (Orders_UpdateFields E i (\<lambda>r. r\<lparr>o_Detail := o_Detail candidate\<rparr>)) (\<lambda>_.
            andThen (SyncStops E candidate) (\<lambda>_. ok candidate)))"

text \<open>The entries a sequence is written with, and what reading them back gives.\<close>

definition entry_of :: "stop_ref \<Rightarrow> (string \<times> json) list" where
  "entry_of r = [(''type'', JStr (if sr_Kind r = StopLoad then ''muat'' else ''bongkar'')),
     (''index'', JNum (of_int (sr_Index r)))]"

lemma refs_of_entries: "proper rs \<Longrightarrow> refs_of (map (\<lambda>r. JObj (entry_of r)) rs) = Some rs"
proof (induction rs)
  case (Cons r rs)
  then have "proper rs" "r = load_ref (sr_Index r) \<or> r = unload_ref (sr_Index r)"
    using ref_cases [of r] by (auto simp: proper_def)
  moreover from this(2) have "ref_of (JObj (entry_of r)) = Some r"
    by (cases r) (auto simp: ref_of_def entry_of_def)
  ultimately show ?case using Cons.IH by simp
qed simp

lemma storedSequence_put:
  "proper rs \<Longrightarrow> storedSequence (put_sequence (map entry_of rs) detail) = rs"
  using refs_of_entries [of rs] by (auto simp: storedSequence_def put_sequence_def comp_def)

lemma warehouseList_put [simp]:
  "k \<noteq> ''stopSequence'' \<Longrightarrow> warehouseList (put_sequence seq detail) k = warehouseList detail k"
  by (simp add: warehouseList_def put_sequence_def)

lemma SetStopSequence_refused:
  assumes "SetStopSequence E actor i (map entry_of rs) d = (r, d')" and "proper rs" and "rs \<noteq> []"
    and found: "Orders_FindByID E (a_CompanyID actor) i d = (Inr ord, d)"
    and bad: "\<not> good_visit rs (length (warehouseList (o_Detail ord) ''loadingPoints''))
      (length (warehouseList (o_Detail ord) ''unloadingPoints''))"
  shows "d' = d \<and> (\<exists>e. r = Inl e)"
proof -
  have "ValidateStopSequence (ord\<lparr>o_Detail := put_sequence (map entry_of rs) (o_Detail ord)\<rparr>) \<noteq> None"
    using bad assms(3) by (simp add: ValidateStopSequence_def Let_def storedSequence_put [OF assms(2)]
        validateSequence_None [OF assms(2)])
  with assms(1) found show ?thesis
    by (auto simp: SetStopSequence_def andThen_def Let_def fail_def split: option.splits)
qed

lemma SetStopSequence_visits:
  assumes run: "SetStopSequence E actor i (map entry_of rs) d = (Inr ord', d')"
    and "proper rs" and "rs \<noteq> []" and "stops_wired E"
  shows "visitOrder ord' (length (warehouseList (o_Detail ord') ''loadingPoints''))
      (length (warehouseList (o_Detail ord') ''unloadingPoints'')) = rs"
    and "stopsForOrder ord' \<noteq> [] \<Longrightarrow> sameJourney (stops_of (o_ID ord') d') (stopsForOrder ord')"
proof -
  from run obtain ord d1 where v: "ValidateStopSequence ord' = None"
    and s: "SyncStops E ord' d1 = (Inr (), d')"
    and o': "ord' = ord\<lparr>o_Detail := put_sequence (map entry_of rs) (o_Detail ord)\<rparr>"
    by (auto simp: SetStopSequence_def andThen_Inr Let_def split: option.splits)
  from o' have "storedSequence (o_Detail ord') = rs" by (simp add: storedSequence_put [OF assms(2)])
  with v assms(3) show "visitOrder ord' (length (warehouseList (o_Detail ord') ''loadingPoints''))
      (length (warehouseList (o_Detail ord') ''unloadingPoints'')) = rs"
    by (simp add: visitOrder_def ValidateStopSequence_def Let_def)
  show "stopsForOrder ord' \<noteq> [] \<Longrightarrow> sameJourney (stops_of (o_ID ord') d') (stopsForOrder ord')"
    using SyncStops_result [OF s assms(4)] .
qed

section \<open>Invariants\<close>

lemma stopsForOrder_unvisited: "s \<in> set (stopsForOrder ord) \<Longrightarrow> \<not> visited s"
  using stopsForOrder_plan [of ord] by (auto simp: plan_stops_def place_not_visited)

lemma unvisited_in_order: "\<forall>s\<in>set ss. \<not> visited s \<Longrightarrow> in_order ss"
  by (induction ss) (auto simp: visited_def)

lemma number_stops_visited: "s \<in> set (number_stops i n ss) \<Longrightarrow> \<exists>t\<in>set ss. visited s = visited t"
  by (induction ss arbitrary: n) (auto simp: visited_def)

lemma SyncStops_frame [op_rules]:
  "keeps db_orders (SyncStops E ord)" "keeps db_shipments (SyncStops E ord)"
  "keeps db_history (SyncStops E ord)" "keeps db_outbox (SyncStops E ord)"
  by (rule SyncStops_keeps; simp)+

lemmas SyncStops_runs [op_rules] = SyncStops_frame(1) [THEN orders_run_same]
  SyncStops_frame(2) [THEN shipments_run_same]

lemma SyncStops_keyed [op_rules]: "preserves well_keyed (SyncStops E ord)" "preserves one_live (SyncStops E ord)"
  unfolding SyncStops_def Let_def by (intro op_rules)+

lemma SyncStops_in_order [op_rules]: "preserves journeys_in_order (SyncStops E ord)"
  unfolding preserves_def
proof (intro allI impI)
  fix d assume d: "journeys_in_order d"
  obtain r d' where run: "SyncStops E ord d = (r, d')" by fastforce
  then have "journeys_in_order d'"
  proof (cases rule: SyncStops_cases)
    case rebuilt
    show ?thesis
    proof (cases "stopsForOrder ord = []")
      case True
      with rebuilt(1) d show ?thesis by (simp add: Stops_Replace_def)
    next
      case False
      then have "stops_of (o_ID ord) d' = number_stops (o_ID ord) (db_next_uuid d) (stopsForOrder ord)"
        using rebuilt(1) by (intro stops_of_replaced sorted_stopsForOrder)
      then have "in_order (stops_of (o_ID ord) d')"
        using number_stops_visited stopsForOrder_unvisited by (metis unvisited_in_order)
      moreover have "in_order (stops_of i d')" if "i \<noteq> o_ID ord" for i
        using d SyncStops_others [OF run that] by (simp add: journeys_in_order_def)
      ultimately show ?thesis unfolding journeys_in_order_def by metis
    qed
  qed (use d in simp)
  with run show "journeys_in_order (snd (SyncStops E ord d))" by simp
qed

text \<open>A rebuild throws away only visits that have nothing on record.\<close>

lemma firstVisited_None: "firstVisited ss = None \<longleftrightarrow> (\<forall>s\<in>set ss. \<not> visited s)"
  by (auto simp: firstVisited_def find_None_iff)

lemma SyncStops_records [op_rules]: "follows records_kept (SyncStops E ord)"
proof (rule followsI)
  fix d r d' assume run: "SyncStops E ord d = (r, d')"
  then show "records_kept d d'"
  proof (cases rule: SyncStops_cases)
    case rebuilt
    have "preserves well_keyed (SyncStops E ord)" by (intro op_rules)
    note wk = preservesD [OF this run]
    have keep: "s \<in> set (db_stops d')" if "s \<in> set (db_stops d)" "visited s" for s
    proof -
      have "st_OrderID s \<noteq> o_ID ord"
        using rebuilt(3) that by (auto simp: firstVisited_None stops_of_subset)
      with rebuilt(1) that show ?thesis by (auto simp: Stops_Replace_def call_Inr Let_def split: if_splits)
    qed
    have "arrivals d \<subseteq> arrivals d'"
      using keep unfolding arrivals_def visited_def by blast
    moreover have "starts d \<subseteq> starts d'"
      using keep unfolding starts_def visited_def by blast
    moreover have "pod_view d' = pod_view d"
      using rebuilt(1) by (auto simp: Stops_Replace_def call_Inr Let_def pod_view_def split: if_splits)
    moreover have "map (\<lambda>h. (hv_ID h, hv_VerifiedAt h)) (db_handovers d') =
        map (\<lambda>h. (hv_ID h, hv_VerifiedAt h)) (db_handovers d)"
      using rebuilt(1) by (auto simp: Stops_Replace_def call_Inr Let_def split: if_splits)
    then have "confirmed_codes d' = confirmed_codes d" by (simp only: confirmed_codes_alt)
    ultimately show ?thesis using wk by (simp add: records_kept_def decided_pods_def)
  qed (simp add: records.stays)
qed

lemma SetStopSequence_rules [op_rules]:
  "follows records_kept (SetStopSequence E actor i seq)"
  "follows shipments_run (SetStopSequence E actor i seq)"
  "follows orders_run (SetStopSequence E actor i seq)"
  "preserves well_keyed (SetStopSequence E actor i seq)"
  "preserves one_live (SetStopSequence E actor i seq)"
  "preserves journeys_in_order (SetStopSequence E actor i seq)"
proof -
  have f: "follows records_kept (Orders_UpdateFields E i (\<lambda>r. r\<lparr>o_Detail := x\<rparr>))"
    "follows orders_run (Orders_UpdateFields E i (\<lambda>r. r\<lparr>o_Detail := x\<rparr>))"
    "preserves well_keyed (Orders_UpdateFields E i (\<lambda>r. r\<lparr>o_Detail := x\<rparr>))" for x
    by (rule records_order_write orders_run_update well_keyed_order_update; simp)+
  show "follows records_kept (SetStopSequence E actor i seq)"
    "follows shipments_run (SetStopSequence E actor i seq)"
    "follows orders_run (SetStopSequence E actor i seq)"
    "preserves well_keyed (SetStopSequence E actor i seq)"
    "preserves one_live (SetStopSequence E actor i seq)"
    "preserves journeys_in_order (SetStopSequence E actor i seq)"
    unfolding SetStopSequence_def Let_def by (intro op_rules f)+
qed

end
