(* ===== verification/Routing.thy ===== *)
theory Routing
  imports Repository
begin

text \<open>
  internal/routing/cache.go and the route cache of internal/repository/dispatch.go: roads planned by
  an external service, remembered under the content of the request. A pair of a float64 longitude and
  latitude is a \<open>position\<close> of rationals, a duration a number of nanoseconds.
\<close>

section \<open>The key of a request\<close>

text \<open>\<open>int64(x)\<close> of a float64 truncates.\<close>

definition trunc :: "rat \<Rightarrow> int" where
  "trunc x = (if 0 \<le> x then \<lfloor>x\<rfloor> else - \<lfloor>- x\<rfloor>)"

definition round5 :: "rat \<Rightarrow> rat" where
  "round5 v = (if v < 0 then - (of_int (trunc (- v * 100000 + 1 / 2)) / 100000)
     else of_int (trunc (v * 100000 + 1 / 2)) / 100000)"

text \<open>
  \<open>FormatFloat(round5(v), 'f', 5, 64)\<close>: the digits of the rounded value; a negative value keeps its
  sign when it rounds to zero, as float64 does.
\<close>

definition units5 :: "rat \<Rightarrow> nat" where
  "units5 v = nat (trunc (\<bar>v\<bar> * 100000 + 1 / 2))"

definition format5 :: "rat \<Rightarrow> string" where
  "format5 v = (if v < 0 then ''-'' else []) @ digits (units5 v div 100000) @ ''.'' @
     zero_padded 5 (units5 v mod 100000)"

definition point_text :: "position \<Rightarrow> string" where
  "point_text p = format5 (pos_Longitude p) @ '','' @ format5 (pos_Latitude p) @ '';''"

abbreviation bool_text :: "bool \<Rightarrow> string" where
  "bool_text b \<equiv> (if b then ''true'' else ''false'')"

definition key_text :: "position list \<Rightarrow> string \<Rightarrow> bool \<Rightarrow> string" where
  "key_text points profile avoidTolls =
     ''v1|'' @ profile @ ''|'' @ bool_text avoidTolls @ ''|'' @ concat (map point_text points)"

definition CacheKey :: "env \<Rightarrow> position list \<Rightarrow> string \<Rightarrow> bool \<Rightarrow> string" where
  "CacheKey E points profile avoidTolls = sha256 E (key_text points profile avoidTolls)"

section \<open>Tolls\<close>

definition Tolled :: "toll_segment \<Rightarrow> bool" where
  "Tolled s \<longleftrightarrow> ts_Status s = ''all''"

text \<open>One step along the line; a malformed point is passed over.\<close>

definition step_length :: "env \<Rightarrow> rat list \<Rightarrow> rat list \<Rightarrow> rat" where
  "step_length E a b =
     (if length a < 2 \<or> length b < 2 then 0
      else distance E \<lparr>pos_Latitude = a ! 1, pos_Longitude = a ! 0\<rparr> \<lparr>pos_Latitude = b ! 1, pos_Longitude = b ! 0\<rparr>)"

definition lineLength :: "env \<Rightarrow> rat list list \<Rightarrow> int \<Rightarrow> int \<Rightarrow> rat" where
  "lineLength E geometry lo hi =
     sum_list (map (\<lambda>i. step_length E (geometry ! i) (geometry ! Suc i))
       [nat (max 0 lo)..<nat (min hi (int (length geometry) - 1))])"

definition tollSummary :: "env \<Rightarrow> route \<Rightarrow> bool \<times> int" where
  "tollSummary E r =
     (let tolled = filter Tolled (ro_TollSegments r)
      in (tolled \<noteq> [], trunc (sum_list (map (\<lambda>s. lineLength E (ro_Geometry r) (ts_From s) (ts_To s)) tolled))))"

section \<open>The stored roads\<close>

abbreviation CacheTTL :: time where "CacheTTL \<equiv> 90 * 24 * hour"

text \<open>What the cache works with; a road read back has the stored whole metres and seconds.\<close>

record cache_entry =
  ce_CacheKey :: string
  ce_Profile :: string
  ce_AvoidTolls :: bool
  ce_Points :: "position list"
  ce_Route :: route
  ce_HasToll :: bool
  ce_TollDistanceMeters :: int

definition stored_toll :: "(string \<times> int) list option \<Rightarrow> (string \<times> int) list option" where
  "stored_toll t = (case t of Some (p # ps) \<Rightarrow> Some (p # ps) | _ \<Rightarrow> None)"

definition entryFromRow :: "route_cache_entry \<Rightarrow> cache_entry" where
  "entryFromRow row =
     \<lparr>ce_CacheKey = rc_CacheKey row, ce_Profile = rc_Profile row, ce_AvoidTolls = rc_AvoidTolls row, ce_Points = [],
      ce_Route = \<lparr>ro_DistanceMeters = of_int (rc_DistanceMeters row),
        ro_Duration = of_int (rc_DurationSeconds row) * 1000000000, ro_Geometry = rc_Geometry row,
        ro_TollSegments = rc_TollSegments row, ro_Toll = stored_toll (rc_Toll row)\<rparr>,
      ce_HasToll = rc_HasToll row, ce_TollDistanceMeters = rc_TollDistanceMeters row\<rparr>"

definition row_of :: "env \<Rightarrow> cache_entry \<Rightarrow> route_cache_entry" where
  "row_of E e =
     \<lparr>rc_CacheKey = ce_CacheKey e, rc_Profile = ce_Profile e, rc_AvoidTolls = ce_AvoidTolls e,
      rc_Points = ce_Points e, rc_DistanceMeters = trunc (ro_DistanceMeters (ce_Route e)),
      rc_DurationSeconds = trunc (ro_Duration (ce_Route e) / 1000000000), rc_Geometry = ro_Geometry (ce_Route e),
      rc_TollSegments = ro_TollSegments (ce_Route e), rc_Toll = ro_Toll (ce_Route e),
      rc_HasToll = ce_HasToll e, rc_TollDistanceMeters = ce_TollDistanceMeters e,
      rc_ExpiresAt = now E + CacheTTL\<rparr>"

text \<open>The columns that a second save of a key refreshes.\<close>

definition refreshed :: "route_cache_entry \<Rightarrow> route_cache_entry \<Rightarrow> route_cache_entry" where
  "refreshed new old = old\<lparr>rc_DistanceMeters := rc_DistanceMeters new, rc_DurationSeconds := rc_DurationSeconds new,
     rc_Geometry := rc_Geometry new, rc_TollSegments := rc_TollSegments new, rc_Toll := rc_Toll new,
     rc_HasToll := rc_HasToll new, rc_TollDistanceMeters := rc_TollDistanceMeters new,
     rc_ExpiresAt := rc_ExpiresAt new\<rparr>"

definition Cache_Lookup :: "env \<Rightarrow> string \<Rightarrow> (db, cache_entry option) op" where
  "Cache_Lookup E key = call E (Dispatch CacheLookup) (query (\<lambda>d.
     Inr (map_option entryFromRow
       (find (\<lambda>r. rc_CacheKey r = key \<and> now E < rc_ExpiresAt r) (db_route_cache d)))))"

definition Cache_Save :: "env \<Rightarrow> cache_entry \<Rightarrow> (db, unit) op" where
  "Cache_Save E e = call E (Dispatch CacheSave) (exec (\<lambda>d. d\<lparr>db_route_cache :=
     (if list_ex (\<lambda>r. rc_CacheKey r = ce_CacheKey e) (db_route_cache d)
      then update_where (\<lambda>r. rc_CacheKey r = ce_CacheKey e) (refreshed (row_of E e)) (db_route_cache d)
      else db_route_cache d @ [row_of E e])\<rparr>))"

text \<open>
  \<open>EvictExpired\<close>, one statement: a leg of an order that still points at a dead entry refuses it all
  (ON DELETE RESTRICT), a line of an agreement only forgets its key (ON DELETE SET NULL).
\<close>

definition forget_road :: "string list \<Rightarrow> agreement_rate \<Rightarrow> agreement_rate" where
  "forget_road keys r = (case ar_RouteCacheKey r of
     Some k \<Rightarrow> if k \<in> set keys then r\<lparr>ar_RouteCacheKey := None\<rparr> else r | None \<Rightarrow> r)"

definition EvictExpired :: "env \<Rightarrow> (db, nat) op" where
  "EvictExpired E = call E (Dispatch CacheEvict) (\<lambda>d.
     let keys = map rc_CacheKey (filter (\<lambda>r. rc_ExpiresAt r < now E) (db_route_cache d))
     in if list_ex (\<lambda>l. rt_CacheKey l \<in> set keys) (db_routes d)
        then (Inl (Err ErrStore ''order_routes_cache_key_fkey''), d)
        else (Inr (length keys), d\<lparr>
          db_route_cache := filter (\<lambda>r. \<not> rc_ExpiresAt r < now E) (db_route_cache d),
          db_agreements := map (\<lambda>a. a\<lparr>ag_Rates := map (forget_road keys) (ag_Rates a)\<rparr>) (db_agreements d)\<rparr>))"

section \<open>The cache\<close>

text \<open>\<open>priceIfMissing\<close>: the entry as it is afterwards, its fare fetched where it had none.\<close>

definition priceIfMissing :: "env \<Rightarrow> cache_entry \<Rightarrow> (db, cache_entry) op" where
  "priceIfMissing E entry =
     (if \<not> ce_HasToll entry \<or> ro_Toll (ce_Route entry) \<noteq> None then ok entry
      else case TollFor E (ro_Geometry (ce_Route entry)) of
        None \<Rightarrow> ok entry
      | Some None \<Rightarrow> ok entry
      | Some (Some toll) \<Rightarrow>
          (let priced = entry\<lparr>ce_Route := (ce_Route entry)\<lparr>ro_Toll := Some toll\<rparr>\<rparr>
           in andThen (attempt (Cache_Save E priced)) (\<lambda>_. ok priced)))"

record route_result =
  rr_Key :: string
  rr_Route :: route
  rr_Cached :: bool
  rr_HasToll :: bool
  rr_TollDistanceMeters :: int

text \<open>The road the service answered, with its fare where it crosses a toll road and the fare is known.\<close>

definition fare_looked_up :: "env \<Rightarrow> route \<Rightarrow> route" where
  "fare_looked_up E r =
     (if fst (tollSummary E r)
      then (case TollFor E (ro_Geometry r) of None \<Rightarrow> r | Some toll \<Rightarrow> r\<lparr>ro_Toll := toll\<rparr>) else r)"

definition from_entry :: "string \<Rightarrow> cache_entry \<Rightarrow> route_result" where
  "from_entry key entry = \<lparr>rr_Key = key, rr_Route = ce_Route entry, rr_Cached = True,
     rr_HasToll = ce_HasToll entry, rr_TollDistanceMeters = ce_TollDistanceMeters entry\<rparr>"

definition fresh_entry :: "env \<Rightarrow> position list \<Rightarrow> string \<Rightarrow> bool \<Rightarrow> route \<Rightarrow> cache_entry" where
  "fresh_entry E points profile avoidTolls r =
     \<lparr>ce_CacheKey = CacheKey E points profile avoidTolls, ce_Profile = profile, ce_AvoidTolls = avoidTolls,
      ce_Points = points, ce_Route = fare_looked_up E r, ce_HasToll = fst (tollSummary E r),
      ce_TollDistanceMeters = snd (tollSummary E r)\<rparr>"

definition compute_route :: "env \<Rightarrow> position list \<Rightarrow> string \<Rightarrow> bool \<Rightarrow> (db, route_result) op" where
  "compute_route E points profile avoidTolls =
     (case MapidRoute E points profile avoidTolls of
        NotConfigured \<Rightarrow> fail (Err ErrNotConfigured ''routing: MAPID is not configured'')
      | Unroutable \<Rightarrow> fail (Err ErrStore ''routing'')
      | Routed r \<Rightarrow>
          (let e = fresh_entry E points profile avoidTolls r
           in andThen (attempt (Cache_Save E e)) (\<lambda>_. ok (from_entry (ce_CacheKey e) e\<lparr>rr_Cached := False\<rparr>))))"

definition Cache_Route :: "env \<Rightarrow> position list \<Rightarrow> string \<Rightarrow> bool \<Rightarrow> (db, route_result) op" where
  "Cache_Route E points profile0 avoidTolls =
     (let profile = (if profile0 = [] then ''truck'' else profile0);
          key = CacheKey E points profile avoidTolls
      in andThen (attempt (Cache_Lookup E key)) (\<lambda>r.
         case r of
           Inr (Some entry) \<Rightarrow> andThen (priceIfMissing E entry) (\<lambda>e. ok (from_entry key e))
         | _ \<Rightarrow> compute_route E points profile avoidTolls))"

text \<open>\<open>Reprice\<close>: whether any of the roads got its fare now.\<close>

definition reprice_one :: "env \<Rightarrow> string \<Rightarrow> (db, bool) op" where
  "reprice_one E key = andThen (attempt (Cache_Lookup E key)) (\<lambda>r.
     case r of
       Inr (Some entry) \<Rightarrow>
         if \<not> ce_HasToll entry \<or> ro_Toll (ce_Route entry) \<noteq> None then ok False
         else andThen (priceIfMissing E entry) (\<lambda>e. ok (ro_Toll (ce_Route e) \<noteq> None))
     | _ \<Rightarrow> ok False)"

fun Reprice :: "env \<Rightarrow> string list \<Rightarrow> (db, bool) op" where
  "Reprice E [] = ok False"
| "Reprice E (key # keys) = andThen (reprice_one E key) (\<lambda>c. andThen (Reprice E keys) (\<lambda>cs. ok (c \<or> cs)))"

text \<open>
  \<open>warehousePoint\<close> of internal/services/dispatch_service.go: a site without coordinates is no point
  (nought, nought is at sea).
\<close>

definition warehousePoint :: "env \<Rightarrow> string \<Rightarrow> position result" where
  "warehousePoint E i =
     (case GetWarehouse E i of
        None \<Rightarrow> Inl (Err ErrStore ''masterdata'')
      | Some w \<Rightarrow> if w_Latitude w = 0 \<and> w_Longitude w = 0
          then Inl (Err ErrValidation ''warehouse has no coordinates'') else Inr (warehouse_pos w))"

section \<open>What a key says\<close>

lemma digit_chars: "c \<in> set (digits n) \<Longrightarrow> 48 \<le> (of_char c :: nat) \<and> (of_char c :: nat) \<le> 57"
proof (induction n rule: digits.induct)
  case (1 n)
  then show ?case by (cases "n < 10") (auto simp: digits.simps [of n])
qed

lemma padded_chars: "c \<in> set (zero_padded w n) \<Longrightarrow> 48 \<le> (of_char c :: nat) \<and> (of_char c :: nat) \<le> 57"
  by (auto simp: zero_padded_def dest: digit_chars)

lemma split_at:
  assumes "x \<notin> set a" and "x \<notin> set b"
  shows "a @ x # s = b @ x # t \<longleftrightarrow> a = b \<and> s = t"
  using assms
proof (induction a arbitrary: b)
  case Nil
  then show ?case by (cases b) auto
next
  case (Cons c a)
  then show ?case by (cases b) auto
qed

text \<open>Two coordinates that print alike: the same sign and the same number of hundred-thousandths.\<close>

definition same5 :: "rat \<Rightarrow> rat \<Rightarrow> bool" where
  "same5 v w \<longleftrightarrow> (v < 0 \<longleftrightarrow> w < 0) \<and> units5 v = units5 w"

definition number_chars :: "char set" where
  "number_chars = {c. of_char c \<in> {45, 46 :: nat} \<or> 48 \<le> (of_char c :: nat) \<and> (of_char c :: nat) \<le> 57}"

lemma format5_chars: "set (format5 v) \<subseteq> number_chars"
  using digit_chars padded_chars by (fastforce simp: format5_def number_chars_def)

lemma digits_not:
  "CHR ''-'' \<notin> set (digits n)" "CHR ''.'' \<notin> set (digits n)"
  using digit_chars [of "CHR ''-''"] digit_chars [of "CHR ''.''"] by auto

lemma digits_inj: "digits m = digits n \<longleftrightarrow> m = n"
  using undigits_digits by metis

lemma padded_inj: "zero_padded w m = zero_padded w n \<longleftrightarrow> m = n"
  using undigits_padded by metis

lemma format5_eq: "format5 v = format5 w \<longleftrightarrow> same5 v w"
proof -
  let ?num = "\<lambda>v. digits (units5 v div 100000) @ CHR ''.'' # zero_padded 5 (units5 v mod 100000)"
  have num: "?num v = ?num w \<longleftrightarrow> units5 v = units5 w"
    unfolding split_at [OF digits_not(2) digits_not(2)] digits_inj padded_inj
    by (metis div_mult_mod_eq)
  have head: "?num v \<noteq> CHR ''-'' # s" for v s
    using digits_not(1) [of "units5 v div 100000"] by (cases "digits (units5 v div 100000)") auto
  show ?thesis using num head [of v] head [of w] head [of w, THEN not_sym]
    by (auto simp: format5_def same5_def)
qed

definition same_point5 :: "position \<Rightarrow> position \<Rightarrow> bool" where
  "same_point5 p q \<longleftrightarrow> same5 (pos_Longitude p) (pos_Longitude q) \<and> same5 (pos_Latitude p) (pos_Latitude q)"

lemma format5_not: "CHR '','' \<notin> set (format5 v)" "CHR '';'' \<notin> set (format5 v)"
  using format5_chars [of v] by (auto simp: number_chars_def)

lemma point_text_eq:
  "point_text p @ s = point_text q @ t \<longleftrightarrow> same_point5 p q \<and> s = t"
proof -
  have "point_text p @ s = format5 (pos_Longitude p) @ CHR '','' # (format5 (pos_Latitude p) @ CHR '';'' # s)" for p s
    by (simp add: point_text_def)
  then show ?thesis
    by (simp add: split_at format5_not format5_eq same_point5_def)
qed

lemma points_text_eq:
  "concat (map point_text ps) = concat (map point_text qs) \<longleftrightarrow> list_all2 same_point5 ps qs"
proof (induction ps arbitrary: qs)
  case Nil
  then show ?case by (cases qs) (auto simp: point_text_def)
next
  case (Cons p ps)
  then show ?case by (cases qs) (auto simp: point_text_eq, auto simp: point_text_def)
qed

text \<open>The text under a key tells requests apart exactly up to the fifth decimal.\<close>

lemma key_text_eq:
  assumes "CHR ''|'' \<notin> set prof" and "CHR ''|'' \<notin> set prof'"
  shows "key_text ps prof a = key_text qs prof' b \<longleftrightarrow> prof = prof' \<and> a = b \<and> list_all2 same_point5 ps qs"
proof -
  have b: "CHR ''|'' \<notin> set (bool_text x)" for x by simp
  have t: "bool_text a = bool_text b \<longleftrightarrow> a = b" by simp
  show ?thesis
    unfolding key_text_def using split_at [OF assms] split_at [OF b [of a] b [of b]] t points_text_eq by simp
qed

section \<open>A road is asked for once\<close>

lemma find_refreshed:
  assumes "\<exists>r\<in>set rows. rc_CacheKey r = rc_CacheKey row" and "t < rc_ExpiresAt row"
  shows "\<exists>r. find (\<lambda>r. rc_CacheKey r = rc_CacheKey row \<and> t < rc_ExpiresAt r)
      (update_where (\<lambda>r. rc_CacheKey r = rc_CacheKey row) (refreshed row) rows) = Some (refreshed row r)"
  using assms by (induction rows) (auto simp: update_where_def refreshed_def)

lemma Cache_Save_found:
  assumes "Cache_Save E e d = (Inr u, d')" and "t < now E + CacheTTL"
  obtains row where "find (\<lambda>r. rc_CacheKey r = ce_CacheKey e \<and> t < rc_ExpiresAt r) (db_route_cache d') = Some row"
    "rc_DistanceMeters row = rc_DistanceMeters (row_of E e)" "rc_Geometry row = ro_Geometry (ce_Route e)"
    "rc_HasToll row = ce_HasToll e" "rc_TollDistanceMeters row = ce_TollDistanceMeters e"
    "rc_Toll row = ro_Toll (ce_Route e)"
proof (cases "list_ex (\<lambda>r. rc_CacheKey r = ce_CacheKey e) (db_route_cache d)")
  case True
  have k: "rc_CacheKey (row_of E e) = ce_CacheKey e" "rc_ExpiresAt (row_of E e) = now E + CacheTTL"
    by (simp_all add: row_of_def)
  with True assms(2) find_refreshed [of "db_route_cache d" "row_of E e" t] obtain r where
    "find (\<lambda>r. rc_CacheKey r = ce_CacheKey e \<and> t < rc_ExpiresAt r)
      (update_where (\<lambda>r. rc_CacheKey r = ce_CacheKey e) (refreshed (row_of E e)) (db_route_cache d)) =
      Some (refreshed (row_of E e) r)" by (auto simp: list_ex_iff)
  with True assms(1) show ?thesis
    by (intro that [of "refreshed (row_of E e) r"]) (auto simp: Cache_Save_def call_Inr exec_def refreshed_def row_of_def)
next
  case False
  then have "find (\<lambda>r. rc_CacheKey r = ce_CacheKey e \<and> t < rc_ExpiresAt r) (db_route_cache d) = None"
    by (auto simp: list_ex_iff find_None_iff)
  moreover have "find P (xs @ [y]) = (case find P xs of None \<Rightarrow> if P y then Some y else None | s \<Rightarrow> s)"
    for P :: "route_cache_entry \<Rightarrow> bool" and xs y by (induction xs) auto
  ultimately show ?thesis using False assms
    by (intro that [of "row_of E e"]) (auto simp: Cache_Save_def call_Inr exec_def row_of_def)
qed

text \<open>
  A road that was computed and remembered answers every later request for the same points (up to the
  fifth decimal) while it lives, whatever the service would say by then.
\<close>

text \<open>Looking for a missing fare never fails and changes nothing else of the road.\<close>

lemma priceIfMissing_Inr:
  obtains e' d' where "priceIfMissing E e d = (Inr e', d')" "ce_HasToll e' = ce_HasToll e"
    "ce_TollDistanceMeters e' = ce_TollDistanceMeters e" "ro_Geometry (ce_Route e') = ro_Geometry (ce_Route e)"
    "ro_DistanceMeters (ce_Route e') = ro_DistanceMeters (ce_Route e)"
proof (cases "\<not> ce_HasToll e \<or> ro_Toll (ce_Route e) \<noteq> None \<or> TollFor E (ro_Geometry (ce_Route e)) \<in> {None, Some None}")
  case True
  then have "priceIfMissing E e d = (Inr e, d)" by (auto simp: priceIfMissing_def ok_def)
  then show ?thesis by (rule that) simp_all
next
  case False
  then obtain toll where t: "ce_HasToll e" "ro_Toll (ce_Route e) = None" "TollFor E (ro_Geometry (ce_Route e)) = Some (Some toll)"
    by auto
  let ?p = "e\<lparr>ce_Route := (ce_Route e)\<lparr>ro_Toll := Some toll\<rparr>\<rparr>"
  obtain x d' where "Cache_Save E ?p d = (x, d')" by fastforce
  with t have "priceIfMissing E e d = (Inr ?p, d')"
    by (simp add: priceIfMissing_def Let_def andThen_def attempt_def ok_def)
  then show ?thesis by (rule that) simp_all
qed

lemma compute_route_Inr:
  assumes "compute_route E ps prof a d = (Inr res, d')"
  obtains e x r where "e = fresh_entry E ps prof a r" "Cache_Save E e d = (x, d')" "MapidRoute E ps prof a = Routed r"
    "res = from_entry (ce_CacheKey e) e\<lparr>rr_Cached := False\<rparr>"
  using assms by (cases "MapidRoute E ps prof a") (auto simp: compute_route_def Let_def andThen_Inr)

lemma Cache_Route_fresh:
  assumes "Cache_Route E ps prof0 a d = (Inr res, d')" and "\<not> rr_Cached res"
  shows "compute_route E ps (if prof0 = [] then ''truck'' else prof0) a d = (Inr res, d')"
proof -
  let ?key = "CacheKey E ps (if prof0 = [] then ''truck'' else prof0) a"
  obtain l d1 where l: "Cache_Lookup E ?key d = (l, d1)" by fastforce
  then have "d1 = d" by (rule readonlyD [rotated]) (simp add: Cache_Lookup_def op_rules)
  with assms l show ?thesis
    by (cases l; cases "projr l") (auto simp: Cache_Route_def Let_def andThen_Inr from_entry_def)
qed

lemma asked_once:
  assumes run: "Cache_Route E ps prof a d = (Inr res, d')" and new: "\<not> rr_Cached res"
    and up: "\<not> down E (Dispatch CacheSave)" "\<not> down E2 (Dispatch CacheLookup)"
    and alive: "now E2 < now E + CacheTTL" and same: "list_all2 same_point5 ps qs" "sha256 E2 = sha256 E"
    and p: "prof = prof2 \<or> prof = [] \<and> prof2 = ''truck'' \<or> prof = ''truck'' \<and> prof2 = []"
    and bar: "CHR ''|'' \<notin> set prof" "CHR ''|'' \<notin> set prof2"
  shows "\<exists>res2 d2. Cache_Route E2 qs prof2 a d' = (Inr res2, d2) \<and> rr_Cached res2 \<and> rr_Key res2 = rr_Key res \<and>
    ro_DistanceMeters (rr_Route res2) = of_int (trunc (ro_DistanceMeters (rr_Route res))) \<and>
    ro_Geometry (rr_Route res2) = ro_Geometry (rr_Route res) \<and> rr_HasToll res2 = rr_HasToll res \<and>
    rr_TollDistanceMeters res2 = rr_TollDistanceMeters res"
proof -
  let ?p = "if prof = [] then ''truck'' else prof" and ?p2 = "if prof2 = [] then ''truck'' else prof2"
  have pp: "?p2 = ?p" using p by auto
  from compute_route_Inr [OF Cache_Route_fresh [OF run new]] obtain e x r where e: "e = fresh_entry E ps ?p a r"
    and sv0: "Cache_Save E e d = (x, d')" and res: "res = from_entry (ce_CacheKey e) e\<lparr>rr_Cached := False\<rparr>" by metis
  from sv0 up(1) have sv: "Cache_Save E e d = (Inr (), d')" by (auto simp: Cache_Save_def call_def exec_def)
  from Cache_Save_found [OF sv alive] obtain row where
    row: "find (\<lambda>r. rc_CacheKey r = ce_CacheKey e \<and> now E2 < rc_ExpiresAt r) (db_route_cache d') = Some row"
    "rc_DistanceMeters row = rc_DistanceMeters (row_of E e)" "rc_Geometry row = ro_Geometry (ce_Route e)"
    "rc_HasToll row = ce_HasToll e" "rc_TollDistanceMeters row = ce_TollDistanceMeters e"
    "rc_Toll row = ro_Toll (ce_Route e)" .
  have "key_text ps ?p a = key_text qs ?p2 a" using same(1) pp bar by (subst key_text_eq) auto
  then have key: "CacheKey E2 qs ?p2 a = ce_CacheKey e" using e same(2) by (simp add: CacheKey_def fresh_entry_def)
  have look: "Cache_Lookup E2 (CacheKey E2 qs ?p2 a) d' = (Inr (Some (entryFromRow row)), d')"
    using row(1) up(2) key by (simp add: Cache_Lookup_def call_def query_def)
  obtain en d2 where price: "priceIfMissing E2 (entryFromRow row) d' = (Inr en, d2)"
    and en: "ro_DistanceMeters (ce_Route en) = of_int (rc_DistanceMeters row)" "ro_Geometry (ce_Route en) = rc_Geometry row"
      "ce_HasToll en = rc_HasToll row" "ce_TollDistanceMeters en = rc_TollDistanceMeters row"
    by (rule priceIfMissing_Inr [of E2 "entryFromRow row" d']) (simp add: entryFromRow_def)
  have "Cache_Route E2 qs prof2 a d' = (Inr (from_entry (ce_CacheKey e) en), d2)"
    using look price key unfolding Cache_Route_def Let_def by (simp add: andThen_def attempt_def ok_def)
  then show ?thesis using res en row by (auto simp: from_entry_def row_of_def)
qed

section \<open>What routing touches\<close>

definition one_entry :: "db \<Rightarrow> bool" where
  "one_entry d \<longleftrightarrow> distinct (map rc_CacheKey (db_route_cache d))"

lemma keyed_refresh: "map rc_CacheKey (update_where P (refreshed new) rows) = map rc_CacheKey rows"
  by (induction rows) (auto simp: update_where_def refreshed_def)

lemma one_entry_save [op_rules]: "preserves one_entry (Cache_Save E e)"
proof -
  have "rc_CacheKey (row_of E e) = ce_CacheKey e" by (simp add: row_of_def)
  then show ?thesis
    by (auto simp: preserves_def Cache_Save_def call_def fail_def exec_def one_entry_def keyed_refresh list_ex_iff)
qed

text \<open>The tables of the delivery core, and everything but the cache.\<close>

definition but_cache :: "db \<Rightarrow> db" where
  "but_cache d = d\<lparr>db_route_cache := []\<rparr>"

lemma keeps_save [op_rules]: "keeps but_cache (Cache_Save E e)"
  by (auto simp: keeps_def Cache_Save_def call_def fail_def exec_def but_cache_def)

lemma readonly_lookup [op_rules]: "readonly (Cache_Lookup E key)"
  unfolding Cache_Lookup_def by (intro op_rules)

lemmas lookup_rules [op_rules] = readonly_lookup [THEN keeps_readonly] readonly_lookup [THEN preserves_readonly]

lemma cache_rules [op_rules]:
  "keeps but_cache (priceIfMissing E entry)" "preserves one_entry (priceIfMissing E entry)"
  "keeps but_cache (Cache_Route E ps prof a)" "preserves one_entry (Cache_Route E ps prof a)"
  "keeps but_cache (Reprice E keys)" "preserves one_entry (Reprice E keys)"
proof -
  show p: "keeps but_cache (priceIfMissing E entry)" "preserves one_entry (priceIfMissing E entry)" for entry
    unfolding priceIfMissing_def Let_def by (intro op_rules)+
  have c: "keeps but_cache (compute_route E ps prof a)" "preserves one_entry (compute_route E ps prof a)" for prof
    unfolding compute_route_def Let_def by (cases "MapidRoute E ps prof a"; auto intro!: op_rules)+
  show "keeps but_cache (Cache_Route E ps prof a)" "preserves one_entry (Cache_Route E ps prof a)"
    unfolding Cache_Route_def Let_def by (intro op_rules p c)+
  have r: "keeps but_cache (reprice_one E key)" "preserves one_entry (reprice_one E key)" for key
    unfolding reprice_one_def by (intro op_rules p)+
  show "keeps but_cache (Reprice E keys)" "preserves one_entry (Reprice E keys)"
    by (induction keys) (auto intro!: op_rules r)
qed

end
