(* ===== verification/Dispatch.thy ===== *)
theory Dispatch
  imports Routing "HOL-Library.Product_Lexorder"
begin

text \<open>
  internal/services/dispatch_service.go and the order routes of internal/repository/dispatch.go: where
  the trucks are, which of them to send, and which roads an order runs over.
\<close>

section \<open>Where a truck is\<close>

abbreviation SourceLive :: string where "SourceLive \<equiv> ''live''"
abbreviation SourceLastDrop :: string where "SourceLastDrop \<equiv> ''lastDrop''"
abbreviation SourceNone :: string where "SourceNone \<equiv> ''none''"

record truck_position =
  tp_Position :: position
  tp_At :: time
  tp_Source :: string
  tp_Kecamatan :: string
  tp_City :: string

type_synonym positions = "string \<rightharpoonup> truck_position"

text \<open>Two trucks that name one device: the later one has it.\<close>

definition imeiToTruck :: "truck list \<Rightarrow> string \<rightharpoonup> string" where
  "imeiToTruck trucks = foldl (\<lambda>m t. if t_Imei t = [] then m else m(t_Imei t \<mapsto> t_ID t)) Map.empty trucks"

definition live_position :: "live_fix \<Rightarrow> truck_position" where
  "live_position p = \<lparr>tp_Position = lf_Position p, tp_At = lf_Time p, tp_Source = SourceLive,
     tp_Kecamatan = lf_Kecamatan p, tp_City = lf_City p\<rparr>"

definition live_positions :: "env \<Rightarrow> truck list \<Rightarrow> positions" where
  "live_positions E trucks =
     (let imeis = filter (\<lambda>i. i \<noteq> []) (map t_Imei trucks)
      in if telemetry_configured E \<and> imeis \<noteq> []
         then (case Live E imeis of
             None \<Rightarrow> Map.empty
           | Some live \<Rightarrow>
               foldl (\<lambda>m (imei, p). m(the_default [] (imeiToTruck trucks imei) \<mapsto> live_position p)) Map.empty live)
         else Map.empty)"

text \<open>
  \<open>LastKnownPositions\<close>: where each truck unloaded in its latest finished shipment of which the place
  is on record.
\<close>

definition finished_jobs :: "string \<Rightarrow> db \<Rightarrow> shipment list" where
  "finished_jobs truck d = filter (\<lambda>s. sh_TruckID s = Some truck \<and> sh_FinishedAt s \<noteq> None \<and>
     sh_UnloadingLatitude s \<noteq> None \<and> sh_UnloadingLongitude s \<noteq> None) (db_shipments d)"

definition drop_of :: "shipment \<Rightarrow> truck_position" where
  "drop_of s = \<lparr>tp_Position = \<lparr>pos_Latitude = the_default 0 (sh_UnloadingLatitude s),
       pos_Longitude = the_default 0 (sh_UnloadingLongitude s)\<rparr>,
     tp_At = the_default 0 (sh_FinishedAt s), tp_Source = SourceLastDrop, tp_Kecamatan = [], tp_City = []\<rparr>"

definition last_drop :: "string \<Rightarrow> db \<Rightarrow> truck_position option" where
  "last_drop truck d = map_option drop_of (newest (\<lambda>s. the_default 0 (sh_FinishedAt s)) (finished_jobs truck d))"

definition LastKnownPositions :: "env \<Rightarrow> string list \<Rightarrow> (db, positions) op" where
  "LastKnownPositions E ids =
     (if ids = [] then ok Map.empty
      else call E (Dispatch RoutesLastKnownPositions) (query (\<lambda>d.
        Inr (\<lambda>i. if i \<in> set ids then last_drop i d else None))))"

text \<open>Live first; what is missing is filled from the finished shipments, as far as these answer.\<close>

definition positionsFor :: "env \<Rightarrow> truck list \<Rightarrow> (db, positions) op" where
  "positionsFor E trucks =
     (let live = live_positions E trucks;
          missing = filter (\<lambda>i. live i = None) (map t_ID trucks)
      in if missing = [] then ok live
         else andThen (attempt (LastKnownPositions E missing)) (\<lambda>r.
           ok (case r of Inl _ \<Rightarrow> live | Inr drops \<Rightarrow> live ++ drops)))"

text \<open>A truck that master data does not answer for still has its last drop.\<close>

definition bare_truck :: "string \<Rightarrow> truck" where
  "bare_truck i = \<lparr>t_TruckTypeID = [], t_Imei = [], t_PoliceNumber = [], t_ID = i, t_CompanyID = [],
     t_DriverIds = [], t_Status = [], t_IsAvailable = False\<rparr>"

definition truckPosition :: "env \<Rightarrow> string \<Rightarrow> (db, truck_position option) op" where
  "truckPosition E truckID =
     andThen (positionsFor E [the_default (bare_truck truckID) (GetTruck E truckID)]) (\<lambda>ps. ok (ps truckID))"

section \<open>Which truck to send\<close>

record candidate =
  ca_TruckID :: string
  ca_PoliceNumber :: string
  ca_TruckTypeID :: string
  ca_DriverIDs :: "string list"
  ca_StraightLineMeters :: int
  ca_PositionAt :: "time option"
  ca_PositionSource :: string
  ca_Kecamatan :: string
  ca_City :: string
  ca_PositionKnown :: bool

definition candidate_of :: "env \<Rightarrow> position \<Rightarrow> positions \<Rightarrow> truck \<Rightarrow> candidate" where
  "candidate_of E origin ps t =
     (let c = \<lparr>ca_TruckID = t_ID t, ca_PoliceNumber = t_PoliceNumber t, ca_TruckTypeID = t_TruckTypeID t,
            ca_DriverIDs = t_DriverIds t, ca_StraightLineMeters = 0, ca_PositionAt = None,
            ca_PositionSource = SourceNone, ca_Kecamatan = [], ca_City = [], ca_PositionKnown = False\<rparr>
      in case ps (t_ID t) of
           None \<Rightarrow> c
         | Some p \<Rightarrow> c\<lparr>ca_PositionKnown := True, ca_PositionAt := Some (tp_At p), ca_PositionSource := tp_Source p,
             ca_Kecamatan := tp_Kecamatan p, ca_City := tp_City p,
             ca_StraightLineMeters := trunc (distance E (tp_Position p) origin)\<rparr>)"

definition comes_before :: "candidate \<Rightarrow> candidate \<Rightarrow> bool" where
  "comes_before a b =
     (if ca_PositionKnown a \<noteq> ca_PositionKnown b then ca_PositionKnown a
      else if ca_StraightLineMeters a = ca_StraightLineMeters b
      then ca_PositionSource a = SourceLive \<and> ca_PositionSource b \<noteq> SourceLive
      else ca_StraightLineMeters a < ca_StraightLineMeters b)"

text \<open>\<open>sort.SliceStable\<close>: by insertion, an element stays in front of those it does not have to follow.\<close>

fun insert_stable :: "('a \<Rightarrow> 'a \<Rightarrow> bool) \<Rightarrow> 'a \<Rightarrow> 'a list \<Rightarrow> 'a list" where
  "insert_stable lt x [] = [x]"
| "insert_stable lt x (y # ys) = (if lt y x then y # insert_stable lt x ys else x # y # ys)"

definition SliceStable :: "('a \<Rightarrow> 'a \<Rightarrow> bool) \<Rightarrow> 'a list \<Rightarrow> 'a list" where
  "SliceStable lt xs = foldr (insert_stable lt) xs []"

definition Candidates :: "env \<Rightarrow> actor \<Rightarrow> uuid \<Rightarrow> (db, candidate list) op" where
  "Candidates E actor orderID =
     andThen (Orders_FindByID E (a_CompanyID actor) orderID) (\<lambda>ord.
     case o_OriginWarehouseID ord of
       None \<Rightarrow> fail (Err ErrValidation ''the order has no loading point to measure from'')
     | Some site \<Rightarrow>
         andThen (from_result (warehousePoint E site)) (\<lambda>origin.
         case ListAvailableTrucks E (a_CompanyID actor) of
           None \<Rightarrow> fail (Err ErrStore ''masterdata'')
         | Some trucks \<Rightarrow>
             andThen (positionsFor E trucks) (\<lambda>ps.
             ok (SliceStable comes_before (map (candidate_of E origin ps) trucks)))))"

record fleet_position =
  fp_TruckID :: string
  fp_PoliceNumber :: string
  fp_Status :: string
  fp_IsAvailable :: bool
  fp_IMEI :: string
  fp_Position :: position
  fp_At :: time
  fp_Source :: string
  fp_City :: string

definition fleet_position_of :: "truck \<Rightarrow> truck_position \<Rightarrow> fleet_position" where
  "fleet_position_of t p = \<lparr>fp_TruckID = t_ID t, fp_PoliceNumber = t_PoliceNumber t, fp_Status = t_Status t,
     fp_IsAvailable = t_IsAvailable t, fp_IMEI = t_Imei t, fp_Position = tp_Position p, fp_At = tp_At p,
     fp_Source = tp_Source p, fp_City = tp_City p\<rparr>"

definition FleetPositions :: "env \<Rightarrow> actor \<Rightarrow> (db, fleet_position list) op" where
  "FleetPositions E actor =
     (case ListTrucks E (a_CompanyID actor) of
        None \<Rightarrow> fail (Err ErrStore ''masterdata'')
      | Some trucks \<Rightarrow>
          andThen (positionsFor E trucks) (\<lambda>ps.
          ok (List.map_filter (\<lambda>t. map_option (fleet_position_of t) (ps (t_ID t))) trucks)))"

text \<open>\<open>DriverActivity\<close>: the pairs of driver and truck in the company's carried orders, one row each.\<close>

record driver_activity =
  dv_DriverID :: string
  dv_TruckID :: string
  dv_Trips :: nat
  dv_LastActiveAt :: "time option"

definition driven :: "uuid \<Rightarrow> db \<Rightarrow> (string \<times> string \<times> time) list" where
  "driven company d = List.map_filter (\<lambda>s.
     case (sh_DriverID s, sh_TruckID s) of
       (Some drv, Some trk) \<Rightarrow>
         if sh_StatusCode s \<noteq> ShipmentCancelled \<and>
           list_ex (\<lambda>r. o_ID r = sh_OrderID s \<and> o_TransporterCompanyID r = Some company) (db_orders d)
         then Some (drv, trk, sh_CreatedAt s) else None
     | _ \<Rightarrow> None) (db_shipments d)"

definition activity_of :: "(string \<times> string \<times> time) list \<Rightarrow> string \<times> string \<Rightarrow> driver_activity" where
  "activity_of rows p =
     (let times = map (\<lambda>(_, _, t). t) (filter (\<lambda>(drv, trk, _). (drv, trk) = p) rows)
      in \<lparr>dv_DriverID = fst p, dv_TruckID = snd p, dv_Trips = length times,
          dv_LastActiveAt = (if times = [] then None else Some (foldl max (hd times) (tl times)))\<rparr>)"

definition DriverActivity :: "env \<Rightarrow> actor \<Rightarrow> (db, driver_activity list) op" where
  "DriverActivity E actor = call E (Dispatch RoutesDriverActivity) (query (\<lambda>d.
     let rows = driven (a_CompanyID actor) d
     in Inr (map (activity_of rows) (remdups (map (\<lambda>(drv, trk, _). (drv, trk)) rows)))))"

section \<open>The roads of an order\<close>

abbreviation LegHaul :: string where "LegHaul \<equiv> ''haul''"
abbreviation LegApproach :: string where "LegApproach \<equiv> ''approach''"

text \<open>
  A leg as it is read, with the road it points at joined in. A column of JSON never scans to nil: a
  road without a fare has an empty one.
\<close>

record planned_leg =
  pl_Route :: order_route
  pl_Cache :: "route_cache_entry option"

definition scanned_road :: "route_cache_entry \<Rightarrow> route_cache_entry" where
  "scanned_road r = r\<lparr>rc_Toll := Some (the_default [] (rc_Toll r))\<rparr>"

definition read_leg :: "db \<Rightarrow> order_route \<Rightarrow> planned_leg" where
  "read_leg d l = \<lparr>pl_Route = l,
     pl_Cache = map_option scanned_road (find (\<lambda>r. rc_CacheKey r = rt_CacheKey l) (db_route_cache d))\<rparr>"

definition Legs_ListByOrder :: "env \<Rightarrow> uuid \<Rightarrow> (db, planned_leg list) op" where
  "Legs_ListByOrder E i = call E (Dispatch RoutesListByOrder) (query (\<lambda>d.
     Inr (map (read_leg d) (filter (\<lambda>l. rt_OrderID l = i) (db_routes d)))))"

definition Legs_FindLeg :: "env \<Rightarrow> uuid \<Rightarrow> string \<Rightarrow> (db, planned_leg) op" where
  "Legs_FindLeg E i leg = call E (Dispatch RoutesFindLeg) (query (\<lambda>d.
     one (map_option (read_leg d) (find (\<lambda>l. rt_OrderID l = i \<and> rt_Leg l = leg) (db_routes d)))))"

text \<open>Coordinates are NUMERIC(10,7); the order and the road must exist.\<close>

definition stored_point :: "position \<Rightarrow> position" where
  "stored_point p = \<lparr>pos_Latitude = round_to 7 (pos_Latitude p), pos_Longitude = round_to 7 (pos_Longitude p)\<rparr>"

definition point_fits :: "position \<Rightarrow> bool" where
  "point_fits p \<longleftrightarrow> numeric_fits 3 (pos_Latitude p) \<and> numeric_fits 3 (pos_Longitude p)"

definition stored_leg :: "order_route \<Rightarrow> order_route" where
  "stored_leg l = l\<lparr>rt_From := stored_point (rt_From l), rt_To := stored_point (rt_To l)\<rparr>"

definition same_leg :: "order_route \<Rightarrow> order_route \<Rightarrow> bool" where
  "same_leg l r \<longleftrightarrow> rt_OrderID r = rt_OrderID l \<and> rt_Leg r = rt_Leg l"

definition replanned :: "order_route \<Rightarrow> order_route \<Rightarrow> order_route" where
  "replanned l r = r\<lparr>rt_CacheKey := rt_CacheKey l, rt_From := rt_From l, rt_To := rt_To l,
     rt_ReroutedAt := rt_ReroutedAt l, rt_ReroutedByUserID := rt_ReroutedByUserID l\<rparr>"

definition leg_accepted :: "order_route \<Rightarrow> db \<Rightarrow> bool" where
  "leg_accepted l d \<longleftrightarrow> rt_Leg l \<in> {LegHaul, LegApproach} \<and> point_fits (rt_From l) \<and> point_fits (rt_To l) \<and>
     list_ex (\<lambda>r. o_ID r = rt_OrderID l) (db_orders d) \<and>
     list_ex (\<lambda>r. rc_CacheKey r = rt_CacheKey l) (db_route_cache d)"

definition Legs_Upsert :: "env \<Rightarrow> order_route \<Rightarrow> (db, unit) op" where
  "Legs_Upsert E l0 = call E (Dispatch RoutesUpsert) (\<lambda>d.
     let l = stored_leg l0
     in if \<not> leg_accepted l d then (Inl (Err ErrStore ''order_routes''), d)
        else (Inr (), d\<lparr>db_routes :=
          (if list_ex (same_leg l) (db_routes d) then update_where (same_leg l) (replanned l) (db_routes d)
           else db_routes d @ [l])\<rparr>))"

definition planLegVia :: "env \<Rightarrow> uuid \<Rightarrow> string \<Rightarrow> position list \<Rightarrow> uuid \<Rightarrow> (db, unit) op" where
  "planLegVia E orderID leg points reroutedBy =
     (if length points < 2 then ok ()
      else andThen (Cache_Route E points ''truck'' False) (\<lambda>result.
        Legs_Upsert E
          \<lparr>rt_OrderID = orderID, rt_Leg = leg, rt_CacheKey = rr_Key result, rt_From = hd points, rt_To = last points,
           rt_ReroutedAt = (if reroutedBy \<noteq> uuid_Nil then Some (now E) else None),
           rt_ReroutedByUserID = (if reroutedBy \<noteq> uuid_Nil then Some reroutedBy else None)\<rparr>))"

definition planLeg :: "env \<Rightarrow> uuid \<Rightarrow> string \<Rightarrow> position \<Rightarrow> position \<Rightarrow> uuid \<Rightarrow> (db, unit) op" where
  "planLeg E orderID leg a b reroutedBy = planLegVia E orderID leg [a, b] reroutedBy"

fun warehousePoints :: "env \<Rightarrow> string list \<Rightarrow> position list result" where
  "warehousePoints E [] = Inr []"
| "warehousePoints E (i # ids) =
     (case warehousePoint E i of
        Inl e \<Rightarrow> Inl e
      | Inr p \<Rightarrow> (case warehousePoints E ids of Inl e \<Rightarrow> Inl e | Inr ps \<Rightarrow> Inr (p # ps)))"

text \<open>Every stop in visit order, where the journey has them.\<close>

definition haul_sites :: "env \<Rightarrow> uuid \<Rightarrow> string \<Rightarrow> string \<Rightarrow> (db, string list) op" where
  "haul_sites E orderID a b =
     (if stops_wired E
      then andThen (attempt (Stops_ListByOrder E orderID)) (\<lambda>r.
        ok (case r of Inl _ \<Rightarrow> [a, b]
          | Inr stops \<Rightarrow> if 2 \<le> length stops then map st_WarehouseID stops else [a, b]))
      else ok [a, b])"

definition PlanHaul :: "env \<Rightarrow> order \<Rightarrow> (db, unit) op" where
  "PlanHaul E ord =
     (case (o_OriginWarehouseID ord, o_DestinationWarehouseID ord) of
        (Some a, Some b) \<Rightarrow>
          andThen (haul_sites E (o_ID ord) a b) (\<lambda>ids.
          andThen (from_result (warehousePoints E ids)) (\<lambda>points.
          planLegVia E (o_ID ord) LegHaul points uuid_Nil))
      | _ \<Rightarrow> ok ())"

definition PlanApproach :: "env \<Rightarrow> order \<Rightarrow> (db, unit) op" where
  "PlanApproach E ord =
     (case (o_TruckID ord, o_OriginWarehouseID ord) of
        (Some truckID, Some site) \<Rightarrow>
          andThen (truckPosition E truckID) (\<lambda>known.
          case known of
            None \<Rightarrow> ok ()
          | Some p \<Rightarrow>
              andThen (from_result (warehousePoint E site)) (\<lambda>to.
              planLeg E (o_ID ord) LegApproach (tp_Position p) to uuid_Nil))
      | _ \<Rightarrow> ok ())"

section \<open>Planning anew\<close>

definition replanHaul :: "env \<Rightarrow> order \<Rightarrow> uuid \<Rightarrow> (db, unit) op" where
  "replanHaul E ord by_user =
     (case (o_OriginWarehouseID ord, o_DestinationWarehouseID ord) of
        (Some a, Some b) \<Rightarrow>
          andThen (from_result (warehousePoint E a)) (\<lambda>p.
          andThen (from_result (warehousePoint E b)) (\<lambda>q.
          planLeg E (o_ID ord) LegHaul p q by_user))
      | _ \<Rightarrow> fail (Err ErrValidation ''the order has no route to re-plan''))"

text \<open>An order without a loading point is a nil dereference here: the request ends in a panic.\<close>

definition replanApproach :: "env \<Rightarrow> order \<Rightarrow> uuid \<Rightarrow> (db, unit) op" where
  "replanApproach E ord by_user =
     (case o_TruckID ord of
        None \<Rightarrow> fail (Err ErrValidation ''no truck is assigned, so there is no approach to plan'')
      | Some truckID \<Rightarrow>
          andThen (truckPosition E truckID) (\<lambda>known.
          case known of
            None \<Rightarrow> fail (Err ErrValidation ''the assigned truck has no known position'')
          | Some p \<Rightarrow>
              (case o_OriginWarehouseID ord of
                 None \<Rightarrow> fail (Err ErrStore ''panic: nil pointer dereference'')
               | Some site \<Rightarrow>
                   andThen (from_result (warehousePoint E site)) (\<lambda>to.
                   planLeg E (o_ID ord) LegApproach (tp_Position p) to by_user))))"

definition Reroute :: "env \<Rightarrow> actor \<Rightarrow> bool \<Rightarrow> uuid \<Rightarrow> string \<Rightarrow> (db, planned_leg) op" where
  "Reroute E actor entitled orderID leg =
     andThen (refuse (\<not> entitled)
       (Err ErrNotEntitled ''re-planning a route needs the advanced routing feature'')) (\<lambda>_.
     andThen (refuse (leg \<noteq> LegHaul \<and> leg \<noteq> LegApproach) (Err ErrValidation (''no such leg '' @ leg))) (\<lambda>_.
     andThen (Orders_FindByID E (a_CompanyID actor) orderID) (\<lambda>ord.
     andThen (if leg = LegHaul then replanHaul E ord (a_UserID actor) else replanApproach E ord (a_UserID actor)) (\<lambda>_.
     Legs_FindLeg E orderID leg))))"

section \<open>Reading the roads\<close>

definition unpricedTollKeys :: "planned_leg list \<Rightarrow> string list" where
  "unpricedTollKeys legs = map (rt_CacheKey \<circ> pl_Route) (filter (\<lambda>l.
     case pl_Cache l of None \<Rightarrow> False | Some r \<Rightarrow> rc_HasToll r \<and> rc_Toll r = None) legs)"

definition has_haul :: "planned_leg list \<Rightarrow> bool" where
  "has_haul legs \<longleftrightarrow> list_ex (\<lambda>l. rt_Leg (pl_Route l) = LegHaul) legs"

text \<open>A haul that was never planned is planned at the first look; failing to is only logged.\<close>

definition backfilled :: "env \<Rightarrow> order \<Rightarrow> planned_leg list \<Rightarrow> (db, planned_leg list) op" where
  "backfilled E ord legs =
     (if \<not> has_haul legs \<and> o_OriginWarehouseID ord \<noteq> None \<and> o_DestinationWarehouseID ord \<noteq> None
      then andThen (attempt (PlanHaul E ord)) (\<lambda>r.
        case r of Inl _ \<Rightarrow> ok legs | Inr _ \<Rightarrow> Legs_ListByOrder E (o_ID ord))
      else ok legs)"

definition repriced :: "env \<Rightarrow> uuid \<Rightarrow> planned_leg list \<Rightarrow> (db, planned_leg list) op" where
  "repriced E orderID legs =
     andThen (Reprice E (unpricedTollKeys legs)) (\<lambda>changed.
     if changed then Legs_ListByOrder E orderID else ok legs)"

definition Routes :: "env \<Rightarrow> actor \<Rightarrow> uuid \<Rightarrow> (db, planned_leg list) op" where
  "Routes E actor orderID =
     andThen (Orders_FindByID E (a_CompanyID actor) orderID) (\<lambda>ord.
     andThen (Legs_ListByOrder E orderID) (\<lambda>legs0.
     andThen (backfilled E ord legs0) (\<lambda>legs.
     repriced E orderID legs)))"

definition RouteForDriver :: "env \<Rightarrow> actor \<Rightarrow> uuid \<Rightarrow> (db, planned_leg list) op" where
  "RouteForDriver E actor shipmentID =
     andThen (Shipments_FindByID E shipmentID) (\<lambda>s.
     andThen (refuse (sh_DriverUserID s \<noteq> Some (a_UserID actor))
       (Err ErrForbidden ''only the assigned driver may read this shipment's route'')) (\<lambda>_.
     Routes E actor (sh_OrderID s)))"

section \<open>Sorting\<close>

text \<open>Inserting by a comparison that reads a key is the library's stable sort by that key.\<close>

lemma SliceStable_sort_key:
  assumes "\<And>a b. lt a b \<longleftrightarrow> key a < (key b :: 'k :: linorder)"
  shows "SliceStable lt xs = sort_key key xs"
proof -
  have "insert_stable lt x ys = insort_key key x ys" for x ys
    by (induction ys) (auto simp: assms)
  then have "insert_stable lt = insort_key key" by (intro ext)
  then show ?thesis by (simp add: SliceStable_def sort_key_def)
qed

definition rank :: "candidate \<Rightarrow> bool \<times> int \<times> bool" where
  "rank c = (\<not> ca_PositionKnown c, ca_StraightLineMeters c, ca_PositionSource c \<noteq> SourceLive)"

lemma comes_before_rank: "comes_before a b \<longleftrightarrow> rank a < rank b"
  by (auto simp: comes_before_def rank_def less_prod_def' less_bool_def)

lemma ranked: "SliceStable comes_before cs = sort_key rank cs"
  by (rule SliceStable_sort_key) (rule comes_before_rank)

lemma candidate_of_id [simp]: "ca_TruckID (candidate_of E origin ps t) = t_ID t"
  by (simp add: candidate_of_def Let_def split: option.split)

section \<open>Positions\<close>

lemma newest_None [simp]: "newest t rs = None \<longleftrightarrow> rs = []"
  by (cases rs) (auto split: option.splits)

lemma newest_SomeD: "newest t rs = Some r \<Longrightarrow> r \<in> set rs \<and> (\<forall>s\<in>set rs. t s \<le> t r)"
proof (induction rs arbitrary: r)
  case (Cons a rs)
  then show ?case by (cases "newest t rs") (fastforce split: if_splits)+
qed simp

lemma readonly_positions [op_rules]:
  "readonly (LastKnownPositions E ids)" "readonly (positionsFor E trucks)" "readonly (truckPosition E i)"
  "readonly (Candidates E actor o1)" "readonly (FleetPositions E actor)" "readonly (DriverActivity E actor)"
proof -
  show l: "readonly (LastKnownPositions E ids)" for ids unfolding LastKnownPositions_def by (intro op_rules)
  show p: "readonly (positionsFor E trucks)" for trucks unfolding positionsFor_def Let_def by (intro op_rules l)
  show "readonly (truckPosition E i)" unfolding truckPosition_def by (intro op_rules p)
  show "readonly (Candidates E actor o1)" unfolding Candidates_def by (intro op_rules p)
  show "readonly (FleetPositions E actor)" unfolding FleetPositions_def by (intro op_rules p)
  show "readonly (DriverActivity E actor)" unfolding DriverActivity_def by (intro op_rules)
qed

text \<open>Positions are always answered: the live one, else the last drop, as far as the table answers.\<close>

definition best_position :: "env \<Rightarrow> truck list \<Rightarrow> db \<Rightarrow> positions" where
  "best_position E trucks d i =
     (case live_positions E trucks i of
        Some p \<Rightarrow> Some p
      | None \<Rightarrow> if i \<in> t_ID ` set trucks \<and> \<not> down E (Dispatch RoutesLastKnownPositions) then last_drop i d else None)"

lemma positionsFor_best: "positionsFor E trucks d = (Inr (best_position E trucks d), d)"
proof -
  let ?live = "live_positions E trucks"
  have all: "best_position E trucks d = ?live" if "\<forall>t\<in>set trucks. ?live (t_ID t) \<noteq> None"
    using that by (force simp: best_position_def split: option.splits)
  show ?thesis
  proof (cases "\<forall>t\<in>set trucks. ?live (t_ID t) \<noteq> None")
    case True
    then have "filter (\<lambda>i. ?live i = None) (map t_ID trucks) = []" by (auto simp: filter_empty_conv)
    with all [OF True] show ?thesis by (simp add: positionsFor_def ok_def)
  next
    case False
    then have ne: "filter (\<lambda>i. ?live i = None) (map t_ID trucks) \<noteq> []" by (auto simp: filter_empty_conv)
    show ?thesis
    proof (cases "down E (Dispatch RoutesLastKnownPositions)")
      case True
      with ne show ?thesis
        by (auto simp: positionsFor_def Let_def LastKnownPositions_def call_def op_defs best_position_def fun_eq_iff
          split: option.split)
    next
      case up: False
      have "?live ++ (\<lambda>i. if i \<in> set (filter (\<lambda>i. ?live i = None) (map t_ID trucks)) then last_drop i d else None) =
          best_position E trucks d"
        using up by (auto simp: best_position_def map_add_def fun_eq_iff split: option.splits)
      with ne up show ?thesis
        by (simp add: positionsFor_def Let_def LastKnownPositions_def call_def query_def op_defs)
    qed
  qed
qed

lemma truckPosition_best:
  "truckPosition E i d = (Inr (best_position E [the_default (bare_truck i) (GetTruck E i)] d i), d)"
  by (simp add: truckPosition_def andThen_def positionsFor_best ok_def)

lemma live_positions_Some:
  assumes "live_positions E trucks i = Some p"
  obtains imei fix1 live where "telemetry_configured E" "Live E (filter (\<lambda>i. i \<noteq> []) (map t_Imei trucks)) = Some live"
    "(imei, fix1) \<in> set live" "p = live_position fix1" "the_default [] (imeiToTruck trucks imei) = i"
proof -
  have fold: "foldl (\<lambda>m (imei, q). m(f imei \<mapsto> live_position q)) m0 live i = Some p \<Longrightarrow>
      m0 i = Some p \<or> (\<exists>imei q. (imei, q) \<in> set live \<and> p = live_position q \<and> f imei = i)"
    for f :: "string \<Rightarrow> string" and m0 :: positions and live
    by (induction live arbitrary: m0) (fastforce split: if_splits)+
  from assms show ?thesis
    by (auto simp: live_positions_def Let_def split: if_splits option.splits dest!: fold intro: that)
qed

lemma last_drop_Some:
  assumes "last_drop truck d = Some p"
  obtains s where "s \<in> set (finished_jobs truck d)" "p = drop_of s"
    "\<And>s'. s' \<in> set (finished_jobs truck d) \<Longrightarrow> the_default 0 (sh_FinishedAt s') \<le> the_default 0 (sh_FinishedAt s)"
  using assms by (auto simp: last_drop_def dest!: newest_SomeD)

lemma best_position_source:
  assumes "best_position E trucks d i = Some p"
  shows "tp_Source p = SourceLive \<and> live_positions E trucks i = Some p \<or>
    tp_Source p = SourceLastDrop \<and> live_positions E trucks i = None \<and> last_drop i d = Some p"
proof (cases "live_positions E trucks i")
  case None
  with assms show ?thesis
    by (auto simp: best_position_def drop_of_def split: if_splits elim!: last_drop_Some)
next
  case (Some q)
  with assms have "q = p" by (simp add: best_position_def)
  moreover from Some have "tp_Source q = SourceLive"
    by (rule live_positions_Some) (simp add: live_position_def)
  ultimately show ?thesis using Some by simp
qed

lemma Candidates_Inr:
  assumes "Candidates E actor i d = (Inr cs, d')"
  obtains ord site origin trucks where "ord \<in> set (db_orders d)" "o_ID ord = i" "InvolvesCompany ord (a_CompanyID actor)"
    "o_OriginWarehouseID ord = Some site" "warehousePoint E site = Inr origin"
    "ListAvailableTrucks E (a_CompanyID actor) = Some trucks"
    "cs = sort_key rank (map (candidate_of E origin (best_position E trucks d)) trucks)" "d' = d"
proof -
  from assms obtain ord d1 where f: "Orders_FindByID E (a_CompanyID actor) i d = (Inr ord, d1)"
    by (auto simp: Candidates_def andThen_Inr)
  then have "d1 = d" by (rule readonlyD [rotated]) (intro op_rules)
  with f have o: "ord \<in> set (db_orders d)" "o_ID ord = i" "InvolvesCompany ord (a_CompanyID actor)"
    by (auto simp: Orders_FindByID_def call_Inr query_def one_def InvolvesCompany_def split: option.splits
      dest!: find_Some_iff_first)
  with assms f \<open>d1 = d\<close> show ?thesis
    by (auto simp: Candidates_def andThen_Inr positionsFor_best ranked split: option.splits intro: that)
qed

section \<open>What planning touches\<close>

definition but_roads :: "db \<Rightarrow> db" where
  "but_roads d = d\<lparr>db_route_cache := [], db_routes := []\<rparr>"

lemma keeps_but_cache: "keeps but_cache m \<Longrightarrow> keeps but_roads m"
proof -
  have "but_roads d = but_roads (but_cache d)" for d by (simp add: but_roads_def but_cache_def)
  then show "keeps but_cache m \<Longrightarrow> keeps but_roads m" by (metis keeps_def)
qed

lemma readonly_legs [op_rules]:
  "readonly (Legs_ListByOrder E i)" "readonly (Legs_FindLeg E i leg)" "readonly (haul_sites E i a b)"
  unfolding Legs_ListByOrder_def Legs_FindLeg_def haul_sites_def by (intro op_rules)+

lemmas leg_reads [op_rules] = readonly_legs [THEN keeps_readonly] readonly_legs [THEN preserves_readonly]
  readonly_positions [THEN keeps_readonly] readonly_positions [THEN preserves_readonly]

lemma keeps_upsert [op_rules]: "keeps but_roads (Legs_Upsert E l)"
  by (auto simp: keeps_def Legs_Upsert_def call_def fail_def Let_def but_roads_def)

lemma plans_beside [op_rules]:
  "keeps but_roads (planLegVia E i leg ps u)" "keeps but_roads (PlanHaul E ord)" "keeps but_roads (PlanApproach E ord)"
  "keeps but_roads (Reroute E actor entitled i leg)" "keeps but_roads (Routes E actor i)"
  "keeps but_roads (RouteForDriver E actor i)"
proof -
  note c = cache_rules(3,5) [THEN keeps_but_cache]
  show v: "keeps but_roads (planLegVia E i leg ps u)" for i leg ps u
    unfolding planLegVia_def by (intro op_rules c)
  then have l: "keeps but_roads (planLeg E i leg a b u)" for i leg a b u by (simp add: planLeg_def)
  show h: "keeps but_roads (PlanHaul E ord)" for ord unfolding PlanHaul_def by (intro op_rules v)
  show "keeps but_roads (PlanApproach E ord)" unfolding PlanApproach_def by (intro op_rules l)
  show "keeps but_roads (Reroute E actor entitled i leg)"
    unfolding Reroute_def replanHaul_def replanApproach_def by (intro op_rules l)
  show r: "keeps but_roads (Routes E actor i)" for i
    unfolding Routes_def backfilled_def repriced_def by (intro op_rules c h)
  show "keeps but_roads (RouteForDriver E actor i)"
    unfolding RouteForDriver_def by (intro op_rules r)
qed

section \<open>One road for each leg\<close>

text \<open>
  What the tables hold: a road per key, a leg of each kind per order, of an order that exists and over
  a road that is remembered.
\<close>

definition leg_key :: "order_route \<Rightarrow> uuid \<times> string" where
  "leg_key l = (rt_OrderID l, rt_Leg l)"

definition roads_sound :: "db \<Rightarrow> bool" where
  "roads_sound d \<longleftrightarrow> one_entry d \<and> distinct (map leg_key (db_routes d)) \<and>
     (\<forall>l\<in>set (db_routes d). rt_Leg l \<in> {LegHaul, LegApproach} \<and> rt_OrderID l \<in> o_ID ` set (db_orders d) \<and>
        rt_CacheKey l \<in> rc_CacheKey ` set (db_route_cache d))"

lemma roads_sound_same:
  assumes "db_routes d' = db_routes d" and "map rc_CacheKey (db_route_cache d') = map rc_CacheKey (db_route_cache d)"
    and "o_ID ` set (db_orders d) \<subseteq> o_ID ` set (db_orders d')" and "roads_sound d"
  shows "roads_sound d'"
proof -
  have "rc_CacheKey ` set (db_route_cache d') = rc_CacheKey ` set (db_route_cache d)"
    using assms(2) by (metis list.set_map)
  with assms show ?thesis by (auto simp: roads_sound_def one_entry_def)
qed

lemma roads_save [op_rules]: "preserves roads_sound (Cache_Save E e)"
proof -
  have keys: "rc_CacheKey ` set (db_route_cache d) \<subseteq> rc_CacheKey ` set (db_route_cache (snd (Cache_Save E e d)))" for d
    using keyed_refresh [of "\<lambda>r. rc_CacheKey r = ce_CacheKey e" "row_of E e" "db_route_cache d"]
    by (auto simp: Cache_Save_def call_def fail_def exec_def simp flip: set_map)
  have other: "db_routes (snd (Cache_Save E e d)) = db_routes d" "db_orders (snd (Cache_Save E e d)) = db_orders d" for d
    by (auto simp: Cache_Save_def call_def fail_def exec_def)
  have one: "one_entry d \<Longrightarrow> one_entry (snd (Cache_Save E e d))" for d
    using one_entry_save [of E e] by (simp add: preserves_def)
  have "roads_sound (snd (Cache_Save E e d))" if s: "roads_sound d" for d
  proof -
    have "rt_CacheKey l \<in> rc_CacheKey ` set (db_route_cache (snd (Cache_Save E e d)))" if "l \<in> set (db_routes d)" for l
      using s that subsetD [OF keys [of d]] by (simp add: roads_sound_def)
    with s one [of d] show ?thesis by (simp add: roads_sound_def other)
  qed
  then show ?thesis by (simp add: preserves_def)
qed

lemma leg_key_updates [simp]: "leg_key (replanned l r) = leg_key r" "leg_key (stored_leg l) = leg_key l"
  by (simp_all add: leg_key_def replanned_def stored_leg_def)

lemma map_update_where_key: "(\<And>r. f (g r) = f r) \<Longrightarrow> map f (update_where P g rows) = map f rows"
  by (induction rows) (auto simp: update_where_def)

lemma set_update_where: "set (update_where P g rows) = (\<lambda>r. if P r then g r else r) ` set rows"
  by (simp add: update_where_def)

lemma roads_upsert [op_rules]: "preserves roads_sound (Legs_Upsert E l)"
proof -
  let ?k = "stored_leg l"
  have "roads_sound (snd (Legs_Upsert E l d))" if s: "roads_sound d" for d
  proof (cases "down E (Dispatch RoutesUpsert) \<or> \<not> leg_accepted ?k d")
    case True
    with s show ?thesis by (auto simp: Legs_Upsert_def call_def fail_def Let_def)
  next
    case False
    let ?new = "if list_ex (same_leg ?k) (db_routes d) then update_where (same_leg ?k) (replanned ?k) (db_routes d)
      else db_routes d @ [?k]"
    from False have run: "snd (Legs_Upsert E l d) = d\<lparr>db_routes := ?new\<rparr>"
      by (simp add: Legs_Upsert_def call_def Let_def)
    have k: "rt_Leg ?k \<in> {LegHaul, LegApproach}" "rt_OrderID ?k \<in> o_ID ` set (db_orders d)"
      "rt_CacheKey ?k \<in> rc_CacheKey ` set (db_route_cache d)"
      using False unfolding leg_accepted_def list_ex_iff by (simp_all add: image_iff eq_commute)
    have old: "r \<in> set (db_routes d) \<or> rt_Leg r = rt_Leg ?k \<and> rt_OrderID r = rt_OrderID ?k \<and> rt_CacheKey r = rt_CacheKey ?k"
      if "r \<in> set ?new" for r
      using that by (auto simp: set_update_where replanned_def same_leg_def split: if_splits)
    have "map leg_key (update_where (same_leg ?k) (replanned ?k) rows) = map leg_key rows" for rows
      by (rule map_update_where_key) simp
    then have "distinct (map leg_key ?new)"
      using s by (auto simp: roads_sound_def list_ex_iff same_leg_def leg_key_def)
    moreover have "\<forall>r\<in>set ?new. rt_Leg r \<in> {LegHaul, LegApproach} \<and> rt_OrderID r \<in> o_ID ` set (db_orders d) \<and>
        rt_CacheKey r \<in> rc_CacheKey ` set (db_route_cache d)"
      using old k s unfolding roads_sound_def by metis
    ultimately show ?thesis using s unfolding run by (simp add: roads_sound_def one_entry_def)
  qed
  then show ?thesis by (simp add: preserves_def)
qed

lemma roads_evict [op_rules]: "preserves roads_sound (EvictExpired E)"
  by (auto simp: preserves_def EvictExpired_def call_def fail_def Let_def roads_sound_def one_entry_def
      list_ex_iff distinct_map_filter image_iff) metis

lemmas roads_readonly [op_rules] = readonly_legs [THEN preserves_readonly, where P = roads_sound]

lemma roads_plans [op_rules]:
  "preserves roads_sound (Cache_Route E ps prof a)" "preserves roads_sound (Reprice E keys)"
  "preserves roads_sound (planLegVia E i leg ps u)" "preserves roads_sound (PlanHaul E ord)"
  "preserves roads_sound (PlanApproach E ord)" "preserves roads_sound (Reroute E actor entitled i leg)"
  "preserves roads_sound (Routes E actor i)" "preserves roads_sound (RouteForDriver E actor i)"
proof -
  have p: "preserves roads_sound (priceIfMissing E entry)" for entry
    unfolding priceIfMissing_def Let_def by (intro op_rules)
  have c: "preserves roads_sound (compute_route E ps prof a)" for ps prof a
    unfolding compute_route_def Let_def by (cases "MapidRoute E ps prof a"; auto intro!: op_rules)
  show r: "preserves roads_sound (Cache_Route E ps prof a)" for ps prof a
    unfolding Cache_Route_def Let_def by (intro op_rules p c)
  have o: "preserves roads_sound (reprice_one E key)" for key
    unfolding reprice_one_def by (intro op_rules p)
  show k: "preserves roads_sound (Reprice E keys)" for keys by (induction keys) (auto intro!: op_rules o)
  show v: "preserves roads_sound (planLegVia E i leg ps u)" for i leg ps u
    unfolding planLegVia_def by (intro op_rules r)
  then have l: "preserves roads_sound (planLeg E i leg a b u)" for i leg a b u by (simp add: planLeg_def)
  show h: "preserves roads_sound (PlanHaul E ord)" for ord unfolding PlanHaul_def by (intro op_rules v)
  show "preserves roads_sound (PlanApproach E ord)" unfolding PlanApproach_def by (intro op_rules l)
  show "preserves roads_sound (Reroute E actor entitled i leg)"
    unfolding Reroute_def replanHaul_def replanApproach_def by (intro op_rules l)
  show t: "preserves roads_sound (Routes E actor i)" for i
    unfolding Routes_def backfilled_def repriced_def by (intro op_rules k h)
  show "preserves roads_sound (RouteForDriver E actor i)"
    unfolding RouteForDriver_def by (intro op_rules t)
qed

section \<open>What a planned leg says\<close>

lemma Cache_Route_key:
  assumes "Cache_Route E ps ''truck'' a d = (Inr res, d')"
  shows "rr_Key res = CacheKey E ps ''truck'' a"
proof -
  obtain l d1 where l: "Cache_Lookup E (CacheKey E ps ''truck'' a) d = (l, d1)" by fastforce
  show ?thesis
  proof (cases "\<exists>en. l = Inr (Some en)")
    case True
    with assms l show ?thesis by (auto simp: Cache_Route_def Let_def andThen_Inr from_entry_def)
  next
    case False
    with assms l have "compute_route E ps ''truck'' a d1 = (Inr res, d')"
      by (cases l; cases "projr l") (auto simp: Cache_Route_def Let_def andThen_Inr)
    then show ?thesis by (rule compute_route_Inr) (simp add: fresh_entry_def from_entry_def)
  qed
qed

definition planned_as :: "env \<Rightarrow> uuid \<Rightarrow> string \<Rightarrow> position list \<Rightarrow> uuid \<Rightarrow> order_route" where
  "planned_as E i leg ps u =
     \<lparr>rt_OrderID = i, rt_Leg = leg, rt_CacheKey = CacheKey E ps ''truck'' False, rt_From = stored_point (hd ps),
      rt_To = stored_point (last ps), rt_ReroutedAt = (if u \<noteq> uuid_Nil then Some (now E) else None),
      rt_ReroutedByUserID = (if u \<noteq> uuid_Nil then Some u else None)\<rparr>"

definition other_legs :: "uuid \<Rightarrow> string \<Rightarrow> db \<Rightarrow> order_route list" where
  "other_legs i leg d = filter (\<lambda>l. leg_key l \<noteq> (i, leg)) (db_routes d)"

lemma filter_update_where:
  "(\<And>r. P r \<Longrightarrow> P (g r)) \<Longrightarrow> filter (\<lambda>r. \<not> P r) (update_where P g rows) = filter (\<lambda>r. \<not> P r) rows"
  by (induction rows) (auto simp: update_where_def)

lemma planLegVia_Inr:
  assumes "planLegVia E i leg ps u d = (Inr x, d')" and "2 \<le> length ps"
  shows "planned_as E i leg ps u \<in> set (db_routes d') \<and> other_legs i leg d' = other_legs i leg d \<and>
    (\<exists>r\<in>set (db_route_cache d'). rc_CacheKey r = CacheKey E ps ''truck'' False)"
proof -
  from assms obtain res d1 where c: "Cache_Route E ps ''truck'' False d = (Inr res, d1)"
    and up: "Legs_Upsert E \<lparr>rt_OrderID = i, rt_Leg = leg, rt_CacheKey = rr_Key res, rt_From = hd ps, rt_To = last ps,
           rt_ReroutedAt = (if u \<noteq> uuid_Nil then Some (now E) else None),
           rt_ReroutedByUserID = (if u \<noteq> uuid_Nil then Some u else None)\<rparr> d1 = (Inr x, d')"
    by (auto simp: planLegVia_def andThen_Inr)
  have key: "rr_Key res = CacheKey E ps ''truck'' False" using c by (rule Cache_Route_key)
  from cache_rules(3) c have "but_cache d1 = but_cache d" by (rule keepsD)
  from arg_cong [OF this, of db_routes] have legs: "db_routes d1 = db_routes d" by (simp add: but_cache_def)
  let ?l = "planned_as E i leg ps u"
  have same: "same_leg ?l = (\<lambda>r. leg_key r = (i, leg))" by (auto simp: same_leg_def leg_key_def planned_as_def fun_eq_iff)
  have repl: "replanned ?l r = ?l" if "leg_key r = (i, leg)" for r
    using that by (simp add: replanned_def planned_as_def leg_key_def)
  from up key have acc: "leg_accepted ?l d1" and
    new: "db_routes d' = (if list_ex (same_leg ?l) (db_routes d1) then update_where (same_leg ?l) (replanned ?l) (db_routes d1)
      else db_routes d1 @ [?l])" and cache: "db_route_cache d' = db_route_cache d1"
    by (auto simp: Legs_Upsert_def call_Inr Let_def stored_leg_def planned_as_def split: if_splits)
  have "?l \<in> set (db_routes d')"
    using new repl by (auto simp: same list_ex_iff set_update_where image_iff)
  moreover have "other_legs i leg d' = other_legs i leg d"
  proof (cases "list_ex (same_leg ?l) (db_routes d1)")
    case True
    have "leg_key (replanned ?l r) = leg_key r" for r by simp
    with True show ?thesis using new filter_update_where [of "same_leg ?l" "replanned ?l" "db_routes d1"] legs
      by (simp add: other_legs_def same)
  next
    case False
    with new legs show ?thesis by (simp add: other_legs_def leg_key_def planned_as_def)
  qed
  moreover have "\<exists>r\<in>set (db_route_cache d'). rc_CacheKey r = CacheKey E ps ''truck'' False"
    using acc cache by (auto simp: leg_accepted_def list_ex_iff planned_as_def)
  ultimately show ?thesis by blast
qed

lemma warehousePoints_length: "warehousePoints E ids = Inr ps \<Longrightarrow> length ps = length ids"
  by (induction ids arbitrary: ps) (auto split: sum.splits)

lemma PlanHaul_through_stops:
  assumes "PlanHaul E ord d = (Inr x, d')" and "o_OriginWarehouseID ord \<noteq> None" and "o_DestinationWarehouseID ord \<noteq> None"
    and "stops_wired E" and "\<not> down E StopsListByOrder" and "2 \<le> length (stops_of (o_ID ord) d)"
  obtains ps where "warehousePoints E (map st_WarehouseID (stops_of (o_ID ord) d)) = Inr ps"
    "planned_as E (o_ID ord) LegHaul ps uuid_Nil \<in> set (db_routes d')"
    "other_legs (o_ID ord) LegHaul d' = other_legs (o_ID ord) LegHaul d"
    "\<exists>r\<in>set (db_route_cache d'). rc_CacheKey r = CacheKey E ps ''truck'' False"
proof -
  from assms obtain a b where ab: "o_OriginWarehouseID ord = Some a" "o_DestinationWarehouseID ord = Some b" by auto
  have "haul_sites E (o_ID ord) a b d = (Inr (map st_WarehouseID (stops_of (o_ID ord) d)), d)"
    using assms by (simp add: haul_sites_def Stops_ListByOrder_def call_def query_def op_defs)
  with assms(1) ab obtain ps where p: "warehousePoints E (map st_WarehouseID (stops_of (o_ID ord) d)) = Inr ps"
    "planLegVia E (o_ID ord) LegHaul ps uuid_Nil d = (Inr x, d')"
    by (auto simp: PlanHaul_def andThen_Inr)
  then have "2 \<le> length ps" using assms(6) by (auto dest: warehousePoints_length)
  from planLegVia_Inr [OF p(2) this] p(1) show ?thesis by (intro that) auto
qed

text \<open>The leg that was planned is the one that is found.\<close>

lemma find_planned:
  assumes "roads_sound d" and "planned_as E i leg ps u \<in> set (db_routes d)"
  shows "find (\<lambda>l. rt_OrderID l = i \<and> rt_Leg l = leg) (db_routes d) = Some (planned_as E i leg ps u)"
proof -
  have unique: "distinct (map leg_key ls) \<Longrightarrow> l \<in> set ls \<Longrightarrow> leg_key l = (i, leg) \<Longrightarrow>
      find (\<lambda>l. rt_OrderID l = i \<and> rt_Leg l = leg) ls = Some l" for l ls
  proof (induction ls)
    case (Cons k ls)
    then show ?case by (cases "l = k") (auto simp: leg_key_def image_iff)
  qed simp
  from assms show ?thesis by (intro unique) (simp_all add: roads_sound_def leg_key_def planned_as_def)
qed

lemma replan_Inr:
  assumes "(if leg = LegHaul then replanHaul E ord u else replanApproach E ord u) d = (Inr x, d')"
    and "leg = LegHaul \<or> leg = LegApproach"
  obtains a b where "planned_as E (o_ID ord) leg [a, b] u \<in> set (db_routes d')"
    "other_legs (o_ID ord) leg d' = other_legs (o_ID ord) leg d"
    "\<exists>r\<in>set (db_route_cache d'). rc_CacheKey r = CacheKey E [a, b] ''truck'' False"
proof -
  from assms obtain a b d1 where "planLeg E (o_ID ord) leg a b u d1 = (Inr x, d')" "d1 = d"
    by (auto simp: replanHaul_def replanApproach_def andThen_Inr truckPosition_best split: if_splits option.split_asm)
  then have "planLegVia E (o_ID ord) leg [a, b] u d = (Inr x, d')" by (simp add: planLeg_def)
  from planLegVia_Inr [OF this] show ?thesis by (intro that) auto
qed

lemma Reroute_Inr:
  assumes "Reroute E actor entitled i leg d = (Inr res, d')"
  obtains ord a b where "entitled" "leg = LegHaul \<or> leg = LegApproach" "ord \<in> set (db_orders d)" "o_ID ord = i"
    "InvolvesCompany ord (a_CompanyID actor)" "but_roads d' = but_roads d"
    "planned_as E i leg [a, b] (a_UserID actor) \<in> set (db_routes d')" "other_legs i leg d' = other_legs i leg d"
    "\<exists>r\<in>set (db_route_cache d'). rc_CacheKey r = CacheKey E [a, b] ''truck'' False"
    "roads_sound d \<Longrightarrow> pl_Route res = planned_as E i leg [a, b] (a_UserID actor) \<and> pl_Cache res \<noteq> None"
proof -
  from assms obtain ord d0 x d1 d2 where e: "entitled" "leg = LegHaul \<or> leg = LegApproach"
    and f: "Orders_FindByID E (a_CompanyID actor) i d = (Inr ord, d0)"
    and p: "(if leg = LegHaul then replanHaul E ord (a_UserID actor) else replanApproach E ord (a_UserID actor)) d0 = (Inr x, d1)"
    and l: "Legs_FindLeg E i leg d1 = (Inr res, d2)" and d2: "d2 = d'"
    by (auto simp: Reroute_def andThen_Inr)
  from f have 0: "d0 = d" by (rule readonlyD [rotated]) (intro op_rules)
  with f have o: "ord \<in> set (db_orders d)" "o_ID ord = i" "InvolvesCompany ord (a_CompanyID actor)"
    by (auto simp: Orders_FindByID_def call_Inr query_def one_def InvolvesCompany_def split: option.splits
      dest!: find_Some_iff_first)
  from l have 1: "d1 = d'" using d2 by (metis readonlyD readonly_legs(2))
  from replan_Inr [OF p e(2)] o(2) 0 1 obtain a b where
    n: "planned_as E i leg [a, b] (a_UserID actor) \<in> set (db_routes d')" "other_legs i leg d' = other_legs i leg d"
    and c: "\<exists>r\<in>set (db_route_cache d'). rc_CacheKey r = CacheKey E [a, b] ''truck'' False" by metis
  have s: "pl_Route res = planned_as E i leg [a, b] (a_UserID actor) \<and> pl_Cache res \<noteq> None" if "roads_sound d"
  proof -
    from preservesD [OF roads_plans(6) assms that] have "roads_sound d'" .
    note found = find_planned [OF this n(1)]
    have "find (\<lambda>r. rc_CacheKey r = CacheKey E [a, b] ''truck'' False) (db_route_cache d') \<noteq> None"
      using c by (auto simp: find_None_iff)
    with found l 1 show ?thesis
      by (auto simp: Legs_FindLeg_def call_Inr query_def one_def read_leg_def) (simp add: planned_as_def)
  qed
  have b: "but_roads d' = but_roads d" using plans_beside(4) assms by (rule keepsD)
  show ?thesis by (rule that [OF e o b n c s])
qed

lemma Reroute_unpaid: "Reroute E actor False i leg = fail (Err ErrNotEntitled ''re-planning a route needs the advanced routing feature'')"
  by (simp add: Reroute_def)

text \<open>
  No leg that was read from the table ever asks for its fare: the column it looks at is not nil once it
  has been read.
\<close>

lemma nothing_unpriced:
  assumes "Legs_ListByOrder E i d = (Inr legs, d')"
  shows "unpricedTollKeys legs = []"
proof -
  have "rc_Toll r \<noteq> None" if "l \<in> set legs" "pl_Cache l = Some r" for l r
    using assms that by (auto simp: Legs_ListByOrder_def call_Inr query_def read_leg_def scanned_road_def)
  then show ?thesis by (auto simp: unpricedTollKeys_def filter_empty_conv split: option.split)
qed

end
