(* ===== verification/Orders.thy ===== *)
theory Orders
  imports Journey Agreements FieldConfig Dispatch
begin

text \<open>
  internal/services/order_service.go: placing an order (validation, pricing from its agreement,
  numbering, the rows written with it, the road planned for it), moving it through its machine, giving
  it a driver, and the edits of its free-form detail.
\<close>

section \<open>Numbers\<close>

definition OrdersNextNumber_op :: "env \<Rightarrow> string \<Rightarrow> string \<Rightarrow> (db, int) op" where
  "OrdersNextNumber_op E scope period = call E OrdersNextNumber (\<lambda>d.
     let v = db_sequences d (scope, period) + 1
     in (Inr v, d\<lparr>db_sequences := (db_sequences d)((scope, period) := v)\<rparr>))"

definition nextOrderNumber :: "env \<Rightarrow> (db, string) op" where
  "nextOrderNumber E =
     andThen (OrdersNextNumber_op E ''order'' (year_text E)) (\<lambda>seq.
     ok (''ORD-'' @ year_text E @ ''-'' @ zero_padded 6 (nat seq)))"

section \<open>Placing an order\<close>

record order_item_input =
  ii_CatalogItemID :: string
  ii_ShipmentNo :: int16
  ii_Name :: string
  ii_Quantity :: "money option"
  ii_Unit :: string
  ii_Packaging :: string
  ii_WeightKg :: "money option"
  ii_LengthCm :: "money option"
  ii_WidthCm :: "money option"
  ii_HeightCm :: "money option"
  ii_HandlingNotes :: string

record create_input =
  ci_AgreementID :: "uuid option"
  ci_TransporterCompanyID :: "uuid option"
  ci_OrderKind :: string
  ci_OriginWarehouseID :: string
  ci_DestinationWarehouseID :: string
  ci_CargoTypeID :: string
  ci_ItemTypeID :: string
  ci_Quantity :: "money option"
  ci_WeightKg :: "money option"
  ci_VolumeM3 :: "money option"
  ci_PickupAt :: "time option"
  ci_DeliveryAt :: "time option"
  ci_ExpiresAt :: "time option"
  ci_CustomerID :: string
  ci_ReferenceNumber :: string
  ci_Detail :: detail
  ci_SubmitImmediately :: bool
  ci_CustomerCompanyID :: "uuid option"
  ci_Items :: "order_item_input list"
  ci_Present :: "string \<Rightarrow> bool"

abbreviation OrderKindStandard :: string where "OrderKindStandard \<equiv> ''standard''"
abbreviation OrderKindEmpty :: string where "OrderKindEmpty \<equiv> ''empty''"
abbreviation OrderKindThreePL :: string where "OrderKindThreePL \<equiv> ''threepl''"

definition catalogRefs :: "string \<Rightarrow> string \<Rightarrow> (string \<times> string) list" where
  "catalogRefs cargoTypeID itemTypeID =
     (if cargoTypeID \<noteq> [] then [(''CARGO_TYPE'', cargoTypeID)] else []) @
     (if itemTypeID \<noteq> [] then [(''ITEM_TYPE'', itemTypeID)] else [])"

text \<open>\<open>ValidateCatalogRefs\<close> of internal/clients: nothing to ask about is accepted unasked.\<close>

definition ValidateCatalogRefs :: "env \<Rightarrow> uuid \<Rightarrow> (string \<times> string) list \<Rightarrow> bool" where
  "ValidateCatalogRefs E companyID refs \<longleftrightarrow> refs = [] \<or> ValidateReferences E companyID refs"

definition validateCreate :: "env \<Rightarrow> actor \<Rightarrow> create_input \<Rightarrow> (db, unit) op" where
  "validateCreate E actor inp =
     andThen (refuse (ci_OrderKind inp \<noteq> [] \<and> ci_OrderKind inp \<noteq> OrderKindStandard \<and>
         ci_OrderKind inp \<noteq> OrderKindEmpty \<and> ci_OrderKind inp \<noteq> OrderKindThreePL)
       (Err ErrValidation (''unknown order kind '' @ ci_OrderKind inp))) (\<lambda>_.
     andThen (refuse (ci_OrderKind inp \<noteq> OrderKindEmpty \<and>
         (ci_OriginWarehouseID inp = [] \<or> ci_DestinationWarehouseID inp = []))
       (Err ErrValidation ''origin and destination are required'')) (\<lambda>_.
     andThen (refuse (ci_OrderKind inp \<noteq> OrderKindEmpty \<and>
         ci_OriginWarehouseID inp = ci_DestinationWarehouseID inp)
       (Err ErrValidation ''origin and destination must differ'')) (\<lambda>_.
     andThen (refuse (case ci_PickupAt inp of None \<Rightarrow> False | Some p \<Rightarrow> p < now E - 60000000000)
       (Err ErrValidation ''jadwal muat sudah lewat'')) (\<lambda>_.
     andThen (refuse (case (ci_PickupAt inp, ci_DeliveryAt inp) of (Some p, Some a) \<Rightarrow> a < p | _ \<Rightarrow> False)
       (Err ErrValidation ''delivery cannot be before pickup'')) (\<lambda>_.
     andThen (refuse (case (ci_ExpiresAt inp, ci_PickupAt inp) of (Some x, Some p) \<Rightarrow> p < x | _ \<Rightarrow> False)
       (Err ErrValidation ''the order expires after its loading time'')) (\<lambda>_.
     andThen (if fields_wired E
              then FieldConfig_Validate E (a_CompanyID actor) EntityOrder (ci_Present inp) else ok ()) (\<lambda>_.
     refuse (\<not> ValidateCatalogRefs E (a_CompanyID actor) (catalogRefs (ci_CargoTypeID inp) (ci_ItemTypeID inp)))
       (Err ErrValidation ''clients: unknown master data references''))))))))"

definition stringFromDetail :: "detail \<Rightarrow> string \<Rightarrow> string" where
  "stringFromDetail detail key = (case detail key of Some (JStr v) \<Rightarrow> v | _ \<Rightarrow> [])"

text \<open>The city of one end; empty where master data cannot say.\<close>

definition city_of :: "env \<Rightarrow> string option \<Rightarrow> string" where
  "city_of E site = (case site of None \<Rightarrow> [] | Some w \<Rightarrow>
     (case GetWarehouse E w of None \<Rightarrow> [] | Some wh \<Rightarrow> w_CityID wh))"

definition laneOf :: "env \<Rightarrow> order \<Rightarrow> lane \<times> bool" where
  "laneOf E ord =
     (let l = \<lparr>ln_OriginCityID = city_of E (o_OriginWarehouseID ord),
               ln_DestinationCityID = city_of E (o_DestinationWarehouseID ord),
               ln_OriginDistrictID = stringFromDetail (o_Detail ord) ''originDistrictId'',
               ln_DestinationDistrictID = stringFromDetail (o_Detail ord) ''destinationDistrictId'',
               ln_TruckTypeID = []\<rparr>
      in (l, ln_OriginCityID l \<noteq> [] \<and> ln_DestinationCityID l \<noteq> []))"

text \<open>The rate for a lane, with the fallbacks.\<close>

definition resolve_rate :: "env \<Rightarrow> agreement \<Rightarrow> lane \<Rightarrow> order \<Rightarrow> (db, agreement_rate) op" where
  "resolve_rate E a l ord =
     andThen (attempt (FindRate E (ag_ID a) l)) (\<lambda>r.
     case r of
       Inr rate \<Rightarrow> ok rate
     | Inl e \<Rightarrow>
         if err_class e = ErrNotFound then
           (case rateByWarehouseOrOnlyRate a ord of
              Some rate \<Rightarrow> ok rate
            | None \<Rightarrow> fail (Err ErrValidation (''agreement '' @ ag_AgreementNumber a @ '' has no rate for this lane'')))
         else fail e)"

definition priced :: "env \<Rightarrow> agreement_rate \<Rightarrow> order \<Rightarrow> order" where
  "priced E rate ord =
     (let o1 = ord\<lparr>o_Price := Some (ar_Price rate)\<rparr>;
          o2 = (case ar_CurrencyID rate of None \<Rightarrow> o1 | Some c \<Rightarrow> o1\<lparr>o_CurrencyID := Some c\<rparr>);
          o3 = (case ar_PricingTypeID rate of None \<Rightarrow> o2
                | Some p \<Rightarrow> o2\<lparr>o_Detail := (o_Detail o2)(''pricingTypeId'' := Some (JStr p))\<rparr>)
      in o3\<lparr>o_Detail := (o_Detail o3)(''agreementRateId'' := Some (JStr (uuid_string E (ar_ID rate))))\<rparr>)"

definition under_agreement :: "agreement \<Rightarrow> order \<Rightarrow> order" where
  "under_agreement a ord = ord\<lparr>o_TransporterCompanyID := Some (ag_TransporterCompanyID a),
     o_CurrencyID := ag_CurrencyID a,
     o_AgreementRootID := Some (if ag_RootAgreementID a = uuid_Nil then ag_ID a else ag_RootAgreementID a)\<rparr>"

definition lane_price :: "env \<Rightarrow> agreement \<Rightarrow> order \<Rightarrow> (db, order) op" where
  "lane_price E a ord =
     (let l0 = fst (laneOf E ord)
      in if \<not> snd (laneOf E ord) then ok ord
         else
           let l = (case o_TruckID ord of None \<Rightarrow> l0
                 | Some t \<Rightarrow> (case GetTruck E t of None \<Rightarrow> l0
                              | Some tr \<Rightarrow> l0\<lparr>ln_TruckTypeID := t_TruckTypeID tr\<rparr>))
           in andThen (resolve_rate E a l ord) (\<lambda>rate. ok (priced E rate ord)))"

definition applyAgreementPrice :: "env \<Rightarrow> actor \<Rightarrow> uuid \<Rightarrow> order \<Rightarrow> (db, order) op" where
  "applyAgreementPrice E actor agreementID ord =
     andThen (attempt (Agreements_FindByID E (a_CompanyID actor) agreementID)) (\<lambda>r.
     case r of
       Inl e \<Rightarrow> fail (if err_class e = ErrNotFound then Err ErrValidation ''agreement not found'' else e)
     | Inr a \<Rightarrow>
         (case ActiveAgreementVerifiedOnly E (a_CompanyID actor) of
            None \<Rightarrow> fail (Err ErrStore ''resolve company settings'')
          | Some strict \<Rightarrow>
              let on = (case o_PickupAt ord of None \<Rightarrow> now E | Some t \<Rightarrow> t);
                  reason = UnusableReason a on strict
              in if reason \<noteq> []
                 then fail (Err ErrValidation (''agreement '' @ ag_AgreementNumber a @
                   '' tidak bisa dipakai untuk order baru: '' @ reason))
                 else lane_price E a (under_agreement a ord)))"

definition shipmentNoOrFirst :: "int16 \<Rightarrow> int16" where
  "shipmentNoOrFirst n = (if sint n < 1 then 1 else n)"

text \<open>
  Volume in cubic metres, from all three dimensions or not at all. The decimal quotient by a million
  is exact while the product of the dimensions has at most ten decimal places.
\<close>

definition volume_of :: "order_item_input \<Rightarrow> money option" where
  "volume_of it = (case (ii_LengthCm it, ii_WidthCm it, ii_HeightCm it) of
     (Some l, Some w, Some h) \<Rightarrow> Some (l * w * h / 1000000) | _ \<Rightarrow> None)"

definition item_from :: "order_item_input \<Rightarrow> order_item" where
  "item_from it =
     \<lparr>oi_OrderID = uuid_Nil, oi_CatalogItemID = nonempty (ii_CatalogItemID it),
      oi_ShipmentNo = shipmentNoOrFirst (ii_ShipmentNo it), oi_Name = ii_Name it,
      oi_Quantity = ii_Quantity it, oi_Unit = nonempty (ii_Unit it), oi_Packaging = nonempty (ii_Packaging it),
      oi_WeightKg = ii_WeightKg it, oi_LengthCm = ii_LengthCm it, oi_WidthCm = ii_WidthCm it,
      oi_HeightCm = ii_HeightCm it, oi_VolumeM3 = volume_of it,
      oi_HandlingNotes = nonempty (ii_HandlingNotes it), oi_SortOrder = 0\<rparr>"

definition itemsFrom :: "order_item_input list \<Rightarrow> order_item list" where
  "itemsFrom inp = map item_from inp"

definition Items_ReplaceForOrder :: "env \<Rightarrow> uuid \<Rightarrow> order_item list \<Rightarrow> (db, unit) op" where
  "Items_ReplaceForOrder E orderID items = call E ItemsReplaceForOrder (exec (\<lambda>d.
     d\<lparr>db_items := filter (\<lambda>i. oi_OrderID i \<noteq> orderID) (db_items d) @
       map (\<lambda>(n, i). i\<lparr>oi_OrderID := orderID, oi_SortOrder := n\<rparr>) (List.enumerate 0 items)\<rparr>))"

definition new_order ::
  "actor \<Rightarrow> create_input \<Rightarrow> string \<Rightarrow> uuid \<Rightarrow> uuid option \<Rightarrow> string \<Rightarrow> order" where
  "new_order actor inp number shipperID transporterID status =
     \<lparr>o_ID = uuid_Nil, o_OrderNumber = number, o_AgreementID = ci_AgreementID inp, o_AgreementRootID = None,
      o_ShipperCompanyID = shipperID, o_TransporterCompanyID = transporterID,
      o_CreatedByUserID = a_UserID actor,
      o_OrderKind = (if ci_OrderKind inp = [] then OrderKindStandard else ci_OrderKind inp),
      o_StatusCode = status, o_DriverID = None, o_DriverUserID = None, o_TruckID = None,
      o_OriginWarehouseID = nonempty (ci_OriginWarehouseID inp),
      o_DestinationWarehouseID = nonempty (ci_DestinationWarehouseID inp),
      o_CargoTypeID = nonempty (ci_CargoTypeID inp), o_ItemTypeID = nonempty (ci_ItemTypeID inp),
      o_Quantity = ci_Quantity inp, o_WeightKg = ci_WeightKg inp, o_VolumeM3 = ci_VolumeM3 inp,
      o_PickupAt = ci_PickupAt inp, o_DeliveryAt = ci_DeliveryAt inp, o_ExpiresAt = ci_ExpiresAt inp,
      o_Price = None, o_CurrencyID = None, o_CustomerID = nonempty (ci_CustomerID inp),
      o_ReferenceNumber = nonempty (ci_ReferenceNumber inp), o_GeofencingEnabled = None,
      o_Detail = ci_Detail inp, o_CancelledAt = None, o_CancelledByUserID = None, o_CancelReason = None\<rparr>"

text \<open>The number, the two sides and the first status: a transporter entering the order of a customer
  (\<open>CustomerCompanyID\<close>) is both its carrier and its approver.\<close>

definition customer_number :: "env \<Rightarrow> (db, string) op" where
  "customer_number E =
     andThen (attempt (OrdersNextNumber_op E ''orm'' (second_text E))) (\<lambda>r.
     ok (''ORM'' @ second_text E @
       (case r of Inl _ \<Rightarrow> [] | Inr seq \<Rightarrow> if seq > 1 then ''-'' @ digits (nat seq) else [])))"

definition draft_order :: "env \<Rightarrow> actor \<Rightarrow> create_input \<Rightarrow> (db, order) op" where
  "draft_order E actor inp =
     (case ci_CustomerCompanyID inp of
        Some customer \<Rightarrow> andThen (customer_number E) (\<lambda>number.
          ok (new_order actor inp number customer (Some (a_CompanyID actor)) OrderApproved))
      | None \<Rightarrow> andThen (nextOrderNumber E) (\<lambda>number.
          ok (new_order actor inp number (a_CompanyID actor) (ci_TransporterCompanyID inp)
            (if ci_SubmitImmediately inp then OrderSubmitted else OrderDraft))))"

definition notifyCreated :: "actor \<Rightarrow> order \<Rightarrow> (db, unit) op" where
  "notifyCreated actor ord =
     (case o_TransporterCompanyID ord of
        Some t \<Rightarrow> if o_StatusCode ord = OrderSubmitted then notify
            \<lparr>ev_Type = ''ORDER_CREATED'', ev_SubjectID = o_ID ord, ev_SubjectType = ''order'',
             ev_Audience = ToCompanyRoles t [RoleTransporter, RoleManager],
             ev_ActorID = Some (a_UserID actor), ev_Key = [KeyText ''order-created'', KeyID (o_ID ord)]\<rparr>
          else ok ()
      | None \<Rightarrow> ok ())"

text \<open>The road of the order; failing to plan it is only logged.\<close>

definition haul_planned :: "env \<Rightarrow> order \<Rightarrow> (db, unit) op" where
  "haul_planned E ord =
     andThen (if dispatch_wired E then attempt (PlanHaul E ord) else ok (Inr ())) (\<lambda>_. ok ())"

definition Orders_Place :: "env \<Rightarrow> actor \<Rightarrow> create_input \<Rightarrow> (db, order) op" where
  "Orders_Place E actor inp =
     andThen (validateCreate E actor inp) (\<lambda>_.
     andThen (draft_order E actor inp) (\<lambda>o1.
     andThen (case ci_AgreementID inp of None \<Rightarrow> ok o1 | Some a \<Rightarrow> applyAgreementPrice E actor a o1) (\<lambda>o2.
     andThen (Orders_Create E o2) (\<lambda>ord.
     andThen (if items_wired E \<and> ci_Items inp \<noteq> []
              then attempt (Items_ReplaceForOrder E (o_ID ord) (itemsFrom (ci_Items inp)))
              else ok (Inr ())) (\<lambda>_.
     andThen (attempt (SyncStops E ord)) (\<lambda>_.
     andThen (haul_planned E ord) (\<lambda>_.
     andThen (notifyCreated actor ord) (\<lambda>_.
     ok ord))))))))"

section \<open>Moving an order\<close>

definition assertTransitionAuthority :: "order \<Rightarrow> actor \<Rightarrow> string \<Rightarrow> unit result" where
  "assertTransitionAuthority ord actor to =
     (let isShipper = (o_ShipperCompanyID ord = a_CompanyID actor);
          isTransporter = (o_TransporterCompanyID ord = Some (a_CompanyID actor))
      in if \<not> isShipper \<and> \<not> isTransporter \<and> \<not> is_admin actor
         then Inl (Err ErrForbidden ''your company is not a party to this order'')
         else if (to = OrderApproved \<or> to = OrderRejected \<or> to = OrderReadyToPlan) \<and>
                 \<not> isTransporter \<and> \<not> is_admin actor
         then Inl (Err ErrForbidden ''only the transporter may take this action'')
         else if to = OrderSubmitted \<and> \<not> isShipper \<and> \<not> is_admin actor
         then Inl (Err ErrForbidden ''only the shipper may submit this order'')
         else Inr ())"

definition orderEventFor :: "string \<Rightarrow> string option" where
  "orderEventFor status =
     (if status = OrderSubmitted then Some ''ORDER_CREATED''
      else if status = OrderApproved then Some ''ORDER_UPDATED''
      else if status = OrderReadyToPlan then Some ''ORDER_READY_TO_PLAN''
      else if status = OrderCancelled \<or> status = OrderRejected then Some ''ORDER_CANCELLED''
      else if status = OrderCancelRequested then Some ''ORDER_APPROVAL_REQUIRED''
      else None)"

text \<open>The other side of the order.\<close>

definition counterparty :: "order \<Rightarrow> actor \<Rightarrow> audience option" where
  "counterparty ord actor =
     (if o_ShipperCompanyID ord = a_CompanyID actor \<and> o_TransporterCompanyID ord \<noteq> None
      then Some (ToCompanyRoles (the (o_TransporterCompanyID ord)) [RoleTransporter, RoleManager])
      else if o_TransporterCompanyID ord = Some (a_CompanyID actor)
      then Some (ToCompanyRoles (o_ShipperCompanyID ord) [RoleShipper])
      else None)"

definition notifyTransition :: "actor \<Rightarrow> order \<Rightarrow> string \<Rightarrow> (db, unit) op" where
  "notifyTransition actor ord to =
     (case orderEventFor to of
        None \<Rightarrow> ok ()
      | Some eventType \<Rightarrow>
          (case counterparty ord actor of
             None \<Rightarrow> ok ()
           | Some audience \<Rightarrow> notify
               \<lparr>ev_Type = eventType, ev_SubjectID = o_ID ord, ev_SubjectType = ''order'',
                ev_Audience = audience, ev_ActorID = Some (a_UserID actor),
                ev_Key = [KeyText ''order'', KeyID (o_ID ord), KeyText to]\<rparr>))"

definition cancelled_columns :: "env \<Rightarrow> actor \<Rightarrow> string \<Rightarrow> string \<Rightarrow> order \<Rightarrow> order" where
  "cancelled_columns E actor to note r =
     (if to = OrderCancelled
      then (let r1 = r\<lparr>o_CancelledAt := Some (now E), o_CancelledByUserID := Some (a_UserID actor)\<rparr>
            in if note = [] then r1 else r1\<lparr>o_CancelReason := Some note\<rparr>)
      else r)"

definition Orders_Transition :: "env \<Rightarrow> actor \<Rightarrow> uuid \<Rightarrow> string \<Rightarrow> string \<Rightarrow> (db, order) op" where
  "Orders_Transition E actor i to note =
     andThen (Orders_FindByID E (a_CompanyID actor) i) (\<lambda>ord.
     case CanTransitionOrder (o_StatusCode ord) to (machineRole actor (Some ord)) of
       Some e \<Rightarrow> fail (Err ErrTransition (transition_error_text e))
     | None \<Rightarrow>
         andThen (from_result (assertTransitionAuthority ord actor to)) (\<lambda>_.
         andThen (Orders_ApplyStatus E
           \<lparr>sc_OrderID = i, sc_From = o_StatusCode ord, sc_To = to, sc_Actor = Some (a_UserID actor),
            sc_Source = SourceUser, sc_Note = nonempty note,
            sc_Fields = cancelled_columns E actor to note\<rparr>) (\<lambda>_.
         andThen (notifyTransition actor ord to) (\<lambda>_.
         ok (ord\<lparr>o_StatusCode := to\<rparr>)))))"

section \<open>Giving an order a driver\<close>

definition assigned_event :: "actor \<Rightarrow> order \<Rightarrow> driver \<Rightarrow> audience \<Rightarrow> string \<Rightarrow> event" where
  "assigned_event actor ord drv audience channel =
     \<lparr>ev_Type = ''ORDER_ASSIGNED_DRIVER'', ev_SubjectID = o_ID ord, ev_SubjectType = ''order'',
      ev_Audience = audience, ev_ActorID = Some (a_UserID actor),
      ev_Key = [KeyText ''order'', KeyID (o_ID ord), KeyText ''assigned'', KeyText (d_ID drv), KeyText channel]\<rparr>"

definition notifyDriverAssigned :: "actor \<Rightarrow> order \<Rightarrow> driver \<Rightarrow> (db, unit) op" where
  "notifyDriverAssigned actor ord drv =
     andThen (if d_Phone drv \<noteq> [] then notify (assigned_event actor ord drv (ToPhone (d_Phone drv)) ''phone'')
              else ok ()) (\<lambda>_.
     if d_UserID drv \<noteq> [] then notify (assigned_event actor ord drv (ToUserNames [d_UserID drv]) ''user'')
     else ok ())"

text \<open>The login behind a driver, where there is one.\<close>

definition driver_login :: "env \<Rightarrow> driver \<Rightarrow> uuid option" where
  "driver_login E drv = (case parse_uuid E (d_UserID drv) of
     Some u \<Rightarrow> if u = uuid_Nil then None else Some u | None \<Rightarrow> None)"

definition tracker_of :: "env \<Rightarrow> string \<Rightarrow> string option" where
  "tracker_of E truckID = (case GetTruck E truckID of None \<Rightarrow> None | Some t \<Rightarrow> nonempty (t_Imei t))"

text \<open>The run to the loading point; failing to plan it is only logged.\<close>

definition approach_planned :: "env \<Rightarrow> order \<Rightarrow> (db, order) op" where
  "approach_planned E ord =
     andThen (if dispatch_wired E then attempt (PlanApproach E ord) else ok (Inr ())) (\<lambda>_. ok ord)"

definition AssignDriver :: "env \<Rightarrow> actor \<Rightarrow> uuid \<Rightarrow> string \<Rightarrow> string \<Rightarrow> (db, order) op" where
  "AssignDriver E actor orderID driverID truckID =
     andThen (Orders_FindByID E (a_CompanyID actor) orderID) (\<lambda>ord.
     andThen (refuse (o_TransporterCompanyID ord \<noteq> Some (a_CompanyID actor) \<and> \<not> is_admin actor)
       (Err ErrForbidden ''only the transporter may assign a driver'')) (\<lambda>_.
     case CanTransitionOrder (o_StatusCode ord) OrderAssigned (machineRole actor (Some ord)) of
       Some e \<Rightarrow> fail (Err ErrTransition (transition_error_text e))
     | None \<Rightarrow>
         (case GetDriver E driverID of
            None \<Rightarrow> fail (Err ErrValidation (''driver '' @ driverID @ '' not found''))
          | Some drv \<Rightarrow>
              andThen (refuse (d_Status drv \<noteq> [] \<and> d_Status drv \<noteq> ''active'')
                (Err ErrValidation (''driver '' @ d_FullName drv @ '' is '' @ d_Status drv))) (\<lambda>_.
              case DriverIsPairedWithTruck E driverID truckID of
                None \<Rightarrow> fail (Err ErrStore ''verify driver pairing'')
              | Some paired \<Rightarrow>
                  andThen (refuse (\<not> paired)
                    (Err ErrValidation (''driver '' @ d_FullName drv @ '' is not assigned to truck '' @ truckID))) (\<lambda>_.
                  andThen (Orders_ApplyStatus E
                    \<lparr>sc_OrderID = orderID, sc_From = o_StatusCode ord, sc_To = OrderAssigned,
                     sc_Actor = Some (a_UserID actor), sc_Source = SourceUser, sc_Note = None,
                     sc_Fields = (\<lambda>r. r\<lparr>o_DriverID := Some driverID, o_DriverUserID := driver_login E drv,
                       o_TruckID := Some truckID\<rparr>)\<rparr>) (\<lambda>_.
                  andThen (Shipments_Create E
                    ((new_shipment orderID (Some driverID) (driver_login E drv) (Some truckID) ShipmentAssigned)
                       \<lparr>sh_TelemetryIMEI := tracker_of E truckID\<rparr>)) (\<lambda>_.
                  andThen (notifyDriverAssigned actor ord drv) (\<lambda>_.
                  approach_planned E (ord\<lparr>o_StatusCode := OrderAssigned, o_DriverID := Some driverID,
                    o_DriverUserID := driver_login E drv, o_TruckID := Some truckID\<rparr>)))))))))"

section \<open>Edits\<close>

definition draftUpdatable :: "(string \<times> string) list" where
  "draftUpdatable =
     [(''pickupAt'', ''pickup_at''), (''deliveryAt'', ''delivery_at''), (''quantity'', ''quantity''),
      (''weightKg'', ''weight_kg''), (''volumeM3'', ''volume_m3''), (''cargoTypeId'', ''cargo_type_id''),
      (''itemTypeId'', ''item_type_id''), (''customerId'', ''customer_id''),
      (''referenceNumber'', ''reference_number''), (''detail'', ''detail'')]"

text \<open>The columns a request may write, in the order the request lists them.\<close>

definition editable :: "(string \<times> json) list \<Rightarrow> (string \<times> json) list" where
  "editable input = concat (map (\<lambda>(k, v). case map_of draftUpdatable k of Some col \<Rightarrow> [(col, v)] | None \<Rightarrow> []) input)"

fun set_columns :: "env \<Rightarrow> (string \<times> json) list \<Rightarrow> (order \<Rightarrow> order) option" where
  "set_columns E [] = Some (\<lambda>r. r)"
| "set_columns E ((col, v) # flds) =
     (case set_column E col v of None \<Rightarrow> None
      | Some f \<Rightarrow> (case set_columns E flds of None \<Rightarrow> None | Some g \<Rightarrow> Some (g \<circ> f)))"

definition UpdateDraft :: "env \<Rightarrow> actor \<Rightarrow> uuid \<Rightarrow> (string \<times> json) list \<Rightarrow> (db, unit) op" where
  "UpdateDraft E actor i input =
     andThen (Orders_FindByID E (a_CompanyID actor) i) (\<lambda>ord.
     andThen (refuse (o_StatusCode ord \<noteq> OrderDraft)
       (Err ErrTransition (''only a draft order can be edited (this one is '' @ o_StatusCode ord @ '')''))) (\<lambda>_.
     andThen (refuse (o_ShipperCompanyID ord \<noteq> a_CompanyID actor)
       (Err ErrForbidden ''only the shipper may edit this order'')) (\<lambda>_.
     andThen (refuse (editable input = []) (Err ErrValidation ''no editable fields supplied'')) (\<lambda>_.
     case set_columns E (editable input) of
       None \<Rightarrow> fail (Err ErrStore ''repository: update order'')
     | Some f \<Rightarrow> Orders_UpdateFields E i f))))"

definition SetGeofencing :: "env \<Rightarrow> actor \<Rightarrow> uuid \<Rightarrow> bool option \<Rightarrow> (db, order) op" where
  "SetGeofencing E actor i enabled =
     andThen (Orders_FindByID E (a_CompanyID actor) i) (\<lambda>_.
     andThen (Orders_UpdateFields E i (\<lambda>r. r\<lparr>o_GeofencingEnabled := enabled\<rparr>)) (\<lambda>_.
     Orders_FindByID E (a_CompanyID actor) i))"

text \<open>A patch is a map: its keys are distinct. A null removes.\<close>

definition merge_patch :: "(string \<times> json) list \<Rightarrow> detail \<Rightarrow> detail" where
  "merge_patch patch detail = fold (\<lambda>(k, v) m. m(k := (if v = JNull then None else Some v))) patch detail"

definition PatchDetail :: "env \<Rightarrow> actor \<Rightarrow> uuid \<Rightarrow> (string \<times> json) list \<Rightarrow> (db, order) op" where
  "PatchDetail E actor i patch =
     andThen (Orders_FindByID E (a_CompanyID actor) i) (\<lambda>ord.
     let detail = merge_patch patch (o_Detail ord); ord' = ord\<lparr>o_Detail := detail\<rparr> in
     andThen (Orders_UpdateFields E i (\<lambda>r. r\<lparr>o_Detail := detail\<rparr>)) (\<lambda>_.
     if ''loadingPoints'' \<notin> set (map fst patch) \<and> ''unloadingPoints'' \<notin> set (map fst patch) then ok ord'
     else andThen (attempt (SyncStops E ord')) (\<lambda>_. ok ord')))"

definition Orders_History :: "env \<Rightarrow> actor \<Rightarrow> uuid \<Rightarrow> (db, status_entry list) op" where
  "Orders_History E actor i =
     andThen (Orders_FindByID E (a_CompanyID actor) i) (\<lambda>_.
     call E OrdersHistory (query (\<lambda>d. Inr (filter (\<lambda>h. he_OrderID h = i) (db_history d)))))"

section \<open>What the operations leave alone\<close>

text \<open>
  The tables that the invariants of the delivery core never look at: an operation that keeps the
  rest keeps every invariant.
\<close>

definition core :: "db \<Rightarrow> order list \<times> status_entry list \<times> shipment list \<times> order_stop list \<times>
    shipment_pod list \<times> handover list \<times> nat" where
  "core d = (db_orders d, db_history d, db_shipments d, db_stops d, db_pods d, db_handovers d, db_next_uuid d)"

lemma beside_core:
  assumes "keeps core m"
  shows "keeps db_orders m" and "keeps db_history m" and "keeps db_shipments m" and "keeps db_stops m"
    and "keeps db_pods m" and "keeps db_handovers m" and "preserves well_keyed m"
    and "follows shipments_run m" and "follows orders_run m" and "preserves one_live m"
    and "preserves journeys_in_order m" and "follows records_kept m"
proof -
  have eq: "core (snd (m d)) = core d" for d using assms by (simp add: keeps_def)
  note core_eq = eq [unfolded core_def prod.inject]
  show k: "keeps db_orders m" "keeps db_history m" "keeps db_shipments m" "keeps db_stops m"
    "keeps db_pods m" "keeps db_handovers m"
    using core_eq by (simp_all add: keeps_def)
  show w: "preserves well_keyed m"
    using core_eq by (simp add: preserves_def well_keyed_def)
  show "follows shipments_run m" "follows orders_run m" "preserves one_live m"
    "preserves journeys_in_order m" "follows records_kept m"
    by (rule shipments_run_same orders_run_same one_live_same journeys_in_order_same records_same; fact)+
qed

lemma keeps_core:
  "keeps core (notify ev)" "keeps core (OrdersNextNumber_op E sc pe)" "keeps core (Items_ReplaceForOrder E i its)"
  by (auto simp: keeps_def notify_def OrdersNextNumber_op_def Items_ReplaceForOrder_def call_def fail_def
      exec_def Let_def core_def)

lemma notices_core:
  "keeps core (notifyCreated actor ord)" "keeps core (notifyTransition actor ord to)"
  "keeps core (notifyDriverAssigned actor ord drv)" "keeps core (customer_number E)"
  "keeps core (nextOrderNumber E)" "keeps core (draft_order E actor inp)"
proof -
  show "keeps core (notifyCreated actor ord)"
    unfolding notifyCreated_def by (intro op_rules keeps_core)
  show "keeps core (notifyTransition actor ord to)"
    unfolding notifyTransition_def by (intro op_rules keeps_core)
  show "keeps core (notifyDriverAssigned actor ord drv)"
    unfolding notifyDriverAssigned_def by (intro op_rules keeps_core)
  have c: "keeps core (customer_number E)" "keeps core (nextOrderNumber E)" for E
    unfolding customer_number_def nextOrderNumber_def by (intro op_rules keeps_core)+
  then show "keeps core (customer_number E)" "keeps core (nextOrderNumber E)" by simp_all
  show "keeps core (draft_order E actor inp)"
    unfolding draft_order_def by (intro op_rules c)
qed

text \<open>Planning a road writes roads only.\<close>

lemma planning_core: "keeps core (haul_planned E ord)" "keeps core (approach_planned E ord)"
proof -
  have "core d = core (but_roads d)" for d by (simp add: core_def but_roads_def)
  then have p: "keeps core (PlanHaul E ord)" "keeps core (PlanApproach E ord)"
    using plans_beside(2,3) [of E ord] by (metis keeps_def)+
  show "keeps core (haul_planned E ord)" "keeps core (approach_planned E ord)"
    unfolding haul_planned_def approach_planned_def by (intro op_rules p)+
qed

lemmas core_plans [op_rules] = planning_core [THEN beside_core(1)] planning_core [THEN beside_core(2)]
  planning_core [THEN beside_core(3)] planning_core [THEN beside_core(4)] planning_core [THEN beside_core(5)]
  planning_core [THEN beside_core(6)] planning_core [THEN beside_core(7)] planning_core [THEN beside_core(8)]
  planning_core [THEN beside_core(9)] planning_core [THEN beside_core(10)] planning_core [THEN beside_core(11)]
  planning_core [THEN beside_core(12)]

lemmas core_keeps [op_rules] = keeps_core(2,3) [THEN beside_core(1)] keeps_core(2,3) [THEN beside_core(2)]
  keeps_core(2,3) [THEN beside_core(3)] keeps_core(2,3) [THEN beside_core(4)]
  keeps_core(2,3) [THEN beside_core(5)] keeps_core(2,3) [THEN beside_core(6)]
  notices_core [THEN beside_core(1)] notices_core [THEN beside_core(2)] notices_core [THEN beside_core(3)]
  notices_core [THEN beside_core(4)] notices_core [THEN beside_core(5)] notices_core [THEN beside_core(6)]

lemmas core_rules [op_rules] = keeps_core(2,3) [THEN beside_core(7)] keeps_core(2,3) [THEN beside_core(8)]
  keeps_core(2,3) [THEN beside_core(9)] keeps_core(2,3) [THEN beside_core(10)]
  keeps_core(2,3) [THEN beside_core(11)] keeps_core(2,3) [THEN beside_core(12)]
  notices_core [THEN beside_core(7)] notices_core [THEN beside_core(8)] notices_core [THEN beside_core(9)]
  notices_core [THEN beside_core(10)] notices_core [THEN beside_core(11)] notices_core [THEN beside_core(12)]

lemma readonly_orders [op_rules]:
  "readonly (validateCreate E actor inp)" "readonly (resolve_rate E a l ord)"
  "readonly (applyAgreementPrice E actor i ord)" "readonly (Orders_History E actor i)"
proof -
  show "readonly (validateCreate E actor inp)"
    unfolding validateCreate_def by (intro op_rules)
  have r: "readonly (resolve_rate E a l ord)" for a l ord
    unfolding resolve_rate_def by (intro op_rules)
  then show "readonly (resolve_rate E a l ord)" .
  show "readonly (applyAgreementPrice E actor i ord)"
    unfolding applyAgreementPrice_def lane_price_def Let_def by (intro op_rules r)
  show "readonly (Orders_History E actor i)"
    unfolding Orders_History_def by (intro op_rules)
qed

lemmas order_read_rules [op_rules] = readonly_orders [THEN keeps_readonly]
  readonly_orders [THEN preserves_readonly] readonly_orders [THEN clean_readonly]
  readonly_orders [THEN shipments.follows_readonly] readonly_orders [THEN orders.follows_readonly]
  readonly_orders [THEN records.follows_readonly]

section \<open>The invariants\<close>

text \<open>A status change that the machine permits, whatever else it writes to the row.\<close>

lemma change_rules:
  assumes "CanTransitionOrder (sc_From ch) (sc_To ch) role = None" and "tame_order_change ch"
  shows "follows orders_run (Orders_ApplyStatus E ch)" "preserves well_keyed (Orders_ApplyStatus E ch)"
    "follows records_kept (Orders_ApplyStatus E ch)"
proof -
  have "moves orderTransitions (sc_From ch) (sc_To ch)"
    using assms(1) by (auto simp: CanTransitionOrder_def intro: moves.move)
  with assms(2) show "follows orders_run (Orders_ApplyStatus E ch)" by (intro orders_run_apply) auto
  have i: "o_ID (sc_Fields ch r) = o_ID r" for r using assms(2) by (simp add: tame_order_change_def)
  show "preserves well_keyed (Orders_ApplyStatus E ch)" by (rule well_keyed_order_change) (rule i)
  show "follows records_kept (Orders_ApplyStatus E ch)" by (rule records_order_write(2)) (rule i)
qed

lemma tame_cancelled [simp]:
  "tame_order_change \<lparr>sc_OrderID = i, sc_From = f, sc_To = t, sc_Actor = a, sc_Source = src, sc_Note = n,
     sc_Fields = cancelled_columns E actor to note\<rparr>"
  by (simp add: tame_order_change_def cancelled_columns_def Let_def)

lemma tame_assigned [simp]:
  "tame_order_change \<lparr>sc_OrderID = i, sc_From = f, sc_To = t, sc_Actor = a, sc_Source = src, sc_Note = n,
     sc_Fields = (\<lambda>r. r\<lparr>o_DriverID := x, o_DriverUserID := y, o_TruckID := z\<rparr>)\<rparr>"
  by (simp add: tame_order_change_def)

lemma Orders_Place_rules [op_rules]:
  "follows shipments_run (Orders_Place E actor inp)" "follows orders_run (Orders_Place E actor inp)"
  "follows records_kept (Orders_Place E actor inp)" "preserves well_keyed (Orders_Place E actor inp)"
  "preserves one_live (Orders_Place E actor inp)" "preserves journeys_in_order (Orders_Place E actor inp)"
  unfolding Orders_Place_def by (intro op_rules)+

lemma Orders_Transition_rules [op_rules]:
  "follows shipments_run (Orders_Transition E actor i to note)"
  "follows orders_run (Orders_Transition E actor i to note)"
  "follows records_kept (Orders_Transition E actor i to note)"
  "preserves well_keyed (Orders_Transition E actor i to note)"
  "preserves one_live (Orders_Transition E actor i to note)"
  "preserves journeys_in_order (Orders_Transition E actor i to note)"
  unfolding Orders_Transition_def by (auto intro!: op_rules change_rules)

lemma AssignDriver_rules [op_rules]:
  "follows shipments_run (AssignDriver E actor i drv trk)" "follows orders_run (AssignDriver E actor i drv trk)"
  "follows records_kept (AssignDriver E actor i drv trk)" "preserves well_keyed (AssignDriver E actor i drv trk)"
  "preserves one_live (AssignDriver E actor i drv trk)" "preserves journeys_in_order (AssignDriver E actor i drv trk)"
  unfolding AssignDriver_def by (auto intro!: op_rules change_rules)

lemma edit_rules:
  assumes "\<And>r. o_ID (f r) = o_ID r" and "\<And>r. o_StatusCode (f r) = o_StatusCode r"
  shows "follows orders_run (Orders_UpdateFields E i f)" "preserves well_keyed (Orders_UpdateFields E i f)"
    "follows records_kept (Orders_UpdateFields E i f)"
  using assms by (auto intro: orders_run_update well_keyed_order_update records_order_write)

lemma SetGeofencing_rules [op_rules]:
  "follows shipments_run (SetGeofencing E actor i b)" "follows orders_run (SetGeofencing E actor i b)"
  "follows records_kept (SetGeofencing E actor i b)" "preserves well_keyed (SetGeofencing E actor i b)"
  "preserves one_live (SetGeofencing E actor i b)" "preserves journeys_in_order (SetGeofencing E actor i b)"
  unfolding SetGeofencing_def by (intro op_rules edit_rules; simp)+

lemma PatchDetail_rules [op_rules]:
  "follows shipments_run (PatchDetail E actor i patch)" "follows orders_run (PatchDetail E actor i patch)"
  "follows records_kept (PatchDetail E actor i patch)" "preserves well_keyed (PatchDetail E actor i patch)"
  "preserves one_live (PatchDetail E actor i patch)" "preserves journeys_in_order (PatchDetail E actor i patch)"
  unfolding PatchDetail_def Let_def by (intro op_rules edit_rules; simp)+

text \<open>The database assigns a value to the column it is told to, and to no other.\<close>

definition spares_core :: "(order \<Rightarrow> order) \<Rightarrow> bool" where
  "spares_core f \<longleftrightarrow> (\<forall>r. o_ID (f r) = o_ID r \<and> o_OrderNumber (f r) = o_OrderNumber r \<and>
     o_StatusCode (f r) = o_StatusCode r \<and> o_ShipperCompanyID (f r) = o_ShipperCompanyID r \<and>
     o_TransporterCompanyID (f r) = o_TransporterCompanyID r \<and> o_Price (f r) = o_Price r \<and>
     o_AgreementID (f r) = o_AgreementID r \<and> o_DriverID (f r) = o_DriverID r \<and>
     o_DriverUserID (f r) = o_DriverUserID r \<and> o_TruckID (f r) = o_TruckID r \<and>
     o_GeofencingEnabled (f r) = o_GeofencingEnabled r)"

definition writes_its_column :: "env \<Rightarrow> bool" where
  "writes_its_column E \<longleftrightarrow> (\<forall>col v f. col \<in> snd ` set draftUpdatable \<longrightarrow> set_column E col v = Some f \<longrightarrow> spares_core f)"

lemma editable_columns: "(col, v) \<in> set (editable input) \<Longrightarrow> col \<in> snd ` set draftUpdatable"
  by (auto simp: editable_def split: option.splits dest!: map_of_SomeD [OF sym] intro: rev_image_eqI)

lemma set_columns_spare:
  assumes "set_columns E flds = Some f" and "writes_its_column E"
    and "\<And>col v. (col, v) \<in> set flds \<Longrightarrow> col \<in> snd ` set draftUpdatable"
  shows "spares_core f"
  using assms
proof (induction flds arbitrary: f)
  case (Cons cv flds)
  obtain col v where cv: "cv = (col, v)" by fastforce
  with Cons.prems(1) obtain g h where g: "set_column E col v = Some g" "set_columns E flds = Some h" "f = h \<circ> g"
    by (auto split: option.splits)
  have "spares_core g" using g(1) Cons.prems(2,3) cv unfolding writes_its_column_def by (meson list.set_intros(1))
  moreover have "spares_core h" 
    by (rule Cons.IH [OF g(2) Cons.prems(2)]) (use Cons.prems(3) in auto)
  ultimately show ?case using g(3) by (simp add: spares_core_def)
qed (simp add: spares_core_def)

lemma UpdateDraft_rules:
  assumes "writes_its_column E"
  shows "follows shipments_run (UpdateDraft E actor i input)" "follows orders_run (UpdateDraft E actor i input)"
    "follows records_kept (UpdateDraft E actor i input)" "preserves well_keyed (UpdateDraft E actor i input)"
    "preserves one_live (UpdateDraft E actor i input)" "preserves journeys_in_order (UpdateDraft E actor i input)"
proof -
  have s: "spares_core f" if "set_columns E (editable input) = Some f" for f
    using that assms editable_columns by (rule set_columns_spare)
  show "follows shipments_run (UpdateDraft E actor i input)"
    "preserves one_live (UpdateDraft E actor i input)" "preserves journeys_in_order (UpdateDraft E actor i input)"
    unfolding UpdateDraft_def by (intro op_rules)+
  show "follows orders_run (UpdateDraft E actor i input)"
    "follows records_kept (UpdateDraft E actor i input)" "preserves well_keyed (UpdateDraft E actor i input)"
    unfolding UpdateDraft_def using s [unfolded spares_core_def] by (auto intro!: op_rules edit_rules)
qed

section \<open>Order numbers\<close>

text \<open>Reserving a number is reading the next value: successive reservations count upwards.\<close>

lemma nextOrderNumber_Inr:
  "nextOrderNumber E d = (Inr number, d') \<longleftrightarrow>
     \<not> down E OrdersNextNumber \<and>
     (let v = db_sequences d (''order'', year_text E) + 1 in
        number = ''ORD-'' @ year_text E @ ''-'' @ zero_padded 6 (nat v) \<and>
        d' = d\<lparr>db_sequences := (db_sequences d)((''order'', year_text E) := v)\<rparr>)"
  by (auto simp: nextOrderNumber_def andThen_Inr OrdersNextNumber_op_def call_def fail_def ok_def Let_def)

fun reserve :: "env \<Rightarrow> nat \<Rightarrow> (db, string list) op" where
  "reserve E 0 = ok []"
| "reserve E (Suc n) = andThen (nextOrderNumber E) (\<lambda>number. andThen (reserve E n) (\<lambda>rest. ok (number # rest)))"

lemma reserve_numbers:
  "reserve E n d = (Inr numbers, d') \<Longrightarrow> 0 \<le> db_sequences d (''order'', year_text E) \<Longrightarrow>
     numbers = map (\<lambda>k. ''ORD-'' @ year_text E @ ''-'' @
       zero_padded 6 (nat (db_sequences d (''order'', year_text E)) + k)) [1..<n + 1]"
proof (induction n arbitrary: d numbers)
  case (Suc n)
  let ?q = "db_sequences d (''order'', year_text E)"
  from Suc.prems obtain number rest d1 where
    n1: "nextOrderNumber E d = (Inr number, d1)" and r: "reserve E n d1 = (Inr rest, d')"
    and nums: "numbers = number # rest"
    by (auto simp: andThen_Inr)
  from n1 have q1: "db_sequences d1 (''order'', year_text E) = ?q + 1"
    and num: "number = ''ORD-'' @ year_text E @ ''-'' @ zero_padded 6 (nat (?q + 1))"
    by (auto simp: nextOrderNumber_Inr Let_def)
  have "nat (?q + 1) = nat ?q + 1" using Suc.prems(2) by simp
  moreover have "[1..<Suc n + 1] = 1 # map Suc [1..<n + 1]"
    by (simp add: upt_conv_Cons map_Suc_upt del: upt_Suc)
  ultimately show ?case using Suc.IH [OF r] Suc.prems(2) q1 num nums by (simp add: comp_def)
qed simp

lemma order_numbers_distinct:
  assumes "reserve E n d = (Inr numbers, d')" and "0 \<le> db_sequences d (''order'', year_text E)"
  shows "distinct numbers"
proof -
  have "inj_on (\<lambda>k. ''ORD-'' @ year_text E @ ''-'' @ zero_padded 6 (m + k)) A" for m A
  proof (rule inj_onI)
    fix x y assume "''ORD-'' @ year_text E @ ''-'' @ zero_padded 6 (m + x) =
      ''ORD-'' @ year_text E @ ''-'' @ zero_padded 6 (m + y)"
    then have "zero_padded 6 (m + x) = zero_padded 6 (m + y)" by simp
    from arg_cong [OF this, of undigits] show "x = y" by simp
  qed
  with reserve_numbers [OF assms] show ?thesis by (simp add: distinct_map)
qed

section \<open>What a successful operation means\<close>

lemma Orders_Transition_Inr:
  assumes "Orders_Transition E actor i to note d = (Inr ord', d')"
  shows "\<exists>ord\<in>set (db_orders d). o_ID ord = i \<and> InvolvesCompany ord (a_CompanyID actor) \<and>
    CanTransitionOrder (o_StatusCode ord) to (machineRole actor (Some ord)) = None \<and>
    assertTransitionAuthority ord actor to = Inr () \<and> ord' = ord\<lparr>o_StatusCode := to\<rparr> \<and>
    order_view d' = map (\<lambda>(k, st). (k, if k = i \<and> st = o_StatusCode ord then to else st)) (order_view d) \<and>
    db_history d' = db_history d @ [\<lparr>he_OrderID = i, he_FromStatusCode = Some (o_StatusCode ord),
      he_ToStatusCode = to, he_ChangedByUserID = Some (a_UserID actor), he_Source = SourceUser,
      he_Note = nonempty note\<rparr>]"
proof -
  from assms obtain ord d1 d2 where
    f: "find (\<lambda>r. o_ID r = i \<and> (o_ShipperCompanyID r = a_CompanyID actor \<or>
      o_TransporterCompanyID r = Some (a_CompanyID actor))) (db_orders d) = Some ord"
    and c: "CanTransitionOrder (o_StatusCode ord) to (machineRole actor (Some ord)) = None"
    and a: "assertTransitionAuthority ord actor to = Inr ()"
    and w: "Orders_ApplyStatus E \<lparr>sc_OrderID = i, sc_From = o_StatusCode ord, sc_To = to,
      sc_Actor = Some (a_UserID actor), sc_Source = SourceUser, sc_Note = nonempty note,
      sc_Fields = cancelled_columns E actor to note\<rparr> d = (Inr (), d1)"
    and n: "notifyTransition actor ord to d1 = (Inr (), d')" and r: "ord' = ord\<lparr>o_StatusCode := to\<rparr>"
    by (auto simp: Orders_Transition_def andThen_Inr Orders_FindByID_def call_Inr split: option.splits)
  from find_Some_iff_first [OF f] have o: "ord \<in> set (db_orders d)" "o_ID ord = i"
    "InvolvesCompany ord (a_CompanyID actor)"
    by (auto simp: InvolvesCompany_def)
  have d': "db_orders d' = db_orders d1" "db_history d' = db_history d1"
    by (rule keepsD [OF notices_core(2) [THEN beside_core(1)] n] keepsD [OF notices_core(2) [THEN beside_core(2)] n])+
  have "order_view d' = map (\<lambda>(k, st). (k, if k = i \<and> st = o_StatusCode ord then to else st)) (order_view d)"
    using order_cas.applied [OF w] d'(1) by (simp add: order_view_def)
  moreover have "db_history d' = db_history d @ [\<lparr>he_OrderID = i, he_FromStatusCode = Some (o_StatusCode ord),
      he_ToStatusCode = to, he_ChangedByUserID = Some (a_UserID actor), he_Source = SourceUser,
      he_Note = nonempty note\<rparr>]"
    using w d'(2) by (auto simp: Orders_ApplyStatus_def call_Inr Let_def split: if_splits)
  ultimately show ?thesis using o c a r by blast
qed

text \<open>An assignment that succeeded gave the order an active driver paired with its truck, and opened
  one shipment for it.\<close>

lemma AssignDriver_Inr:
  assumes "AssignDriver E actor i driverID truckID d = (Inr ord', d')"
  shows "\<exists>ord\<in>set (db_orders d). \<exists>drv. o_ID ord = i \<and> InvolvesCompany ord (a_CompanyID actor) \<and>
    (o_TransporterCompanyID ord = Some (a_CompanyID actor) \<or> is_admin actor) \<and>
    CanTransitionOrder (o_StatusCode ord) OrderAssigned (machineRole actor (Some ord)) = None \<and>
    GetDriver E driverID = Some drv \<and> (d_Status drv = [] \<or> d_Status drv = ''active'') \<and>
    DriverIsPairedWithTruck E driverID truckID = Some True \<and>
    order_view d' = map (\<lambda>(k, st). (k, if k = i \<and> st = o_StatusCode ord then OrderAssigned else st)) (order_view d) \<and>
    (\<exists>ship. db_shipments d' = db_shipments d @ [ship] \<and> sh_OrderID ship = i \<and>
       sh_DriverID ship = Some driverID \<and> sh_DriverUserID ship = driver_login E drv \<and>
       sh_StatusCode ship = ShipmentAssigned)"
proof -
  from assms obtain ord drv d1 ship d2 d3 where
    f: "find (\<lambda>r. o_ID r = i \<and> (o_ShipperCompanyID r = a_CompanyID actor \<or>
      o_TransporterCompanyID r = Some (a_CompanyID actor))) (db_orders d) = Some ord"
    and t: "o_TransporterCompanyID ord = Some (a_CompanyID actor) \<or> is_admin actor"
    and c: "CanTransitionOrder (o_StatusCode ord) OrderAssigned (machineRole actor (Some ord)) = None"
    and g: "GetDriver E driverID = Some drv" "d_Status drv = [] \<or> d_Status drv = ''active''"
      "DriverIsPairedWithTruck E driverID truckID = Some True"
    and w: "Orders_ApplyStatus E \<lparr>sc_OrderID = i, sc_From = o_StatusCode ord, sc_To = OrderAssigned,
      sc_Actor = Some (a_UserID actor), sc_Source = SourceUser, sc_Note = None,
      sc_Fields = (\<lambda>r. r\<lparr>o_DriverID := Some driverID, o_DriverUserID := driver_login E drv,
        o_TruckID := Some truckID\<rparr>)\<rparr> d = (Inr (), d1)"
    and sc: "Shipments_Create E ((new_shipment i (Some driverID) (driver_login E drv) (Some truckID)
      ShipmentAssigned)\<lparr>sh_TelemetryIMEI := tracker_of E truckID\<rparr>) d1 = (Inr ship, d2)"
    and n: "notifyDriverAssigned actor ord drv d2 = (Inr (), d3)"
    and p: "approach_planned E (ord\<lparr>o_StatusCode := OrderAssigned, o_DriverID := Some driverID,
      o_DriverUserID := driver_login E drv, o_TruckID := Some truckID\<rparr>) d3 = (Inr ord', d')"
    by (auto simp: AssignDriver_def andThen_Inr Orders_FindByID_def call_Inr split: option.splits)
  from find_Some_iff_first [OF f] have o: "ord \<in> set (db_orders d)" "o_ID ord = i"
    "InvolvesCompany ord (a_CompanyID actor)"
    by (auto simp: InvolvesCompany_def)
  have o': "db_orders d' = db_orders d1"
    using keepsD [OF notices_core(3) [THEN beside_core(1)] n] keepsD [OF planning_core(2) [THEN beside_core(1)] p]
      keepsD [OF frame_orders(1) sc] by simp
  have "db_shipments d1 = db_shipments d" by (rule keepsD [OF frame_shipments(2) w])
  then have s': "db_shipments d' = db_shipments d @ [ship]"
    using keepsD [OF notices_core(3) [THEN beside_core(3)] n] keepsD [OF planning_core(2) [THEN beside_core(3)] p] sc
    by (auto simp: Shipments_Create_def call_Inr Let_def)
  have "sh_OrderID ship = i \<and> sh_DriverID ship = Some driverID \<and> sh_DriverUserID ship = driver_login E drv \<and>
      sh_StatusCode ship = ShipmentAssigned"
    using sc by (auto simp: Shipments_Create_def call_Inr Let_def new_shipment_def)
  moreover have "order_view d' = map (\<lambda>(k, st). (k, if k = i \<and> st = o_StatusCode ord then OrderAssigned else st))
      (order_view d)"
    using order_cas.applied [OF w] o' by (simp add: order_view_def)
  ultimately show ?thesis using o t c g s' by blast
qed

text \<open>What validation established of an order that was placed.\<close>

lemma validateCreate_Inr:
  assumes "validateCreate E actor inp d = (Inr (), d')"
  shows "(ci_OrderKind inp \<noteq> OrderKindEmpty \<longrightarrow> ci_OriginWarehouseID inp \<noteq> [] \<and>
      ci_DestinationWarehouseID inp \<noteq> [] \<and> ci_OriginWarehouseID inp \<noteq> ci_DestinationWarehouseID inp) \<and>
    (\<forall>p. ci_PickupAt inp = Some p \<longrightarrow> now E - 60000000000 \<le> p \<and>
      (\<forall>t. ci_DeliveryAt inp = Some t \<longrightarrow> p \<le> t) \<and> (\<forall>t. ci_ExpiresAt inp = Some t \<longrightarrow> t \<le> p)) \<and>
    (fields_wired E \<longrightarrow> (\<exists>cfg. FieldConfig_For E (a_CompanyID actor) EntityOrder d = (Inr cfg, d) \<and>
      Config_Validate cfg (ci_Present inp) = None))"
proof -
  from assms have k: "ci_OrderKind inp \<noteq> OrderKindEmpty \<longrightarrow> ci_OriginWarehouseID inp \<noteq> [] \<and>
      ci_DestinationWarehouseID inp \<noteq> [] \<and> ci_OriginWarehouseID inp \<noteq> ci_DestinationWarehouseID inp"
    and t: "\<forall>p. ci_PickupAt inp = Some p \<longrightarrow> now E - 60000000000 \<le> p \<and>
      (\<forall>t. ci_DeliveryAt inp = Some t \<longrightarrow> p \<le> t) \<and> (\<forall>t. ci_ExpiresAt inp = Some t \<longrightarrow> t \<le> p)"
    and f: "fields_wired E \<longrightarrow> (\<exists>d1. FieldConfig_Validate E (a_CompanyID actor) EntityOrder (ci_Present inp) d = (Inr (), d1))"
    by (auto simp: validateCreate_def andThen_Inr not_less split: option.splits)
  have "\<exists>cfg. FieldConfig_For E (a_CompanyID actor) EntityOrder d = (Inr cfg, d) \<and>
      Config_Validate cfg (ci_Present inp) = None" if "fields_wired E"
    using f that readonlyD [OF readonly_fields(2)]
    by (fastforce simp: FieldConfig_Validate_def andThen_Inr split: option.splits)
  with k t show ?thesis by blast
qed

section \<open>The price of an order\<close>

lemma laneOf_under [simp]: "laneOf E (under_agreement a ord) = laneOf E ord"
  by (simp add: laneOf_def under_agreement_def)

lemma resolve_rate_Inr:
  assumes "resolve_rate E a l ord d = (Inr r, d')" and "orders_by_key E"
  shows "(\<exists>b\<in>set (db_agreements d). ag_ID b = ag_ID a \<and> r \<in> set (ag_Rates b) \<and> rate_covers l r \<and>
      (\<forall>s\<in>set (ag_Rates b). rate_covers l s \<longrightarrow> specificity s \<le> specificity r)) \<or>
    (r \<in> set (ag_Rates a) \<and> (same_warehouses r ord \<or> (\<forall>s\<in>set (ag_Rates a). ar_Price s = ar_Price r)))"
proof -
  obtain r0 d0 where f: "FindRate E (ag_ID a) l d = (r0, d0)" by fastforce
  then have "d0 = d" by (rule readonlyD [OF readonly_agreements(2)])
  with f assms(1) consider (found) "FindRate E (ag_ID a) l d = (Inr r, d)"
    | (fallback) "rateByWarehouseOrOnlyRate a ord = Some r"
    by (cases r0) (auto simp: resolve_rate_def andThen_Inr split: option.splits if_splits)
  then show ?thesis
  proof cases
    case found
    from FindRate_Inr [OF this assms(2)] show ?thesis by blast
  qed (use fallback_rate in blast)
qed

lemma priced_price [simp]: "o_Price (priced E rate ord) = Some (ar_Price rate)"
  by (simp add: priced_def Let_def split: option.split)

lemma priced_parties [simp]:
  "o_TransporterCompanyID (priced E rate ord) = o_TransporterCompanyID ord"
  "o_ShipperCompanyID (priced E rate ord) = o_ShipperCompanyID ord"
  "o_StatusCode (priced E rate ord) = o_StatusCode ord"
  by (simp_all add: priced_def Let_def split: option.split)

lemma under_agreement_fields [simp]:
  "o_TransporterCompanyID (under_agreement a ord) = Some (ag_TransporterCompanyID a)"
  "o_Price (under_agreement a ord) = o_Price ord" "o_ShipperCompanyID (under_agreement a ord) = o_ShipperCompanyID ord"
  "o_StatusCode (under_agreement a ord) = o_StatusCode ord" "o_PickupAt (under_agreement a ord) = o_PickupAt ord"
  by (simp_all add: under_agreement_def)

lemma same_warehouses_under [simp]: "same_warehouses r (under_agreement a ord) = same_warehouses r ord"
  by (simp add: same_warehouses_def under_agreement_def)

text \<open>The load date, on which the agreement is judged.\<close>

definition load_date :: "env \<Rightarrow> order \<Rightarrow> time" where
  "load_date E ord = (case o_PickupAt ord of None \<Rightarrow> now E | Some t \<Rightarrow> t)"

lemma applyAgreementPrice_Inr:
  assumes run: "applyAgreementPrice E actor i ord d = (Inr ord', d')" and key: "orders_by_key E"
  shows "\<exists>a\<in>set (db_agreements d). \<exists>strict. ag_ID a = i \<and>
    (ag_ShipperCompanyID a = a_CompanyID actor \<or> ag_TransporterCompanyID a = a_CompanyID actor) \<and>
    ActiveAgreementVerifiedOnly E (a_CompanyID actor) = Some strict \<and> IsUsable a (load_date E ord) strict \<and>
    o_TransporterCompanyID ord' = Some (ag_TransporterCompanyID a) \<and>
    (if snd (laneOf E ord)
     then \<exists>r. o_Price ord' = Some (ar_Price r) \<and>
       ((\<exists>b\<in>set (db_agreements d). ag_ID b = i \<and> r \<in> set (ag_Rates b)) \<or>
        r \<in> set (ag_Rates a) \<and> (same_warehouses r ord \<or> (\<forall>s\<in>set (ag_Rates a). ar_Price s = ar_Price r)))
     else o_Price ord' = o_Price ord)"
proof -
  let ?P = "\<lambda>a. ag_ID a = i \<and> (ag_ShipperCompanyID a = a_CompanyID actor \<or> ag_TransporterCompanyID a = a_CompanyID actor)"
  from run obtain a strict where f: "find ?P (db_agreements d) = Some a"
    and st: "ActiveAgreementVerifiedOnly E (a_CompanyID actor) = Some strict"
    and u: "UnusableReason a (load_date E ord) strict = []"
    and rest: "lane_price E a (under_agreement a ord) d = (Inr ord', d')"
    by (auto simp: applyAgreementPrice_def Agreements_FindByID_def andThen_Inr attempt_def call_def fail_def
        query_def one_def Let_def load_date_def
        split: option.splits if_splits sum.splits)
  from find_Some_iff_first [OF f] have a: "a \<in> set (db_agreements d)" "?P a" by simp_all
  have price: "\<exists>r. o_Price ord' = Some (ar_Price r) \<and>
       ((\<exists>b\<in>set (db_agreements d). ag_ID b = i \<and> r \<in> set (ag_Rates b)) \<or>
        r \<in> set (ag_Rates a) \<and> (same_warehouses r ord \<or> (\<forall>s\<in>set (ag_Rates a). ar_Price s = ar_Price r)))"
    if "snd (laneOf E ord)"
  proof -
    from rest that obtain l r d1 where r: "resolve_rate E a l (under_agreement a ord) d = (Inr r, d1)"
      and o: "ord' = priced E r (under_agreement a ord)"
      by (auto simp: lane_price_def Let_def andThen_Inr)
    from resolve_rate_Inr [OF r key] a(2) o show ?thesis by (auto intro!: exI [of _ r])
  qed
  from rest have "o_TransporterCompanyID ord' = Some (ag_TransporterCompanyID a)"
    by (auto simp: lane_price_def Let_def andThen_Inr split: if_splits)
  moreover from rest have "\<not> snd (laneOf E ord) \<Longrightarrow> o_Price ord' = o_Price ord"
    by (auto simp: lane_price_def Let_def)
  ultimately show ?thesis using a st u price unfolding IsUsable_def
    by (intro bexI [of _ a] exI [of _ strict]) simp_all
qed

text \<open>A refusal that leaves alone at least a part of the store.\<close>

definition clean_for :: "('s \<Rightarrow> 'v) \<Rightarrow> ('s, 'a) op \<Rightarrow> bool" where
  "clean_for f m \<longleftrightarrow> (\<forall>s e s'. m s = (Inl e, s') \<longrightarrow> f s' = f s)"

definition never_fails :: "('s, 'a) op \<Rightarrow> bool" where
  "never_fails m \<longleftrightarrow> (\<forall>s e s'. m s \<noteq> (Inl e, s'))"

lemma never_fails_rules:
  "never_fails (ok x)" "never_fails (attempt m1)"
  "never_fails m \<Longrightarrow> (\<And>x. never_fails (g x)) \<Longrightarrow> never_fails (andThen m g)"
  "never_fails m \<Longrightarrow> never_fails n \<Longrightarrow> never_fails (if c then m else n)"
  by (auto simp: never_fails_def attempt_def andThen_Inl split: prod.splits)

lemma clean_for_keeps: "keeps f m \<Longrightarrow> (\<And>x. clean_for f (g x)) \<Longrightarrow> clean_for f (andThen m g)"
  by (auto simp: clean_for_def andThen_Inl dest: keepsD)

lemma clean_for_last:
  assumes "clean m" and "\<And>x. never_fails (g x)"
  shows "clean_for f (andThen m g)"
  using assms by (auto simp: clean_for_def never_fails_def andThen_Inl dest: cleanD)

text \<open>An order refused leaves nothing behind but a number that will not be used.\<close>

lemma Orders_Place_failed:
  assumes "Orders_Place E actor inp d = (Inl e, d')"
  shows "core d' = core d"
proof -
  have "never_fails (notifyCreated actor ord)" for ord
    by (auto simp: never_fails_def notifyCreated_def notify_eq split: option.splits if_splits)
  moreover have "never_fails (haul_planned E ord)" for ord
    by (auto simp: never_fails_def haul_planned_def andThen_Inl)
  ultimately have "clean_for core (Orders_Place E actor inp)"
    unfolding Orders_Place_def
    by (intro clean_for_keeps clean_for_last notices_core keeps_readonly [OF readonly_orders(1)]
        never_fails_rules op_rules)
  with assms show ?thesis by (simp add: clean_for_def)
qed

text \<open>What was drafted and priced, and what was stored of it.\<close>

lemma draft_order_Inr:
  assumes "draft_order E actor inp d = (Inr ord, d')"
  shows "core d' = core d \<and> o_StatusCode ord = (if ci_CustomerCompanyID inp \<noteq> None then OrderApproved
      else if ci_SubmitImmediately inp then OrderSubmitted else OrderDraft) \<and>
    o_ShipperCompanyID ord = (case ci_CustomerCompanyID inp of Some c \<Rightarrow> c | None \<Rightarrow> a_CompanyID actor)"
  using assms keepsD [OF notices_core(6) assms]
  by (auto simp: draft_order_def andThen_Inr new_order_def split: option.splits)

lemma applyAgreementPrice_parties:
  assumes "applyAgreementPrice E actor i ord d = (Inr ord', d')"
  shows "o_StatusCode ord' = o_StatusCode ord \<and> o_ShipperCompanyID ord' = o_ShipperCompanyID ord"
proof -
  from assms obtain r d1 where f: "attempt (Agreements_FindByID E (a_CompanyID actor) i) d = (Inr r, d1)"
    by (auto simp only: applyAgreementPrice_def andThen_Inr)
  obtain a where "r = Inr a" and "lane_price E a (under_agreement a ord) d1 = (Inr ord', d')"
    using assms f by (cases r) (auto simp: applyAgreementPrice_def andThen_Inr Let_def
        split: option.split_asm if_split_asm)
  then show ?thesis by (auto simp: lane_price_def Let_def andThen_Inr split: if_splits)
qed

lemma Orders_Place_Inr:
  assumes run: "Orders_Place E actor inp d = (Inr ord, d')"
  shows "validateCreate E actor inp d = (Inr (), d)"
    and "db_orders d' = db_orders d @ [ord]"
    and "o_OrderNumber ord \<notin> o_OrderNumber ` set (db_orders d)"
    and "o_StatusCode ord = (if ci_CustomerCompanyID inp \<noteq> None then OrderApproved
      else if ci_SubmitImmediately inp then OrderSubmitted else OrderDraft)"
    and "o_ShipperCompanyID ord = (case ci_CustomerCompanyID inp of Some c \<Rightarrow> c | None \<Rightarrow> a_CompanyID actor)"
proof -
  let ?price = "\<lambda>o1. case ci_AgreementID inp of None \<Rightarrow> ok o1 | Some a \<Rightarrow> applyAgreementPrice E actor a o1"
  let ?items = "\<lambda>o3. if items_wired E \<and> ci_Items inp \<noteq> []
      then attempt (Items_ReplaceForOrder E (o_ID o3) (itemsFrom (ci_Items inp))) else ok (Inr ())"
  from run obtain u d0 o1 d1 o2 d2 d3 x3 d4 x4 d5 d6 where
    v: "validateCreate E actor inp d = (Inr u, d0)" and dr: "draft_order E actor inp d0 = (Inr o1, d1)"
    and p: "?price o1 d1 = (Inr o2, d2)" and c: "Orders_Create E o2 d2 = (Inr ord, d3)"
    and i: "?items ord d3 = (Inr x3, d4)" and s: "attempt (SyncStops E ord) d4 = (Inr x4, d5)"
    and h: "haul_planned E ord d5 = (Inr (), d6)" and n: "notifyCreated actor ord d6 = (Inr (), d')"
    unfolding Orders_Place_def andThen_Inr by fastforce
  have d0: "d0 = d" by (rule readonlyD [OF readonly_orders(1) v])
  with v show "validateCreate E actor inp d = (Inr (), d)" by simp
  have d2: "d2 = d1" using p readonlyD [OF readonly_orders(3)] by (auto split: option.splits)
  have d1: "db_orders d1 = db_orders d" using draft_order_Inr [OF dr] d0 by (simp add: core_def)
  have "keeps db_orders (?items ord)" by (intro op_rules)
  from keepsD [OF this i] have "db_orders d4 = db_orders d3" .
  moreover have "keeps db_orders (attempt (SyncStops E ord))" by (intro op_rules)
  from keepsD [OF this s] have "db_orders d5 = db_orders d4" .
  moreover have "db_orders d6 = db_orders d5" by (rule keepsD [OF planning_core(1) [THEN beside_core(1)] h])
  moreover have "db_orders d' = db_orders d6" by (rule keepsD [OF notices_core(1) [THEN beside_core(1)] n])
  ultimately have "db_orders d' = db_orders d3" by simp
  with c d1 d2 show "db_orders d' = db_orders d @ [ord]" "o_OrderNumber ord \<notin> o_OrderNumber ` set (db_orders d)"
    by (auto simp: Orders_Create_def call_Inr Let_def list_ex_iff image_iff split: if_splits)
  have o2: "o_StatusCode ord = o_StatusCode o2" "o_ShipperCompanyID ord = o_ShipperCompanyID o2"
    using c by (auto simp: Orders_Create_def call_Inr Let_def split: if_splits)
  moreover have "o_StatusCode o2 = o_StatusCode o1" "o_ShipperCompanyID o2 = o_ShipperCompanyID o1"
    using p applyAgreementPrice_parties by (auto split: option.splits)
  ultimately show "o_StatusCode ord = (if ci_CustomerCompanyID inp \<noteq> None then OrderApproved
      else if ci_SubmitImmediately inp then OrderSubmitted else OrderDraft)"
    "o_ShipperCompanyID ord = (case ci_CustomerCompanyID inp of Some c \<Rightarrow> c | None \<Rightarrow> a_CompanyID actor)"
    using draft_order_Inr [OF dr] by simp_all
qed

section \<open>Edits\<close>

lemma merge_patch_lookup:
  "distinct (map fst patch) \<Longrightarrow>
     merge_patch patch detail k = (case map_of patch k of None \<Rightarrow> detail k
       | Some v \<Rightarrow> if v = JNull then None else Some v)"
proof (induction patch arbitrary: detail)
  case (Cons kv patch)
  obtain k' v where kv: "kv = (k', v)" by fastforce
  from Cons.prems kv have "k' \<notin> set (map fst patch)" by simp
  then have "map_of patch k' = None" by (simp add: map_of_eq_None_iff)
  with Cons kv show ?case by (auto simp: merge_patch_def split: option.splits)
qed (simp add: merge_patch_def)

lemma UpdateDraft_Inr:
  assumes "UpdateDraft E actor i input d = (Inr u, d')"
  shows "\<exists>ord f. find (\<lambda>r. o_ID r = i \<and> (o_ShipperCompanyID r = a_CompanyID actor \<or>
      o_TransporterCompanyID r = Some (a_CompanyID actor))) (db_orders d) = Some ord \<and>
    o_StatusCode ord = OrderDraft \<and> o_ShipperCompanyID ord = a_CompanyID actor \<and> editable input \<noteq> [] \<and>
    set_columns E (editable input) = Some f \<and>
    d' = d\<lparr>db_orders := update_where (\<lambda>r. o_ID r = i) f (db_orders d)\<rparr>"
  using assms by (auto simp: UpdateDraft_def andThen_Inr Orders_FindByID_def call_Inr Orders_UpdateFields_def
      split: option.splits if_splits)

text \<open>
  A patch that moves the points of an order whose journey has begun is stored all the same: the
  stops stay where they were, and the order no longer says what the driver was sent to do.
\<close>

lemma PatchDetail_begun:
  assumes run: "PatchDetail E actor i patch d = (Inr ord', d')"
    and begun: "firstVisited (stops_of i d) \<noteq> None"
  shows "db_stops d' = db_stops d \<and> ord' \<in> set (db_orders d') \<and> o_ID ord' = i \<and>
    (\<exists>ord\<in>set (db_orders d). ord' = ord\<lparr>o_Detail := merge_patch patch (o_Detail ord)\<rparr>)"
proof -
  let ?P = "\<lambda>r. o_ID r = i \<and> (o_ShipperCompanyID r = a_CompanyID actor \<or>
      o_TransporterCompanyID r = Some (a_CompanyID actor))"
  from run obtain ord d1 where f: "find ?P (db_orders d) = Some ord"
    and w: "Orders_UpdateFields E i (\<lambda>r. r\<lparr>o_Detail := merge_patch patch (o_Detail ord)\<rparr>) d = (Inr (), d1)"
    and o': "ord' = ord\<lparr>o_Detail := merge_patch patch (o_Detail ord)\<rparr>"
    and s: "d' = d1 \<or> (\<exists>r. SyncStops E ord' d1 = (r, d'))"
    by (auto simp: PatchDetail_def Let_def andThen_Inr Orders_FindByID_def call_Inr split: if_splits)
  from find_Some_iff_first [OF f] have ord: "ord \<in> set (db_orders d)" "o_ID ord = i" by auto
  from w have d1: "d1 = d\<lparr>db_orders := update_where (\<lambda>r. o_ID r = i)
      (\<lambda>r. r\<lparr>o_Detail := merge_patch patch (o_Detail ord)\<rparr>) (db_orders d)\<rparr>"
    by (auto simp: Orders_UpdateFields_def call_Inr split: if_splits)
  have "firstVisited (stops_of (o_ID ord') d1) \<noteq> None"
    using begun ord(2) o' d1 by (simp add: stops_of_def)
  from SyncStops_begun [OF this, of E] s have "d' = d1" by auto
  moreover have "ord\<lparr>o_Detail := merge_patch patch (o_Detail ord)\<rparr> \<in> set (db_orders d1)"
    using in_update_where(2) [OF ord(1), of "\<lambda>r. o_ID r = i"] ord(2) d1 by simp
  ultimately show ?thesis using o' ord d1 by auto
qed

section \<open>The roads of all orders\<close>

text \<open>An operation that leaves the roads and the orders alone, or only adds orders.\<close>

definition road_tables :: "db \<Rightarrow> order_route list \<times> route_cache_entry list \<times> order list" where
  "road_tables d = (db_routes d, db_route_cache d, db_orders d)"

lemma roads_beside: "keeps road_tables m \<Longrightarrow> preserves roads_sound m"
  by (auto simp: preserves_def keeps_def road_tables_def intro: roads_sound_same)

lemma road_tables_kept [op_rules]:
  "keeps road_tables (notify ev)" "keeps road_tables (OrdersNextNumber_op E sc pe)"
  "keeps road_tables (Items_ReplaceForOrder E i its)" "keeps road_tables (Stops_Replace E i ss)"
  "keeps road_tables (Shipments_Create E s)"
  by (auto simp: keeps_def notify_def OrdersNextNumber_op_def Items_ReplaceForOrder_def Stops_Replace_def
      Shipments_Create_def call_def fail_def exec_def ok_def Let_def road_tables_def)

lemma roads_orders [op_rules]:
  "preserves roads_sound (Orders_Create E ord)"
  "(\<And>r. o_ID (sc_Fields ch r) = o_ID r) \<Longrightarrow> preserves roads_sound (Orders_ApplyStatus E ch)"
proof -
  have "roads_sound (snd (Orders_Create E ord d))" if "roads_sound d" for d
    by (rule roads_sound_same [OF _ _ _ that]) (auto simp: Orders_Create_def call_def fail_def Let_def)
  then show "preserves roads_sound (Orders_Create E ord)" by (simp add: preserves_def)
  assume i: "\<And>r. o_ID (sc_Fields ch r) = o_ID r"
  have "o_ID ` set (update_where P (\<lambda>r. sc_Fields ch (r\<lparr>o_StatusCode := t\<rparr>)) rows) = o_ID ` set rows" for P t rows
    using arg_cong [OF map_update_where_key [of o_ID "\<lambda>r. sc_Fields ch (r\<lparr>o_StatusCode := t\<rparr>)" P rows], of set] i by simp
  then have "roads_sound (snd (Orders_ApplyStatus E ch d))" if "roads_sound d" for d
    by (intro roads_sound_same [OF _ _ _ that]) (simp_all add: Orders_ApplyStatus_def call_def fail_def Let_def)
  then show "preserves roads_sound (Orders_ApplyStatus E ch)" by (simp add: preserves_def)
qed

lemma roads_placed: "preserves roads_sound (Orders_Place E actor inp)" "preserves roads_sound (AssignDriver E actor i drv trk)"
proof -
  have n: "keeps road_tables (notifyCreated actor ord)" "keeps road_tables (notifyDriverAssigned actor ord d1)"
    "keeps road_tables (SyncStops E ord)" "keeps road_tables (draft_order E actor inp)" for ord d1
    unfolding notifyCreated_def notifyDriverAssigned_def SyncStops_def Let_def draft_order_def customer_number_def
      nextOrderNumber_def by (intro op_rules)+
  show "preserves roads_sound (Orders_Place E actor inp)"
    unfolding Orders_Place_def haul_planned_def
    by (intro op_rules n [THEN roads_beside] road_tables_kept [THEN roads_beside])
  show "preserves roads_sound (AssignDriver E actor i drv trk)"
    unfolding AssignDriver_def approach_planned_def
    by (auto intro!: op_rules n [THEN roads_beside] road_tables_kept [THEN roads_beside])
qed

end
