(* ===== verification/Shipment.thy ===== *)
theory Shipment
  imports Journey Runs
begin

text \<open>
  internal/services/shipment_service.go: the steps of a shipment's life. A step is asked of the
  machine, its position is measured against the geofence where the order enforces one, the row is
  moved by compare-and-set, and the order behind it follows.
\<close>

section \<open>Who and where\<close>

record advance_input =
  ai_ShipmentID :: uuid
  ai_To :: string
  ai_Position :: "position option"
  ai_Note :: string

text \<open>The column that records when a state was reached; \<open>None\<close> where the map has no entry.\<close>

definition timestampColumn :: "string \<Rightarrow> (time option \<Rightarrow> shipment \<Rightarrow> shipment) option" where
  "timestampColumn to =
     (if to = ShipmentToLoading then Some (\<lambda>t s. s\<lparr>sh_StartedToLoadingAt := t\<rparr>)
      else if to = ShipmentAtLoading then Some (\<lambda>t s. s\<lparr>sh_ArrivedLoadingAt := t\<rparr>)
      else if to = ShipmentLoading then Some (\<lambda>t s. s\<lparr>sh_LoadingStartedAt := t\<rparr>)
      else if to = ShipmentLoaded then Some (\<lambda>t s. s\<lparr>sh_LoadingFinishedAt := t\<rparr>)
      else if to = ShipmentToUnloading then Some (\<lambda>t s. s\<lparr>sh_StartedToUnloadingAt := t\<rparr>)
      else if to = ShipmentAtUnloading then Some (\<lambda>t s. s\<lparr>sh_ArrivedUnloadingAt := t\<rparr>)
      else if to = ShipmentUnloading then Some (\<lambda>t s. s\<lparr>sh_UnloadingStartedAt := t\<rparr>)
      else if to = ShipmentUnloaded then Some (\<lambda>t s. s\<lparr>sh_UnloadingFinishedAt := t\<rparr>)
      else if to = ShipmentFinished then Some (\<lambda>t s. s\<lparr>sh_FinishedAt := t\<rparr>)
      else None)"

definition assertActorMayAdvance :: "actor \<Rightarrow> shipment \<Rightarrow> order \<Rightarrow> unit result" where
  "assertActorMayAdvance actor ship ord =
     (if is_admin actor then Inr ()
      else if a_StatusBypass actor then
        (if \<not> InvolvesCompany ord (a_CompanyID actor)
         then Inl (Err ErrForbidden ''your company is not a party to this order'') else Inr ())
      else if a_Role actor = RoleDriver then
        (if sh_DriverUserID ship \<noteq> Some (a_UserID actor)
         then Inl (Err ErrForbidden ''this shipment is assigned to another driver'') else Inr ())
      else if \<not> InvolvesCompany ord (a_CompanyID actor)
      then Inl (Err ErrForbidden ''your company is not a party to this order'')
      else Inr ())"

definition siteLabel :: "string \<Rightarrow> string" where
  "siteLabel to = (if to = ShipmentAtUnloading \<or> to = ShipmentUnloading then ''titik bongkar'' else ''titik muat'')"

definition geofencingEnforced :: "order \<Rightarrow> bool" where
  "geofencingEnforced ord \<longleftrightarrow> o_GeofencingEnabled ord = Some True"

definition fenceEnforcedFor :: "actor \<Rightarrow> order \<Rightarrow> bool" where
  "fenceEnforcedFor actor ord =
     (if a_StatusBypass actor \<or> is_admin actor then False else geofencingEnforced ord)"

text \<open>The radius a site sets, or one kilometre.\<close>

definition fence_radius :: "warehouse \<Rightarrow> int" where
  "fence_radius w = (if w_GeofenceRadiusMeters w \<le> 0 then 1000 else w_GeofenceRadiusMeters w)"

definition inside :: "env \<Rightarrow> position \<Rightarrow> warehouse \<Rightarrow> bool" where
  "inside E p w \<longleftrightarrow> distance E p (warehouse_pos w) \<le> of_int (fence_radius w)"

definition not_at :: "string \<Rightarrow> error" where
  "not_at label = Err ErrValidation (''Driver terdeteksi belum berada di '' @ label)"

definition or_empty :: "string option \<Rightarrow> string" where
  "or_empty v = (case v of Some s \<Rightarrow> s | None \<Rightarrow> [])"

definition firstUnfinishedStop :: "env \<Rightarrow> uuid \<Rightarrow> string \<Rightarrow> (db, order_stop option) op" where
  "firstUnfinishedStop E orderID kind =
     (if \<not> stops_wired E \<or> kind = [] then ok None
      else andThen (attempt (Stops_ListByOrder E orderID)) (\<lambda>r.
        case r of Inl _ \<Rightarrow> ok None
        | Inr stops \<Rightarrow> ok (if length stops \<le> 2 then None
            else find (\<lambda>s. st_Kind s = kind \<and> st_FinishedAt s = None) stops)))"

text \<open>The gate of the start of work: the site of the stop being worked, if the journey has more
  than its two ends, else the order's own.\<close>

definition site_of_step :: "string \<Rightarrow> order \<Rightarrow> string \<times> string" where
  "site_of_step to ord =
     (if to = ShipmentLoading then (StopLoad, or_empty (o_OriginWarehouseID ord))
      else (StopUnload, or_empty (o_DestinationWarehouseID ord)))"

definition assertAtSite :: "env \<Rightarrow> advance_input \<Rightarrow> order \<Rightarrow> (db, unit) op" where
  "assertAtSite E inp ord =
     (if ai_To inp \<noteq> ShipmentLoading \<and> ai_To inp \<noteq> ShipmentUnloading then ok ()
      else let kind = fst (site_of_step (ai_To inp) ord) in
        andThen (firstUnfinishedStop E (o_ID ord) kind) (\<lambda>nxt.
          let warehouseID = (case nxt of Some s \<Rightarrow> st_WarehouseID s
                | None \<Rightarrow> snd (site_of_step (ai_To inp) ord))
          in if warehouseID = [] \<or> \<not> geofencingEnforced ord then ok ()
             else case ai_Position inp of
               None \<Rightarrow> fail (not_at (siteLabel (ai_To inp) @ '' - aktifkan GPS lalu coba lagi''))
             | Some p \<Rightarrow>
                 (case GetWarehouse E warehouseID of
                    None \<Rightarrow> ok ()
                  | Some w \<Rightarrow> refuse (\<not> inside E p w) (not_at (siteLabel (ai_To inp))))))"

text \<open>\<open>recordArrival\<close>: the columns to write so far go in, and come out with what the arrival adds.\<close>

definition arrival_at :: "env \<Rightarrow> advance_input \<Rightarrow> string option \<Rightarrow>
    (position \<Rightarrow> shipment \<Rightarrow> shipment) \<Rightarrow> (bool option \<Rightarrow> shipment \<Rightarrow> shipment) \<Rightarrow>
    (shipment \<Rightarrow> shipment) \<Rightarrow> bool \<Rightarrow> (shipment \<Rightarrow> shipment) result" where
  "arrival_at E inp site set_pos set_fence cols fenceEnforced =
     (case ai_Position inp of
        None \<Rightarrow> if \<not> fenceEnforced then Inr cols
                 else Inl (Err ErrValidation ''a position is required when reporting arrival'')
      | Some p \<Rightarrow>
          let cols = set_pos p \<circ> cols in
          if or_empty site = [] then Inr cols
          else case GetWarehouse E (or_empty site) of
            None \<Rightarrow> Inr (set_fence None \<circ> cols)
          | Some w \<Rightarrow>
              let cols = set_fence (Some (inside E p w)) \<circ> cols in
              if inside E p w then Inr cols
              else if fenceEnforced then Inl (not_at (siteLabel (ai_To inp)))
              else Inr cols)"

definition recordArrival ::
  "env \<Rightarrow> advance_input \<Rightarrow> order \<Rightarrow> (shipment \<Rightarrow> shipment) \<Rightarrow> bool \<Rightarrow> (shipment \<Rightarrow> shipment) result" where
  "recordArrival E inp ord cols fenceEnforced =
     (if ai_To inp = ShipmentAtLoading then
        arrival_at E inp (o_OriginWarehouseID ord)
          (\<lambda>p s. s\<lparr>sh_LoadingLatitude := Some (pos_Latitude p), sh_LoadingLongitude := Some (pos_Longitude p)\<rparr>)
          (\<lambda>b s. s\<lparr>sh_LoadingWithinGeofence := b\<rparr>) cols fenceEnforced
      else if ai_To inp = ShipmentAtUnloading then
        arrival_at E inp (o_DestinationWarehouseID ord)
          (\<lambda>p s. s\<lparr>sh_UnloadingLatitude := Some (pos_Latitude p), sh_UnloadingLongitude := Some (pos_Longitude p)\<rparr>)
          (\<lambda>b s. s\<lparr>sh_UnloadingWithinGeofence := b\<rparr>) cols fenceEnforced
      else Inr cols)"

section \<open>The order follows\<close>

definition order_target :: "string \<Rightarrow> string option" where
  "order_target status =
     (if status = ShipmentToLoading then Some OrderInTransit
      else if status = ShipmentFinished then Some OrderCompleted else None)"

definition syncOrderStatus :: "env \<Rightarrow> actor \<Rightarrow> order \<Rightarrow> string \<Rightarrow> (db, unit) op" where
  "syncOrderStatus E actor ord shipmentStatus =
     (case order_target shipmentStatus of
        None \<Rightarrow> ok ()
      | Some target \<Rightarrow>
          if o_StatusCode ord = target then ok ()
          else case CanTransitionOrder (o_StatusCode ord) target (machineRole actor (Some ord)) of
            Some e \<Rightarrow> fail (Err ErrTransition (''shipment moved to '' @ shipmentStatus @
              '' but the order cannot move to '' @ target @ '': '' @ transition_error_text e))
          | None \<Rightarrow> Orders_ApplyStatus E
              \<lparr>sc_OrderID = o_ID ord, sc_From = o_StatusCode ord, sc_To = target,
               sc_Actor = Some (a_UserID actor), sc_Source = SourceSystem, sc_Note = None,
               sc_Fields = (\<lambda>r. r)\<rparr>)"

definition advance_event :: "string \<Rightarrow> string option" where
  "advance_event to =
     (if to = ShipmentToLoading then Some ''SHIPMENT_STARTED''
      else if to = ShipmentAtLoading then Some ''SHIPMENT_ARRIVED_LOADING''
      else if to = ShipmentLoaded then Some ''SHIPMENT_LOADED''
      else if to = ShipmentAtUnloading then Some ''SHIPMENT_ARRIVED_UNLOADING''
      else if to = ShipmentFinished then Some ''SHIPMENT_FINISHED''
      else None)"

definition notifyAdvance :: "actor \<Rightarrow> order \<Rightarrow> string \<Rightarrow> (db, unit) op" where
  "notifyAdvance actor ord to =
     (case advance_event to of
        None \<Rightarrow> ok ()
      | Some eventType \<Rightarrow> notify
          \<lparr>ev_Type = eventType, ev_SubjectID = o_ID ord, ev_SubjectType = ''order'',
           ev_Audience = ToCompanyRoles (o_ShipperCompanyID ord) [RoleShipper, RoleWarehousePic],
           ev_ActorID = Some (a_UserID actor),
           ev_Key = [KeyText ''shipment'', KeyID (o_ID ord), KeyText to]\<rparr>)"

section \<open>Advancing\<close>

definition stamped :: "env \<Rightarrow> string \<Rightarrow> shipment \<Rightarrow> shipment" where
  "stamped E to = (case timestampColumn to of Some col \<Rightarrow> col (Some (now E)) | None \<Rightarrow> (\<lambda>s. s))"

definition advance ::
  "env \<Rightarrow> actor \<Rightarrow> shipment \<Rightarrow> order \<Rightarrow> advance_input \<Rightarrow> string \<Rightarrow> (db, shipment) op" where
  "advance E actor ship ord inp role =
     (case CanTransitionShipment (sh_StatusCode ship) (ai_To inp) role of
        Some e \<Rightarrow> fail (Err ErrTransition (transition_error_text e))
      | None \<Rightarrow>
          andThen (from_result (recordArrival E inp ord (stamped E (ai_To inp)) (fenceEnforcedFor actor ord))) (\<lambda>cols.
          andThen (if role = RoleDriver \<and> \<not> a_StatusBypass actor then assertAtSite E inp ord else ok ()) (\<lambda>_.
          andThen (Shipments_ApplyStatus E (ai_ShipmentID inp) (sh_StatusCode ship) (ai_To inp) cols) (\<lambda>_.
          andThen (syncOrderStatus E actor ord (ai_To inp)) (\<lambda>_.
          andThen (notifyAdvance actor ord (ai_To inp)) (\<lambda>_.
          ok (ship\<lparr>sh_StatusCode := ai_To inp\<rparr>)))))))"

definition assertHandoverVerified :: "env \<Rightarrow> uuid \<Rightarrow> uuid option \<Rightarrow> (db, unit) op" where
  "assertHandoverVerified E shipmentID stopID =
     (if \<not> handovers_wired E then ok ()
      else andThen (Handovers_IsVerified E shipmentID ''unloading'' stopID) (\<lambda>(verified, _).
        refuse (\<not> verified) (Err ErrValidation ''the receiving PIC's code has not been confirmed yet'')))"

definition not_yours :: error where
  "not_yours = Err ErrForbidden ''this shipment does not belong to your company''"

definition Advance :: "env \<Rightarrow> actor \<Rightarrow> advance_input \<Rightarrow> (db, shipment) op" where
  "Advance E actor inp =
     andThen (Shipments_FindByID E (ai_ShipmentID inp)) (\<lambda>ship.
     andThen (rewrap not_yours (Orders_FindByID E (a_CompanyID actor) (sh_OrderID ship))) (\<lambda>ord.
     andThen (from_result (assertActorMayAdvance actor ship ord)) (\<lambda>_.
     andThen (if ai_To inp = ShipmentUnloading \<and> \<not> a_StatusBypass actor \<and> a_Role actor = RoleDriver
              then assertHandoverVerified E (sh_ID ship) None else ok ()) (\<lambda>_.
     advance E actor ship ord inp (machineRole actor (Some ord))))))"

definition AdvanceBySystem ::
  "env \<Rightarrow> actor \<Rightarrow> shipment \<Rightarrow> order \<Rightarrow> string \<Rightarrow> (db, shipment) op" where
  "AdvanceBySystem E actor ship ord to = advance E actor ship ord
     \<lparr>ai_ShipmentID = sh_ID ship, ai_To = to, ai_Position = None, ai_Note = []\<rparr> RoleSystem"

section \<open>The other writes of a shipment\<close>

definition Accept :: "env \<Rightarrow> actor \<Rightarrow> uuid \<Rightarrow> position option \<Rightarrow> (db, shipment) op" where
  "Accept E actor shipmentID pos =
     andThen (Shipments_FindByID E shipmentID) (\<lambda>ship.
     andThen (rewrap not_yours (Orders_FindByID E (a_CompanyID actor) (sh_OrderID ship))) (\<lambda>ord.
     andThen (from_result (assertActorMayAdvance actor ship ord)) (\<lambda>_.
     andThen (refuse (sh_StatusCode ship \<noteq> ShipmentAssigned)
                (Err ErrTransition ''the shipment is already under way'')) (\<lambda>_.
     if sh_AcceptedAt ship \<noteq> None then ok ship
     else
       let accept = (\<lambda>s. case pos of
             None \<Rightarrow> s\<lparr>sh_AcceptedAt := Some (now E)\<rparr>
           | Some p \<Rightarrow> s\<lparr>sh_AcceptedAt := Some (now E), sh_AcceptedLatitude := Some (pos_Latitude p),
                         sh_AcceptedLongitude := Some (pos_Longitude p)\<rparr>)
       in andThen (Shipments_UpdateFields E shipmentID accept) (\<lambda>_. ok (accept ship))))))"

record cargo_check_input =
  cc_Stage :: string
  cc_Matches :: bool
  cc_Note :: string
  cc_Via :: string
  cc_By :: "uuid option"

definition RecordCargoCheck :: "env \<Rightarrow> shipment \<Rightarrow> cargo_check_input \<Rightarrow> (db, unit) op" where
  "RecordCargoCheck E ship inp =
     (if cc_Stage inp = ''loading'' then
        andThen (refuse (sh_StatusCode ship \<noteq> ShipmentLoading)
          (Err ErrTransition ''the cargo check for loading is taken while the shipment is loading'')) (\<lambda>_.
        Shipments_UpdateFields E (sh_ID ship) (\<lambda>s. s\<lparr>sh_LoadingCargoMatches := Some (cc_Matches inp),
          sh_LoadingCargoNote := Some (trim_space (cc_Note inp)), sh_LoadingCargoCheckedAt := Some (now E),
          sh_LoadingCargoCheckedBy := cc_By inp\<rparr>))
      else if cc_Stage inp = ''unloading'' then
        andThen (refuse (sh_StatusCode ship \<noteq> ShipmentUnloading)
          (Err ErrTransition ''the cargo check for unloading is taken while the shipment is unloading'')) (\<lambda>_.
        Shipments_UpdateFields E (sh_ID ship) (\<lambda>s. s\<lparr>sh_UnloadingCargoMatches := Some (cc_Matches inp),
          sh_UnloadingCargoNote := Some (trim_space (cc_Note inp)), sh_UnloadingCargoCheckedAt := Some (now E),
          sh_UnloadingCargoCheckedBy := cc_By inp, sh_UnloadingCargoCheckedVia := Some (cc_Via inp)\<rparr>))
      else fail (Err ErrValidation ''stage must be loading or unloading''))"

text \<open>
  \<open>ReportGeofenceEvent\<close>: the columns the crossing writes, with the event of a first arrival;
  \<open>None\<close> where the warehouse is neither end of the order.
\<close>

definition crossing :: "order \<Rightarrow> shipment \<Rightarrow> string \<Rightarrow> bool \<Rightarrow> time \<Rightarrow>
    ((shipment \<Rightarrow> shipment) \<times> string option) option" where
  "crossing ord ship warehouseID entering t =
     (if o_OriginWarehouseID ord = Some warehouseID then
        (if entering \<and> sh_ArrivedLoadingAt ship = None
         then Some (\<lambda>s. s\<lparr>sh_LoadingWithinGeofence := Some entering, sh_ArrivedLoadingAt := Some t\<rparr>,
                    Some ''SHIPMENT_ARRIVED_LOADING'')
         else Some (\<lambda>s. s\<lparr>sh_LoadingWithinGeofence := Some entering\<rparr>, None))
      else if o_DestinationWarehouseID ord = Some warehouseID then
        (if entering \<and> sh_ArrivedUnloadingAt ship = None
         then Some (\<lambda>s. s\<lparr>sh_UnloadingWithinGeofence := Some entering, sh_ArrivedUnloadingAt := Some t\<rparr>,
                    Some ''SHIPMENT_ARRIVED_UNLOADING'')
         else Some (\<lambda>s. s\<lparr>sh_UnloadingWithinGeofence := Some entering\<rparr>, None))
      else None)"

definition ReportGeofenceEvent ::
  "env \<Rightarrow> uuid \<Rightarrow> string \<Rightarrow> bool \<Rightarrow> time \<Rightarrow> (db, string) op" where
  "ReportGeofenceEvent E shipmentID warehouseID entering t =
     andThen (Shipments_FindByID E shipmentID) (\<lambda>ship.
     andThen (Orders_FindByIDForService E (sh_OrderID ship)) (\<lambda>ord.
     case crossing ord ship warehouseID entering t of
       None \<Rightarrow> ok (sh_StatusCode ship)
     | Some (cols, firstArrival) \<Rightarrow>
         andThen (attempt (Shipments_ApplyStatus E shipmentID (sh_StatusCode ship) (sh_StatusCode ship) cols)) (\<lambda>r.
         case r of
           Inl e \<Rightarrow> if err_class e = ErrConflict then ok (sh_StatusCode ship) else fail e
         | Inr _ \<Rightarrow>
             andThen (case firstArrival of None \<Rightarrow> ok ()
               | Some eventType \<Rightarrow> notify
                   \<lparr>ev_Type = eventType, ev_SubjectID = o_ID ord, ev_SubjectType = ''order'',
                    ev_Audience = ToCompanyRoles (o_ShipperCompanyID ord) [RoleShipper, RoleWarehousePic],
                    ev_ActorID = None,
                    ev_Key = [KeyText ''shipment'', KeyID (o_ID ord), KeyText ''geofence'', KeyText warehouseID]\<rparr>)
               (\<lambda>_. ok (sh_StatusCode ship)))))"

definition GetByOrderShipment :: "env \<Rightarrow> actor \<Rightarrow> uuid \<Rightarrow> (db, shipment) op" where
  "GetByOrderShipment E actor shipmentID =
     andThen (Shipments_FindByID E shipmentID) (\<lambda>ship.
     andThen (rewrap not_yours (Orders_FindByID E (a_CompanyID actor) (sh_OrderID ship))) (\<lambda>_.
     ok ship))"

section \<open>What a step does\<close>

lemma readonly_gates [op_rules]:
  "readonly (firstUnfinishedStop E i k)" "readonly (assertAtSite E inp ord)"
  "readonly (assertHandoverVerified E i sid)"
proof -
  show *: "readonly (firstUnfinishedStop E i k)" for i k
    unfolding firstUnfinishedStop_def by (intro op_rules)
  show "readonly (assertAtSite E inp ord)"
    unfolding assertAtSite_def Let_def by (intro op_rules *)
  show "readonly (assertHandoverVerified E i sid)"
    unfolding assertHandoverVerified_def by (intro op_rules)
qed

lemmas gate_rules [op_rules] = readonly_gates [THEN keeps_readonly]
  readonly_gates [THEN preserves_readonly] readonly_gates [THEN clean_readonly]
  readonly_gates [THEN shipments.follows_readonly] readonly_gates [THEN orders.follows_readonly]

lemma tame_stamped: "tame_columns (stamped E to)"
  by (simp add: stamped_def timestampColumn_def tame_columns_def)

lemma tame_columns_comp: "tame_columns f \<Longrightarrow> tame_columns g \<Longrightarrow> tame_columns (g \<circ> f)"
  by (simp add: tame_columns_def)

lemma arrival_at_tame:
  assumes "arrival_at E inp site set_pos set_fence cols enforced = Inr cols'"
    and "tame_columns cols" and "\<And>p. tame_columns (set_pos p)" and "\<And>b. tame_columns (set_fence b)"
  shows "tame_columns cols'"
  using assms by (auto simp: arrival_at_def Let_def intro!: tame_columns_comp
      split: option.splits if_splits)

lemma recordArrival_tame:
  assumes "recordArrival E inp ord cols enforced = Inr cols'" and "tame_columns cols"
  shows "tame_columns cols'"
  using assms by (auto simp: recordArrival_def split: if_splits elim!: arrival_at_tame)
    (simp_all add: tame_columns_def)

lemma clean_syncOrderStatus [op_rules]: "clean (syncOrderStatus E actor ord st)"
  unfolding syncOrderStatus_def by (intro op_rules)

lemma notifyAdvance_Inr [simp]:
  "notifyAdvance actor ord to d = (Inl e, d') \<longleftrightarrow> False"
  by (auto simp: notifyAdvance_def notify_def split: option.splits)

text \<open>The three ways a step can end.\<close>

lemma advance_cases:
  assumes "advance E actor ship ord inp role d = (r, d')"
  obtains (refused) e where "r = Inl e" "d' = d"
  | (stuck) e cols where
      "CanTransitionShipment (sh_StatusCode ship) (ai_To inp) role = None" "tame_columns cols"
      "Shipments_ApplyStatus E (ai_ShipmentID inp) (sh_StatusCode ship) (ai_To inp) cols d = (Inr (), d')"
      "syncOrderStatus E actor ord (ai_To inp) d' = (Inl e, d')" "r = Inl e"
  | (moved) cols d1 d2 where
      "CanTransitionShipment (sh_StatusCode ship) (ai_To inp) role = None" "tame_columns cols"
      "recordArrival E inp ord (stamped E (ai_To inp)) (fenceEnforcedFor actor ord) = Inr cols"
      "role = RoleDriver \<Longrightarrow> \<not> a_StatusBypass actor \<Longrightarrow> assertAtSite E inp ord d = (Inr (), d)"
      "Shipments_ApplyStatus E (ai_ShipmentID inp) (sh_StatusCode ship) (ai_To inp) cols d = (Inr (), d1)"
      "syncOrderStatus E actor ord (ai_To inp) d1 = (Inr (), d2)"
      "notifyAdvance actor ord (ai_To inp) d2 = (Inr (), d')"
      "r = Inr (ship\<lparr>sh_StatusCode := ai_To inp\<rparr>)"
proof (cases "CanTransitionShipment (sh_StatusCode ship) (ai_To inp) role")
  case (Some e)
  with assms show thesis by (intro refused) (auto simp: advance_def)
next
  case None
  define gate where "gate = (if role = RoleDriver \<and> \<not> a_StatusBypass actor then assertAtSite E inp ord else ok ())"
  have "readonly gate" unfolding gate_def by (intro op_rules)
  note ro = readonlyD [OF this]
  have run: "andThen (from_result (recordArrival E inp ord (stamped E (ai_To inp)) (fenceEnforcedFor actor ord)))
    (\<lambda>cols. andThen gate (\<lambda>_.
     andThen (Shipments_ApplyStatus E (ai_ShipmentID inp) (sh_StatusCode ship) (ai_To inp) cols) (\<lambda>_.
     andThen (syncOrderStatus E actor ord (ai_To inp)) (\<lambda>_.
     andThen (notifyAdvance actor ord (ai_To inp)) (\<lambda>_.
     ok (ship\<lparr>sh_StatusCode := ai_To inp\<rparr>)))))) d = (r, d')"
    using assms None by (simp add: advance_def gate_def)
  show thesis
  proof (cases r)
    case (Inl e)
    from run [unfolded Inl] consider "d' = d"
      | cols dg d1 where "recordArrival E inp ord (stamped E (ai_To inp)) (fenceEnforcedFor actor ord) = Inr cols"
        "gate d = (Inr (), dg)"
        "Shipments_ApplyStatus E (ai_ShipmentID inp) (sh_StatusCode ship) (ai_To inp) cols dg = (Inr (), d1)"
        "syncOrderStatus E actor ord (ai_To inp) d1 = (Inl e, d')"
      by (auto simp: andThen_Inl dest: ro) (metis ro cleanD [OF clean_writes(5)])
    then show thesis
    proof cases
      case 1
      with Inl show thesis by (rule refused)
    next
      case 2
      moreover from 2(2) have "dg = d" by (rule ro)
      moreover from 2(4) have "d1 = d'" by (auto dest: cleanD [OF clean_syncOrderStatus])
      ultimately show thesis using Inl None recordArrival_tame [OF 2(1) tame_stamped]
        by (intro stuck) auto
    qed
  next
    case (Inr s)
    from run [unfolded Inr] obtain cols dg d1 d2 where
      c: "recordArrival E inp ord (stamped E (ai_To inp)) (fenceEnforcedFor actor ord) = Inr cols"
      and g: "gate d = (Inr (), dg)"
      and a: "Shipments_ApplyStatus E (ai_ShipmentID inp) (sh_StatusCode ship) (ai_To inp) cols dg = (Inr (), d1)"
      "syncOrderStatus E actor ord (ai_To inp) d1 = (Inr (), d2)"
      "notifyAdvance actor ord (ai_To inp) d2 = (Inr (), d')"
      "s = ship\<lparr>sh_StatusCode := ai_To inp\<rparr>"
      by (auto simp: andThen_Inr)
    from ro [OF g] have "dg = d" .
    with Inr c g a show thesis
      by (intro moved [OF None recordArrival_tame [OF c tame_stamped] c]) (auto simp: gate_def)
  qed
qed

lemma advance_Inr:
  assumes "advance E actor ship ord inp role d = (Inr ship', d')"
  obtains cols d1 d2 where
      "CanTransitionShipment (sh_StatusCode ship) (ai_To inp) role = None" "tame_columns cols"
      "recordArrival E inp ord (stamped E (ai_To inp)) (fenceEnforcedFor actor ord) = Inr cols"
      "role = RoleDriver \<Longrightarrow> \<not> a_StatusBypass actor \<Longrightarrow> assertAtSite E inp ord d = (Inr (), d)"
      "Shipments_ApplyStatus E (ai_ShipmentID inp) (sh_StatusCode ship) (ai_To inp) cols d = (Inr (), d1)"
      "syncOrderStatus E actor ord (ai_To inp) d1 = (Inr (), d2)"
      "notifyAdvance actor ord (ai_To inp) d2 = (Inr (), d')"
      "ship' = ship\<lparr>sh_StatusCode := ai_To inp\<rparr>"
  using assms by (cases rule: advance_cases) (simp_all add: that)

lemma shipments_run_advance [op_rules]: "follows shipments_run (advance E actor ship ord inp role)"
proof (rule followsI)
  fix d r d' assume a: "advance E actor ship ord inp role d = (r, d')"
  have apply_run: "shipments_run d d1"
    if "CanTransitionShipment (sh_StatusCode ship) (ai_To inp) role = None" "tame_columns cols"
      "Shipments_ApplyStatus E (ai_ShipmentID inp) (sh_StatusCode ship) (ai_To inp) cols d = (Inr (), d1)"
    for cols d1
    by (rule followsD [OF shipments_run_apply that(3)])
       (use that in \<open>auto simp: CanTransitionShipment_def intro: moves.move\<close>)
  from a show "shipments_run d d'"
  proof (cases rule: advance_cases)
    case (stuck e cols)
    with apply_run show ?thesis by blast
  next
    case (moved cols d1 d2)
    with apply_run have "shipments_run d d1" by blast
    moreover have "follows shipments_run (syncOrderStatus E actor ord (ai_To inp))"
      unfolding syncOrderStatus_def by (intro op_rules)
    with moved(6) have "shipments_run d1 d2" by (rule followsD [rotated])
    moreover have "follows shipments_run (notifyAdvance actor ord (ai_To inp))"
      unfolding notifyAdvance_def by (intro op_rules)
    with moved(7) have "shipments_run d2 d'" by (rule followsD [rotated])
    ultimately show ?thesis by (blast intro: shipments.onward)
  qed (simp add: shipments.stays)
qed

lemma orders_run_sync: "follows orders_run (syncOrderStatus E actor ord st)"
proof -
  have "follows orders_run (Orders_ApplyStatus E \<lparr>sc_OrderID = o_ID ord, sc_From = o_StatusCode ord,
      sc_To = target, sc_Actor = a, sc_Source = src, sc_Note = n, sc_Fields = (\<lambda>r. r)\<rparr>)"
    if "CanTransitionOrder (o_StatusCode ord) target role = None" for target a src n role
    using that by (intro orders_run_apply)
      (auto simp: tame_order_change_def CanTransitionOrder_def intro: moves.move)
  then show ?thesis unfolding syncOrderStatus_def
    by (auto intro!: op_rules split: option.split)
qed

lemma orders_run_advance [op_rules]: "follows orders_run (advance E actor ship ord inp role)"
proof -
  have "follows orders_run (notifyAdvance actor ord st)" for st
    unfolding notifyAdvance_def by (intro op_rules)
  then show ?thesis unfolding advance_def by (intro op_rules orders_run_sync)
qed

section \<open>A step that was taken\<close>

text \<open>What \<open>Advance\<close> read and checked when it succeeded.\<close>

lemma Advance_Inr:
  assumes "Advance E actor inp d = (Inr ship', d')"
  obtains ship ord where
    "find (\<lambda>r. sh_ID r = ai_ShipmentID inp) (db_shipments d) = Some ship"
    "find (\<lambda>r. o_ID r = sh_OrderID ship \<and> (o_ShipperCompanyID r = a_CompanyID actor \<or>
       o_TransporterCompanyID r = Some (a_CompanyID actor))) (db_orders d) = Some ord"
    "assertActorMayAdvance actor ship ord = Inr ()"
    "ai_To inp = ShipmentUnloading \<Longrightarrow> \<not> a_StatusBypass actor \<Longrightarrow> a_Role actor = RoleDriver \<Longrightarrow>
       handovers_wired E \<Longrightarrow> fst (IsVerified d (sh_ID ship) ''unloading'' None)"
    "advance E actor ship ord inp (machineRole actor (Some ord)) d = (Inr ship', d')"
proof -
  from assms obtain ship ord d1 where
    s: "find (\<lambda>r. sh_ID r = ai_ShipmentID inp) (db_shipments d) = Some ship"
    and o: "find (\<lambda>r. o_ID r = sh_OrderID ship \<and> (o_ShipperCompanyID r = a_CompanyID actor \<or>
       o_TransporterCompanyID r = Some (a_CompanyID actor))) (db_orders d) = Some ord"
    and m: "assertActorMayAdvance actor ship ord = Inr ()"
    and g: "(if ai_To inp = ShipmentUnloading \<and> \<not> a_StatusBypass actor \<and> a_Role actor = RoleDriver
       then assertHandoverVerified E (sh_ID ship) None else ok ()) d = (Inr (), d1)"
    and a: "advance E actor ship ord inp (machineRole actor (Some ord)) d1 = (Inr ship', d')"
    by (auto simp: Advance_def andThen_Inr Shipments_FindByID_def Orders_FindByID_def call_Inr)
  from g have "d1 = d" by (auto split: if_splits dest: readonlyD [OF readonly_gates(3)])
  have "fst (IsVerified d (sh_ID ship) ''unloading'' None)"
    if "ai_To inp = ShipmentUnloading" "\<not> a_StatusBypass actor" "a_Role actor = RoleDriver" "handovers_wired E"
    using g that by (auto simp: assertHandoverVerified_def andThen_Inr Handovers_IsVerified_def
        call_Inr split: prod.splits)
  with s o m a \<open>d1 = d\<close> show thesis by (intro that) auto
qed

lemma unique_row_moves:
  assumes "distinct (map fst rows)" and "(i, from) \<in> set rows"
    and "(i, s) \<in> set (map (\<lambda>(k, st). (k, if k = i \<and> st = from then to else st)) rows)"
  shows "s = to"
proof -
  from assms(3) obtain st where st: "(i, st) \<in> set rows" and s: "s = (if st = from then to else st)"
    by (auto split: if_splits)
  with assms(1,2) have "st = from" by (metis eq_key_imp_eq_value)
  with s show ?thesis by simp
qed

lemma Advance_authorised:
  assumes "Advance E actor inp d = (Inr ship', d')"
  shows "\<exists>ship ord. ship \<in> set (db_shipments d) \<and> sh_ID ship = ai_ShipmentID inp \<and>
    ord \<in> set (db_orders d) \<and> o_ID ord = sh_OrderID ship \<and>
    InvolvesCompany ord (a_CompanyID actor) \<and>
    (a_Role actor = RoleDriver \<and> \<not> a_StatusBypass actor \<longrightarrow> sh_DriverUserID ship = Some (a_UserID actor)) \<and>
    CanTransitionShipment (sh_StatusCode ship) (ai_To inp) (machineRole actor (Some ord)) = None \<and>
    ship' = ship\<lparr>sh_StatusCode := ai_To inp\<rparr>"
  using assms
proof (rule Advance_Inr)
  fix ship ord
  assume s: "find (\<lambda>r. sh_ID r = ai_ShipmentID inp) (db_shipments d) = Some ship"
    and o: "find (\<lambda>r. o_ID r = sh_OrderID ship \<and> (o_ShipperCompanyID r = a_CompanyID actor \<or>
       o_TransporterCompanyID r = Some (a_CompanyID actor))) (db_orders d) = Some ord"
    and m: "assertActorMayAdvance actor ship ord = Inr ()"
    and a: "advance E actor ship ord inp (machineRole actor (Some ord)) d = (Inr ship', d')"
  from m have "a_Role actor = RoleDriver \<Longrightarrow> \<not> a_StatusBypass actor \<Longrightarrow>
      sh_DriverUserID ship = Some (a_UserID actor)"
    by (auto simp: assertActorMayAdvance_def split: if_splits)
  moreover from a have "CanTransitionShipment (sh_StatusCode ship) (ai_To inp) (machineRole actor (Some ord)) = None"
    "ship' = ship\<lparr>sh_StatusCode := ai_To inp\<rparr>" by (rule advance_Inr, simp)+
  moreover have "InvolvesCompany ord (a_CompanyID actor)"
    using find_Some_iff_first [OF o] by (auto simp: InvolvesCompany_def)
  ultimately show ?thesis using find_Some_iff_first [OF s] find_Some_iff_first [OF o] by blast
qed

text \<open>Exactly the asked-for row has moved.\<close>

lemma advance_view:
  assumes "advance E actor ship ord inp role d = (Inr ship', d')"
  shows "shipment_view d' = map (\<lambda>(k, st). (k, if k = ai_ShipmentID inp \<and> st = sh_StatusCode ship
      then ai_To inp else st)) (shipment_view d)"
    and "(ai_ShipmentID inp, sh_StatusCode ship) \<in> set (shipment_view d)"
proof -
  from assms obtain cols d1 d2 where *: "tame_columns cols"
    "Shipments_ApplyStatus E (ai_ShipmentID inp) (sh_StatusCode ship) (ai_To inp) cols d = (Inr (), d1)"
    "syncOrderStatus E actor ord (ai_To inp) d1 = (Inr (), d2)"
    "notifyAdvance actor ord (ai_To inp) d2 = (Inr (), d')"
    by (rule advance_Inr)
  have "keeps db_shipments (syncOrderStatus E actor ord (ai_To inp))"
    "keeps db_shipments (notifyAdvance actor ord (ai_To inp))"
    unfolding syncOrderStatus_def notifyAdvance_def by (intro op_rules)+
  with *(3,4) have "db_shipments d' = db_shipments d1" by (metis keepsD)
  then have "shipment_view d' = shipment_view d1" by (simp add: shipment_view_def)
  with *(1,2) show "shipment_view d' = map (\<lambda>(k, st). (k, if k = ai_ShipmentID inp \<and>
      st = sh_StatusCode ship then ai_To inp else st)) (shipment_view d)"
    using shipment_cas.applied [of E "\<lparr>shc_ID = ai_ShipmentID inp, shc_From = sh_StatusCode ship,
        shc_To = ai_To inp, shc_Fields = cols\<rparr>" d "()" d1] by auto
  from *(2) show "(ai_ShipmentID inp, sh_StatusCode ship) \<in> set (shipment_view d)"
    using shipment_cas.matched [of E "\<lparr>shc_ID = ai_ShipmentID inp, shc_From = sh_StatusCode ship,
        shc_To = ai_To inp, shc_Fields = cols\<rparr>" d "()" d1] by auto
qed

lemma advance_frame:
  assumes "advance E actor ship ord inp role d = (r, d')"
  shows "db_stops d' = db_stops d \<and> db_pods d' = db_pods d \<and> db_handovers d' = db_handovers d"
proof -
  have "keeps db_stops (advance E actor ship ord inp role)" "keeps db_pods (advance E actor ship ord inp role)"
    "keeps db_handovers (advance E actor ship ord inp role)"
    unfolding advance_def syncOrderStatus_def notifyAdvance_def by (intro op_rules)+
  with assms show ?thesis by (metis keepsD)
qed

text \<open>The order is in step with the shipment when the step succeeds.\<close>

lemma sync_target:
  assumes "syncOrderStatus E actor ord st d = (Inr (), d')" and "order_target st = Some target"
    and "distinct (map o_ID (db_orders d))" and "ord \<in> set (db_orders d)"
  shows "(o_ID ord, s) \<in> set (order_view d') \<longleftrightarrow> s = target"
proof -
  have d: "distinct (map fst (order_view d))" using assms(3) by (simp add: order_view_def comp_def)
  have m: "(o_ID ord, o_StatusCode ord) \<in> set (order_view d)" using assms(4) by (auto simp: order_view_def)
  show ?thesis
  proof (cases "o_StatusCode ord = target")
    case True
    with assms(1,2) have "d' = d" by (simp add: syncOrderStatus_def)
    then show ?thesis using d m True by (auto dest: eq_key_imp_eq_value)
  next
    case False
    let ?ch = "\<lparr>sc_OrderID = o_ID ord, sc_From = o_StatusCode ord, sc_To = target,
               sc_Actor = Some (a_UserID actor), sc_Source = SourceSystem, sc_Note = None,
               sc_Fields = (\<lambda>r. r)\<rparr>"
    from False assms(1,2) have "Orders_ApplyStatus E ?ch d = (Inr (), d')"
      by (auto simp: syncOrderStatus_def split: option.splits)
    then have v: "order_view d' = map (\<lambda>(k, s). (k, if k = o_ID ord \<and> s = o_StatusCode ord
        then target else s)) (order_view d)"
      using order_cas.applied [of E ?ch d "()" d'] by (auto simp: tame_order_change_def)
    have "(o_ID ord, target) \<in> set (order_view d')" using m unfolding v by force
    then show ?thesis using unique_row_moves [OF d m] unfolding v by blast
  qed
qed

lemma advance_order_in_step:
  assumes "advance E actor ship ord inp role d = (Inr ship', d')" and "order_target (ai_To inp) = Some target"
    and "distinct (map o_ID (db_orders d))" and "ord \<in> set (db_orders d)"
  shows "(o_ID ord, s) \<in> set (order_view d') \<longleftrightarrow> s = target"
proof -
  from assms(1) obtain cols d1 d2 where *:
    "Shipments_ApplyStatus E (ai_ShipmentID inp) (sh_StatusCode ship) (ai_To inp) cols d = (Inr (), d1)"
    "syncOrderStatus E actor ord (ai_To inp) d1 = (Inr (), d2)"
    "notifyAdvance actor ord (ai_To inp) d2 = (Inr (), d')"
    by (rule advance_Inr)
  have "keeps db_orders (notifyAdvance actor ord (ai_To inp))"
    unfolding notifyAdvance_def by (intro op_rules)
  with *(3) have "order_view d' = order_view d2" by (metis keepsD order_view_def)
  moreover have "db_orders d1 = db_orders d" using *(1) frame_orders(2) by (metis keepsD)
  ultimately show ?thesis using sync_target [OF *(2) assms(2)] assms(3,4) by simp
qed

text \<open>A step that failed after the row had moved is one whose order could not follow.\<close>

lemma Advance_failed:
  assumes "Advance E actor inp d = (Inl e, d')" and "d' \<noteq> d"
  shows "order_target (ai_To inp) \<noteq> None \<and> db_orders d' = db_orders d \<and>
    (\<exists>from. (ai_ShipmentID inp, from) \<in> set (shipment_view d) \<and>
      shipment_view d' = map (\<lambda>(k, st). (k, if k = ai_ShipmentID inp \<and> st = from
        then ai_To inp else st)) (shipment_view d))"
proof -
  from assms obtain ship ord where a: "advance E actor ship ord inp (machineRole actor (Some ord)) d = (Inl e, d')"
    by (auto simp: Advance_def andThen_Inl rewrap_Inl split: if_splits
        dest!: readonlyD [OF readonly_reads(1)] readonlyD [OF readonly_reads(4)] readonlyD [OF readonly_gates(3)])
  then obtain e' cols where *: "tame_columns cols"
    "Shipments_ApplyStatus E (ai_ShipmentID inp) (sh_StatusCode ship) (ai_To inp) cols d = (Inr (), d')"
    "syncOrderStatus E actor ord (ai_To inp) d' = (Inl e', d')"
    using assms(2) by (auto elim: advance_cases)
  let ?ch = "\<lparr>shc_ID = ai_ShipmentID inp, shc_From = sh_StatusCode ship, shc_To = ai_To inp, shc_Fields = cols\<rparr>"
  have "shipment_view d' = map (\<lambda>(k, st). (k, if k = ai_ShipmentID inp \<and> st = sh_StatusCode ship
      then ai_To inp else st)) (shipment_view d)"
    using shipment_cas.applied [of E ?ch d "()" d'] *(1,2) by auto
  moreover have "(ai_ShipmentID inp, sh_StatusCode ship) \<in> set (shipment_view d)"
    using shipment_cas.matched [of E ?ch d "()" d'] *(2) by auto
  moreover have "db_orders d' = db_orders d" using *(2) frame_orders(2) by (metis keepsD)
  moreover have "order_target (ai_To inp) \<noteq> None" using *(3) by (auto simp: syncOrderStatus_def split: option.splits)
  ultimately show ?thesis by blast
qed

section \<open>Geofences\<close>

text \<open>Where work is starting: the stop being worked, or the order's own end of the trip.\<close>

definition worked_site :: "db \<Rightarrow> order \<Rightarrow> string \<Rightarrow> string" where
  "worked_site d ord to =
     (let kind = (if to = ShipmentLoading then StopLoad else StopUnload);
          stops = stops_of (o_ID ord) d;
          site = (if to = ShipmentLoading then o_OriginWarehouseID ord else o_DestinationWarehouseID ord)
      in case (if length stops \<le> 2 then None else find (\<lambda>s. st_Kind s = kind \<and> st_FinishedAt s = None) stops) of
           Some s \<Rightarrow> st_WarehouseID s
         | None \<Rightarrow> or_empty site)"

lemma assertAtSite_Inr:
  assumes "assertAtSite E inp ord d = (Inr (), d')" and "stops_wired E" and "\<not> down E StopsListByOrder"
    and "ai_To inp = ShipmentLoading \<or> ai_To inp = ShipmentUnloading"
    and "geofencingEnforced ord" and "worked_site d ord (ai_To inp) \<noteq> []"
  obtains p where "ai_Position inp = Some p"
    and "\<And>w. GetWarehouse E (worked_site d ord (ai_To inp)) = Some w \<Longrightarrow> inside E p w"
proof -
  define kind where "kind = (if ai_To inp = ShipmentLoading then StopLoad else StopUnload)"
  define nxt where "nxt = (let stops = stops_of (o_ID ord) d in if length stops \<le> 2 then None
    else find (\<lambda>s. st_Kind s = kind \<and> st_FinishedAt s = None) stops)"
  have kind: "fst (site_of_step (ai_To inp) ord) = kind" "kind \<noteq> []"
    using assms(4) by (auto simp: site_of_step_def kind_def)
  have "firstUnfinishedStop E (o_ID ord) kind d = (Inr nxt, d)"
    using assms(2,3) kind(2) by (simp add: firstUnfinishedStop_def op_defs Stops_ListByOrder_def
        call_def query_def nxt_def Let_def)
  moreover have "(case nxt of Some s \<Rightarrow> st_WarehouseID s | None \<Rightarrow> snd (site_of_step (ai_To inp) ord)) =
      worked_site d ord (ai_To inp)"
    using assms(4) by (auto simp: worked_site_def nxt_def kind_def site_of_step_def Let_def split: option.splits)
  ultimately have "\<exists>p. ai_Position inp = Some p \<and>
      (\<forall>w. GetWarehouse E (worked_site d ord (ai_To inp)) = Some w \<longrightarrow> inside E p w)"
    using assms(1,4,5,6) kind
    by (auto simp: assertAtSite_def Let_def andThen_def split: option.splits if_splits)
  then show thesis using that by blast
qed

lemma Advance_starts_on_site:
  assumes "Advance E actor inp d = (Inr ship', d')"
    and "a_Role actor = RoleDriver" and "\<not> a_StatusBypass actor"
    and "ai_To inp = ShipmentLoading \<or> ai_To inp = ShipmentUnloading"
    and "stops_wired E" and "\<not> down E StopsListByOrder"
  shows "\<exists>ord\<in>set (db_orders d). o_ID ord = sh_OrderID ship' \<and>
    (geofencingEnforced ord \<and> worked_site d ord (ai_To inp) \<noteq> [] \<longrightarrow>
      (\<exists>p. ai_Position inp = Some p \<and>
        (\<forall>w. GetWarehouse E (worked_site d ord (ai_To inp)) = Some w \<longrightarrow> inside E p w)))"
  using assms(1)
proof (rule Advance_Inr)
  fix ship ord
  assume o: "find (\<lambda>r. o_ID r = sh_OrderID ship \<and> (o_ShipperCompanyID r = a_CompanyID actor \<or>
       o_TransporterCompanyID r = Some (a_CompanyID actor))) (db_orders d) = Some ord"
    and a: "advance E actor ship ord inp (machineRole actor (Some ord)) d = (Inr ship', d')"
  have "machineRole actor (Some ord) = RoleDriver" using assms(2,3) by (simp add: machineRole_def)
  with a assms(3) have g: "assertAtSite E inp ord d = (Inr (), d)" and "ship' = ship\<lparr>sh_StatusCode := ai_To inp\<rparr>"
    by (auto elim: advance_Inr)
  with find_Some_iff_first [OF o] show ?thesis
    using assertAtSite_Inr [OF g assms(5,6,4)] by (intro bexI [of _ ord]) (simp, blast, simp)
qed

text \<open>An arrival at an enforced order is reported from inside the site's fence, or from a site
  nobody can look up.\<close>

lemma arrival_at_enforced:
  assumes "arrival_at E inp site set_pos set_fence cols True = Inr cols'"
  shows "\<exists>p. ai_Position inp = Some p \<and>
    (\<forall>w. or_empty site \<noteq> [] \<and> GetWarehouse E (or_empty site) = Some w \<longrightarrow>
       inside E p w \<and> cols' = set_fence (Some True) \<circ> (set_pos p \<circ> cols))"
  using assms by (auto simp: arrival_at_def Let_def split: option.splits if_splits)

lemma Advance_arrives_inside:
  assumes "Advance E actor inp d = (Inr ship', d')"
    and "ai_To inp = ShipmentAtLoading \<or> ai_To inp = ShipmentAtUnloading"
  shows "\<exists>ord\<in>set (db_orders d). o_ID ord = sh_OrderID ship' \<and>
    (fenceEnforcedFor actor ord \<longrightarrow> (\<exists>p. ai_Position inp = Some p \<and>
      (\<forall>w. GetWarehouse E (or_empty (if ai_To inp = ShipmentAtLoading then o_OriginWarehouseID ord
             else o_DestinationWarehouseID ord)) = Some w \<and>
           or_empty (if ai_To inp = ShipmentAtLoading then o_OriginWarehouseID ord
             else o_DestinationWarehouseID ord) \<noteq> [] \<longrightarrow> inside E p w)))"
  using assms(1)
proof (rule Advance_Inr)
  fix ship ord
  assume o: "find (\<lambda>r. o_ID r = sh_OrderID ship \<and> (o_ShipperCompanyID r = a_CompanyID actor \<or>
       o_TransporterCompanyID r = Some (a_CompanyID actor))) (db_orders d) = Some ord"
    and a: "advance E actor ship ord inp (machineRole actor (Some ord)) d = (Inr ship', d')"
  from a obtain cols where r: "recordArrival E inp ord (stamped E (ai_To inp)) (fenceEnforcedFor actor ord) = Inr cols"
    and "ship' = ship\<lparr>sh_StatusCode := ai_To inp\<rparr>" by (rule advance_Inr)
  with find_Some_iff_first [OF o] show ?thesis
    using assms(2) r by (intro bexI [of _ ord]) (auto simp: recordArrival_def dest!: arrival_at_enforced)
qed

section \<open>Every write of the service\<close>

lemma Advance_runs [op_rules]:
  "follows shipments_run (Advance E actor inp)" "follows orders_run (Advance E actor inp)"
  unfolding Advance_def by (intro op_rules)+

lemma tame_crossing: "crossing ord ship wh entering t = Some (cols, ev) \<Longrightarrow> tame_columns cols"
  by (auto simp: crossing_def tame_columns_def split: if_splits)

lemma Accept_runs [op_rules]:
  "follows shipments_run (Accept E actor i pos)" "keeps db_orders (Accept E actor i pos)"
proof -
  have "follows shipments_run (Shipments_UpdateFields E i (\<lambda>s. case pos of
      None \<Rightarrow> s\<lparr>sh_AcceptedAt := Some t\<rparr>
    | Some p \<Rightarrow> s\<lparr>sh_AcceptedAt := Some t, sh_AcceptedLatitude := Some (pos_Latitude p),
        sh_AcceptedLongitude := Some (pos_Longitude p)\<rparr>))" for t
    by (rule shipments_run_update) (simp add: tame_columns_def split: option.split)
  then show "follows shipments_run (Accept E actor i pos)"
    unfolding Accept_def Let_def by (intro op_rules)
  show "keeps db_orders (Accept E actor i pos)" unfolding Accept_def Let_def by (intro op_rules)
qed

lemma RecordCargoCheck_runs [op_rules]:
  "follows shipments_run (RecordCargoCheck E ship inp)" "keeps db_orders (RecordCargoCheck E ship inp)"
proof -
  show "follows shipments_run (RecordCargoCheck E ship inp)"
    unfolding RecordCargoCheck_def by (intro op_rules shipments_run_update) (simp_all add: tame_columns_def)
  show "keeps db_orders (RecordCargoCheck E ship inp)"
    unfolding RecordCargoCheck_def by (intro op_rules)
qed

text \<open>A crossing is evidence, not a command: no status moves.\<close>

lemma ReportGeofenceEvent_evidence:
  "keeps shipment_view (ReportGeofenceEvent E i wh entering t)"
  "keeps db_orders (ReportGeofenceEvent E i wh entering t)"
proof -
  have "keeps shipment_view (Shipments_ApplyStatus E i st st cols)" if "tame_columns cols" for st cols
    using that by (auto simp: keeps_def Shipments_ApplyStatus_def call_def fail_def Let_def
        shipment_view_def comp_def tame_columns_def update_where_def)
  note apply_same = this
  have nt: "keeps shipment_view (notify ev)" for ev
    by (simp add: keeps_def notify_def exec_def shipment_view_def)
  have moved: "keeps shipment_view (Shipments_ApplyStatus E i st st cols)"
    if "crossing ord ship wh entering t = Some (cols, ev)" for ord ship cols ev st
    by (intro apply_same tame_crossing [OF that])
  show "keeps shipment_view (ReportGeofenceEvent E i wh entering t)"
    unfolding ReportGeofenceEvent_def
    by (rule keeps_andThen, rule keeps_reads, rule keeps_andThen, rule keeps_reads)
       (auto intro!: op_rules split: option.split, auto intro!: op_rules nt moved split: option.split)
  show "keeps db_orders (ReportGeofenceEvent E i wh entering t)"
    unfolding ReportGeofenceEvent_def by (intro op_rules)
qed

lemma tame_keyed: "tame_columns cols \<Longrightarrow> sh_ID (cols r) = sh_ID r"
  by (simp add: tame_columns_def)

lemma advance_rules [op_rules]:
  "preserves well_keyed (advance E actor ship ord inp role)"
  "preserves one_live (advance E actor ship ord inp role)"
  "preserves journeys_in_order (advance E actor ship ord inp role)"
proof -
  have n: "preserves well_keyed (notifyAdvance actor ord st)" for st
    unfolding notifyAdvance_def by (intro op_rules)
  have s: "preserves well_keyed (syncOrderStatus E actor ord st)" for st
    unfolding syncOrderStatus_def by (intro op_rules well_keyed_order_change) simp
  have a: "preserves well_keyed (Shipments_ApplyStatus E i from to cols)"
    if "recordArrival E inp ord (stamped E (ai_To inp)) enf = Inr cols" for i "from" to cols enf
    by (rule well_keyed_shipment_update(2)) (rule tame_keyed [OF recordArrival_tame [OF that tame_stamped]])
  show "preserves well_keyed (advance E actor ship ord inp role)"
    unfolding advance_def
    by (cases "CanTransitionShipment (sh_StatusCode ship) (ai_To inp) role")
       (auto intro!: preserves_result op_rules n s a)
  show "preserves one_live (advance E actor ship ord inp role)"
    "preserves journeys_in_order (advance E actor ship ord inp role)"
    unfolding advance_def syncOrderStatus_def notifyAdvance_def by (intro op_rules)+
qed

lemma Advance_rules [op_rules]:
  "preserves well_keyed (Advance E actor inp)" "preserves one_live (Advance E actor inp)"
  "preserves journeys_in_order (Advance E actor inp)"
  unfolding Advance_def by (intro op_rules)+

lemma Accept_rules [op_rules]:
  "preserves well_keyed (Accept E actor i pos)" "preserves one_live (Accept E actor i pos)"
  "preserves journeys_in_order (Accept E actor i pos)"
  unfolding Accept_def Let_def
  by (intro op_rules well_keyed_shipment_update(1), simp split: option.split, (intro op_rules)+)

lemma RecordCargoCheck_rules [op_rules]:
  "preserves well_keyed (RecordCargoCheck E ship inp)" "preserves one_live (RecordCargoCheck E ship inp)"
  "preserves journeys_in_order (RecordCargoCheck E ship inp)"
  unfolding RecordCargoCheck_def
  by ((intro op_rules well_keyed_shipment_update(1); simp), (intro op_rules)+)

lemma ReportGeofenceEvent_rules [op_rules]:
  "preserves well_keyed (ReportGeofenceEvent E i wh entering t)"
  "preserves one_live (ReportGeofenceEvent E i wh entering t)"
  "preserves journeys_in_order (ReportGeofenceEvent E i wh entering t)"
proof -
  have a: "preserves well_keyed (Shipments_ApplyStatus E i st st cols)"
    if "crossing ord ship wh entering t = Some (cols, ev)" for ord ship cols ev st
    by (rule well_keyed_shipment_update(2)) (rule tame_keyed [OF tame_crossing [OF that]])
  show "preserves well_keyed (ReportGeofenceEvent E i wh entering t)"
    unfolding ReportGeofenceEvent_def
    by (rule preserves_andThen, rule preserves_reads, rule preserves_andThen, rule preserves_reads)
       (auto intro!: op_rules split: option.split, auto intro!: op_rules a split: option.split)
  show "preserves one_live (ReportGeofenceEvent E i wh entering t)"
    "preserves journeys_in_order (ReportGeofenceEvent E i wh entering t)"
    unfolding ReportGeofenceEvent_def by (intro op_rules)+
qed

lemma ReportGeofenceEvent_runs [op_rules]:
  "follows shipments_run (ReportGeofenceEvent E i wh entering t)"
  "follows orders_run (ReportGeofenceEvent E i wh entering t)"
  using ReportGeofenceEvent_evidence [of E i wh entering t]
  by (auto simp: keeps_def follows_def shipments_run_def orders_run_def order_view_def rows_run_refl)

lemmas keeps_orders_runs [op_rules] = Accept_runs(2) [THEN orders_run_same]
  RecordCargoCheck_runs(2) [THEN orders_run_same]

text \<open>None of these writes touches a stop, a submission or a code.\<close>

lemma service_frames [op_rules]:
  "keeps db_stops (advance E actor ship ord inp role)" "keeps db_pods (advance E actor ship ord inp role)"
  "keeps db_handovers (advance E actor ship ord inp role)"
  "keeps db_stops (RecordCargoCheck E ship cc)" "keeps db_pods (RecordCargoCheck E ship cc)"
  "keeps db_handovers (RecordCargoCheck E ship cc)"
  unfolding advance_def syncOrderStatus_def notifyAdvance_def RecordCargoCheck_def by (intro op_rules)+

lemma service_records [op_rules]:
  "follows records_kept (advance E actor ship ord inp role)"
  "follows records_kept (RecordCargoCheck E ship cc)"
  "follows records_kept (Advance E actor inp)" "follows records_kept (Accept E actor i pos)"
  "follows records_kept (ReportGeofenceEvent E i wh entering t)"
proof -
  show *: "follows records_kept (advance E actor ship ord inp role)" for ship ord role
    by (rule records_same; intro op_rules)
  show "follows records_kept (RecordCargoCheck E ship cc)" by (rule records_same; intro op_rules)
  have "keeps db_stops (Advance E actor inp)" "keeps db_pods (Advance E actor inp)"
    "keeps db_handovers (Advance E actor inp)"
    unfolding Advance_def by (intro op_rules)+
  then show "follows records_kept (Advance E actor inp)" by (intro records_same op_rules)
  have "keeps db_stops (Accept E actor i pos)" "keeps db_pods (Accept E actor i pos)"
    "keeps db_handovers (Accept E actor i pos)"
    unfolding Accept_def Let_def by (intro op_rules)+
  then show "follows records_kept (Accept E actor i pos)" by (intro records_same op_rules)
  have "keeps db_stops (ReportGeofenceEvent E i wh entering t)"
    "keeps db_pods (ReportGeofenceEvent E i wh entering t)"
    "keeps db_handovers (ReportGeofenceEvent E i wh entering t)"
    unfolding ReportGeofenceEvent_def by (intro op_rules)+
  then show "follows records_kept (ReportGeofenceEvent E i wh entering t)" by (intro records_same op_rules)
qed

lemmas gate_records [op_rules] = readonly_gates [THEN records.follows_readonly]

end
