(* ===== verification/Visits.thy ===== *)
theory Visits
  imports Shipment
begin

text \<open>
  internal/services/stop_visits.go: the driver's visit to one stop (arrive, start, check the cargo),
  and the walk that takes the shipment's own status along behind the stops.
\<close>

section \<open>The operations\<close>

record visit_input =
  vi_StopID :: uuid
  vi_Position :: "position option"
  vi_Matches :: "bool option"
  vi_Note :: string

definition stopForDriver :: "env \<Rightarrow> actor \<Rightarrow> uuid \<Rightarrow> uuid \<Rightarrow> (db, order_stop \<times> order) op" where
  "stopForDriver E actor shipmentID stopID =
     (if \<not> stops_wired E then fail (Err ErrValidation ''this journey has no stops recorded'')
      else andThen (Shipments_FindByID E shipmentID) (\<lambda>ship.
        andThen (Orders_FindByIDForService E (sh_OrderID ship)) (\<lambda>ord.
        let isDriver = (sh_DriverUserID ship = Some (a_UserID actor)) in
        if \<not> isDriver \<and> \<not> a_StatusBypass actor \<and> a_Role actor \<noteq> RoleAdmin
        then fail (Err ErrForbidden ''only the assigned driver may report from a stop'')
        else andThen (Stops_ListByOrder E (o_ID ord)) (\<lambda>stops.
          case find (\<lambda>s. st_ID s = stopID) stops of
            Some s \<Rightarrow> ok (s, ord)
          | None \<Rightarrow> fail (Err ErrValidation ''that stop does not belong to this shipment'')))))"

text \<open>The first earlier stop nobody has been to.\<close>

fun first_skipped :: "uuid \<Rightarrow> order_stop list \<Rightarrow> order_stop option" where
  "first_skipped i [] = None"
| "first_skipped i (s # ss) =
     (if st_ID s = i then None
      else if st_FinishedAt s = None \<and> st_ArrivedAt s = None then Some s
      else first_skipped i ss)"

definition assertStopIsNext :: "env \<Rightarrow> uuid \<Rightarrow> order_stop \<Rightarrow> (db, unit) op" where
  "assertStopIsNext E orderID stop =
     andThen (attempt (Stops_ListByOrder E orderID)) (\<lambda>r.
       case r of Inl _ \<Rightarrow> ok ()
       | Inr stops \<Rightarrow> (case first_skipped (st_ID stop) stops of
             None \<Rightarrow> ok ()
           | Some s \<Rightarrow> fail (Err ErrValidation (''kunjungi '' @ stopLabel s @ '' dulu''))))"

text \<open>Inside or outside this stop's own fence; \<open>None\<close> is "not known".\<close>

definition stopGeofence :: "env \<Rightarrow> order_stop \<Rightarrow> position option \<Rightarrow> bool option" where
  "stopGeofence E stop pos =
     (case pos of
        None \<Rightarrow> None
      | Some p \<Rightarrow>
          if \<not> masterdata_wired E then None
          else case GetWarehouse E (st_WarehouseID stop) of
            None \<Rightarrow> None
          | Some w \<Rightarrow> Some (inside E p w))"

text \<open>The result may be the nil stop.\<close>

definition reloadStop :: "env \<Rightarrow> uuid \<Rightarrow> uuid \<Rightarrow> (db, order_stop option) op" where
  "reloadStop E orderID stopID =
     andThen (Stops_ListByOrder E orderID) (\<lambda>stops. ok (find (\<lambda>s. st_ID s = stopID) stops))"

definition arrived_columns :: "env \<Rightarrow> position option \<Rightarrow> bool option \<Rightarrow> order_stop \<Rightarrow> order_stop" where
  "arrived_columns E pos fence s =
     (let s1 = s\<lparr>st_ArrivedAt := Some (now E)\<rparr>;
          s2 = (case pos of None \<Rightarrow> s1
                | Some p \<Rightarrow> s1\<lparr>st_ArrivedLatitude := Some (pos_Latitude p),
                              st_ArrivedLongitude := Some (pos_Longitude p)\<rparr>)
      in case fence of None \<Rightarrow> s2 | Some b \<Rightarrow> s2\<lparr>st_WithinGeofence := Some b\<rparr>)"

definition ArriveAtStop :: "env \<Rightarrow> actor \<Rightarrow> uuid \<Rightarrow> visit_input \<Rightarrow> (db, order_stop option) op" where
  "ArriveAtStop E actor shipmentID inp =
     andThen (stopForDriver E actor shipmentID (vi_StopID inp)) (\<lambda>(stop, ord).
       if st_ArrivedAt stop \<noteq> None then ok (Some stop)
       else andThen (assertStopIsNext E (o_ID ord) stop) (\<lambda>_.
         let fence = stopGeofence E stop (vi_Position inp) in
         andThen (refuse (fence = Some False \<and> fenceEnforcedFor actor ord) (not_at (stopLabel stop))) (\<lambda>_.
         andThen (Stops_UpdateFields E (st_ID stop) (arrived_columns E (vi_Position inp) fence)) (\<lambda>_.
         reloadStop E (o_ID ord) (st_ID stop)))))"

definition isFirstUnloadStop :: "env \<Rightarrow> uuid \<Rightarrow> order_stop \<Rightarrow> (db, bool) op" where
  "isFirstUnloadStop E orderID stop =
     andThen (attempt (Stops_ListByOrder E orderID)) (\<lambda>r.
       case r of Inl _ \<Rightarrow> ok False
       | Inr stops \<Rightarrow> ok (case find (\<lambda>s. st_Kind s = StopUnload) stops of
             Some s \<Rightarrow> st_ID s = st_ID stop
           | None \<Rightarrow> False))"

definition assertStopHandover :: "env \<Rightarrow> uuid \<Rightarrow> uuid \<Rightarrow> order_stop \<Rightarrow> (db, unit) op" where
  "assertStopHandover E shipmentID orderID stop =
     andThen (attempt (assertHandoverVerified E shipmentID (Some (st_ID stop)))) (\<lambda>r.
       case r of
         Inr _ \<Rightarrow> ok ()
       | Inl _ \<Rightarrow> andThen (isFirstUnloadStop E orderID stop) (\<lambda>first.
           if first then assertHandoverVerified E shipmentID None
           else assertHandoverVerified E shipmentID (Some (st_ID stop))))"

definition shipmentStatusForStop :: "order_stop \<Rightarrow> string" where
  "shipmentStatusForStop stop = (if st_Kind stop = StopLoad then ShipmentLoading else ShipmentUnloading)"

text \<open>The loop of \<open>walkShipmentTo\<close>, bounded by its own counter.\<close>

fun walk :: "nat \<Rightarrow> env \<Rightarrow> actor \<Rightarrow> shipment \<Rightarrow> order \<Rightarrow> string \<Rightarrow> string \<Rightarrow> position option \<Rightarrow> (db, shipment) op" where
  "walk 0 E actor ship ord to role pos = ok ship"
| "walk (Suc n) E actor ship ord to role pos =
     (if sh_StatusCode ship = to then ok ship
      else
        let nxt = NextShipmentStatusTowards (sh_StatusCode ship) to in
        if nxt = [] then ok ship
        else andThen (advance E actor ship ord
               \<lparr>ai_ShipmentID = sh_ID ship, ai_To = nxt, ai_Position = pos, ai_Note = []\<rparr> role) (\<lambda>moved.
             walk n E actor moved ord to role pos))"

definition walkShipmentTo :: "env \<Rightarrow> actor \<Rightarrow> shipment \<Rightarrow> order \<Rightarrow> string \<Rightarrow> string \<Rightarrow> position option \<Rightarrow> (db, shipment) op" where
  "walkShipmentTo E actor ship ord to role pos =
     (if sh_StatusCode ship = to \<or> ShipmentStatusAtOrPast (sh_StatusCode ship) to then ok ship
      else walk 12 E actor ship ord to role pos)"

definition StartStop :: "env \<Rightarrow> actor \<Rightarrow> uuid \<Rightarrow> visit_input \<Rightarrow> (db, order_stop option) op" where
  "StartStop E actor shipmentID inp =
     andThen (stopForDriver E actor shipmentID (vi_StopID inp)) (\<lambda>(stop, ord).
       if st_ArrivedAt stop = None
       then fail (Err ErrValidation (''laporkan tiba di '' @ stopLabel stop @ '' dulu sebelum memulai''))
       else if st_StartedAt stop \<noteq> None then ok (Some stop)
       else andThen (if st_Kind stop = StopUnload \<and> \<not> a_StatusBypass actor \<and> a_Role actor = RoleDriver
                     then assertStopHandover E shipmentID (o_ID ord) stop else ok ()) (\<lambda>_.
         andThen (if fenceEnforcedFor actor ord then
                    (if vi_Position inp = None
                     then fail (not_at (stopLabel stop @ '' - aktifkan GPS lalu coba lagi''))
                     else refuse (stopGeofence E stop (vi_Position inp) = Some False) (not_at (stopLabel stop)))
                  else ok ()) (\<lambda>_.
         andThen (Stops_UpdateFields E (st_ID stop) (\<lambda>s. s\<lparr>st_StartedAt := Some (now E)\<rparr>)) (\<lambda>_.
         andThen (attempt (Shipments_FindByID E shipmentID)) (\<lambda>r.
         andThen (case r of Inl _ \<Rightarrow> ok ()
                  | Inr current \<Rightarrow> andThen (attempt (walkShipmentTo E actor current ord
                      (shipmentStatusForStop stop) (machineRole actor (Some ord)) (vi_Position inp))) (\<lambda>_. ok ())) (\<lambda>_.
         reloadStop E (o_ID ord) (st_ID stop)))))))"

definition CheckStopCargo :: "env \<Rightarrow> actor \<Rightarrow> uuid \<Rightarrow> visit_input \<Rightarrow> (db, order_stop option) op" where
  "CheckStopCargo E actor shipmentID inp =
     andThen (stopForDriver E actor shipmentID (vi_StopID inp)) (\<lambda>(stop, ord).
       case vi_Matches inp of
         None \<Rightarrow> fail (Err ErrValidation ''jawab sesuai atau tidak sesuai'')
       | Some matches \<Rightarrow>
           if st_StartedAt stop = None
           then fail (Err ErrValidation (''mulai proses di '' @ stopLabel stop @ '' dulu''))
           else andThen (Stops_UpdateFields E (st_ID stop) (\<lambda>s. s\<lparr>st_CargoMatches := Some matches,
                  st_CargoNote := Some (vi_Note inp), st_CargoCheckedAt := Some (now E)\<rparr>)) (\<lambda>_.
                reloadStop E (o_ID ord) (st_ID stop)))"

section \<open>Reads\<close>

lemma readonly_visits [op_rules]:
  "readonly (stopForDriver E actor i sid)" "readonly (assertStopIsNext E oid stop)"
  "readonly (reloadStop E oid sid)" "readonly (isFirstUnloadStop E oid stop)"
  "readonly (assertStopHandover E i oid stop)"
proof -
  show *: "readonly (isFirstUnloadStop E oid stop)" for oid stop
    unfolding isFirstUnloadStop_def by (intro op_rules)
  show "readonly (stopForDriver E actor i sid)" "readonly (assertStopIsNext E oid stop)"
    "readonly (reloadStop E oid sid)" "readonly (assertStopHandover E i oid stop)"
    unfolding stopForDriver_def assertStopIsNext_def reloadStop_def assertStopHandover_def Let_def
    by (intro op_rules *)+
qed

lemmas visit_reads [op_rules] = readonly_visits [THEN keeps_readonly]
  readonly_visits [THEN preserves_readonly] readonly_visits [THEN clean_readonly]
  readonly_visits [THEN shipments.follows_readonly] readonly_visits [THEN orders.follows_readonly]

lemma walk_runs [op_rules]:
  "follows shipments_run (walk n E actor ship ord to role pos)"
  "follows orders_run (walk n E actor ship ord to role pos)"
  by (induction n arbitrary: ship) (auto simp: Let_def intro!: op_rules)

lemma walkShipmentTo_runs [op_rules]:
  "follows shipments_run (walkShipmentTo E actor ship ord to role pos)"
  "follows orders_run (walkShipmentTo E actor ship ord to role pos)"
  unfolding walkShipmentTo_def by (intro op_rules)+

lemma visits_run [op_rules]:
  "follows shipments_run (ArriveAtStop E actor i inp)" "follows orders_run (ArriveAtStop E actor i inp)"
  "follows shipments_run (StartStop E actor i inp)" "follows orders_run (StartStop E actor i inp)"
  "follows shipments_run (CheckStopCargo E actor i inp)" "follows orders_run (CheckStopCargo E actor i inp)"
  unfolding ArriveAtStop_def StartStop_def CheckStopCargo_def Let_def by (intro op_rules)+

section \<open>The walk\<close>

text \<open>Each step of the walk climbs the chain and stays at or below its target, so twelve are enough.\<close>

lemma NextTowards_none:
  "shipmentChainIndex to \<le> shipmentChainIndex from \<Longrightarrow> NextShipmentStatusTowards from to = []"
  by (simp add: NextShipmentStatusTowards_def Let_def)

lemma walk_ends:
  assumes "walk n E actor ship ord to role pos d = (Inr ship', d')"
    and "shipmentChainIndex to - shipmentChainIndex (sh_StatusCode ship) \<le> int n"
  shows "(sh_StatusCode ship' = to \<or> NextShipmentStatusTowards (sh_StatusCode ship') to = []) \<and>
    shipmentChainIndex (sh_StatusCode ship) \<le> shipmentChainIndex (sh_StatusCode ship') \<and>
    sh_ID ship' = sh_ID ship"
  using assms
proof (induction n arbitrary: ship d)
  case (Suc n)
  let ?nxt = "NextShipmentStatusTowards (sh_StatusCode ship) to"
  show ?case
  proof (cases "sh_StatusCode ship = to \<or> ?nxt = []")
    case True
    with Suc.prems(1) have "ship' = ship" by (auto simp: Let_def split: if_splits)
    with True show ?thesis by auto
  next
    case False
    with Suc.prems(1) obtain moved d1 where
      a: "advance E actor ship ord \<lparr>ai_ShipmentID = sh_ID ship, ai_To = ?nxt, ai_Position = pos, ai_Note = []\<rparr>
        role d = (Inr moved, d1)"
      and w: "walk n E actor moved ord to role pos d1 = (Inr ship', d')"
      by (auto simp: Let_def andThen_Inr)
    from a have m: "moved = ship\<lparr>sh_StatusCode := ?nxt\<rparr>" by (rule advance_Inr) simp
    have c: "shipmentChainIndex (sh_StatusCode ship) < shipmentChainIndex ?nxt"
      using False by (intro towards_step(1) [OF refl]) auto
    with m Suc.prems(2) have "shipmentChainIndex to - shipmentChainIndex (sh_StatusCode moved) \<le> int n"
      by simp
    from Suc.IH [OF w this] m c show ?thesis by simp
  qed
qed (auto simp: NextTowards_none)

lemma chain_nth_index: "0 \<le> shipmentChainIndex s \<Longrightarrow> shipmentChain ! nat (shipmentChainIndex s) = s"
  using chain_index_self [of s shipmentChain 0]
  by (simp add: shipmentChainIndex_nonneg) (simp add: shipmentChainIndex_def)

lemma NextTowards_some:
  assumes "0 \<le> shipmentChainIndex from" and "shipmentChainIndex from < shipmentChainIndex to" and "on_the_flow to"
  shows "NextShipmentStatusTowards from to \<noteq> []"
proof -
  let ?i = "shipmentChainIndex from" and ?j = "shipmentChainIndex to"
  let ?at = "\<lambda>i. shipmentChain ! nat i"
  have "to \<in> set (map ?at [?i + 1 .. ?j])"
    using assms chain_nth_index [of to] by (auto intro: image_eqI [of _ _ ?j])
  then obtain s where s: "find on_the_flow (map ?at [?i + 1 .. ?j]) = Some s"
    using assms(3) find_None_iff [of on_the_flow "map ?at [?i + 1 .. ?j]"]
    by (cases "find on_the_flow (map ?at [?i + 1 .. ?j])") blast+
  then have "s \<in> set (map ?at [?i + 1 .. ?j])" by (auto dest: find_Some_iff_first)
  then obtain k where k: "?i + 1 \<le> k" "k \<le> ?j" "s = ?at k" by auto
  moreover have "nat k < length shipmentChain"
    using k assms(1) chain_index_le [of to] by (simp add: shipmentChain_def)
  ultimately have "s \<in> set shipmentChain" using nth_mem by blast
  then have "s \<noteq> []" by (auto simp: shipmentChain_def)
  with s assms show ?thesis by (auto simp: NextShipmentStatusTowards_def Let_def)
qed

lemma walkShipmentTo_arrives:
  assumes "walkShipmentTo E actor ship ord to role pos d = (Inr ship', d')"
    and "0 \<le> shipmentChainIndex (sh_StatusCode ship)" and "0 \<le> shipmentChainIndex to" and "on_the_flow to"
  shows "ShipmentStatusAtOrPast (sh_StatusCode ship') to"
proof (cases "sh_StatusCode ship = to \<or> ShipmentStatusAtOrPast (sh_StatusCode ship) to")
  case True
  with assms(1,3) show ?thesis by (auto simp: walkShipmentTo_def ShipmentStatusAtOrPast_def Let_def)
next
  case False
  with assms(1) have w: "walk 12 E actor ship ord to role pos d = (Inr ship', d')"
    by (simp add: walkShipmentTo_def)
  have "shipmentChainIndex to - shipmentChainIndex (sh_StatusCode ship) \<le> int 12"
    using assms(2) chain_index_le [of to] by simp
  note e = walk_ends [OF w this]
  have "\<not> shipmentChainIndex (sh_StatusCode ship') < shipmentChainIndex to"
    using e assms(2,4) NextTowards_some [of "sh_StatusCode ship'" to] by auto
  with assms(2,3) e show ?thesis by (simp add: ShipmentStatusAtOrPast_def Let_def)
qed

text \<open>The status never goes back.\<close>

lemma walkShipmentTo_forward:
  assumes "walkShipmentTo E actor ship ord to role pos d = (Inr ship', d')"
    and "0 \<le> shipmentChainIndex (sh_StatusCode ship)"
  shows "shipmentChainIndex (sh_StatusCode ship) \<le> shipmentChainIndex (sh_StatusCode ship')"
proof -
  have "shipmentChainIndex to - shipmentChainIndex (sh_StatusCode ship) \<le> int 12"
    using assms(2) chain_index_le [of to] by simp
  with assms(1) show ?thesis
    by (auto simp: walkShipmentTo_def split: if_splits dest: walk_ends)
qed

section \<open>Who may report, and in which order\<close>

lemma stopForDriver_Inr:
  assumes "stopForDriver E actor i sid d = (Inr (stop, ord), d')"
  shows "d' = d \<and> stops_wired E \<and> \<not> down E StopsListByOrder \<and> st_ID stop = sid \<and>
    stop \<in> set (stops_of (o_ID ord) d) \<and>
    (\<exists>ship\<in>set (db_shipments d). sh_ID ship = i \<and> o_ID ord = sh_OrderID ship \<and> ord \<in> set (db_orders d) \<and>
      (sh_DriverUserID ship = Some (a_UserID actor) \<or> a_StatusBypass actor \<or> a_Role actor = RoleAdmin))"
  using assms by (auto simp: stopForDriver_def andThen_Inr Let_def Shipments_FindByID_def
      Orders_FindByIDForService_def Stops_ListByOrder_def call_Inr split: if_splits option.splits
      dest!: find_Some_iff_first)

lemma first_skipped_None:
  "first_skipped i ss = None \<longleftrightarrow> (\<forall>s\<in>set (takeWhile (\<lambda>s. st_ID s \<noteq> i) ss). passed s)"
  by (induction ss) (auto simp: passed_def)

text \<open>A successful report of arrival, unless the stop had been reached before.\<close>

lemma ArriveAtStop_Inr:
  assumes "ArriveAtStop E actor i inp d = (Inr res, d')"
  obtains (again) stop ord where "stopForDriver E actor i (vi_StopID inp) d = (Inr (stop, ord), d)"
      "st_ArrivedAt stop \<noteq> None" "res = Some stop" "d' = d"
  | (arrived) stop ord where "stopForDriver E actor i (vi_StopID inp) d = (Inr (stop, ord), d)"
      "st_ArrivedAt stop = None" "first_skipped (st_ID stop) (stops_of (o_ID ord) d) = None"
      "\<not> (stopGeofence E stop (vi_Position inp) = Some False \<and> fenceEnforcedFor actor ord)"
      "d' = d\<lparr>db_stops := update_where (\<lambda>r. st_ID r = st_ID stop)
         (arrived_columns E (vi_Position inp) (stopGeofence E stop (vi_Position inp))) (db_stops d)\<rparr>"
proof -
  from assms obtain stop ord d1 where s: "stopForDriver E actor i (vi_StopID inp) d = (Inr (stop, ord), d1)"
    and rest: "(if st_ArrivedAt stop \<noteq> None then ok (Some stop)
       else andThen (assertStopIsNext E (o_ID ord) stop) (\<lambda>_.
         let fence = stopGeofence E stop (vi_Position inp) in
         andThen (refuse (fence = Some False \<and> fenceEnforcedFor actor ord) (not_at (stopLabel stop))) (\<lambda>_.
         andThen (Stops_UpdateFields E (st_ID stop) (arrived_columns E (vi_Position inp) fence)) (\<lambda>_.
         reloadStop E (o_ID ord) (st_ID stop))))) d1 = (Inr res, d')"
    by (auto simp: ArriveAtStop_def andThen_Inr)
  from stopForDriver_Inr [OF s] have "d1 = d" and up: "\<not> down E StopsListByOrder" by simp_all
  show thesis
  proof (cases "st_ArrivedAt stop = None")
    case False
    with s rest \<open>d1 = d\<close> show thesis by (intro again) auto
  next
    case True
    with rest \<open>d1 = d\<close> obtain d2 d3 where n: "assertStopIsNext E (o_ID ord) stop d = (Inr (), d2)"
      and g: "\<not> (stopGeofence E stop (vi_Position inp) = Some False \<and> fenceEnforcedFor actor ord)"
      and u: "Stops_UpdateFields E (st_ID stop) (arrived_columns E (vi_Position inp)
        (stopGeofence E stop (vi_Position inp))) d2 = (Inr (), d3)"
      and r: "reloadStop E (o_ID ord) (st_ID stop) d3 = (Inr res, d')"
      by (auto simp: andThen_Inr Let_def)
    have "d2 = d" "d' = d3" using readonlyD [OF readonly_visits(2) n] readonlyD [OF readonly_visits(3) r] by auto
    moreover have "first_skipped (st_ID stop) (stops_of (o_ID ord) d) = None"
      using n up by (auto simp: assertStopIsNext_def andThen_Inr Stops_ListByOrder_def call_def
          split: option.splits)
    ultimately show thesis using s \<open>d1 = d\<close> True g u
      by (intro arrived [of stop ord]) (auto simp: Stops_UpdateFields_def call_Inr)
  qed
qed

text \<open>Arriving where every earlier stop was passed keeps the journey in order.\<close>

lemma in_order_arrive:
  assumes "in_order ss" and "distinct (map st_ID ss)" and "first_skipped i ss = None"
    and "\<And>r. passed (f r)" and "\<And>r. passed r \<Longrightarrow> passed (f r)"
  shows "in_order (update_where (\<lambda>r. st_ID r = i) f ss)"
  using assms(1,2,3)
proof (induction ss)
  case (Cons s ss)
  show ?case
  proof (cases "st_ID s = i")
    case True
    with Cons.prems(2) have "update_where (\<lambda>r. st_ID r = i) f ss = ss"
      by (intro update_where_none) (auto simp: image_iff)
    with True Cons.prems(1) assms(4) show ?thesis by simp
  next
    case False
    with Cons.prems(3) have "passed s" "first_skipped i ss = None"
      by (auto simp: passed_def split: if_splits)
    with False Cons show ?thesis by simp
  qed
qed simp

lemma arrived_columns_fields [simp]:
  "st_ID (arrived_columns E pos g r) = st_ID r" "st_OrderID (arrived_columns E pos g r) = st_OrderID r"
  "st_Seq (arrived_columns E pos g r) = st_Seq r" "passed (arrived_columns E pos g r)"
  "st_ArrivedAt (arrived_columns E pos g r) = Some (now E)"
  "st_StartedAt (arrived_columns E pos g r) = st_StartedAt r"
  "st_FinishedAt (arrived_columns E pos g r) = st_FinishedAt r"
  by (simp_all add: arrived_columns_def Let_def passed_def split: option.splits)

lemma clean_ArriveAtStop:
  assumes "ArriveAtStop E actor i inp d = (Inl e, d')"
  shows "d' = d"
proof -
  show ?thesis
  proof (cases "down E StopsListByOrder")
    case True
    with assms show ?thesis
      by (auto simp: ArriveAtStop_def andThen_Inl dest: stopForDriver_Inr readonlyD [OF readonly_visits(1)])
  next
    case False
    then have "reloadStop E oid sid d1 = (Inr (find (\<lambda>s. st_ID s = sid) (stops_of oid d1)), d1)" for oid sid d1
      by (simp add: reloadStop_def andThen_def Stops_ListByOrder_def call_def query_def ok_def)
    then show ?thesis using assms
      by (auto simp: ArriveAtStop_def andThen_Inl Let_def split: if_splits
          dest!: readonlyD [OF readonly_visits(1)] readonlyD [OF readonly_visits(2)] cleanD [OF clean_writes(8)])
  qed
qed

lemma ArriveAtStop_in_order:
  assumes "ArriveAtStop E actor i inp d = (r, d')" and "well_keyed d" and "journeys_in_order d"
  shows "journeys_in_order d'"
proof (cases r)
  case (Inl e)
  with assms clean_ArriveAtStop show ?thesis by blast
next
  case (Inr res)
  from assms(1) [unfolded Inr] show ?thesis
  proof (cases rule: ArriveAtStop_Inr)
    case (arrived stop ord)
    let ?f = "arrived_columns E (vi_Position inp) (stopGeofence E stop (vi_Position inp))"
    have u: "stops_of j d' = update_where (\<lambda>r. st_ID r = st_ID stop) ?f (stops_of j d)" for j
      unfolding arrived(5) by (rule stops_of_update) simp_all
    have o: "in_order (stops_of j d)" "distinct (map st_ID (stops_of j d))" for j
      using assms(2,3) by (simp_all add: journeys_in_order_def distinct_stops_of)
    have stop: "stop \<in> set (stops_of (o_ID ord) d)" using stopForDriver_Inr [OF arrived(1)] by simp
    have "in_order (stops_of j d')" for j
    proof (cases "j = o_ID ord")
      case True
      then show ?thesis unfolding u using o arrived(3) by (intro in_order_arrive) simp_all
    next
      case False
      have "st_ID r \<noteq> st_ID stop" if "r \<in> set (stops_of j d)" for r
      proof
        assume "st_ID r = st_ID stop"
        moreover have "inj_on st_ID (set (db_stops d))" using assms(2) by (simp add: well_keyed_def distinct_map)
        ultimately have "r = stop" using that stop by (auto simp: stops_of_subset dest: inj_onD)
        with that stop False show False by (auto simp: stops_of_subset)
      qed
      then have "stops_of j d' = stops_of j d" unfolding u by (intro update_where_none)
      with o show ?thesis by simp
    qed
    then show ?thesis by (simp add: journeys_in_order_def)
  qed (use assms in simp)
qed

lemma walk_rules [op_rules]:
  "preserves well_keyed (walk n E actor ship ord to role pos)"
  "preserves one_live (walk n E actor ship ord to role pos)"
  "preserves journeys_in_order (walk n E actor ship ord to role pos)"
  by (induction n arbitrary: ship) (auto simp: Let_def intro!: op_rules)

lemma walkShipmentTo_rules [op_rules]:
  "preserves well_keyed (walkShipmentTo E actor ship ord to role pos)"
  "preserves one_live (walkShipmentTo E actor ship ord to role pos)"
  "preserves journeys_in_order (walkShipmentTo E actor ship ord to role pos)"
  unfolding walkShipmentTo_def by (intro op_rules)+

lemma visits_rules [op_rules]:
  "preserves well_keyed (ArriveAtStop E actor i inp)" "preserves one_live (ArriveAtStop E actor i inp)"
  "preserves well_keyed (StartStop E actor i inp)" "preserves one_live (StartStop E actor i inp)"
  "preserves well_keyed (CheckStopCargo E actor i inp)" "preserves one_live (CheckStopCargo E actor i inp)"
proof -
  have u: "preserves well_keyed (Stops_UpdateFields E j (\<lambda>s. s\<lparr>st_StartedAt := t\<rparr>))"
    "preserves well_keyed (Stops_UpdateFields E j (arrived_columns E pos g))"
    "preserves well_keyed (Stops_UpdateFields E j (\<lambda>s. s\<lparr>st_CargoMatches := a, st_CargoNote := b, st_CargoCheckedAt := c\<rparr>))"
    for j t pos g a b c by (rule well_keyed_stop_update; simp)+
  show "preserves well_keyed (ArriveAtStop E actor i inp)" "preserves one_live (ArriveAtStop E actor i inp)"
    "preserves well_keyed (StartStop E actor i inp)" "preserves one_live (StartStop E actor i inp)"
    "preserves well_keyed (CheckStopCargo E actor i inp)" "preserves one_live (CheckStopCargo E actor i inp)"
    unfolding ArriveAtStop_def StartStop_def CheckStopCargo_def Let_def by (intro op_rules u)+
qed

lemma started_in_order [op_rules]:
  "preserves journeys_in_order (StartStop E actor i inp)"
  "preserves journeys_in_order (CheckStopCargo E actor i inp)"
proof -
  have u: "preserves journeys_in_order (Stops_UpdateFields E j (\<lambda>s. s\<lparr>st_StartedAt := t\<rparr>))"
    "preserves journeys_in_order (Stops_UpdateFields E j (\<lambda>s. s\<lparr>st_CargoMatches := a, st_CargoNote := b, st_CargoCheckedAt := c\<rparr>))"
    for j t a b c by (rule journeys_stop_update; simp add: passed_def)+
  show "preserves journeys_in_order (StartStop E actor i inp)"
    "preserves journeys_in_order (CheckStopCargo E actor i inp)"
    unfolding StartStop_def CheckStopCargo_def Let_def by (intro op_rules u)+
qed

section \<open>Starting work\<close>

text \<open>Which handover answers for an unloading point: its own, or for the first one the delivery's.\<close>

definition handed_over :: "db \<Rightarrow> uuid \<Rightarrow> uuid \<Rightarrow> order_stop \<Rightarrow> bool" where
  "handed_over d shipmentID orderID stop \<longleftrightarrow>
     fst (IsVerified d shipmentID ''unloading'' (Some (st_ID stop))) \<or>
     ((case find (\<lambda>s. st_Kind s = StopUnload) (stops_of orderID d) of
         Some s \<Rightarrow> st_ID s = st_ID stop | None \<Rightarrow> False) \<and>
      fst (IsVerified d shipmentID ''unloading'' None))"

lemma assertHandoverVerified_Inr:
  "assertHandoverVerified E i sid d = (Inr u, d') \<Longrightarrow> handovers_wired E \<Longrightarrow>
     fst (IsVerified d i ''unloading'' sid)"
  by (auto simp: assertHandoverVerified_def andThen_Inr Handovers_IsVerified_def call_Inr split: prod.splits)

lemma assertStopHandover_Inr:
  assumes "assertStopHandover E i oid stop d = (Inr (), d')" and "handovers_wired E"
  shows "handed_over d i oid stop"
proof -
  from assms(1) obtain r d1 where own: "assertHandoverVerified E i (Some (st_ID stop)) d = (r, d1)"
    and rest: "(case r of Inr _ \<Rightarrow> ok ()
       | Inl _ \<Rightarrow> andThen (isFirstUnloadStop E oid stop) (\<lambda>first.
           if first then assertHandoverVerified E i None
           else assertHandoverVerified E i (Some (st_ID stop)))) d1 = (Inr (), d')"
    by (auto simp: assertStopHandover_def andThen_Inr)
  have "d1 = d" using readonlyD [OF readonly_gates(3) own] .
  show ?thesis
  proof (cases r)
    case (Inr u)
    with own assms(2) show ?thesis by (auto simp: handed_over_def dest: assertHandoverVerified_Inr)
  next
    case (Inl e)
    with rest \<open>d1 = d\<close> obtain first d2 where f: "isFirstUnloadStop E oid stop d = (Inr first, d2)"
      and v: "(if first then assertHandoverVerified E i None
           else assertHandoverVerified E i (Some (st_ID stop))) d2 = (Inr (), d')"
      by (auto simp: andThen_Inr)
    have "d2 = d" using readonlyD [OF readonly_visits(4) f] .
    moreover have "first \<Longrightarrow> (case find (\<lambda>s. st_Kind s = StopUnload) (stops_of oid d) of
         Some s \<Rightarrow> st_ID s = st_ID stop | None \<Rightarrow> False)"
      using f by (auto simp: isFirstUnloadStop_def andThen_Inr Stops_ListByOrder_def call_def
          split: if_splits)
    ultimately show ?thesis
      using v assms(2) by (cases first) (auto simp: handed_over_def dest: assertHandoverVerified_Inr)
  qed
qed

lemma StartStop_Inr:
  assumes "StartStop E actor i inp d = (Inr res, d')"
  shows "\<exists>stop ord. stopForDriver E actor i (vi_StopID inp) d = (Inr (stop, ord), d) \<and>
    st_ArrivedAt stop \<noteq> None \<and>
    (st_StartedAt stop \<noteq> None \<and> d' = d \<or>
     st_StartedAt stop = None \<and>
     (st_Kind stop = StopUnload \<and> a_Role actor = RoleDriver \<and> \<not> a_StatusBypass actor \<and> handovers_wired E \<longrightarrow>
        handed_over d i (o_ID ord) stop) \<and>
     (fenceEnforcedFor actor ord \<longrightarrow> vi_Position inp \<noteq> None \<and>
        stopGeofence E stop (vi_Position inp) \<noteq> Some False) \<and>
     db_stops d' = update_where (\<lambda>r. st_ID r = st_ID stop) (\<lambda>s. s\<lparr>st_StartedAt := Some (now E)\<rparr>) (db_stops d))"
proof -
  let ?upd = "\<lambda>s. s\<lparr>st_StartedAt := Some (now E)\<rparr>"
  define gate where "gate stop ord = (if st_Kind stop = StopUnload \<and> \<not> a_StatusBypass actor \<and> a_Role actor = RoleDriver
                     then assertStopHandover E i (o_ID ord) stop else ok ())" for stop :: order_stop and ord :: order
  define fence where "fence stop ord = (if fenceEnforcedFor actor ord then
       (if vi_Position inp = None
        then fail (not_at (stopLabel stop @ '' - aktifkan GPS lalu coba lagi''))
        else refuse (stopGeofence E stop (vi_Position inp) = Some False) (not_at (stopLabel stop)))
     else (ok () :: (db, unit) op))" for stop :: order_stop and ord :: order
  define rest where "rest stop ord = andThen (attempt (Shipments_FindByID E i)) (\<lambda>r.
         andThen (case r of Inl _ \<Rightarrow> ok ()
                  | Inr current \<Rightarrow> andThen (attempt (walkShipmentTo E actor current ord
                      (shipmentStatusForStop stop) (machineRole actor (Some ord)) (vi_Position inp))) (\<lambda>_. ok ())) (\<lambda>_.
         reloadStop E (o_ID ord) (st_ID stop)))" for stop :: order_stop and ord :: order
  have eq: "StartStop E actor i inp = andThen (stopForDriver E actor i (vi_StopID inp)) (\<lambda>(stop, ord).
       if st_ArrivedAt stop = None
       then fail (Err ErrValidation (''laporkan tiba di '' @ stopLabel stop @ '' dulu sebelum memulai''))
       else if st_StartedAt stop \<noteq> None then ok (Some stop)
       else andThen (gate stop ord) (\<lambda>_. andThen (fence stop ord) (\<lambda>_.
         andThen (Stops_UpdateFields E (st_ID stop) ?upd) (\<lambda>_. rest stop ord))))"
    unfolding gate_def fence_def rest_def StartStop_def by (rule refl)
  from assms obtain stop ord d0 where s: "stopForDriver E actor i (vi_StopID inp) d = (Inr (stop, ord), d0)"
    and arr: "st_ArrivedAt stop \<noteq> None"
    and run: "(if st_StartedAt stop \<noteq> None then ok (Some stop)
       else andThen (gate stop ord) (\<lambda>_. andThen (fence stop ord) (\<lambda>_.
         andThen (Stops_UpdateFields E (st_ID stop) ?upd) (\<lambda>_. rest stop ord)))) d0 = (Inr res, d')"
    unfolding eq by (auto simp: andThen_Inr split: if_splits)
  have "d0 = d" using stopForDriver_Inr [OF s] by simp
  show ?thesis
  proof (cases "st_StartedAt stop = None")
    case False
    with s arr run \<open>d0 = d\<close> show ?thesis by auto
  next
    case True
    with run \<open>d0 = d\<close> obtain d1 d2 d3 where g: "gate stop ord d = (Inr (), d1)" and f: "fence stop ord d1 = (Inr (), d2)"
      and u: "Stops_UpdateFields E (st_ID stop) ?upd d2 = (Inr (), d3)" and r: "rest stop ord d3 = (Inr res, d')"
      by (auto simp: andThen_Inr)
    have "readonly (gate stop ord)" "readonly (fence stop ord)"
      unfolding gate_def fence_def by (intro op_rules)+
    with g f have "d1 = d" "d2 = d" by (auto dest: readonlyD)
    have "keeps db_stops (advance E actor ship ord' inp' role)" for ship ord' inp' role
      by (auto simp: keeps_def dest!: advance_frame)
        (metis advance_frame prod.collapse)
    then have "keeps db_stops (walk n E actor ship ord' to role pos)" for n ship ord' to role pos
      by (induction n arbitrary: ship) (auto simp: Let_def intro!: op_rules)
    then have "keeps db_stops (rest stop ord)"
      unfolding rest_def walkShipmentTo_def by (intro op_rules)
    with r have "db_stops d' = db_stops d3" by (rule keepsD [rotated])
    with u \<open>d2 = d\<close> have "db_stops d' = update_where (\<lambda>r. st_ID r = st_ID stop) ?upd (db_stops d)"
      by (auto simp: Stops_UpdateFields_def call_Inr)
    moreover have "fenceEnforcedFor actor ord \<Longrightarrow> vi_Position inp \<noteq> None \<and>
        stopGeofence E stop (vi_Position inp) \<noteq> Some False"
      using f by (auto simp: fence_def split: if_splits)
    moreover have "st_Kind stop = StopUnload \<Longrightarrow> a_Role actor = RoleDriver \<Longrightarrow> \<not> a_StatusBypass actor \<Longrightarrow>
        handovers_wired E \<Longrightarrow> handed_over d i (o_ID ord) stop"
      using g assertStopHandover_Inr by (auto simp: gate_def)
    ultimately show ?thesis using s arr True \<open>d0 = d\<close> by blast
  qed
qed

section \<open>Visits stay on record\<close>

lemmas visit_records [op_rules] = readonly_visits [THEN records.follows_readonly]

lemma walk_records [op_rules]:
  "follows records_kept (walk n E actor ship ord to role pos)"
  "follows records_kept (walkShipmentTo E actor ship ord to role pos)"
proof -
  show "follows records_kept (walk n E actor ship ord to role pos)" for n
    by (induction n arbitrary: ship) (auto simp: Let_def intro!: op_rules)
  then show "follows records_kept (walkShipmentTo E actor ship ord to role pos)"
    unfolding walkShipmentTo_def by (intro op_rules)
qed

lemma CheckStopCargo_records [op_rules]: "follows records_kept (CheckStopCargo E actor i inp)"
  unfolding CheckStopCargo_def by (intro op_rules records_stop_plain) simp_all

text \<open>The stop that was read is the row that is written.\<close>

lemma read_row:
  assumes "stopForDriver E actor i sid d = (Inr (stop, ord), d')" and "well_keyed d"
    and "r \<in> set (db_stops d)" and "st_ID r = st_ID stop"
  shows "r = stop"
proof -
  have "stop \<in> set (db_stops d)" using stopForDriver_Inr [OF assms(1)] by (auto simp: stops_of_subset)
  moreover have "inj_on st_ID (set (db_stops d))" using assms(2) by (simp add: well_keyed_def distinct_map)
  ultimately show ?thesis using assms(3,4) by (auto dest: inj_onD)
qed

lemma records_from_keyed: "(well_keyed d \<Longrightarrow> leads records_kept m d) \<Longrightarrow> leads records_kept m d"
  by (auto simp: leads_def records_kept_def)

lemma ArriveAtStop_records [op_rules]: "follows records_kept (ArriveAtStop E actor i inp)"
proof (rule follows_leads, rule records_from_keyed)
  fix d assume wk: "well_keyed d"
  have upd: "leads records_kept (Stops_UpdateFields E (st_ID stop) (arrived_columns E pos g)) d"
    if "stopForDriver E actor i (vi_StopID inp) d = (Inr (stop, ord), d)" "st_ArrivedAt stop = None"
    for stop ord pos g
    using read_row [OF that(1) wk] that(2) by (intro records_stop_write) auto
  show "leads records_kept (ArriveAtStop E actor i inp) d"
    unfolding ArriveAtStop_def Let_def
  proof (rule records.leads_read, goal_cases)
    case 1
    then show ?case by (intro op_rules)
  next
    case (2 x)
    then obtain stop ord where x: "x = (stop, ord)" "stopForDriver E actor i (vi_StopID inp) d = (Inr (stop, ord), d)"
      by (cases x) auto
    show ?case unfolding x prod.case
      by (rule leads_choice(2), intro records.leads_follows op_rules,
          rule records.leads_read, intro op_rules, rule records.leads_read, intro op_rules,
          rule records.leads_write, rule upd [OF x(2)], simp, intro op_rules)
  qed
qed

lemma StartStop_records [op_rules]: "follows records_kept (StartStop E actor i inp)"
proof (rule follows_leads, rule records_from_keyed)
  fix d assume wk: "well_keyed d"
  have upd: "leads records_kept (Stops_UpdateFields E (st_ID stop) (\<lambda>s. s\<lparr>st_StartedAt := Some (now E)\<rparr>)) d"
    if "stopForDriver E actor i (vi_StopID inp) d = (Inr (stop, ord), d)" "st_StartedAt stop = None"
    for stop ord
    using read_row [OF that(1) wk] that(2) by (intro records_stop_write) auto
  show "leads records_kept (StartStop E actor i inp) d"
    unfolding StartStop_def Let_def
  proof (rule records.leads_read, goal_cases)
    case 1
    then show ?case by (intro op_rules)
  next
    case (2 x)
    then obtain stop ord where x: "x = (stop, ord)" "stopForDriver E actor i (vi_StopID inp) d = (Inr (stop, ord), d)"
      by (cases x) auto
    show ?case unfolding x prod.case
      by (rule leads_choice(2), intro records.leads_follows op_rules,
          rule leads_choice(2), intro records.leads_follows op_rules,
          rule records.leads_read, intro op_rules, rule records.leads_read, intro op_rules,
          rule records.leads_write, rule upd [OF x(2)], simp, intro op_rules)
  qed
qed

end
