(* ===== verification/Pod.thy ===== *)
theory Pod
  imports Visits
begin

text \<open>
  internal/services/pod_service.go: the driver files photos for a stage, somebody on either side of
  the order reviews them, and an approval closes the visit and, when no visit of its kind is left,
  walks the shipment past the stage.
\<close>

section \<open>The operations\<close>

record submit_input =
  si_Stage :: string
  si_Photos :: "(string \<times> string) list"
  si_Note :: string
  si_StopID :: string

definition podDocTypes :: "string list" where
  "podDocTypes = [''suratJalan'', ''muatan'', ''pendukung'']"

definition load :: "env \<Rightarrow> actor \<Rightarrow> uuid \<Rightarrow> (db, shipment \<times> order) op" where
  "load E actor shipmentID =
     andThen (Shipments_FindByID E shipmentID) (\<lambda>ship.
     andThen (rewrap not_yours (Orders_FindByID E (a_CompanyID actor) (sh_OrderID ship))) (\<lambda>ord.
     ok (ship, ord)))"

definition assertMayReview :: "actor \<Rightarrow> order \<Rightarrow> unit result" where
  "assertMayReview actor ord =
     (if is_admin actor \<or> a_StatusBypass actor then Inr ()
      else if a_Role actor = RoleDriver
      then Inl (Err ErrForbidden ''a driver cannot review their own POD'')
      else if \<not> InvolvesCompany ord (a_CompanyID actor)
      then Inl (Err ErrForbidden ''your company is not a party to this order'')
      else Inr ())"

definition reviewers :: "order \<Rightarrow> audience" where
  "reviewers ord = (case o_TransporterCompanyID ord of
     Some c \<Rightarrow> ToCompanyRoles c [RoleTransporter, RoleManager, RoleAdmin]
   | None \<Rightarrow> ToCompanyRoles (o_ShipperCompanyID ord) [RoleShipper, RoleWarehousePic, RoleAdmin])"

definition driverOf :: "shipment \<Rightarrow> audience option" where
  "driverOf ship = (case sh_DriverUserID ship of None \<Rightarrow> None | Some u \<Rightarrow> Some (ToUsers [u]))"

definition pod_event_type :: "string \<Rightarrow> string" where
  "pod_event_type kind =
     (if kind = ''podSubmitted'' then ''POD_SUBMITTED''
      else if kind = ''podApproved'' then ''POD_APPROVED''
      else if kind = ''podRejected'' then ''POD_REJECTED'' else ''UNSPECIFIED'')"

definition notifyPod :: "env \<Rightarrow> actor \<Rightarrow> order \<Rightarrow> string \<Rightarrow> string \<Rightarrow> audience option \<Rightarrow> (db, unit) op" where
  "notifyPod E actor ord kind stage audience =
     (case audience of
        None \<Rightarrow> ok ()
      | Some a \<Rightarrow> notify
          \<lparr>ev_Type = pod_event_type kind, ev_SubjectID = o_ID ord, ev_SubjectType = ''order'',
           ev_Audience = a, ev_ActorID = Some (a_UserID actor),
           ev_Key = [KeyText ''pod'', KeyID (o_ID ord), KeyText stage, KeyText kind,
             KeyTime (now E div 1000000000)]\<rparr>)"

definition kind_of_stage :: "string \<Rightarrow> string" where
  "kind_of_stage stage = (if stage = ''loading'' then StopLoad else StopUnload)"

definition resolveStop :: "env \<Rightarrow> uuid \<Rightarrow> submit_input \<Rightarrow> (db, uuid option) op" where
  "resolveStop E orderID inp =
     (if \<not> stops_wired E then ok None
      else case (if si_StopID inp \<noteq> [] then parse_uuid E (si_StopID inp) else None) of
        Some i \<Rightarrow> ok (Some i)
      | None \<Rightarrow> andThen (attempt (Stops_ListByOrder E orderID)) (\<lambda>r.
          case r of Inl _ \<Rightarrow> ok None
          | Inr stops \<Rightarrow> ok (map_option st_ID
              (find (\<lambda>s. st_Kind s = kind_of_stage (si_Stage inp) \<and> st_FinishedAt s = None) stops))))"

definition stopByID :: "env \<Rightarrow> uuid \<Rightarrow> uuid option \<Rightarrow> (db, order_stop option) op" where
  "stopByID E orderID stopID =
     (case stopID of
        None \<Rightarrow> ok None
      | Some i \<Rightarrow>
          if \<not> stops_wired E then ok None
          else andThen (attempt (Stops_ListByOrder E orderID)) (\<lambda>r.
            case r of Inl _ \<Rightarrow> ok None
            | Inr stops \<Rightarrow> ok (if length stops \<le> 2 then None else find (\<lambda>s. st_ID s = i) stops)))"

definition isFirstStopOfKind :: "env \<Rightarrow> uuid \<Rightarrow> order_stop \<Rightarrow> (db, bool) op" where
  "isFirstStopOfKind E orderID stop =
     (if \<not> stops_wired E then ok False
      else andThen (attempt (Stops_ListByOrder E orderID)) (\<lambda>r.
        case r of Inl _ \<Rightarrow> ok False
        | Inr stops \<Rightarrow> ok (case find (\<lambda>s. st_Kind s = st_Kind stop) stops of
              Some s \<Rightarrow> st_ID s = st_ID stop | None \<Rightarrow> False)))"

text \<open>The loop over the photos: the first one that is not acceptable decides.\<close>

fun check_photos :: "(string \<times> string) list \<Rightarrow> error option" where
  "check_photos [] = None"
| "check_photos ((docType, fileUrl) # ps) =
     (if docType \<notin> set podDocTypes
      then Some (Err ErrValidation ''docType must be suratJalan, muatan or pendukung'')
      else if trim_space fileUrl = [] then Some (Err ErrValidation ''every photo needs a fileUrl'')
      else check_photos ps)"

text \<open>
  The gate of a submission: the stop being worked, where the journey has more than its two ends and
  the visit is recorded on the stop; the shipment's own status otherwise. The value is when the
  cargo was checked.
\<close>

definition submission_gate ::
  "shipment \<Rightarrow> string \<Rightarrow> string \<Rightarrow> time option \<Rightarrow> order_stop option \<Rightarrow> bool \<Rightarrow> time option result" where
  "submission_gate ship stage wantStatus checked stop stopDriven =
     (case stop of
        Some s \<Rightarrow>
          if stopDriven then
            (if st_StartedAt s = None
             then Inl (Err ErrValidation (''mulai proses di '' @ stopLabel s @ '' dulu sebelum mengirim POD''))
             else if st_FinishedAt s \<noteq> None then Inl (Err ErrTransition (stopLabel s @ '' sudah selesai''))
             else Inr (st_CargoCheckedAt s))
          else if sh_StatusCode ship \<noteq> wantStatus
          then Inl (Err ErrTransition (''the '' @ stage @ '' POD is submitted while the shipment is '' @ wantStatus))
          else Inr checked
      | None \<Rightarrow>
          if sh_StatusCode ship \<noteq> wantStatus
          then Inl (Err ErrTransition (''the '' @ stage @ '' POD is submitted while the shipment is '' @ wantStatus))
          else Inr checked)"

definition stage_gate :: "shipment \<Rightarrow> string \<Rightarrow> (string \<times> time option) result" where
  "stage_gate ship stage =
     (if stage = ''loading'' then Inr (ShipmentLoading, sh_LoadingCargoCheckedAt ship)
      else if stage = ''unloading'' then Inr (ShipmentUnloading, sh_UnloadingCargoCheckedAt ship)
      else Inl (Err ErrValidation ''stage must be loading or unloading''))"

definition stop_driven :: "env \<Rightarrow> uuid \<Rightarrow> order_stop option \<Rightarrow> (db, bool) op" where
  "stop_driven E orderID stop =
     (case stop of
        None \<Rightarrow> ok False
      | Some s \<Rightarrow> andThen (isFirstStopOfKind E orderID s) (\<lambda>first.
          ok (\<not> first \<or> st_StartedAt s \<noteq> None)))"

definition Submit :: "env \<Rightarrow> actor \<Rightarrow> uuid \<Rightarrow> submit_input \<Rightarrow> (db, shipment_pod) op" where
  "Submit E actor shipmentID inp =
     andThen (load E actor shipmentID) (\<lambda>(ship, ord).
     andThen (from_result (assertActorMayAdvance actor ship ord)) (\<lambda>_.
     andThen (from_result (stage_gate ship (si_Stage inp))) (\<lambda>(wantStatus, checked).
     andThen (resolveStop E (o_ID ord) inp) (\<lambda>stopID.
     andThen (stopByID E (o_ID ord) stopID) (\<lambda>stop.
     andThen (stop_driven E (o_ID ord) stop) (\<lambda>stopDriven.
     andThen (from_result (submission_gate ship (si_Stage inp) wantStatus checked stop stopDriven)) (\<lambda>checked.
     andThen (refuse (checked = None \<and> (si_Stage inp = ''loading'' \<or> WebFieldEnabled E))
       (if si_Stage inp = ''loading''
        then Err ErrValidation ''confirm whether the cargo matches the order before submitting the POD''
        else Err ErrValidation ''the receiving PIC has not verified the cargo yet'')) (\<lambda>_.
     andThen (refuse (si_Photos inp = []) (Err ErrValidation ''at least one photo is required'')) (\<lambda>_.
     andThen (case check_photos (si_Photos inp) of Some e \<Rightarrow> fail e | None \<Rightarrow> ok ()) (\<lambda>_.
     andThen (Pods_HasApproved E shipmentID (si_Stage inp) stopID) (\<lambda>approved.
     andThen (refuse approved (Err ErrTransition (''the '' @ si_Stage inp @ '' POD is already approved''))) (\<lambda>_.
     andThen (Pods_Submit E
       \<lparr>pd_ID = uuid_Nil, pd_ShipmentID = shipmentID, pd_Stage = si_Stage inp, pd_Photos = si_Photos inp,
        pd_Note = (let n = trim_space (si_Note inp) in if n = [] then None else Some n),
        pd_Status = PodSubmitted, pd_RejectionReason = None, pd_StopID = stopID,
        pd_SubmittedByUserID = Some (a_UserID actor), pd_SubmittedAt = now E,
        pd_ReviewedByUserID = None, pd_ReviewedAt = None\<rparr>) (\<lambda>pod.
     andThen (notifyPod E actor ord ''podSubmitted'' (si_Stage inp) (Some (reviewers ord))) (\<lambda>_.
     ok pod))))))))))))))"

definition List_pods :: "env \<Rightarrow> actor \<Rightarrow> uuid \<Rightarrow> (db, shipment_pod list) op" where
  "List_pods E actor shipmentID =
     andThen (load E actor shipmentID) (\<lambda>_. Pods_ListByShipment E shipmentID)"

text \<open>\<open>closeStop\<close>: whether the journey's stops of that kind are now all done, and how many are left.\<close>

definition stops_left :: "shipment_pod \<Rightarrow> uuid \<Rightarrow> order_stop list \<Rightarrow> nat" where
  "stops_left pod stopID stops = length (filter (\<lambda>s. st_Kind s = kind_of_stage (pd_Stage pod) \<and>
     st_FinishedAt s = None \<and> st_ID s \<noteq> stopID) stops)"

definition closeStop :: "env \<Rightarrow> shipment_pod \<Rightarrow> uuid \<Rightarrow> (db, bool \<times> nat) op" where
  "closeStop E pod orderID =
     (case pd_StopID pod of
        None \<Rightarrow> ok (True, 0)
      | Some stopID \<Rightarrow>
          if \<not> stops_wired E then ok (True, 0)
          else andThen (Stops_UpdateFields E stopID
                 (\<lambda>s. s\<lparr>st_FinishedAt := Some (now E), st_PodID := Some (pd_ID pod)\<rparr>)) (\<lambda>_.
               andThen (attempt (Stops_ListByOrder E orderID)) (\<lambda>r.
               case r of Inl _ \<Rightarrow> ok (True, 0)
               | Inr stops \<Rightarrow> ok (stops_left pod stopID stops = 0, stops_left pod stopID stops))))"

record review_input =
  ri_Approved :: bool
  ri_Reason :: string

fun walk_steps :: "env \<Rightarrow> actor \<Rightarrow> order \<Rightarrow> string list \<Rightarrow> shipment \<Rightarrow> (db, shipment) op" where
  "walk_steps E actor ord [] ship = ok ship"
| "walk_steps E actor ord (to # steps) ship =
     andThen (walkShipmentTo E actor ship ord to RoleSystem None) (\<lambda>nxt. walk_steps E actor ord steps nxt)"

definition approval_steps :: "string \<Rightarrow> string list" where
  "approval_steps stage =
     (if stage = ''unloading'' then [ShipmentUnloaded, ShipmentFinished]
      else [ShipmentLoaded, ShipmentToUnloading])"

definition Review :: "env \<Rightarrow> actor \<Rightarrow> uuid \<Rightarrow> uuid \<Rightarrow> review_input \<Rightarrow> (db, shipment_pod) op" where
  "Review E actor shipmentID podID inp =
     andThen (load E actor shipmentID) (\<lambda>(ship, ord).
     andThen (from_result (assertMayReview actor ord)) (\<lambda>_.
     andThen (rewrap (Err ErrNotFound ''repository: not found'') (Pods_FindByID E podID)) (\<lambda>pod.
     andThen (refuse (pd_ShipmentID pod \<noteq> shipmentID) (Err ErrNotFound ''repository: not found'')) (\<lambda>_.
     andThen (refuse (pd_Status pod \<noteq> PodSubmitted)
                (Err ErrConflict ''this submission has already been reviewed'')) (\<lambda>_.
     if \<not> ri_Approved inp then
       (let reason = trim_space (ri_Reason inp) in
        andThen (refuse (reason = [])
          (Err ErrValidation ''say why the POD is rejected, so the driver knows what to fix'')) (\<lambda>_.
        andThen (Pods_Review E podID PodRejected (Some reason) (a_UserID actor)) (\<lambda>_.
        andThen (notifyPod E actor ord ''podRejected'' (pd_Stage pod) (driverOf ship)) (\<lambda>_.
        ok (pod\<lparr>pd_Status := PodRejected, pd_RejectionReason := Some reason\<rparr>)))))
     else
       andThen (Pods_Review E podID PodApproved None (a_UserID actor)) (\<lambda>_.
       andThen (closeStop E pod (o_ID ord)) (\<lambda>(done, remaining).
       andThen (if done then walk_steps E actor ord (approval_steps (pd_Stage pod)) ship else ok ship) (\<lambda>ship'.
       andThen (notifyPod E actor ord ''podApproved'' (pd_Stage pod) (driverOf ship')) (\<lambda>_.
       ok (pod\<lparr>pd_Status := PodApproved\<rparr>))))))))))"

definition CargoCheck :: "env \<Rightarrow> actor \<Rightarrow> uuid \<Rightarrow> string \<Rightarrow> bool \<Rightarrow> string \<Rightarrow> (db, shipment) op" where
  "CargoCheck E actor shipmentID stage matches note =
     andThen (load E actor shipmentID) (\<lambda>(ship, ord).
     andThen
       (if stage = ''loading'' then
          andThen (from_result (assertActorMayAdvance actor ship ord)) (\<lambda>_.
          andThen (refuse (\<not> a_StatusBypass actor \<and> a_Role actor = RoleDriver \<and>
                      \<not> ShipmentStatusAtOrPast (sh_StatusCode ship) ShipmentLoading)
            (Err ErrValidation ''mulai muat dulu sebelum menjawab kesesuaian item'')) (\<lambda>_. ok ''app''))
        else if stage = ''unloading'' then
          andThen (refuse (a_Role actor = RoleDriver \<and> \<not> a_StatusBypass actor)
            (Err ErrForbidden ''the receiving PIC verifies the cargo at unloading, not the driver'')) (\<lambda>_.
          andThen (from_result (assertMayReview actor ord)) (\<lambda>_. ok ''console''))
        else ok ''console'') (\<lambda>via.
     andThen (RecordCargoCheck E ship \<lparr>cc_Stage = stage, cc_Matches = matches, cc_Note = note,
                cc_Via = via, cc_By = Some (a_UserID actor)\<rparr>) (\<lambda>_.
     Shipments_FindByID E shipmentID)))"

section \<open>Rules\<close>

lemma readonly_pods [op_rules]:
  "readonly (load E actor i)" "readonly (resolveStop E oid inp)" "readonly (stopByID E oid sid)"
  "readonly (isFirstStopOfKind E oid stop)" "readonly (stop_driven E oid st)"
proof -
  show *: "readonly (isFirstStopOfKind E oid stop)" for oid stop
    unfolding isFirstStopOfKind_def by (intro op_rules)
  show "readonly (load E actor i)" "readonly (resolveStop E oid inp)" "readonly (stopByID E oid sid)"
    "readonly (stop_driven E oid st)"
    unfolding load_def resolveStop_def stopByID_def stop_driven_def by (intro op_rules *)+
qed

lemmas pod_reads [op_rules] = readonly_pods [THEN keeps_readonly]
  readonly_pods [THEN preserves_readonly] readonly_pods [THEN clean_readonly]
  readonly_pods [THEN shipments.follows_readonly] readonly_pods [THEN orders.follows_readonly]

lemma notifyPod_rules [op_rules]:
  "keeps db_orders (notifyPod E actor ord k st a)" "keeps db_shipments (notifyPod E actor ord k st a)"
  "keeps db_stops (notifyPod E actor ord k st a)" "keeps db_pods (notifyPod E actor ord k st a)"
  "keeps db_handovers (notifyPod E actor ord k st a)" "preserves well_keyed (notifyPod E actor ord k st a)"
  "follows shipments_run (notifyPod E actor ord k st a)" "follows orders_run (notifyPod E actor ord k st a)"
  "preserves one_live (notifyPod E actor ord k st a)" "preserves journeys_in_order (notifyPod E actor ord k st a)"
  unfolding notifyPod_def by (intro op_rules)+

lemma closeStop_rules [op_rules]:
  "follows shipments_run (closeStop E pod oid)" "follows orders_run (closeStop E pod oid)"
  "preserves well_keyed (closeStop E pod oid)" "preserves one_live (closeStop E pod oid)"
  "preserves journeys_in_order (closeStop E pod oid)" "keeps db_shipments (closeStop E pod oid)"
  "keeps db_orders (closeStop E pod oid)" "keeps db_pods (closeStop E pod oid)"
proof -
  have u: "preserves well_keyed (Stops_UpdateFields E j (\<lambda>s. s\<lparr>st_FinishedAt := Some t, st_PodID := p\<rparr>))"
    "preserves journeys_in_order (Stops_UpdateFields E j (\<lambda>s. s\<lparr>st_FinishedAt := Some t, st_PodID := p\<rparr>))" for j t p
    by (rule well_keyed_stop_update journeys_stop_update; simp add: passed_def)+
  show "follows shipments_run (closeStop E pod oid)" "follows orders_run (closeStop E pod oid)"
  "preserves well_keyed (closeStop E pod oid)" "preserves one_live (closeStop E pod oid)"
  "preserves journeys_in_order (closeStop E pod oid)" "keeps db_shipments (closeStop E pod oid)"
  "keeps db_orders (closeStop E pod oid)" "keeps db_pods (closeStop E pod oid)"
    unfolding closeStop_def by (intro op_rules u)+
qed

lemma walk_steps_rules [op_rules]:
  "follows shipments_run (walk_steps E actor ord steps ship)" "follows orders_run (walk_steps E actor ord steps ship)"
  "preserves well_keyed (walk_steps E actor ord steps ship)" "preserves one_live (walk_steps E actor ord steps ship)"
  "preserves journeys_in_order (walk_steps E actor ord steps ship)"
  by (induction steps arbitrary: ship) (auto intro!: op_rules)

lemma pod_service_rules [op_rules]:
  "follows shipments_run (Submit E actor i inp)" "follows orders_run (Submit E actor i inp)"
  "preserves well_keyed (Submit E actor i inp)" "preserves one_live (Submit E actor i inp)"
  "preserves journeys_in_order (Submit E actor i inp)"
  unfolding Submit_def by (intro op_rules)+

lemma review_rules [op_rules]:
  "follows shipments_run (Review E actor i p rv)" "follows orders_run (Review E actor i p rv)"
  "preserves well_keyed (Review E actor i p rv)" "preserves one_live (Review E actor i p rv)"
  "preserves journeys_in_order (Review E actor i p rv)"
  unfolding Review_def Let_def by (intro op_rules)+

lemma cargo_check_rules [op_rules]:
  "follows shipments_run (CargoCheck E actor i st m n)" "follows orders_run (CargoCheck E actor i st m n)"
  "preserves well_keyed (CargoCheck E actor i st m n)" "preserves one_live (CargoCheck E actor i st m n)"
  "preserves journeys_in_order (CargoCheck E actor i st m n)"
  unfolding CargoCheck_def by (intro op_rules)+

lemmas pod_records [op_rules] = readonly_pods [THEN records.follows_readonly]

lemma pod_service_records [op_rules]:
  "follows records_kept (closeStop E pod oid)" "follows records_kept (walk_steps E actor ord steps ship)"
  "follows records_kept (Submit E actor i inp)" "follows records_kept (Review E actor i p rv)"
  "follows records_kept (CargoCheck E actor i st m n)"
proof -
  have n: "follows records_kept (notifyPod E actor ord k st a)" for ord k st a
    unfolding notifyPod_def by (intro op_rules)
  show c: "follows records_kept (closeStop E pod oid)" for pod oid
    unfolding closeStop_def by (intro op_rules records_stop_plain) simp_all
  show w: "follows records_kept (walk_steps E actor ord steps ship)" for ord steps ship
    by (induction steps arbitrary: ship) (auto intro!: op_rules)
  show "follows records_kept (Submit E actor i inp)" "follows records_kept (Review E actor i p rv)"
    "follows records_kept (CargoCheck E actor i st m n)"
    unfolding Submit_def Review_def CargoCheck_def Let_def by (intro op_rules n c w)+
qed

section \<open>Submitting\<close>

lemma check_photos_None:
  "check_photos ps = None \<longleftrightarrow> (\<forall>(t, u)\<in>set ps. t \<in> set podDocTypes \<and> trim_space u \<noteq> [])"
  by (induction ps rule: check_photos.induct) auto

lemma stopByID_Inr:
  assumes "stopByID E oid sid d = (Inr (Some stop), d')"
  shows "stop \<in> set (stops_of oid d) \<and> sid = Some (st_ID stop)"
  using assms by (auto simp: stopByID_def andThen_Inr Stops_ListByOrder_def call_def
      split: option.splits if_splits sum.splits dest: find_Some_iff_first [OF sym])

text \<open>The working state of a stage, and the cargo check its submission waits for.\<close>

definition working_state :: "string \<Rightarrow> string" where
  "working_state stage = (if stage = ''loading'' then ShipmentLoading else ShipmentUnloading)"

definition cargo_checked :: "env \<Rightarrow> string \<Rightarrow> time option \<Rightarrow> bool" where
  "cargo_checked E stage t \<longleftrightarrow> (stage = ''loading'' \<or> WebFieldEnabled E \<longrightarrow> t \<noteq> None)"

definition ready_by_shipment :: "env \<Rightarrow> shipment \<Rightarrow> string \<Rightarrow> bool" where
  "ready_by_shipment E ship stage \<longleftrightarrow> sh_StatusCode ship = working_state stage \<and>
     cargo_checked E stage (if stage = ''loading'' then sh_LoadingCargoCheckedAt ship else sh_UnloadingCargoCheckedAt ship)"

definition ready_by_stop :: "env \<Rightarrow> order_stop \<Rightarrow> string \<Rightarrow> bool" where
  "ready_by_stop E stop stage \<longleftrightarrow> st_StartedAt stop \<noteq> None \<and> st_FinishedAt stop = None \<and>
     cargo_checked E stage (st_CargoCheckedAt stop)"

lemma submission_ready:
  assumes "stage_gate ship stage = Inr (want, checked0)"
    and "submission_gate ship stage want checked0 stop driven = Inr checked"
    and "\<not> (checked = None \<and> (stage = ''loading'' \<or> WebFieldEnabled E))"
  shows "stage \<in> {''loading'', ''unloading''} \<and>
    (ready_by_shipment E ship stage \<or> (\<exists>s. stop = Some s \<and> ready_by_stop E s stage))"
  using assms by (auto simp: stage_gate_def submission_gate_def ready_by_shipment_def ready_by_stop_def
      cargo_checked_def working_state_def split: if_splits option.splits)

lemma Submit_Inr:
  assumes "Submit E actor i inp d = (Inr pod, d')"
  obtains ship ord stop where
    "load E actor i d = (Inr (ship, ord), d)" "assertActorMayAdvance actor ship ord = Inr ()"
    "si_Stage inp \<in> {''loading'', ''unloading''}" "si_Photos inp \<noteq> []" "check_photos (si_Photos inp) = None"
    "ready_by_shipment E ship (si_Stage inp) \<or>
       (\<exists>s. stop = Some s \<and> s \<in> set (stops_of (o_ID ord) d) \<and> pd_StopID pod = Some (st_ID s) \<and>
          ready_by_stop E s (si_Stage inp))"
    "\<not> (\<exists>p\<in>set (db_pods d). pd_ShipmentID p = i \<and> pd_Stage p = si_Stage inp \<and> pd_Status p = PodApproved \<and>
        (pd_StopID pod = None \<or> pd_StopID p = pd_StopID pod))"
    "db_pods d' = filter (\<lambda>p. \<not> (pd_ShipmentID p = i \<and> pd_Stage p = si_Stage inp \<and>
        pd_Status p = PodSubmitted)) (db_pods d) @ [pod]"
    "pd_ShipmentID pod = i" "pd_Stage pod = si_Stage inp" "pd_Status pod = PodSubmitted"
    "pd_SubmittedByUserID pod = Some (a_UserID actor)" "stop_exists d (pd_StopID pod)"
proof -
  have photos: "readonly (case check_photos ps of Some e \<Rightarrow> fail e | None \<Rightarrow> (ok () :: (db, unit) op))" for ps
    by (intro op_rules)
  from assms obtain ship ord want checked0 stopID stop driven checked approved d1 where
    l: "load E actor i d = (Inr (ship, ord), d)"
    and m: "assertActorMayAdvance actor ship ord = Inr ()"
    and g: "stage_gate ship (si_Stage inp) = Inr (want, checked0)"
    and st: "stopByID E (o_ID ord) stopID d = (Inr stop, d)"
    and sg: "submission_gate ship (si_Stage inp) want checked0 stop driven = Inr checked"
    and w: "\<not> (checked = None \<and> (si_Stage inp = ''loading'' \<or> WebFieldEnabled E))"
    and ph: "si_Photos inp \<noteq> []" "check_photos (si_Photos inp) = None"
    and ap: "Pods_HasApproved E i (si_Stage inp) stopID d = (Inr approved, d)" "\<not> approved"
    and sub: "Pods_Submit E
       \<lparr>pd_ID = uuid_Nil, pd_ShipmentID = i, pd_Stage = si_Stage inp, pd_Photos = si_Photos inp,
        pd_Note = (let n = trim_space (si_Note inp) in if n = [] then None else Some n),
        pd_Status = PodSubmitted, pd_RejectionReason = None, pd_StopID = stopID,
        pd_SubmittedByUserID = Some (a_UserID actor), pd_SubmittedAt = now E,
        pd_ReviewedByUserID = None, pd_ReviewedAt = None\<rparr> d = (Inr pod, d1)"
    and n: "notifyPod E actor ord ''podSubmitted'' (si_Stage inp) (Some (reviewers ord)) d1 = (Inr (), d')"
    unfolding Submit_def
    by (clarsimp simp: read_Inr readonly_pods readonly_reads readonly_from_result readonly_refuse photos)
       (auto simp: andThen_Inr split: option.splits)
  from n have "db_pods d' = db_pods d1" by (rule keepsD [OF notifyPod_rules(4)])
  with sub have pod: "db_pods d' = filter (\<lambda>p. \<not> (pd_ShipmentID p = i \<and> pd_Stage p = si_Stage inp \<and>
        pd_Status p = PodSubmitted)) (db_pods d) @ [pod]"
    "pd_ShipmentID pod = i" "pd_Stage pod = si_Stage inp" "pd_Status pod = PodSubmitted"
    "pd_SubmittedByUserID pod = Some (a_UserID actor)" "pd_StopID pod = stopID" "stop_exists d stopID"
    by (auto simp: Pods_Submit_def call_Inr Let_def split: if_splits)
  have "\<not> (\<exists>p\<in>set (db_pods d). pd_ShipmentID p = i \<and> pd_Stage p = si_Stage inp \<and> pd_Status p = PodApproved \<and>
        (stopID = None \<or> pd_StopID p = stopID))"
    using ap by (auto simp: Pods_HasApproved_def call_Inr)
  moreover note submission_ready [OF g sg w]
  moreover have "stop = Some s \<Longrightarrow> s \<in> set (stops_of (o_ID ord) d) \<and> stopID = Some (st_ID s)" for s
    using stopByID_Inr st by blast
  ultimately show thesis using l m ph pod by (intro that [of ship ord stop]) auto
qed

section \<open>Reviewing\<close>

lemma Review_Inr:
  assumes "Review E actor i podID inp d = (Inr pod', d')"
  obtains (rejected) ship ord pod d1 where
      "load E actor i d = (Inr (ship, ord), d)" "assertMayReview actor ord = Inr ()"
      "find (\<lambda>p. pd_ID p = podID) (db_pods d) = Some pod" "pd_ShipmentID pod = i" "pd_Status pod = PodSubmitted"
      "\<not> ri_Approved inp" "trim_space (ri_Reason inp) \<noteq> []"
      "Pods_Review E podID PodRejected (Some (trim_space (ri_Reason inp))) (a_UserID actor) d = (Inr (), d1)"
      "notifyPod E actor ord ''podRejected'' (pd_Stage pod) (driverOf ship) d1 = (Inr (), d')"
  | (approved) ship ord pod d1 finished left d2 ship' d3 where
      "load E actor i d = (Inr (ship, ord), d)" "assertMayReview actor ord = Inr ()"
      "find (\<lambda>p. pd_ID p = podID) (db_pods d) = Some pod" "pd_ShipmentID pod = i" "pd_Status pod = PodSubmitted"
      "ri_Approved inp" "Pods_Review E podID PodApproved None (a_UserID actor) d = (Inr (), d1)"
      "closeStop E pod (o_ID ord) d1 = (Inr (finished, left), d2)"
      "(if finished then walk_steps E actor ord (approval_steps (pd_Stage pod)) ship else ok ship) d2 = (Inr ship', d3)"
      "notifyPod E actor ord ''podApproved'' (pd_Stage pod) (driverOf ship') d3 = (Inr (), d')"
proof -
  have ro: "readonly (rewrap e (Pods_FindByID E podID))" for e by (intro op_rules)
  from assms obtain ship ord pod where
    l: "load E actor i d = (Inr (ship, ord), d)" and m: "assertMayReview actor ord = Inr ()"
    and "Pods_FindByID E podID d = (Inr pod, d)"
    and s: "pd_ShipmentID pod = i" "pd_Status pod = PodSubmitted"
    and run: "(if \<not> ri_Approved inp then
       (let reason = trim_space (ri_Reason inp) in
        andThen (refuse (reason = [])
          (Err ErrValidation ''say why the POD is rejected, so the driver knows what to fix'')) (\<lambda>_.
        andThen (Pods_Review E podID PodRejected (Some reason) (a_UserID actor)) (\<lambda>_.
        andThen (notifyPod E actor ord ''podRejected'' (pd_Stage pod) (driverOf ship)) (\<lambda>_.
        ok (pod\<lparr>pd_Status := PodRejected, pd_RejectionReason := Some reason\<rparr>)))))
     else
       andThen (Pods_Review E podID PodApproved None (a_UserID actor)) (\<lambda>_.
       andThen (closeStop E pod (o_ID ord)) (\<lambda>(done, remaining).
       andThen (if done then walk_steps E actor ord (approval_steps (pd_Stage pod)) ship else ok ship) (\<lambda>ship'.
       andThen (notifyPod E actor ord ''podApproved'' (pd_Stage pod) (driverOf ship')) (\<lambda>_.
       ok (pod\<lparr>pd_Status := PodApproved\<rparr>)))))) d = (Inr pod', d')"
    unfolding Review_def
    by (clarsimp simp: read_Inr readonly_pods readonly_reads readonly_from_result readonly_refuse ro)
  then have f: "find (\<lambda>p. pd_ID p = podID) (db_pods d) = Some pod"
    by (auto simp: Pods_FindByID_def call_Inr)
  show thesis
  proof (cases "ri_Approved inp")
    case False
    with run show thesis
      by (auto simp: Let_def andThen_Inr intro: rejected [OF l m f s])
  next
    case True
    with run show thesis
      by (auto simp: andThen_Inr simp del: if_split intro: approved [OF l m f s])
  qed
qed

lemma walk_steps_frame [op_rules]:
  "keeps db_pods (walk_steps E actor ord steps ship)" "keeps db_stops (walk_steps E actor ord steps ship)"
  "keeps db_handovers (walk_steps E actor ord steps ship)"
proof -
  have w: "keeps db_pods (walk n E actor ship ord to role pos)" "keeps db_stops (walk n E actor ship ord to role pos)"
    "keeps db_handovers (walk n E actor ship ord to role pos)" for n ship to role pos
    by (induction n arbitrary: ship) (auto simp: Let_def intro!: op_rules)
  show "keeps db_pods (walk_steps E actor ord steps ship)" "keeps db_stops (walk_steps E actor ord steps ship)"
    "keeps db_handovers (walk_steps E actor ord steps ship)"
    by (induction steps arbitrary: ship) (auto simp: walkShipmentTo_def intro!: op_rules w)
qed

text \<open>A decision is taken once, on a submission that was waiting for one.\<close>

lemma Review_decides:
  assumes "Review E actor i podID inp d = (Inr pod', d')"
  shows "(podID, PodSubmitted) \<in> set (pod_view d)"
    and "pod_view d' = map (\<lambda>(k, st). (k, if k = podID \<and> st = PodSubmitted
      then (if ri_Approved inp then PodApproved else PodRejected) else st)) (pod_view d)"
proof -
  let ?st = "if ri_Approved inp then PodApproved else PodRejected"
  obtain rs d1 where r: "Pods_Review E podID ?st rs (a_UserID actor) d = (Inr (), d1)" and p: "db_pods d' = db_pods d1"
    using assms
  proof (cases rule: Review_Inr)
    case (rejected ship ord pod d1)
    moreover have "db_pods d' = db_pods d1" by (rule keepsD [OF notifyPod_rules(4) rejected(9)])
    ultimately show thesis using that [of _ d1] by simp
  next
    case (approved ship ord pod d1 finished left d2 ship' d3)
    have "keeps db_pods (if finished then walk_steps E actor ord (approval_steps (pd_Stage pod)) ship else ok ship)"
      by (intro op_rules)
    then have "db_pods d3 = db_pods d2" using approved(9) by (rule keepsD)
    moreover have "db_pods d2 = db_pods d1" by (rule keepsD [OF closeStop_rules(8) approved(8)])
    moreover have "db_pods d' = db_pods d3" by (rule keepsD [OF notifyPod_rules(4) approved(10)])
    ultimately show thesis using that [of None d1] approved(6,7) by simp
  qed
  let ?c = "\<lparr>pr_PodID = podID, pr_Status = ?st, pr_Reason = rs, pr_By = a_UserID actor\<rparr>"
  show "(podID, PodSubmitted) \<in> set (pod_view d)"
    using pod_cas.matched [of E ?c d "()" d1] r by auto
  have "pod_view d' = pod_view d1" using p by (simp add: pod_view_def)
  then show "pod_view d' = map (\<lambda>(k, st). (k, if k = podID \<and> st = PodSubmitted then ?st else st)) (pod_view d)"
    using pod_cas.applied [of E ?c d "()" d1] r by auto
qed

lemma Review_by_others:
  assumes "Review E actor i podID inp d = (Inr pod', d')"
  shows "\<exists>ord\<in>set (db_orders d). InvolvesCompany ord (a_CompanyID actor) \<and>
    (a_Role actor = RoleDriver \<longrightarrow> a_StatusBypass actor) \<and>
    (\<not> ri_Approved inp \<longrightarrow> trim_space (ri_Reason inp) \<noteq> [])"
proof -
  have "\<exists>ship ord. load E actor i d = (Inr (ship, ord), d) \<and> assertMayReview actor ord = Inr () \<and>
      (\<not> ri_Approved inp \<longrightarrow> trim_space (ri_Reason inp) \<noteq> [])"
    using assms by (cases rule: Review_Inr) auto
  then show ?thesis
    by (auto simp: load_def andThen_Inr Orders_FindByID_def call_Inr InvolvesCompany_def
        assertMayReview_def split: if_splits dest!: find_Some_iff_first)
qed

text \<open>While another visit of the kind is open, an approval closes its own stop and nothing moves.\<close>

lemma Review_journey_continues:
  assumes "Review E actor i podID inp d = (Inr pod', d')" and "ri_Approved inp"
    and "find (\<lambda>p. pd_ID p = podID) (db_pods d) = Some pod" and "pd_StopID pod = Some stopID"
    and "stops_wired E" and "\<not> down E StopsListByOrder"
    and "\<And>ship ord. load E actor i d = (Inr (ship, ord), d) \<Longrightarrow> \<exists>s\<in>set (stops_of (o_ID ord) d).
      st_Kind s = kind_of_stage (pd_Stage pod) \<and> st_FinishedAt s = None \<and> st_ID s \<noteq> stopID"
  shows "db_shipments d' = db_shipments d \<and> db_orders d' = db_orders d \<and>
    db_stops d' = update_where (\<lambda>s. st_ID s = stopID)
      (\<lambda>s. s\<lparr>st_FinishedAt := Some (now E), st_PodID := Some podID\<rparr>) (db_stops d)"
  using assms(1)
proof (cases rule: Review_Inr)
  case (rejected ship ord pod d1)
  with assms(2) show ?thesis by simp
next
  case (approved ship ord pod0 d1 finished left d2 ship' d3)
  let ?f = "\<lambda>s. s\<lparr>st_FinishedAt := Some (now E), st_PodID := Some podID\<rparr>"
  have pod: "pod0 = pod" "pd_ID pod = podID" using approved(3) assms(3) find_Some_iff_first [OF assms(3)] by auto
  have d1: "db_stops d1 = db_stops d" "db_shipments d1 = db_shipments d" "db_orders d1 = db_orders d"
    by (rule keepsD [OF frame_stops(8) approved(7)] keepsD [OF frame_shipments(7) approved(7)]
        keepsD [OF frame_orders(7) approved(7)])+
  have u: "stops_of (o_ID ord) (d1\<lparr>db_stops := update_where (\<lambda>s. st_ID s = stopID) ?f (db_stops d1)\<rparr>) =
      update_where (\<lambda>s. st_ID s = stopID) ?f (stops_of (o_ID ord) d1)"
    by (rule stops_of_update) simp_all
  have same: "stops_of (o_ID ord) d1 = stops_of (o_ID ord) d" by (simp add: stops_of_def d1)
  obtain s where s: "s \<in> set (stops_of (o_ID ord) d1)" "st_Kind s = kind_of_stage (pd_Stage pod)"
    "st_FinishedAt s = None" "st_ID s \<noteq> stopID"
    using assms(7) [OF approved(1)] same by auto
  then have "s \<in> set (update_where (\<lambda>s. st_ID s = stopID) ?f (stops_of (o_ID ord) d1))"
    by (intro in_update_where) auto
  with s have "stops_left pod stopID (update_where (\<lambda>s. st_ID s = stopID) ?f (stops_of (o_ID ord) d1)) \<noteq> 0"
    by (auto simp: stops_left_def filter_empty_conv)
  then have c: "\<not> finished" "d2 = d1\<lparr>db_stops := update_where (\<lambda>s. st_ID s = stopID) ?f (db_stops d1)\<rparr>"
    using approved(8) assms(4,5,6) pod u
    by (auto simp: closeStop_def andThen_Inr Stops_UpdateFields_def Stops_ListByOrder_def call_def
        split: if_splits)
  then have "d3 = d2" using approved(9) by simp
  moreover have "db_shipments d' = db_shipments d3" "db_orders d' = db_orders d3" "db_stops d' = db_stops d3"
    by (rule keepsD [OF notifyPod_rules(2) approved(10)] keepsD [OF notifyPod_rules(1) approved(10)]
        keepsD [OF notifyPod_rules(3) approved(10)])+
  ultimately show ?thesis using c d1 by simp
qed

section \<open>Past the stage\<close>

lemma advance_stored:
  assumes "advance E actor ship ord inp role d = (Inr ship', d')"
    and "ai_ShipmentID inp = sh_ID ship" and "(sh_ID ship, sh_StatusCode ship) \<in> set (shipment_view d)"
  shows "sh_ID ship' = sh_ID ship \<and> (sh_ID ship', sh_StatusCode ship') \<in> set (shipment_view d')"
proof -
  from assms(1) have "ship' = ship\<lparr>sh_StatusCode := ai_To inp\<rparr>" by (rule advance_Inr)
  then show ?thesis using assms(2,3) advance_view(1) [OF assms(1)] by force
qed

text \<open>What the walk hands back is what is stored.\<close>

lemma walk_stored:
  assumes "walk n E actor ship ord to role pos d = (Inr ship', d')"
    and "(sh_ID ship, sh_StatusCode ship) \<in> set (shipment_view d)"
  shows "sh_ID ship' = sh_ID ship \<and> (sh_ID ship', sh_StatusCode ship') \<in> set (shipment_view d')"
  using assms
proof (induction n arbitrary: ship d)
  case (Suc n)
  let ?nxt = "NextShipmentStatusTowards (sh_StatusCode ship) to"
  show ?case
  proof (cases "sh_StatusCode ship = to \<or> ?nxt = []")
    case True
    with Suc.prems show ?thesis by (auto simp: Let_def split: if_splits)
  next
    case False
    with Suc.prems(1) obtain moved d1 where
      a: "advance E actor ship ord \<lparr>ai_ShipmentID = sh_ID ship, ai_To = ?nxt, ai_Position = pos, ai_Note = []\<rparr>
        role d = (Inr moved, d1)"
      and w: "walk n E actor moved ord to role pos d1 = (Inr ship', d')"
      by (auto simp: Let_def andThen_Inr)
    have m: "sh_ID moved = sh_ID ship" "(sh_ID moved, sh_StatusCode moved) \<in> set (shipment_view d1)"
      using advance_stored [OF a] Suc.prems(2) by auto
    from Suc.IH [OF w m(2)] m(1) show ?thesis by auto
  qed
qed simp

lemma walkShipmentTo_stored:
  assumes "walkShipmentTo E actor ship ord to role pos d = (Inr ship', d')"
    and "(sh_ID ship, sh_StatusCode ship) \<in> set (shipment_view d)"
  shows "sh_ID ship' = sh_ID ship \<and> (sh_ID ship', sh_StatusCode ship') \<in> set (shipment_view d')"
  using assms by (auto simp: walkShipmentTo_def dest: walk_stored split: if_splits)

lemma AtOrPast_iff:
  "ShipmentStatusAtOrPast s mark \<longleftrightarrow>
     0 \<le> shipmentChainIndex mark \<and> shipmentChainIndex mark \<le> shipmentChainIndex s"
  by (auto simp: ShipmentStatusAtOrPast_def Let_def)

text \<open>
  Approving the last submission of a stage leaves the shipment past the stage: under way to the
  unloading point, or finished.
\<close>

definition stage_end :: "string \<Rightarrow> string" where
  "stage_end stage = (if stage = ''unloading'' then ShipmentFinished else ShipmentToUnloading)"

lemma walk_steps_end:
  assumes "walk_steps E actor ord (approval_steps stage) ship d = (Inr ship', d')"
    and "(sh_ID ship, sh_StatusCode ship) \<in> set (shipment_view d)"
    and "0 \<le> shipmentChainIndex (sh_StatusCode ship)"
  shows "sh_ID ship' = sh_ID ship \<and> (sh_ID ship, sh_StatusCode ship') \<in> set (shipment_view d') \<and>
    ShipmentStatusAtOrPast (sh_StatusCode ship') (stage_end stage)"
proof -
  obtain a where a: "approval_steps stage = [a, stage_end stage]" "a = ShipmentUnloaded \<or> a = ShipmentLoaded"
    by (cases "stage = ''unloading''") (simp_all add: approval_steps_def stage_end_def)
  with assms(1) obtain s1 d1 where
    1: "walkShipmentTo E actor ship ord a RoleSystem None d = (Inr s1, d1)"
    and 2: "walkShipmentTo E actor s1 ord (stage_end stage) RoleSystem None d1 = (Inr ship', d')"
    by (auto simp: andThen_Inr)
  note st1 = walkShipmentTo_stored [OF 1 assms(2)]
  have "0 \<le> shipmentChainIndex (sh_StatusCode s1)"
    using walkShipmentTo_forward [OF 1 assms(3)] assms(3) by simp
  moreover have "0 \<le> shipmentChainIndex (stage_end stage)" "on_the_flow (stage_end stage)"
    by (simp_all add: stage_end_def chain_indices)
  ultimately have "ShipmentStatusAtOrPast (sh_StatusCode ship') (stage_end stage)"
    using walkShipmentTo_arrives [OF 2] by blast
  then show ?thesis using st1 walkShipmentTo_stored [OF 2] by auto
qed

lemma Review_completes_stage:
  assumes "Review E actor i podID inp d = (Inr pod', d')" and "ri_Approved inp"
    and "find (\<lambda>p. pd_ID p = podID) (db_pods d) = Some pod"
    and "\<And>ship ord d1 r d2. load E actor i d = (Inr (ship, ord), d) \<Longrightarrow> db_stops d1 = db_stops d \<Longrightarrow>
      closeStop E pod (o_ID ord) d1 = (Inr r, d2) \<Longrightarrow> fst r"
    and "\<And>ship. ship \<in> set (db_shipments d) \<Longrightarrow> sh_ID ship = i \<Longrightarrow> 0 \<le> shipmentChainIndex (sh_StatusCode ship)"
  shows "\<exists>s. (i, s) \<in> set (shipment_view d') \<and> ShipmentStatusAtOrPast s (stage_end (pd_Stage pod))"
  using assms(1)
proof (cases rule: Review_Inr)
  case (rejected ship ord pod0 d1)
  with assms(2) show ?thesis by simp
next
  case (approved ship ord pod0 d1 finished left d2 ship' d3)
  have "pod0 = pod" using approved(3) assms(3) by simp
  moreover have "db_stops d1 = db_stops d" by (rule keepsD [OF frame_stops(8) approved(7)])
  ultimately have fin: "finished" using assms(4) [OF approved(1)] approved(8) by fastforce
  have ship: "ship \<in> set (db_shipments d)" "sh_ID ship = i"
    using approved(1) by (auto simp: load_def andThen_Inr Shipments_FindByID_def call_Inr dest!: find_Some_iff_first)
  have "db_shipments d1 = db_shipments d" by (rule keepsD [OF frame_shipments(7) approved(7)])
  moreover have "db_shipments d2 = db_shipments d1" by (rule keepsD [OF closeStop_rules(6) approved(8)])
  ultimately have "(sh_ID ship, sh_StatusCode ship) \<in> set (shipment_view d2)"
    using ship by (auto simp: shipment_view_def)
  with approved(9) fin \<open>pod0 = pod\<close> have "(i, sh_StatusCode ship') \<in> set (shipment_view d3)"
    "ShipmentStatusAtOrPast (sh_StatusCode ship') (stage_end (pd_Stage pod))"
    using walk_steps_end assms(5) ship by fastforce+
  moreover have "db_shipments d' = db_shipments d3" by (rule keepsD [OF notifyPod_rules(2) approved(10)])
  ultimately show ?thesis by (auto simp: shipment_view_def)
qed

text \<open>The visits of a stage that are still open beside a given one, on the journey of a shipment.\<close>

definition open_beside :: "db \<Rightarrow> shipment \<Rightarrow> string \<Rightarrow> uuid option \<Rightarrow> order_stop list" where
  "open_beside d ship stage stopID = filter (\<lambda>s. st_Kind s = kind_of_stage stage \<and> st_FinishedAt s = None \<and>
     stopID \<noteq> Some (st_ID s)) (stops_of (sh_OrderID ship) d)"

lemma closeStop_last:
  assumes "closeStop E pod oid d1 = (Inr r, d2)" and "stops_of oid d1 = stops_of oid d"
    and "pd_StopID pod \<noteq> None \<Longrightarrow> filter (\<lambda>s. st_Kind s = kind_of_stage (pd_Stage pod) \<and> st_FinishedAt s = None \<and>
      pd_StopID pod \<noteq> Some (st_ID s)) (stops_of oid d) = []"
  shows "fst r"
proof (cases "pd_StopID pod")
  case None
  with assms(1) show ?thesis by (simp add: closeStop_def)
next
  case (Some stopID)
  let ?f = "\<lambda>s. s\<lparr>st_FinishedAt := Some (now E), st_PodID := Some (pd_ID pod)\<rparr>"
  have "stops_of oid (d1\<lparr>db_stops := update_where (\<lambda>s. st_ID s = stopID) ?f (db_stops d1)\<rparr>) =
      update_where (\<lambda>s. st_ID s = stopID) ?f (stops_of oid d1)"
    by (rule stops_of_update) simp_all
  moreover have "stops_left pod stopID (update_where (\<lambda>s. st_ID s = stopID) ?f (stops_of oid d1)) = 0"
    using assms(2,3) Some by (auto simp: stops_left_def filter_empty_conv update_where_def)
  ultimately show ?thesis using assms(1) Some
    by (auto simp: closeStop_def andThen_Inr Stops_UpdateFields_def Stops_ListByOrder_def call_def
        split: if_splits)
qed

lemma load_Inr:
  assumes "load E actor i d = (Inr (ship, ord), d')"
  shows "d' = d \<and> find (\<lambda>r. sh_ID r = i) (db_shipments d) = Some ship \<and> sh_ID ship = i \<and>
    ship \<in> set (db_shipments d) \<and> o_ID ord = sh_OrderID ship \<and> ord \<in> set (db_orders d)"
  using assms by (auto simp: load_def andThen_Inr Shipments_FindByID_def Orders_FindByID_def call_Inr
      dest: find_Some_iff_first split: if_splits)

lemma Review_last_visit:
  assumes "Review E actor i podID inp d = (Inr pod', d')" and "ri_Approved inp"
    and "find (\<lambda>p. pd_ID p = podID) (db_pods d) = Some pod"
    and "find (\<lambda>r. sh_ID r = i) (db_shipments d) = Some ship" and "0 \<le> shipmentChainIndex (sh_StatusCode ship)"
    and "pd_StopID pod = None \<or> open_beside d ship (pd_Stage pod) (pd_StopID pod) = []"
    and "distinct (map sh_ID (db_shipments d))"
  shows "\<exists>s. (i, s) \<in> set (shipment_view d') \<and> ShipmentStatusAtOrPast s (stage_end (pd_Stage pod))"
proof (rule Review_completes_stage [OF assms(1,2,3)])
  fix ship' ord d1 r d2
  assume l: "load E actor i d = (Inr (ship', ord), d)" and s: "db_stops d1 = db_stops d"
    and c: "closeStop E pod (o_ID ord) d1 = (Inr r, d2)"
  have "o_ID ord = sh_OrderID ship" using load_Inr [OF l] assms(4) by simp
  then show "fst r" using assms(6) s
    by (intro closeStop_last [OF c]) (auto simp: stops_of_def open_beside_def)
next
  fix s assume "s \<in> set (db_shipments d)" "sh_ID s = i"
  moreover have "ship \<in> set (db_shipments d)" "sh_ID ship = i" using find_Some_iff_first [OF assms(4)] by auto
  ultimately have "s = ship" using assms(7) by (auto simp: distinct_map dest: inj_onD)
  then show "0 \<le> shipmentChainIndex (sh_StatusCode s)" using assms(5) by simp
qed

end
