(* ===== verification/Handover.thy ===== *)
theory Handover
  imports Orders Shipment
begin

text \<open>
  internal/services/handover_service.go and field_service.go: the code that opens an unloading (issued
  to the driver, confirmed in the driver's app, then entered by the receiving PIC on the Web-Field
  page) and the count the PIC records and finalises. Figures are exact where the page shows their
  float64. The inbox of a signed-in PIC is left out.
\<close>

section \<open>Links and numbers\<close>

abbreviation minute :: time where "minute \<equiv> 60000000000"

definition handoverCodeTTL :: time where "handoverCodeTTL = 10 * minute"
definition fieldCodeWindow :: time where "fieldCodeWindow = 12 * hour"
definition handoverCodeDigits :: nat where "handoverCodeDigits = 6"
definition HandoverTestCode :: string where "HandoverTestCode = ''000000''"

text \<open>\<open>url.QueryEscape\<close>, byte by byte.\<close>

definition is_digit :: "char \<Rightarrow> bool" where
  "is_digit c \<longleftrightarrow> (let n = (of_char c :: nat) in 48 \<le> n \<and> n \<le> 57)"

definition unreserved :: "char \<Rightarrow> bool" where
  "unreserved c \<longleftrightarrow> (let n = (of_char c :: nat) in
     (65 \<le> n \<and> n \<le> 90) \<or> (97 \<le> n \<and> n \<le> 122) \<or> is_digit c \<or> c \<in> set ''-_.~'')"

definition hex_digit :: "nat \<Rightarrow> char" where
  "hex_digit n = (if n < 10 then char_of (48 + n) else char_of (55 + n))"

definition QueryEscape :: "string \<Rightarrow> string" where
  "QueryEscape s = concat (map (\<lambda>c. if unreserved c then [c] else if c = CHR '' '' then ''+''
     else [CHR ''%'', hex_digit (of_char c div 16), hex_digit (of_char c mod 16)]) s)"

definition FieldURL :: "env \<Rightarrow> string \<Rightarrow> string" where
  "FieldURL E token = (if consoleBaseURL E = [] then [] else consoleBaseURL E @ ''/webfield?token='' @ token)"

definition FieldLink :: "env \<Rightarrow> string \<Rightarrow> string \<Rightarrow> string" where
  "FieldLink E orderNumber code = (if consoleBaseURL E = [] then []
     else consoleBaseURL E @ ''/webfield?order='' @ QueryEscape orderNumber @ ''&code='' @ QueryEscape code)"

definition generateCode :: "env \<Rightarrow> string result" where
  "generateCode E = (case rand_code E of
     None \<Rightarrow> Inl (Err ErrStore ''handover: cannot generate a code'')
   | Some n \<Rightarrow> Inr (zero_padded handoverCodeDigits n))"

definition normaliseWhatsApp :: "string \<Rightarrow> string result" where
  "normaliseWhatsApp raw =
     (let digits = filter is_digit raw in
      if digits = [] then Inl (Err ErrValidation ''a WhatsApp number is required'')
      else
        let full = (if take 2 digits = ''62'' then digits
              else if take 1 digits = ''0'' then ''62'' @ drop 1 digits
              else ''62'' @ digits)
        in if length full < 11 \<or> 15 < length full
           then Inl (Err ErrValidation (raw @ '' does not look like a WhatsApp number'')) else Inr full)"

section \<open>Who receives the code\<close>

definition picForUnloading :: "env \<Rightarrow> order option \<Rightarrow> string \<times> string" where
  "picForUnloading E ord =
     (case ord of
        None \<Rightarrow> ([], [])
      | Some r \<Rightarrow>
          let p = (case o_Detail r ''unloadingPic'' of Some v \<Rightarrow> pic_of v | None \<Rightarrow> \<lparr>pic_Name = [], pic_Phone = []\<rparr>);
              q = (if trim_space (pic_Phone p) = []
                   then (case o_DestinationWarehouseID r of
                       None \<Rightarrow> p
                     | Some site \<Rightarrow>
                         (case GetWarehouse E site of
                            None \<Rightarrow> p
                          | Some wh \<Rightarrow> \<lparr>pic_Name = (if trim_space (pic_Name p) = [] then w_PicName wh else pic_Name p),
                                       pic_Phone = w_PicPhone wh\<rparr>))
                   else p)
          in (trim_space (pic_Name q), trim_space (pic_Phone q)))"

definition picForStop :: "env \<Rightarrow> order option \<Rightarrow> uuid option \<Rightarrow> (db, string \<times> string) op" where
  "picForStop E ord stopID =
     (case stopID of
        Some i \<Rightarrow>
          if stops_wired E then
            andThen (attempt (Stops_FindByID E i)) (\<lambda>r.
              case r of
                Inl _ \<Rightarrow> ok (picForUnloading E ord)
              | Inr stop \<Rightarrow>
                  let name = (case st_PICName stop of Some n \<Rightarrow> trim_space n | None \<Rightarrow> []);
                      phone = (case st_PICPhone stop of Some p \<Rightarrow> trim_space p | None \<Rightarrow> [])
                  in ok (if name \<noteq> [] \<or> phone \<noteq> [] then (name, phone) else picForUnloading E ord))
          else ok (picForUnloading E ord)
      | None \<Rightarrow> ok (picForUnloading E ord))"

section \<open>Issuing\<close>

record issue_result =
  is_Handover :: handover
  is_Code :: string
  is_PICLink :: string

definition field_event :: "order \<Rightarrow> audience \<Rightarrow> key_part list \<Rightarrow> event" where
  "field_event ord audience k = \<lparr>ev_Type = ''FIELD_VERIFICATION_PENDING'', ev_SubjectID = o_ID ord,
     ev_SubjectType = ''order'', ev_Audience = audience, ev_ActorID = None, ev_Key = k\<rparr>"

definition notifyWarehousePICs :: "env \<Rightarrow> order option \<Rightarrow> string \<Rightarrow> uuid \<Rightarrow> (db, unit) op" where
  "notifyWarehousePICs E ord picNumber handoverID =
     (case ord of
        None \<Rightarrow> ok ()
      | Some r \<Rightarrow>
          (case o_DestinationWarehouseID r of
             None \<Rightarrow> ok ()
           | Some site \<Rightarrow>
               (case GetWarehouse E site of
                  None \<Rightarrow> ok ()
                | Some wh \<Rightarrow>
                    andThen (if w_PicUserIds wh \<noteq> []
                      then notify (field_event r (ToUserNames (w_PicUserIds wh)) [KeyText ''field-pending'', KeyID handoverID])
                      else ok ()) (\<lambda>_.
                    if picNumber \<noteq> []
                    then notify (field_event r (ToPhone picNumber) [KeyText ''field-pending-wa'', KeyID handoverID])
                    else ok ()))))"

definition new_handover ::
  "env \<Rightarrow> uuid \<Rightarrow> uuid option \<Rightarrow> string \<Rightarrow> string \<Rightarrow> string \<Rightarrow> string \<Rightarrow> handover" where
  "new_handover E shipmentID stopID picName number code token =
     \<lparr>hv_ID = uuid_Nil, hv_ShipmentID = shipmentID, hv_Stage = ''unloading'', hv_StopID = stopID,
      hv_PICName = nonempty picName, hv_PICWhatsApp = number, hv_FieldToken = Some token,
      hv_CodeHash = sha256 E code, hv_Attempts = 0, hv_MaxAttempts = 5, hv_SentAt = now E,
      hv_ExpiresAt = now E + handoverCodeTTL, hv_VerifiedAt = None, hv_CodeRecipient = ''driver'',
      hv_FieldVerifiedAt = None, hv_FieldAttempts = 0, hv_FieldPICUserID = None, hv_VerifiedLat = None,
      hv_VerifiedLon = None, hv_VerifiedWithinGeofence = None\<rparr>"

definition found :: "'a result \<Rightarrow> 'a option" where
  "found r = (case r of Inl _ \<Rightarrow> None | Inr x \<Rightarrow> Some x)"

definition code_event :: "uuid \<Rightarrow> uuid \<Rightarrow> uuid \<Rightarrow> event" where
  "code_event shipmentID driver handoverID =
     \<lparr>ev_Type = ''HANDOVER_CODE'', ev_SubjectID = shipmentID, ev_SubjectType = ''shipment'',
      ev_Audience = ToUsers [driver], ev_ActorID = None, ev_Key = [KeyText ''handover'', KeyID handoverID]\<rparr>"

definition number_of :: "order option \<Rightarrow> string" where
  "number_of ord = (case ord of Some r \<Rightarrow> o_OrderNumber r | None \<Rightarrow> [])"

definition Handover_Issue ::
  "env \<Rightarrow> actor \<Rightarrow> uuid \<Rightarrow> uuid option \<Rightarrow> string \<Rightarrow> string \<Rightarrow> (db, issue_result) op" where
  "Handover_Issue E actor shipmentID stopID picName picWhatsApp =
     andThen (Shipments_FindByID E shipmentID) (\<lambda>ship.
     andThen (refuse (sh_DriverUserID ship \<noteq> Some (a_UserID actor))
       (Err ErrForbidden ''only the assigned driver may request a handover code'')) (\<lambda>_.
     andThen (attempt (Orders_FindByIDForService E (sh_OrderID ship))) (\<lambda>r.
     let ord = found r in
     andThen (if trim_space picName = [] \<and> trim_space picWhatsApp = [] then picForStop E ord stopID
              else ok (picName, picWhatsApp)) (\<lambda>(name, phone).
     andThen (from_result (if trim_space phone \<noteq> [] then normaliseWhatsApp phone else Inr [])) (\<lambda>number.
     andThen (from_result (generateCode E)) (\<lambda>code.
     case rand_token E of
       None \<Rightarrow> fail (Err ErrStore ''handover: field token'')
     | Some token \<Rightarrow>
         andThen (Handovers_Issue E (new_handover E shipmentID stopID name number code token)) (\<lambda>row.
         andThen (notify (code_event shipmentID (a_UserID actor) (hv_ID row))) (\<lambda>_.
         andThen (if WebFieldEnabled E then notifyWarehousePICs E ord number (hv_ID row) else ok ()) (\<lambda>_.
         ok \<lparr>is_Handover = row, is_Code = code,
             is_PICLink = FieldLink E (number_of ord) code\<rparr>)))))))))"

section \<open>Confirming\<close>

record verify_input =
  vf_Code :: string
  vf_StopID :: "uuid option"
  vf_Position :: "position option"

definition WithinGeofence :: "env \<Rightarrow> position \<Rightarrow> position \<Rightarrow> int \<Rightarrow> bool" where
  "WithinGeofence E p centre radiusMeters =
     (if radiusMeters \<le> 0 then False else distance E p centre \<le> of_int radiusMeters)"

text \<open>A position needs both of its coordinates; \<open>vf_Position\<close> is \<open>None\<close> where one is missing.\<close>

definition geofenceCheck ::
  "env \<Rightarrow> shipment \<Rightarrow> verify_input \<Rightarrow> (db, money option \<times> money option \<times> bool option) op" where
  "geofenceCheck E ship inp =
     (case vf_Position inp of
        None \<Rightarrow> ok (None, None, None)
      | Some p \<Rightarrow>
          andThen (attempt (Orders_FindByIDForService E (sh_OrderID ship))) (\<lambda>r.
            ok (Some (pos_Latitude p), Some (pos_Longitude p),
              (case found r of
                 None \<Rightarrow> None
               | Some ord \<Rightarrow>
                   (case o_DestinationWarehouseID ord of
                      None \<Rightarrow> None
                    | Some site \<Rightarrow>
                        (case GetWarehouse E site of
                           None \<Rightarrow> None
                         | Some wh \<Rightarrow> Some (WithinGeofence E p (warehouse_pos wh) (w_GeofenceRadiusMeters wh))))))))"

definition code_matches :: "env \<Rightarrow> string \<Rightarrow> handover \<Rightarrow> bool" where
  "code_matches E code h \<longleftrightarrow> sha256 E code = hv_CodeHash h \<or> code = HandoverTestCode"

definition wrong_code :: error where
  "wrong_code = Err ErrValidation ''that code is not right''"

definition Handover_Verify :: "env \<Rightarrow> actor \<Rightarrow> uuid \<Rightarrow> verify_input \<Rightarrow> (db, handover) op" where
  "Handover_Verify E actor shipmentID inp =
     andThen (Shipments_FindByID E shipmentID) (\<lambda>ship.
     andThen (refuse (sh_DriverUserID ship \<noteq> Some (a_UserID actor))
       (Err ErrForbidden ''only the assigned driver may complete a handover'')) (\<lambda>_.
     andThen (attempt (Handovers_FindLive E shipmentID ''unloading'' (vf_StopID inp))) (\<lambda>r.
     case r of
       Inl e \<Rightarrow> fail (if err_class e = ErrNotFound
           then Err ErrValidation ''no handover code has been requested'' else e)
     | Inr live \<Rightarrow>
         andThen (refuse (hv_ExpiresAt live < now E)
           (Err ErrValidation ''that code has expired; ask for a new one'')) (\<lambda>_.
         andThen (refuse (sint (hv_MaxAttempts live) \<le> sint (hv_Attempts live))
           (Err ErrValidation ''too many attempts; ask for a new code'')) (\<lambda>_.
         if \<not> code_matches E (trim_space (vf_Code inp)) live
         then andThen (Handovers_RecordAttempt E (hv_ID live)) (\<lambda>_. fail wrong_code)
         else
           andThen (geofenceCheck E ship inp) (\<lambda>(lat, lon, at_site).
           andThen (Handovers_MarkVerified E (hv_ID live) lat lon at_site) (\<lambda>_.
           ok (live\<lparr>hv_VerifiedAt := Some (now E), hv_VerifiedLat := lat, hv_VerifiedLon := lon,
                    hv_VerifiedWithinGeofence := at_site\<rparr>)))))))) "

section \<open>The field page\<close>

text \<open>
  \<open>strings.ToUpper\<close> for comparison with an ASCII order number: the runes outside ASCII whose upper
  case is an ASCII letter are U+0131 (I) and U+017F (S).
\<close>

definition upper_char :: "char \<Rightarrow> char" where
  "upper_char c = (let n = (of_char c :: nat) in if 97 \<le> n \<and> n \<le> 122 then char_of (n - 32) else c)"

fun to_upper :: "string \<Rightarrow> string" where
  "to_upper [] = []"
| "to_upper (c # cs) =
     (if c = CHR 0xC4 \<and> take 1 cs = [CHR 0xB1] then CHR ''I'' # to_upper (drop 1 cs)
      else if c = CHR 0xC5 \<and> take 1 cs = [CHR 0xBF] then CHR ''S'' # to_upper (drop 1 cs)
      else upper_char c # to_upper cs)"

definition not_at_gate :: error where
  "not_at_gate = Err ErrNotFound ''nomor order tidak ditemukan atau belum sampai di titik bongkar''"

definition fieldResolve :: "env \<Rightarrow> string \<Rightarrow> (db, order \<times> shipment \<times> handover) op" where
  "fieldResolve E orderNumber =
     (let number = to_upper (trim_space orderNumber) in
      andThen (refuse (number = []) not_at_gate) (\<lambda>_.
      andThen (rewrap not_at_gate (Orders_FindByNumber E number)) (\<lambda>ord.
      andThen (rewrap not_at_gate (Shipments_FindByOrder E (o_ID ord))) (\<lambda>ship.
      andThen (rewrap not_at_gate (Handovers_LatestForStage E (sh_ID ship) ''unloading'' None)) (\<lambda>row.
      ok (ord, ship, row))))))"

record field_lookup =
  fl_OrderNumber :: string
  fl_ShipmentStatus :: string
  fl_Truck :: string
  fl_Driver :: string
  fl_Destination :: string
  fl_Ready :: bool
  fl_Message :: string

definition fillParties :: "env \<Rightarrow> shipment \<Rightarrow> order \<Rightarrow> string \<times> string \<times> string" where
  "fillParties E ship ord =
     ((case sh_TruckID ship of None \<Rightarrow> []
       | Some t \<Rightarrow> (case GetTruck E t of None \<Rightarrow> [] | Some tr \<Rightarrow> t_PoliceNumber tr)),
      (case sh_DriverID ship of None \<Rightarrow> []
       | Some i \<Rightarrow> (case GetDriver E i of None \<Rightarrow> [] | Some dr \<Rightarrow> d_FullName dr)),
      (case o_DestinationWarehouseID ord of None \<Rightarrow> []
       | Some site \<Rightarrow> (case GetWarehouse E site of None \<Rightarrow> [] | Some wh \<Rightarrow> w_Name wh)))"

definition FieldLookup :: "env \<Rightarrow> string \<Rightarrow> (db, field_lookup) op" where
  "FieldLookup E orderNumber =
     andThen (fieldResolve E orderNumber) (\<lambda>(ord, ship, row).
     let (truck, driver, destination) = fillParties E ship ord;
         message = (if hv_VerifiedAt row = None then ''Belum bisa verifikasi muatan.''
           else if fieldCodeWindow < now E - hv_SentAt row then ''Kode untuk order ini sudah kedaluwarsa.'' else [])
     in ok \<lparr>fl_OrderNumber = o_OrderNumber ord, fl_ShipmentStatus = sh_StatusCode ship, fl_Truck = truck,
            fl_Driver = driver, fl_Destination = destination, fl_Ready = (message = []), fl_Message = message\<rparr>)"

definition FieldSignIn :: "env \<Rightarrow> string \<Rightarrow> string \<Rightarrow> uuid option \<Rightarrow> (db, string) op" where
  "FieldSignIn E orderNumber code picUserID =
     andThen (fieldResolve E orderNumber) (\<lambda>(_, _, row).
     andThen (refuse (hv_VerifiedAt row = None)
       (Err ErrValidation ''driver belum memasukkan Kode OTP di K-Trip'')) (\<lambda>_.
     andThen (refuse (fieldCodeWindow < now E - hv_SentAt row)
       (Err ErrValidation ''kode untuk order ini sudah kedaluwarsa'')) (\<lambda>_.
     andThen (refuse (sint (hv_MaxAttempts row) \<le> sint (hv_FieldAttempts row))
       (Err ErrValidation ''terlalu banyak percobaan; minta driver meminta kode baru'')) (\<lambda>_.
     case hv_FieldToken row of
       None \<Rightarrow> fail (Err ErrValidation ''order ini tidak punya halaman Web-Field'')
     | Some token \<Rightarrow>
         andThen (refuse (token = []) (Err ErrValidation ''order ini tidak punya halaman Web-Field'')) (\<lambda>_.
         if sha256 E (trim_space code) \<noteq> hv_CodeHash row
         then andThen (Handovers_RecordFieldAttempt E (hv_ID row)) (\<lambda>_.
           fail (Err ErrValidation ''kode tidak sesuai''))
         else andThen (Handovers_MarkFieldVerified E (hv_ID row) picUserID) (\<lambda>_. ok token))))))"

definition fieldByToken :: "env \<Rightarrow> string \<Rightarrow> (db, handover \<times> shipment) op" where
  "fieldByToken E token =
     andThen (Handovers_FindByFieldToken E token) (\<lambda>row.
     andThen (refuse (hv_FieldVerifiedAt row = None)
       (Err ErrForbidden ''sesi Web-Field belum diverifikasi dengan Kode OTP'')) (\<lambda>_.
     andThen (Shipments_FindByID E (hv_ShipmentID row)) (\<lambda>ship. ok (row, ship))))"

text \<open>The page of the receiving side: the order sheet, and where the count stands.\<close>

record field_site =
  fs_Name :: string
  fs_Address :: string
  fs_Latitude :: rat
  fs_Longitude :: rat

record cargo_figures =
  cf_Name :: string
  cf_WeightKg :: "money option"
  cf_VolumeM3 :: "money option"
  cf_Quantity :: "money option"

definition figures :: "cargo_figures \<Rightarrow> cargo_figures option" where
  "figures f = (if cf_WeightKg f = None \<and> cf_VolumeM3 f = None \<and> cf_Quantity f = None \<and> cf_Name f = []
     then None else Some f)"

record field_view =
  fv_OrderNumber :: string
  fv_ShipmentID :: uuid
  fv_ShipmentStatus :: string
  fv_PICName :: "string option"
  fv_Truck :: string
  fv_Driver :: string
  fv_Destination :: string
  fv_Origin :: "field_site option"
  fv_Drop :: "field_site option"
  fv_PickupAt :: "time option"
  fv_ArrivedAt :: "time option"
  fv_Cargo :: detail
  fv_CargoCheck :: "(bool \<times> string \<times> time) option"
  fv_Pod :: "shipment_pod option"
  fv_HandoverVerified :: bool
  fv_SessionVerified :: bool
  fv_Expected :: "cargo_figures option"
  fv_Actual :: "cargo_figures option"
  fv_FinalizedAt :: "time option"
  fv_FinalizedBy :: string
  fv_FinalizedNote :: string

definition site_view :: "env \<Rightarrow> string option \<Rightarrow> field_site option" where
  "site_view E site = (case site of None \<Rightarrow> None
     | Some w \<Rightarrow> map_option (\<lambda>wh. \<lparr>fs_Name = w_Name wh, fs_Address = w_Address wh, fs_Latitude = w_Latitude wh,
         fs_Longitude = w_Longitude wh\<rparr>) (GetWarehouse E w))"

definition cargo_keys :: "string list" where
  "cargo_keys = [''cargoItems'', ''muatan'', ''totalBerat'', ''kuantitas'', ''totalVolume'', ''namaMuatan'']"

definition page_of :: "env \<Rightarrow> handover \<Rightarrow> shipment \<Rightarrow> order \<Rightarrow> shipment_pod list \<Rightarrow> field_view" where
  "page_of E row ship ord latest =
     (let (truck, driver, destination) = fillParties E ship ord in
      \<lparr>fv_OrderNumber = o_OrderNumber ord, fv_ShipmentID = sh_ID ship, fv_ShipmentStatus = sh_StatusCode ship,
       fv_PICName = hv_PICName row, fv_Truck = truck, fv_Driver = driver, fv_Destination = destination,
       fv_Origin = site_view E (o_OriginWarehouseID ord), fv_Drop = site_view E (o_DestinationWarehouseID ord),
       fv_PickupAt = o_PickupAt ord, fv_ArrivedAt = sh_ArrivedUnloadingAt ship,
       fv_Cargo = (\<lambda>k. if k \<in> set cargo_keys then o_Detail ord k else None),
       fv_CargoCheck = (case (sh_UnloadingCargoCheckedAt ship, sh_UnloadingCargoMatches ship) of
           (Some t, Some m) \<Rightarrow> Some (m, deref (sh_UnloadingCargoNote ship), t) | _ \<Rightarrow> None),
       fv_Pod = find (\<lambda>p. pd_Stage p = ''unloading'') (rev latest),
       fv_HandoverVerified = (hv_VerifiedAt row \<noteq> None), fv_SessionVerified = (hv_FieldVerifiedAt row \<noteq> None),
       fv_Expected = figures \<lparr>cf_Name = [], cf_WeightKg = o_WeightKg ord, cf_VolumeM3 = o_VolumeM3 ord,
         cf_Quantity = o_Quantity ord\<rparr>,
       fv_Actual = figures \<lparr>cf_Name = [], cf_WeightKg = sh_UnloadingAuditWeightKg ship,
         cf_VolumeM3 = sh_UnloadingAuditVolumeM3 ship, cf_Quantity = sh_UnloadingAuditQuantity ship\<rparr>,
       fv_FinalizedAt = sh_ManifestFinalizedAt ship, fv_FinalizedBy = deref (sh_ManifestFinalizedBy ship),
       fv_FinalizedNote = deref (sh_ManifestFinalizedNote ship)\<rparr>)"

definition Field_page :: "env \<Rightarrow> string \<Rightarrow> (db, field_view) op" where
  "Field_page E token =
     andThen (Handovers_FindByFieldToken E token) (\<lambda>row.
     andThen (Shipments_FindByID E (hv_ShipmentID row)) (\<lambda>ship.
     andThen (Orders_FindByIDForService E (sh_OrderID ship)) (\<lambda>ord.
     andThen (if pods_wired E then attempt (Pods_Latest E (sh_ID ship)) else ok (Inr [])) (\<lambda>r.
     ok (page_of E row ship ord (case r of Inr latest \<Rightarrow> latest | Inl _ \<Rightarrow> []))))))"

text \<open>
  \<open>notifyField\<close>: an order that cannot be read is not announced. The audience is built from the
  order's transporter without a nil check: without one the handler panics.
\<close>

definition notifyField :: "env \<Rightarrow> shipment \<Rightarrow> string \<Rightarrow> string \<Rightarrow> (db, unit) op" where
  "notifyField E ship eventType idem =
     andThen (attempt (Orders_FindByIDForService E (sh_OrderID ship))) (\<lambda>r.
     case found r of
       None \<Rightarrow> ok ()
     | Some ord \<Rightarrow>
         (case o_TransporterCompanyID ord of
            None \<Rightarrow> fail (Err ErrStore ''nil pointer dereference'')
          | Some t \<Rightarrow> notify
              \<lparr>ev_Type = eventType, ev_SubjectID = o_ID ord, ev_SubjectType = ''order'',
               ev_Audience = ToCompanyRoles t [''Administrator'', ''Operation'', ''Dispatcher''],
               ev_ActorID = None, ev_Key = [KeyText idem, KeyID (sh_ID ship)]\<rparr>))"

definition pickName :: "string \<Rightarrow> string option \<Rightarrow> string" where
  "pickName typed stored =
     (if trim_space typed \<noteq> [] then trim_space typed
      else case stored of None \<Rightarrow> ''PIC gudang'' | Some n \<Rightarrow> if trim_space n \<noteq> [] then n else ''PIC gudang'')"

record field_audit_input =
  fa_Matches :: bool
  fa_Note :: string
  fa_PICName :: string
  fa_WeightKg :: "money option"
  fa_VolumeM3 :: "money option"
  fa_Quantity :: "money option"

text \<open>A figure that was not typed leaves its column alone.\<close>

definition putMoney :: "(money option \<Rightarrow> shipment \<Rightarrow> shipment) \<Rightarrow> money option \<Rightarrow> shipment \<Rightarrow> shipment" where
  "putMoney column v s = (case v of None \<Rightarrow> s | Some _ \<Rightarrow> column v s)"

definition audit_columns :: "field_audit_input \<Rightarrow> shipment \<Rightarrow> shipment" where
  "audit_columns inp =
     putMoney (\<lambda>v s. s\<lparr>sh_UnloadingAuditQuantity := v\<rparr>) (fa_Quantity inp) \<circ>
     putMoney (\<lambda>v s. s\<lparr>sh_UnloadingAuditVolumeM3 := v\<rparr>) (fa_VolumeM3 inp) \<circ>
     putMoney (\<lambda>v s. s\<lparr>sh_UnloadingAuditWeightKg := v\<rparr>) (fa_WeightKg inp)"

definition RecordFieldAudit :: "env \<Rightarrow> string \<Rightarrow> field_audit_input \<Rightarrow> (db, field_view) op" where
  "RecordFieldAudit E token inp =
     andThen (fieldByToken E token) (\<lambda>(row, ship).
     andThen (refuse (sh_ManifestFinalizedAt ship \<noteq> None)
       (Err ErrValidation ''manifest order ini sudah difinalisasi'')) (\<lambda>_.
     andThen (refuse (\<not> fa_Matches inp \<and> trim_space (fa_Note inp) = [])
       (Err ErrValidation ''catatan wajib diisi bila data tidak sesuai'')) (\<lambda>_.
     andThen (RecordCargoCheck E ship \<lparr>cc_Stage = ''unloading'', cc_Matches = fa_Matches inp,
       cc_Note = fa_Note inp, cc_Via = ''field'', cc_By = None\<rparr>) (\<lambda>_.
     andThen (if fa_WeightKg inp \<noteq> None \<or> fa_VolumeM3 inp \<noteq> None \<or> fa_Quantity inp \<noteq> None
              then Shipments_UpdateFields E (sh_ID ship) (audit_columns inp) else ok ()) (\<lambda>_.
     andThen (if trim_space (fa_PICName inp) \<noteq> []
              then attempt (Handovers_SetPICName E (hv_ID row) (trim_space (fa_PICName inp)))
              else ok (Inr ())) (\<lambda>_.
     andThen (notifyField E ship ''FIELD_AUDIT_RECORDED'' ''field-audit'') (\<lambda>_.
     Field_page E token)))))))"

definition finalized_columns :: "env \<Rightarrow> string \<Rightarrow> string \<Rightarrow> shipment \<Rightarrow> shipment" where
  "finalized_columns E name note s =
     (let s1 = s\<lparr>sh_ManifestFinalizedAt := Some (now E), sh_ManifestFinalizedBy := Some name\<rparr>
      in if trim_space note \<noteq> [] then s1\<lparr>sh_ManifestFinalizedNote := Some (trim_space note)\<rparr> else s1)"

definition FinalizeField :: "env \<Rightarrow> string \<Rightarrow> string \<Rightarrow> string \<Rightarrow> (db, field_view) op" where
  "FinalizeField E token picName note =
     andThen (fieldByToken E token) (\<lambda>(row, ship).
     andThen (refuse (sh_UnloadingCargoCheckedAt ship = None) (Err ErrValidation ''audit data belum diisi'')) (\<lambda>_.
     if sh_ManifestFinalizedAt ship \<noteq> None then Field_page E token
     else
       andThen (Shipments_UpdateFields E (sh_ID ship)
         (finalized_columns E (pickName picName (hv_PICName row)) note)) (\<lambda>_.
       andThen (notifyField E ship ''FIELD_MANIFEST_FINALIZED'' ''field-final'') (\<lambda>_.
       Field_page E token))))"

section \<open>What the operations leave alone\<close>

lemma notices_handover:
  "keeps core (notifyWarehousePICs E ord num i)" "keeps core (notifyField E ship ty idem)"
  unfolding notifyWarehousePICs_def notifyField_def by (intro op_rules keeps_core)+

lemmas handover_core [op_rules] = notices_handover [THEN beside_core(1)] notices_handover [THEN beside_core(2)]
  notices_handover [THEN beside_core(3)] notices_handover [THEN beside_core(4)]
  notices_handover [THEN beside_core(5)] notices_handover [THEN beside_core(6)]
  notices_handover [THEN beside_core(7)] notices_handover [THEN beside_core(8)]
  notices_handover [THEN beside_core(9)] notices_handover [THEN beside_core(10)]
  notices_handover [THEN beside_core(11)] notices_handover [THEN beside_core(12)]

lemma readonly_handover [op_rules]:
  "readonly (picForStop E ord sid)" "readonly (geofenceCheck E ship inp)" "readonly (fieldResolve E n)"
  "readonly (FieldLookup E n)" "readonly (fieldByToken E tok)" "readonly (Field_page E tok)"
proof -
  show "readonly (picForStop E ord sid)" "readonly (geofenceCheck E ship inp)"
    unfolding picForStop_def geofenceCheck_def Let_def by (intro op_rules)+
  have r: "readonly (fieldResolve E n)" for n unfolding fieldResolve_def Let_def by (intro op_rules)
  then show "readonly (fieldResolve E n)" .
  show "readonly (FieldLookup E n)" unfolding FieldLookup_def Let_def by (intro op_rules r)
  show "readonly (fieldByToken E tok)" "readonly (Field_page E tok)"
    unfolding fieldByToken_def Field_page_def by (intro op_rules)+
qed

lemmas handover_read_rules [op_rules] = readonly_handover [THEN keeps_readonly]
  readonly_handover [THEN preserves_readonly] readonly_handover [THEN clean_readonly]
  readonly_handover [THEN shipments.follows_readonly] readonly_handover [THEN orders.follows_readonly]
  readonly_handover [THEN records.follows_readonly]

section \<open>The invariants\<close>

lemma Handover_Issue_rules [op_rules]:
  "follows shipments_run (Handover_Issue E actor i sid nm ph)" "follows orders_run (Handover_Issue E actor i sid nm ph)"
  "follows records_kept (Handover_Issue E actor i sid nm ph)" "preserves well_keyed (Handover_Issue E actor i sid nm ph)"
  "preserves one_live (Handover_Issue E actor i sid nm ph)" "preserves journeys_in_order (Handover_Issue E actor i sid nm ph)"
  unfolding Handover_Issue_def Let_def by (intro op_rules)+

lemma Handover_Verify_rules [op_rules]:
  "follows shipments_run (Handover_Verify E actor i inp)" "follows orders_run (Handover_Verify E actor i inp)"
  "follows records_kept (Handover_Verify E actor i inp)" "preserves well_keyed (Handover_Verify E actor i inp)"
  "preserves one_live (Handover_Verify E actor i inp)" "preserves journeys_in_order (Handover_Verify E actor i inp)"
  unfolding Handover_Verify_def by (intro op_rules)+

lemma FieldSignIn_rules [op_rules]:
  "follows shipments_run (FieldSignIn E n c u)" "follows orders_run (FieldSignIn E n c u)"
  "follows records_kept (FieldSignIn E n c u)" "preserves well_keyed (FieldSignIn E n c u)"
  "preserves one_live (FieldSignIn E n c u)" "preserves journeys_in_order (FieldSignIn E n c u)"
  unfolding FieldSignIn_def by (intro op_rules)+

lemma tame_audit: "tame_columns (audit_columns inp)"
  by (auto simp: tame_columns_def audit_columns_def putMoney_def split: option.split)

lemma tame_finalized: "tame_columns (finalized_columns E name note)"
  by (auto simp: tame_columns_def finalized_columns_def Let_def)

lemma tame_write:
  assumes "tame_columns f"
  shows "follows shipments_run (Shipments_UpdateFields E i f)" "follows records_kept (Shipments_UpdateFields E i f)"
    "preserves well_keyed (Shipments_UpdateFields E i f)"
  using assms by (auto intro!: shipments_run_update records_shipment_write well_keyed_shipment_update tame_keyed)

lemmas field_writes = tame_write [OF tame_audit] tame_write [OF tame_finalized]

lemma RecordFieldAudit_rules [op_rules]:
  "follows shipments_run (RecordFieldAudit E tok inp)" "follows orders_run (RecordFieldAudit E tok inp)"
  "follows records_kept (RecordFieldAudit E tok inp)" "preserves well_keyed (RecordFieldAudit E tok inp)"
  "preserves one_live (RecordFieldAudit E tok inp)" "preserves journeys_in_order (RecordFieldAudit E tok inp)"
  unfolding RecordFieldAudit_def by (intro op_rules field_writes)+

lemma FinalizeField_rules [op_rules]:
  "follows shipments_run (FinalizeField E tok nm note)" "follows orders_run (FinalizeField E tok nm note)"
  "follows records_kept (FinalizeField E tok nm note)" "preserves well_keyed (FinalizeField E tok nm note)"
  "preserves one_live (FinalizeField E tok nm note)" "preserves journeys_in_order (FinalizeField E tok nm note)"
  unfolding FinalizeField_def by (intro op_rules field_writes)+

section \<open>Numbers and codes\<close>

lemma of_char_digit: "n < 10 \<Longrightarrow> is_digit (char_of (48 + n :: nat))"
  by (simp add: is_digit_def Let_def)

lemma digits_are_digits: "c \<in> set (digits n) \<Longrightarrow> is_digit c"
proof (induction n rule: digits.induct)
  case (1 n)
  then show ?case
    by (cases "n < 10") (auto simp: digits.simps [of n] of_char_digit)
qed

lemma padded_digits: "c \<in> set (zero_padded w n) \<Longrightarrow> is_digit c"
proof -
  have "is_digit CHR ''0''" by code_simp
  then show "c \<in> set (zero_padded w n) \<Longrightarrow> is_digit c"
    by (auto simp: zero_padded_def digits_are_digits split: if_splits)
qed

lemma length_digits: "n < 10 ^ Suc w \<Longrightarrow> length (digits n) \<le> Suc w"
proof (induction w arbitrary: n)
  case (Suc w)
  show ?case
  proof (cases "n < 10")
    case False
    have "n div 10 < 10 ^ Suc w" using Suc.prems by (simp add: less_mult_imp_div_less)
    with Suc.IH False show ?thesis by (simp add: digits.simps [of n])
  qed (simp add: digits.simps [of n])
qed (simp add: digits.simps)

lemma length_padded: "n < 10 ^ Suc w \<Longrightarrow> length (zero_padded (Suc w) n) = Suc w"
  using length_digits [of n w] by (simp add: zero_padded_def)

lemma normaliseWhatsApp_Inr:
  assumes "normaliseWhatsApp raw = Inr full"
  shows "11 \<le> length full \<and> length full \<le> 15 \<and> take 2 full = ''62'' \<and> (\<forall>c\<in>set full. is_digit c)"
proof -
  define D where "D = filter is_digit raw"
  have 6: "is_digit CHR ''6''" "is_digit CHR ''2''" by code_simp+
  have D: "c \<in> set D \<Longrightarrow> is_digit c" "c \<in> set (drop 1 D) \<Longrightarrow> is_digit c" for c
    using in_set_dropD [of c 1 D] by (auto simp: D_def)
  from assms have len: "11 \<le> length full" "length full \<le> 15"
    and full: "full = (if take 2 D = ''62'' then D else if take 1 D = ''0'' then ''62'' @ drop 1 D else ''62'' @ D)"
    unfolding normaliseWhatsApp_def Let_def D_def [symmetric] by (simp_all split: if_split_asm)
  from full have "take 2 full = ''62''" by (simp split: if_split_asm)
  moreover have "\<forall>c\<in>set full. is_digit c"
    unfolding full using D 6 by (simp split: if_split)
  ultimately show ?thesis using len by simp
qed

lemma normaliseWhatsApp_again:
  assumes "normaliseWhatsApp raw = Inr full"
  shows "normaliseWhatsApp full = Inr full"
proof -
  note full = normaliseWhatsApp_Inr [OF assms]
  then have "filter is_digit full = full" by (simp add: filter_True)
  moreover from full have "full \<noteq> []" by auto
  ultimately show ?thesis using full unfolding normaliseWhatsApp_def Let_def by simp
qed

section \<open>Issuing a code\<close>

lemma Handover_Issue_Inr:
  assumes run: "Handover_Issue E actor i sid nm ph d = (Inr res, d')"
  shows "(\<exists>ship\<in>set (db_shipments d). sh_ID ship = i \<and> sh_DriverUserID ship = Some (a_UserID actor)) \<and>
    stop_exists d sid \<and> (\<exists>n. rand_code E = Some n \<and> is_Code res = zero_padded 6 n) \<and>
    hv_ShipmentID (is_Handover res) = i \<and> hv_Stage (is_Handover res) = ''unloading'' \<and>
    hv_StopID (is_Handover res) = sid \<and> hv_CodeHash (is_Handover res) = sha256 E (is_Code res) \<and>
    hv_VerifiedAt (is_Handover res) = None \<and> hv_FieldVerifiedAt (is_Handover res) = None \<and>
    hv_Attempts (is_Handover res) = 0 \<and> hv_ExpiresAt (is_Handover res) = now E + handoverCodeTTL \<and>
    db_handovers d' = filter (\<lambda>h. \<not> live_for i ''unloading'' sid h) (db_handovers d) @ [is_Handover res]"
proof -
  from run obtain row l ship r d1 name phone d2 number n token d3 d4 where
    f: "find (\<lambda>r. sh_ID r = i) (db_shipments d) = Some ship" "sh_DriverUserID ship = Some (a_UserID actor)"
    and o: "Orders_FindByIDForService E (sh_OrderID ship) d = (r, d1)"
    and p: "(if trim_space nm = [] \<and> trim_space ph = [] then picForStop E (found r) sid else ok (nm, ph)) d1 =
      (Inr (name, phone), d2)"
    and n: "rand_code E = Some n" "res = \<lparr>is_Handover = row, is_Code = zero_padded 6 n, is_PICLink = l\<rparr>"
    and h: "Handovers_Issue E (new_handover E i sid name number (zero_padded 6 n) token) d2 = (Inr row, d3)"
    and e: "notify (code_event i (a_UserID actor) (hv_ID row)) d3 = (Inr (), d4)"
    and w: "(if WebFieldEnabled E then notifyWarehousePICs E (found r) number (hv_ID row) else ok ()) d4 =
      (Inr (), d')"
    by (auto simp: Handover_Issue_def Let_def generateCode_def handoverCodeDigits_def andThen_Inr
        Shipments_FindByID_def call_Inr split: option.split_asm)
  have "readonly (if trim_space nm = [] \<and> trim_space ph = [] then picForStop E (found r) sid else ok (nm, ph))"
    by (intro op_rules)
  from readonlyD [OF this p] readonlyD [OF readonly_reads(2) o] have "d2 = d" by simp
  moreover have "keeps db_handovers (if WebFieldEnabled E then notifyWarehousePICs E (found r) number (hv_ID row) else ok ())"
    by (intro op_rules)
  from keepsD [OF this w] have "db_handovers d' = db_handovers d4" .
  ultimately show ?thesis
    using f n h e by (auto simp: Handovers_Issue_def call_Inr Let_def new_handover_def notify_eq
        dest: find_Some_iff_first split: if_splits)
qed

section \<open>Confirming a code\<close>

lemma sint_next:
  assumes "sint (a :: int16) < sint (b :: int16)"
  shows "sint (a + 1) = sint a + 1"
proof -
  have "- (2 ^ 15) \<le> sint a" "sint b < 2 ^ 15"
    using sint_ge [of a] sint_lt [of b] by simp_all
  with assms show ?thesis by (simp add: sint_word_ariths signed_take_bit_int_eq_self)
qed

lemma find_update_inv:
  assumes "\<And>x. P (f x) = P x"
  shows "find P (update_where Q f xs) = map_option (\<lambda>x. if Q x then f x else x) (find P xs)"
  using assms by (induction xs) auto

text \<open>What a confirmation asked of the code, and that the visit counts as handed over afterwards.\<close>

lemma Handover_Verify_Inr:
  assumes run: "Handover_Verify E actor i inp d = (Inr h', d')"
  shows "\<exists>h\<in>set (db_handovers d). live_for i ''unloading'' (vf_StopID inp) h \<and> now E \<le> hv_ExpiresAt h \<and>
    sint (hv_Attempts h) < sint (hv_MaxAttempts h) \<and> code_matches E (trim_space (vf_Code inp)) h \<and>
    (\<exists>ship\<in>set (db_shipments d). sh_ID ship = i \<and> sh_DriverUserID ship = Some (a_UserID actor)) \<and>
    hv_ID h' = hv_ID h \<and> fst (IsVerified d' i ''unloading'' (vf_StopID inp))"
proof -
  from run obtain ship h lat lon g d1 where
    f: "find (\<lambda>r. sh_ID r = i) (db_shipments d) = Some ship" "sh_DriverUserID ship = Some (a_UserID actor)"
    and l: "find (live_for i ''unloading'' (vf_StopID inp)) (db_handovers d) = Some h"
    and ok: "now E \<le> hv_ExpiresAt h" "sint (hv_Attempts h) < sint (hv_MaxAttempts h)"
      "code_matches E (trim_space (vf_Code inp)) h"
    and g: "geofenceCheck E ship inp d = (Inr (lat, lon, g), d1)"
    and m: "Handovers_MarkVerified E (hv_ID h) lat lon g d1 = (Inr (), d')"
    and h': "h' = h\<lparr>hv_VerifiedAt := Some (now E), hv_VerifiedLat := lat, hv_VerifiedLon := lon,
      hv_VerifiedWithinGeofence := g\<rparr>"
    by (auto simp: Handover_Verify_def andThen_Inr Shipments_FindByID_def Handovers_FindLive_def call_def fail_def
        query_def one_def not_less not_le split: if_splits option.splits sum.splits)
  have "d1 = d" by (rule readonlyD [OF readonly_handover(2) g])
  from find_Some_iff_first [OF l] have h: "h \<in> set (db_handovers d)" "live_for i ''unloading'' (vf_StopID inp) h"
    by simp_all
  let ?f = "\<lambda>r. r\<lparr>hv_VerifiedAt := Some (now E), hv_VerifiedLat := lat, hv_VerifiedLon := lon,
      hv_VerifiedWithinGeofence := g\<rparr>"
  have "?f h \<in> set (db_handovers d')"
    using m h \<open>d1 = d\<close> in_update_where(2) [OF h(1), of "\<lambda>r. hv_ID r = hv_ID h \<and> hv_VerifiedAt r = None" ?f]
    by (auto simp: Handovers_MarkVerified_def call_Inr live_for_def)
  then have "fst (IsVerified d' i ''unloading'' (vf_StopID inp))"
    using h(2) unfolding IsVerified_iff by (intro bexI [of _ "?f h"]) (auto simp: live_for_def)
  with f ok h h' show ?thesis by (auto intro!: bexI [of _ h] dest: find_Some_iff_first)
qed

text \<open>A code that can still be guessed at, by the driver of the shipment.\<close>

definition guessable :: "env \<Rightarrow> actor \<Rightarrow> uuid \<Rightarrow> uuid option \<Rightarrow> handover \<Rightarrow> db \<Rightarrow> bool" where
  "guessable E actor i sid h d \<longleftrightarrow>
     (\<exists>ship. find (\<lambda>r. sh_ID r = i) (db_shipments d) = Some ship \<and> sh_DriverUserID ship = Some (a_UserID actor)) \<and>
     find (live_for i ''unloading'' sid) (db_handovers d) = Some h \<and> now E \<le> hv_ExpiresAt h \<and>
     distinct (map hv_ID (db_handovers d))"

definition calls_up :: "env \<Rightarrow> repo_call list \<Rightarrow> bool" where
  "calls_up E cs \<longleftrightarrow> (\<forall>c\<in>set cs. \<not> down E c)"

lemma wrong_guess:
  assumes g: "guessable E actor i (vf_StopID inp) h d"
    and up: "calls_up E [ShipmentsFindByID, HandoversFindLive, HandoversRecordAttempt]"
    and left: "sint (hv_Attempts h) < sint (hv_MaxAttempts h)"
    and wrong: "\<not> code_matches E (trim_space (vf_Code inp)) h"
  obtains d' where "Handover_Verify E actor i inp d = (Inl wrong_code, d')"
    "guessable E actor i (vf_StopID inp) (h\<lparr>hv_Attempts := hv_Attempts h + 1\<rparr>) d'"
proof -
  let ?live = "live_for i ''unloading'' (vf_StopID inp)"
  let ?d' = "d\<lparr>db_handovers := update_where (\<lambda>r. hv_ID r = hv_ID h)
      (\<lambda>r. r\<lparr>hv_Attempts := hv_Attempts r + 1\<rparr>) (db_handovers d)\<rparr>"
  from g have l: "find ?live (db_handovers d) = Some h" and u: "distinct (map hv_ID (db_handovers d))"
    by (auto simp: guessable_def)
  from find_Some_iff_first [OF l] have h: "h \<in> set (db_handovers d)" by simp
  have "\<not> list_ex (\<lambda>r. hv_ID r = hv_ID h \<and> sint (hv_Attempts r) = 32767) (db_handovers d)"
  proof
    assume "list_ex (\<lambda>r. hv_ID r = hv_ID h \<and> sint (hv_Attempts r) = 32767) (db_handovers d)"
    then obtain r where "r \<in> set (db_handovers d)" "hv_ID r = hv_ID h" "sint (hv_Attempts r) = 32767"
      by (auto simp: list_ex_iff)
    with u h have "sint (hv_Attempts h) = 32767" by (metis distinct_map inj_onD)
    with left sint_lt [of "hv_MaxAttempts h"] show False by simp
  qed
  with g up left wrong l have "Handover_Verify E actor i inp d = (Inl wrong_code, ?d')"
    by (auto simp: Handover_Verify_def guessable_def calls_up_def andThen_def attempt_def refuse_def
        Shipments_FindByID_def Handovers_FindLive_def Handovers_RecordAttempt_def call_def fail_def ok_def
        query_def one_def bump_def)
  moreover have "guessable E actor i (vf_StopID inp) (h\<lparr>hv_Attempts := hv_Attempts h + 1\<rparr>) ?d'"
    using g find_update_inv [of ?live "\<lambda>r. r\<lparr>hv_Attempts := hv_Attempts r + 1\<rparr>" "\<lambda>r. hv_ID r = hv_ID h" "db_handovers d"]
    by (auto simp: guessable_def live_for_def keyed_update)
  ultimately show ?thesis by (rule that)
qed

definition too_many :: error where
  "too_many = Err ErrValidation ''too many attempts; ask for a new code''"

lemma burnt_code:
  assumes "guessable E actor i (vf_StopID inp) h d" and "sint (hv_MaxAttempts h) \<le> sint (hv_Attempts h)"
    and "calls_up E [ShipmentsFindByID, HandoversFindLive, HandoversRecordAttempt]"
  shows "Handover_Verify E actor i inp d = (Inl too_many, d)"
  using assms
  by (auto simp: Handover_Verify_def guessable_def calls_up_def andThen_def attempt_def refuse_def too_many_def
      Shipments_FindByID_def Handovers_FindLive_def call_def fail_def ok_def query_def one_def)

text \<open>A run of guesses, one request after another.\<close>

fun guesses :: "env \<Rightarrow> actor \<Rightarrow> uuid \<Rightarrow> verify_input list \<Rightarrow> db \<Rightarrow> db" where
  "guesses E actor i [] d = d"
| "guesses E actor i (v # vs) d = guesses E actor i vs (snd (Handover_Verify E actor i v d))"

lemma guesses_burn:
  assumes "guessable E actor i sid h d"
    and "calls_up E [ShipmentsFindByID, HandoversFindLive, HandoversRecordAttempt]"
    and "\<forall>v\<in>set vs. vf_StopID v = sid \<and> \<not> code_matches E (trim_space (vf_Code v)) h"
    and "sint (hv_MaxAttempts h) \<le> sint (hv_Attempts h) + int (length vs)" and "vf_StopID inp = sid"
  shows "Handover_Verify E actor i inp (guesses E actor i vs d) = (Inl too_many, guesses E actor i vs d)"
  using assms(1,3,4)
proof (induction vs arbitrary: d h)
  case Nil
  then show ?case using burnt_code assms(2,5) by simp
next
  case (Cons v vs)
  then have v: "vf_StopID v = sid" by simp
  show ?case
  proof (cases "sint (hv_Attempts h) < sint (hv_MaxAttempts h)")
    case True
    from Cons.prems v have "guessable E actor i (vf_StopID v) h d" "\<not> code_matches E (trim_space (vf_Code v)) h"
      by auto
    from wrong_guess [OF this(1) assms(2) True this(2)] obtain d1 where
      s: "Handover_Verify E actor i v d = (Inl wrong_code, d1)"
      and g: "guessable E actor i sid (h\<lparr>hv_Attempts := hv_Attempts h + 1\<rparr>) d1"
      using v by metis
    have "Handover_Verify E actor i inp (guesses E actor i vs d1) = (Inl too_many, guesses E actor i vs d1)"
      by (rule Cons.IH [OF g]) (use Cons.prems sint_next [OF True] in \<open>auto simp: code_matches_def\<close>)
    with s show ?thesis by simp
  next
    case False
    with Cons.prems v assms(2) have "Handover_Verify E actor i v d = (Inl too_many, d)"
      by (intro burnt_code) auto
    moreover have "Handover_Verify E actor i inp (guesses E actor i vs d) = (Inl too_many, guesses E actor i vs d)"
      by (rule Cons.IH [OF Cons.prems(1)]) (use Cons.prems False in auto)
    ultimately show ?thesis by simp
  qed
qed

section \<open>The page of the receiving side\<close>

text \<open>
  Signing in on the page: the driver has confirmed the code, it was issued within twelve hours, and it
  is the code itself that was typed; the test code does not open the page.
\<close>

lemma FieldSignIn_Inr:
  assumes run: "FieldSignIn E number code u d = (Inr token, d')"
  shows "\<exists>h\<in>set (db_handovers d). hv_Stage h = ''unloading'' \<and> hv_StopID h = None \<and> hv_VerifiedAt h \<noteq> None \<and>
    now E - hv_SentAt h \<le> fieldCodeWindow \<and> sint (hv_FieldAttempts h) < sint (hv_MaxAttempts h) \<and>
    hv_CodeHash h = sha256 E (trim_space code) \<and> hv_FieldToken h = Some token \<and> token \<noteq> [] \<and>
    (\<exists>ord\<in>set (db_orders d). o_OrderNumber ord = to_upper (trim_space number) \<and>
      (\<exists>ship\<in>set (db_shipments d). sh_ID ship = hv_ShipmentID h \<and> sh_OrderID ship = o_ID ord)) \<and>
    (\<exists>h'\<in>set (db_handovers d'). hv_ID h' = hv_ID h \<and> hv_FieldVerifiedAt h' = Some (now E) \<and> hv_FieldToken h' = Some token)"
proof -
  have newest: "newest t rs = Some r \<Longrightarrow> r \<in> set rs" for t :: "'r \<Rightarrow> int" and rs r
    by (induction rs) (auto split: option.splits if_splits)
  from run obtain ord ship h where
    o: "find (\<lambda>r. o_OrderNumber r = to_upper (trim_space number)) (db_orders d) = Some ord"
    and s: "newest sh_CreatedAt (filter (\<lambda>r. sh_OrderID r = o_ID ord) (db_shipments d)) = Some ship"
    and l: "newest hv_SentAt (filter (\<lambda>h. hv_ShipmentID h = sh_ID ship \<and> hv_Stage h = ''unloading'' \<and>
       scopeToStop None h) (db_handovers d)) = Some h"
    and ok: "hv_VerifiedAt h \<noteq> None" "now E - hv_SentAt h \<le> fieldCodeWindow"
      "sint (hv_FieldAttempts h) < sint (hv_MaxAttempts h)" "sha256 E (trim_space code) = hv_CodeHash h"
      "hv_FieldToken h = Some token" "token \<noteq> []"
    and m: "Handovers_MarkFieldVerified E (hv_ID h) u d = (Inr (), d')"
    by (auto simp: FieldSignIn_def fieldResolve_def Let_def andThen_Inr Orders_FindByNumber_def
        Shipments_FindByOrder_def Handovers_LatestForStage_def call_Inr not_less not_le
        split: if_splits option.splits)
  from find_Some_iff_first [OF o] newest [OF s] newest [OF l]
  have w: "ord \<in> set (db_orders d)" "o_OrderNumber ord = to_upper (trim_space number)"
    "ship \<in> set (db_shipments d)" "sh_OrderID ship = o_ID ord" "h \<in> set (db_handovers d)"
    "hv_ShipmentID h = sh_ID ship" "hv_Stage h = ''unloading''" "hv_StopID h = None" by auto
  let ?f = "\<lambda>h. let h' = h\<lparr>hv_FieldVerifiedAt := Some (now E)\<rparr>
     in if u = None then h' else h'\<lparr>hv_FieldPICUserID := u\<rparr>"
  have "?f h \<in> set (db_handovers d')"
    using m in_update_where(2) [OF w(5), of "\<lambda>r. hv_ID r = hv_ID h" ?f]
    by (auto simp: Handovers_MarkFieldVerified_def call_Inr)
  then have "\<exists>h'\<in>set (db_handovers d'). hv_ID h' = hv_ID h \<and> hv_FieldVerifiedAt h' = Some (now E) \<and>
      hv_FieldToken h' = Some token"
    using ok(5) by (intro bexI [of _ "?f h"]) (auto simp: Let_def)
  with w ok show ?thesis by (intro bexI [of _ h]) (auto intro!: bexI [of _ ord] bexI [of _ ship])
qed

lemma fieldByToken_Inr:
  "fieldByToken E token d = (Inr (row, ship), d') \<longleftrightarrow>
     \<not> down E HandoversFindByFieldToken \<and> \<not> down E ShipmentsFindByID \<and> d' = d \<and>
     find (\<lambda>h. hv_FieldToken h = Some token) (db_handovers d) = Some row \<and> hv_FieldVerifiedAt row \<noteq> None \<and>
     find (\<lambda>r. sh_ID r = hv_ShipmentID row) (db_shipments d) = Some ship"
  by (auto simp: fieldByToken_def andThen_Inr Handovers_FindByFieldToken_def Shipments_FindByID_def call_Inr)

lemma RecordFieldAudit_opened:
  assumes "RecordFieldAudit E token inp d = (r, d')" and "d' \<noteq> d"
  shows "\<exists>row ship. fieldByToken E token d = (Inr (row, ship), d) \<and> sh_ManifestFinalizedAt ship = None \<and>
    (fa_Matches inp \<or> trim_space (fa_Note inp) \<noteq> [])"
proof -
  obtain r1 d1 where b: "fieldByToken E token d = (r1, d1)" by fastforce
  then have "d1 = d" by (rule readonlyD [OF readonly_handover(5)])
  with assms b show ?thesis
    by (cases r1) (auto simp: RecordFieldAudit_def andThen_def refuse_def fail_def ok_def split: if_splits)
qed

lemma page_finalized [simp]: "fv_FinalizedAt (page_of E row ship ord latest) = sh_ManifestFinalizedAt ship"
  by (simp add: page_of_def split_beta)

lemma Field_page_Inr:
  assumes "Field_page E token d = (Inr v, d')"
  obtains row ship where "d' = d" "find (\<lambda>h. hv_FieldToken h = Some token) (db_handovers d) = Some row"
    "find (\<lambda>r. sh_ID r = hv_ShipmentID row) (db_shipments d) = Some ship"
    "fv_FinalizedAt v = sh_ManifestFinalizedAt ship"
proof -
  have "d' = d" by (rule readonlyD [OF readonly_handover(6) assms])
  with assms show ?thesis by (auto simp: Field_page_def andThen_Inr Handovers_FindByFieldToken_def
      Shipments_FindByID_def call_Inr intro: that)
qed

lemma FinalizeField_Inr:
  assumes run: "FinalizeField E token picName note d = (Inr v, d')"
  obtains row ship ship' where "fieldByToken E token d = (Inr (row, ship), d)" "sh_UnloadingCargoCheckedAt ship \<noteq> None"
    "db_handovers d' = db_handovers d" "find (\<lambda>r. sh_ID r = hv_ShipmentID row) (db_shipments d') = Some ship'"
    "sh_ManifestFinalizedAt ship' \<noteq> None"
    "sh_ManifestFinalizedAt ship \<noteq> None \<Longrightarrow> ship' = ship"
    "sh_ManifestFinalizedAt ship = None \<Longrightarrow> ship' = finalized_columns E (pickName picName (hv_PICName row)) note ship"
proof -
  from run obtain row ship d0 where b: "fieldByToken E token d = (Inr (row, ship), d0)" and c: "sh_UnloadingCargoCheckedAt ship \<noteq> None"
    and rest: "(if sh_ManifestFinalizedAt ship \<noteq> None then Field_page E token
     else andThen (Shipments_UpdateFields E (sh_ID ship) (finalized_columns E (pickName picName (hv_PICName row)) note)) (\<lambda>_.
       andThen (notifyField E ship ''FIELD_MANIFEST_FINALIZED'' ''field-final'') (\<lambda>_. Field_page E token))) d0 = (Inr v, d')"
    by (auto simp: FinalizeField_def andThen_Inr)
  from b have d0: "d0 = d" by (simp add: fieldByToken_Inr)
  note b = b [unfolded d0] and rest = rest [unfolded d0]
  from b have s: "find (\<lambda>r. sh_ID r = hv_ShipmentID row) (db_shipments d) = Some ship" "sh_ID ship = hv_ShipmentID row"
    by (auto simp: fieldByToken_Inr dest: find_Some_iff_first)
  show ?thesis
  proof (cases "sh_ManifestFinalizedAt ship = None")
    case False
    with rest have "d' = d" by (auto elim: Field_page_Inr)
    with b c s False show ?thesis by (intro that [of row ship ship]) auto
  next
    case True
    let ?f = "finalized_columns E (pickName picName (hv_PICName row)) note"
    from rest True obtain d1 d2 where w: "Shipments_UpdateFields E (sh_ID ship) ?f d = (Inr (), d1)"
      and n: "notifyField E ship ''FIELD_MANIFEST_FINALIZED'' ''field-final'' d1 = (Inr (), d2)"
      and p: "Field_page E token d2 = (Inr v, d')" by (auto simp: andThen_Inr)
    have "d' = d2" using p by (auto elim: Field_page_Inr)
    moreover have "db_shipments d2 = db_shipments d1" "db_handovers d2 = db_handovers d1"
      using keepsD [OF notices_handover(2) [THEN beside_core(3)] n] keepsD [OF notices_handover(2) [THEN beside_core(6)] n]
      by simp_all
    moreover have "db_shipments d1 = update_where (\<lambda>r. sh_ID r = sh_ID ship) ?f (db_shipments d)" "db_handovers d1 = db_handovers d"
      using w by (auto simp: Shipments_UpdateFields_def call_Inr)
    moreover have "find (\<lambda>r. sh_ID r = hv_ShipmentID row) (update_where (\<lambda>r. sh_ID r = sh_ID ship) ?f (db_shipments d)) = Some (?f ship)"
      using find_update_where [of sh_ID ?f] tame_keyed [OF tame_finalized] s by simp
    moreover have "sh_ManifestFinalizedAt (?f ship) \<noteq> None"
      by (simp add: finalized_columns_def Let_def)
    ultimately show ?thesis using b c True by (intro that [of row ship "?f ship"]) auto
  qed
qed

text \<open>The count is closed for good: no audit through the same link changes anything any more.\<close>

lemma finalized_closed:
  assumes "FinalizeField E token picName note d = (Inr v, d1)"
  shows "snd (RecordFieldAudit E2 token inp d1) = d1"
proof (rule ccontr)
  assume c: "snd (RecordFieldAudit E2 token inp d1) \<noteq> d1"
  obtain r d2 where run: "RecordFieldAudit E2 token inp d1 = (r, d2)" by fastforce
  with c have "d2 \<noteq> d1" by simp
  from RecordFieldAudit_opened [OF run this] obtain row ship where
    b: "fieldByToken E2 token d1 = (Inr (row, ship), d1)" and n: "sh_ManifestFinalizedAt ship = None" by blast
  from assms obtain row0 ship0 ship' where "fieldByToken E token d = (Inr (row0, ship0), d)"
    "db_handovers d1 = db_handovers d" "find (\<lambda>r. sh_ID r = hv_ShipmentID row0) (db_shipments d1) = Some ship'"
    "sh_ManifestFinalizedAt ship' \<noteq> None" by (rule FinalizeField_Inr)
  with b n show False by (auto simp: fieldByToken_Inr)
qed

lemma finalized_again:
  assumes "FinalizeField E token picName note d = (Inr v, d1)" and "FinalizeField E2 token p2 n2 d1 = (Inr v2, d2)"
  shows "d2 = d1"
proof -
  from assms(1) obtain row ship ship' where 1: "fieldByToken E token d = (Inr (row, ship), d)"
    "db_handovers d1 = db_handovers d" "find (\<lambda>r. sh_ID r = hv_ShipmentID row) (db_shipments d1) = Some ship'"
    "sh_ManifestFinalizedAt ship' \<noteq> None" by (rule FinalizeField_Inr)
  from assms(2) obtain row2 ship2 where 2: "fieldByToken E2 token d1 = (Inr (row2, ship2), d1)" by (rule FinalizeField_Inr)
  with 1 have "sh_ManifestFinalizedAt ship2 \<noteq> None" by (auto simp: fieldByToken_Inr)
  with assms(2) 2 show ?thesis
    by (auto simp: FinalizeField_def andThen_Inr elim: Field_page_Inr)
qed

end
