(* ===== verification/StatusHistory.thy ===== *)
theory StatusHistory
  imports Handover Pod
begin

text \<open>
  The status history of internal/repository/repository.go: every change of an order's status writes its
  entry in the same transaction. The entries of an order are a path through the order machine from an
  opening status to the status the order has, whichever operations of the services ran.
\<close>

section \<open>The path of an order\<close>

definition trail :: "uuid \<Rightarrow> db \<Rightarrow> status_entry list" where
  "trail i d = filter (\<lambda>h. he_OrderID h = i) (db_history d)"

definition opening_statuses :: "string set" where
  "opening_statuses = {OrderDraft, OrderSubmitted, OrderApproved}"

text \<open>The first entry opens the order; each of the others starts where the one before it ended.\<close>

fun follows_path :: "string option \<Rightarrow> status_entry list \<Rightarrow> string option \<Rightarrow> bool" where
  "follows_path s [] t \<longleftrightarrow> s = t"
| "follows_path s (h # hs) t \<longleftrightarrow> he_FromStatusCode h = s \<and>
     (case s of None \<Rightarrow> he_ToStatusCode h \<in> opening_statuses
      | Some f \<Rightarrow> moves orderTransitions f (he_ToStatusCode h)) \<and>
     follows_path (Some (he_ToStatusCode h)) hs t"

lemma follows_path_snoc:
  "follows_path s (hs @ [h]) t \<longleftrightarrow> (\<exists>m. follows_path s hs m \<and> follows_path m [h] t)"
  by (induction s hs "Some u :: string option" rule: follows_path.induct) auto

definition audited :: "db \<Rightarrow> bool" where
  "audited d \<longleftrightarrow> well_keyed d \<and> (\<forall>h\<in>set (db_history d). he_OrderID h \<in> o_ID ` set (db_orders d)) \<and>
     (\<forall>r\<in>set (db_orders d). follows_path None (trail (o_ID r) d) (Some (o_StatusCode r)))"

text \<open>It depends on the ids and statuses of the orders alone.\<close>

lemma audited_view:
  "audited d \<longleftrightarrow> well_keyed d \<and> (\<forall>h\<in>set (db_history d). he_OrderID h \<in> fst ` set (order_view d)) \<and>
     (\<forall>(i, s)\<in>set (order_view d). follows_path None (trail i d) (Some s))"
  by (force simp: audited_def order_view_def)

lemma audited_same:
  assumes "preserves well_keyed m" and "keeps db_history m" and "keeps order_view m"
  shows "preserves audited m"
  using assms by (simp add: preserves_def keeps_def audited_view trail_def)

lemma keeps_order_view: "keeps db_orders m \<Longrightarrow> keeps order_view m"
  by (simp add: keeps_def order_view_def)

lemmas audited_frame = audited_same [OF _ _ keeps_order_view]

section \<open>Statements\<close>

lemma frame_history [op_rules]:
  "keeps db_history (Orders_UpdateFields E i f)" "keeps db_history (Shipments_Create E s)"
  "keeps db_history (Shipments_ApplyStatus E i from to g)" "keeps db_history (Shipments_UpdateFields E i g)"
  "keeps db_history (Stops_Replace E i ss)" "keeps db_history (Stops_UpdateFields E i h)"
  "keeps db_history (Pods_Submit E p)" "keeps db_history (Pods_Review E i st rs u)"
  "keeps db_history (Handovers_Issue E hv)" "keeps db_history (Handovers_RecordFieldAttempt E i)"
  "keeps db_history (Handovers_MarkFieldVerified E i u')" "keeps db_history (Handovers_SetPICName E i nm)"
  "keeps db_history (Handovers_RecordAttempt E i)" "keeps db_history (Handovers_MarkVerified E i lat lon w)"
  "keeps db_history (notify ev)"
  by (auto simp: keeps_def call_def fail_def exec_def Let_def notify_def ok_def bump_def Orders_UpdateFields_def
      Shipments_Create_def Shipments_ApplyStatus_def Shipments_UpdateFields_def Stops_Replace_def
      Stops_UpdateFields_def Pods_Submit_def Pods_Review_def Handovers_Issue_def
      Handovers_RecordFieldAttempt_def Handovers_MarkFieldVerified_def Handovers_SetPICName_def
      Handovers_RecordAttempt_def Handovers_MarkVerified_def)

lemma audited_statements [op_rules]:
  "preserves audited (Shipments_Create E s)" "preserves audited (Stops_Replace E i ss)"
  "preserves audited (Pods_Submit E p)" "preserves audited (Pods_Review E i st rs u)"
  "preserves audited (Handovers_Issue E hv)" "preserves audited (Handovers_RecordFieldAttempt E i)"
  "preserves audited (Handovers_MarkFieldVerified E i u')" "preserves audited (Handovers_SetPICName E i nm)"
  "preserves audited (Handovers_RecordAttempt E i)" "preserves audited (Handovers_MarkVerified E i lat lon w)"
  "preserves audited (notify ev)"
  by (rule audited_frame; intro op_rules)+

lemma audited_shipment_write:
  assumes "\<And>r. sh_ID (f r) = sh_ID r"
  shows "preserves audited (Shipments_UpdateFields E i f)" "preserves audited (Shipments_ApplyStatus E i from to f)"
  by (rule audited_frame; intro op_rules well_keyed_shipment_update assms)+

lemma audited_stop_write:
  "(\<And>r. st_ID (f r) = st_ID r) \<Longrightarrow> preserves audited (Stops_UpdateFields E i f)"
  by (rule audited_frame; intro op_rules well_keyed_stop_update; assumption?)

lemma audited_order_write:
  assumes "\<And>r. o_ID (f r) = o_ID r" and "\<And>r. o_StatusCode (f r) = o_StatusCode r"
  shows "preserves audited (Orders_UpdateFields E i f)"
proof (rule audited_same)
  show "preserves well_keyed (Orders_UpdateFields E i f)" by (rule well_keyed_order_update) (rule assms(1))
  show "keeps db_history (Orders_UpdateFields E i f)" by (intro op_rules)
  show "keeps order_view (Orders_UpdateFields E i f)"
    using assms by (auto simp: keeps_def Orders_UpdateFields_def call_def fail_def Let_def order_view_def
        map_update_where)
qed

lemma audited_change:
  assumes "CanTransitionOrder (sc_From ch) (sc_To ch) role = None" and "tame_order_change ch"
  shows "preserves audited (Orders_ApplyStatus E ch)"
  unfolding preserves_def
proof (intro allI impI)
  fix d assume a: "audited d"
  obtain r d' where run: "Orders_ApplyStatus E ch d = (r, d')" by fastforce
  have mv: "moves orderTransitions (sc_From ch) (sc_To ch)"
    using assms(1) by (auto simp: CanTransitionOrder_def intro: moves.move)
  have "audited d'"
  proof (cases r)
    case (Inl e)
    with run a show ?thesis by (auto dest: cleanD [OF clean_writes(2)])
  next
    case (Inr u)
    note run = run [unfolded Inr]
    from order_cas.matched [OF run] have m: "(sc_OrderID ch, sc_From ch) \<in> set (order_view d)" .
    from order_cas.applied [OF run assms(2)] have v: "order_view d' = map (\<lambda>(k, st). (k, if k = sc_OrderID ch \<and> st = sc_From ch then sc_To ch else st)) (order_view d)" .
    from run obtain h where h: "db_history d' = db_history d @ [h]" "he_OrderID h = sc_OrderID ch"
      "he_FromStatusCode h = Some (sc_From ch)" "he_ToStatusCode h = sc_To ch"
      by (auto simp: Orders_ApplyStatus_def call_Inr Let_def split: if_splits)
    have "well_keyed d'" using a preservesD [OF change_rules(2) [OF assms] run] by (simp add: audited_def)
    moreover have "fst ` set (order_view d') = fst ` set (order_view d)" by (force simp: v image_iff)
    then have "\<forall>g\<in>set (db_history d'). he_OrderID g \<in> fst ` set (order_view d')"
      using a m h by (force simp: audited_view)
    moreover have "follows_path None (trail i d') (Some s)" if "(i, s) \<in> set (order_view d')" for i s
    proof (cases "i = sc_OrderID ch")
      case False
      with that v have "(i, s) \<in> set (order_view d)" by auto
      moreover have "trail i d' = trail i d" using h False by (simp add: trail_def)
      ultimately show ?thesis using a by (auto simp: audited_view)
    next
      case True
      have "distinct (map fst (order_view d))" using a by (simp add: audited_def well_keyed_def order_view_def comp_def)
      then have "s = sc_To ch"
        by (rule unique_row_moves [of "order_view d" i "sc_From ch" s "sc_To ch"]) (use that v m True in simp_all)
      moreover have "follows_path None (trail i d) (Some (sc_From ch))" using a m True by (auto simp: audited_view)
      ultimately show ?thesis using mv h True by (simp add: trail_def follows_path_snoc)
    qed
    ultimately show ?thesis by (auto simp: audited_view)
  qed
  with run show "audited (snd (Orders_ApplyStatus E ch d))" by simp
qed

lemma audited_create:
  assumes "o_StatusCode ord \<in> opening_statuses"
  shows "preserves audited (Orders_Create E ord)"
  unfolding preserves_def
proof (intro allI impI)
  fix d assume a: "audited d"
  let ?i = "db_next_uuid d"
  have fresh: "?i \<notin> o_ID ` set (db_orders d)" using a by (auto simp: audited_def well_keyed_def)
  have "well_keyed (snd (Orders_Create E ord d))"
    using a well_keyed_creates(1) by (simp add: preserves_def audited_def)
  moreover have "he_OrderID h \<noteq> ?i" if "h \<in> set (db_history d)" for h
    using that a fresh unfolding audited_def by metis
  then have "trail ?i d = []" by (auto simp: trail_def filter_empty_conv)
  moreover have "trail (o_ID r) d' = trail (o_ID r) d" if "r \<in> set (db_orders d)" "db_history d' = db_history d @ [h]" "he_OrderID h = ?i"
    for r d' h using that fresh by (auto simp: trail_def)
  ultimately show "audited (snd (Orders_Create E ord d))"
    using a assms by (auto simp: audited_def Orders_Create_def call_def fail_def Let_def trail_def)
qed

section \<open>Operations\<close>

lemmas audited_reads [op_rules] = readonly_reads [THEN preserves_readonly] 

lemma beside_core_audited:
  assumes "keeps core m"
  shows "preserves audited m"
  by (rule audited_frame) (rule beside_core [OF assms])+

lemmas audited_notices [op_rules] = keeps_core(2,3) [THEN beside_core_audited]
  notices_core [THEN beside_core_audited] planning_core [THEN beside_core_audited] notices_handover [THEN beside_core_audited]

lemma audited_SyncStops [op_rules]: "preserves audited (SyncStops E ord)"
  by (rule audited_frame; intro op_rules)

lemma audited_SetStopSequence [op_rules]: "preserves audited (SetStopSequence E actor i seq)"
  unfolding SetStopSequence_def Let_def by (intro op_rules audited_order_write; simp)

lemma audited_advance [op_rules]: "preserves audited (advance E actor ship ord inp role)"
proof -
  have n: "preserves audited (notifyAdvance actor ord st)" for st
    unfolding notifyAdvance_def by (intro op_rules)
  have s: "preserves audited (syncOrderStatus E actor ord st)" for st
    unfolding syncOrderStatus_def
    by (auto intro!: op_rules audited_change simp: tame_order_change_def split: option.split)
  have w: "preserves audited (Shipments_ApplyStatus E i from to cols)"
    if "recordArrival E inp ord (stamped E (ai_To inp)) enf = Inr cols" for i "from" to cols enf
    by (rule audited_shipment_write) (rule tame_keyed [OF recordArrival_tame [OF that tame_stamped]])
  show ?thesis unfolding advance_def
    by (cases "CanTransitionShipment (sh_StatusCode ship) (ai_To inp) role")
       (auto intro!: preserves_result op_rules n s w)
qed

lemma audited_shipment_service [op_rules]:
  "preserves audited (Advance E actor inp)" "preserves audited (Accept E actor i pos)"
  "preserves audited (RecordCargoCheck E ship cc)" "preserves audited (ReportGeofenceEvent E i wh entering t)"
proof -
  show "preserves audited (Advance E actor inp)" unfolding Advance_def by (intro op_rules)
  show "preserves audited (Accept E actor i pos)"
    unfolding Accept_def Let_def by (intro op_rules audited_shipment_write) (simp split: option.split)
  show "preserves audited (RecordCargoCheck E ship cc)"
    unfolding RecordCargoCheck_def by (intro op_rules audited_shipment_write; simp)
  show "preserves audited (ReportGeofenceEvent E i wh entering t)"
    unfolding ReportGeofenceEvent_def
    by (auto intro!: op_rules audited_shipment_write dest: tame_crossing tame_keyed)
qed

lemma audited_walks [op_rules]:
  "preserves audited (walk n E actor ship ord to role pos)" "preserves audited (walkShipmentTo E actor ship ord to role pos)"
  "preserves audited (walk_steps E actor ord steps ship)"
proof -
  show w: "preserves audited (walk n E actor ship ord to role pos)" for n ship ord to role pos
    by (induction n arbitrary: ship) (auto simp: Let_def intro!: op_rules)
  show t: "preserves audited (walkShipmentTo E actor ship ord to role pos)" for ship ord to role pos
    unfolding walkShipmentTo_def by (intro op_rules w)
  show "preserves audited (walk_steps E actor ord steps ship)"
    by (induction steps arbitrary: ship) (auto intro!: op_rules t)
qed

lemma audited_visits [op_rules]:
  "preserves audited (ArriveAtStop E actor i inp1)" "preserves audited (StartStop E actor i inp2)"
  "preserves audited (CheckStopCargo E actor i inp3)"
  unfolding ArriveAtStop_def StartStop_def CheckStopCargo_def Let_def
  by (intro op_rules audited_stop_write; simp)+

lemma audited_pods [op_rules]:
  "preserves audited (Submit E actor i si)" "preserves audited (Review E actor i p rv)"
  "preserves audited (CargoCheck E actor i st m n)"
proof -
  have n: "preserves audited (notifyPod E actor ord k st a)" for ord k st a
    unfolding notifyPod_def by (intro op_rules)
  have c: "preserves audited (closeStop E pod oid)" for pod oid
    unfolding closeStop_def by (intro op_rules audited_stop_write; simp)
  show "preserves audited (Submit E actor i si)" "preserves audited (CargoCheck E actor i st m n)"
    unfolding Submit_def CargoCheck_def by (intro op_rules n)+
  show "preserves audited (Review E actor i p rv)"
    unfolding Review_def Let_def by (intro op_rules n c)
qed

lemma audited_handovers [op_rules]:
  "preserves audited (Handover_Issue E actor i sid nm ph)" "preserves audited (Handover_Verify E actor i vf)"
  "preserves audited (FieldSignIn E num c u)" "preserves audited (RecordFieldAudit E tok fa)"
  "preserves audited (FinalizeField E tok nm note)"
proof -
  have w: "preserves audited (Shipments_UpdateFields E j f)" if "tame_columns f" for j f
    by (rule audited_shipment_write) (rule tame_keyed [OF that])
  show "preserves audited (Handover_Issue E actor i sid nm ph)" "preserves audited (Handover_Verify E actor i vf)"
    "preserves audited (FieldSignIn E num c u)"
    unfolding Handover_Issue_def Handover_Verify_def FieldSignIn_def Let_def by (intro op_rules)+
  show "preserves audited (RecordFieldAudit E tok fa)" "preserves audited (FinalizeField E tok nm note)"
    unfolding RecordFieldAudit_def FinalizeField_def by (intro op_rules w tame_audit tame_finalized)+
qed

section \<open>Orders\<close>

text \<open>What an operation may answer, for what comes after it.\<close>

definition answers :: "('a \<Rightarrow> bool) \<Rightarrow> ('s, 'a) op \<Rightarrow> bool" where
  "answers Q m \<longleftrightarrow> (\<forall>s x s'. m s = (Inr x, s') \<longrightarrow> Q x)"

lemma preserves_answers:
  assumes "preserves P m" and "answers Q m" and "\<And>x. Q x \<Longrightarrow> preserves P (g x)"
  shows "preserves P (andThen m g)"
  unfolding preserves_def
proof (intro allI impI)
  fix s assume "P s"
  obtain r s1 where m: "m s = (r, s1)" by fastforce
  with assms(1) \<open>P s\<close> have "P s1" by (metis preservesD)
  with m assms(2,3) show "P (snd (andThen m g s))"
    by (cases r) (auto simp: andThen_def preserves_def answers_def)
qed

lemma answers_rules:
  "answers Q (fail e)" "Q x \<Longrightarrow> answers Q (ok x)" "(\<And>x. answers Q (g x)) \<Longrightarrow> answers Q (andThen m g)"
  "answers Q a \<Longrightarrow> answers Q b \<Longrightarrow> answers Q (if c then a else b)"
  "answers Q n \<Longrightarrow> (\<And>x. answers Q (h x)) \<Longrightarrow> answers Q (case v of None \<Rightarrow> n | Some x \<Rightarrow> h x)"
  "(\<And>e. answers Q (p e)) \<Longrightarrow> (\<And>x. answers Q (q x)) \<Longrightarrow> answers Q (case r of Inl e \<Rightarrow> p e | Inr x \<Rightarrow> q x)"
  by (auto simp: answers_def andThen_Inr split: option.splits sum.splits)

lemma opens_draft: "answers (\<lambda>r. o_StatusCode r \<in> opening_statuses) (draft_order E actor inp)"
  by (auto simp: answers_def draft_order_def andThen_Inr new_order_def opening_statuses_def split: option.splits)

lemma opens_priced:
  assumes "o_StatusCode ord \<in> opening_statuses"
  shows "answers (\<lambda>r. o_StatusCode r \<in> opening_statuses)
    (case ag of None \<Rightarrow> ok ord | Some a \<Rightarrow> applyAgreementPrice E actor a ord)"
  unfolding applyAgreementPrice_def lane_price_def Let_def using assms by (intro answers_rules) simp_all

lemma audited_orders [op_rules]:
  "preserves audited (Orders_Place E actor inp)" "preserves audited (Orders_Transition E actor i to note)"
  "preserves audited (AssignDriver E actor i drv trk)" "preserves audited (SetGeofencing E actor i b)"
  "preserves audited (PatchDetail E actor i patch)"
proof -
  show "preserves audited (Orders_Place E actor inp)"
    unfolding Orders_Place_def
    by (intro op_rules preserves_answers [OF _ opens_draft] preserves_answers [OF _ opens_priced] audited_create)
  show "preserves audited (Orders_Transition E actor i to note)" "preserves audited (AssignDriver E actor i drv trk)"
    unfolding Orders_Transition_def AssignDriver_def by (auto intro!: op_rules audited_change)
  show "preserves audited (SetGeofencing E actor i b)" "preserves audited (PatchDetail E actor i patch)"
    unfolding SetGeofencing_def PatchDetail_def Let_def by (intro op_rules audited_order_write; simp)+
qed

lemma audited_UpdateDraft:
  assumes "writes_its_column E"
  shows "preserves audited (UpdateDraft E actor i input)"
proof -
  have "spares_core f" if "set_columns E (editable input) = Some f" for f
    using that assms editable_columns by (rule set_columns_spare)
  then show ?thesis
    unfolding UpdateDraft_def spares_core_def by (auto intro!: op_rules audited_order_write)
qed

end
