(* ===== verification/Service.thy ===== *)
theory Service
  imports StatusHistory FieldConfig
begin

text \<open>
  The services together: every request that writes orders, shipments, stops, proofs of delivery or
  handover codes, handled one after another from an empty store, each in its own environment (its own
  time, its own outages and answers of the other services). Every caller of a writing repository
  method under internal/services is one of these requests.
\<close>

section \<open>Requests\<close>

datatype request =
    PlaceOrder create_input
  | MoveOrder uuid string string
  | GiveDriver uuid string string
  | EditDraft uuid "(string \<times> json) list"
  | FenceOrder uuid "bool option"
  | PatchOrder uuid "(string \<times> json) list"
  | SequenceStops uuid "(string \<times> json) list list"
  | AdvanceShipment advance_input
  | AcceptShipment uuid "position option"
  | CrossGeofence uuid string bool time
  | ReachStop uuid visit_input
  | BeginStop uuid visit_input
  | CheckStop uuid visit_input
  | SubmitPod uuid submit_input
  | ReviewPod uuid uuid review_input
  | CheckCargo uuid string bool string
  | IssueCode uuid "uuid option" string string
  | VerifyCode uuid verify_input
  | OpenField string string "uuid option"
  | AuditField string field_audit_input
  | CloseField string string string
  | ConfigureFields string "field_setting list"

definition finished :: "(db, 'a) op \<Rightarrow> (db, unit) op" where
  "finished m = andThen m (\<lambda>_. ok ())"

fun serve :: "env \<Rightarrow> actor \<Rightarrow> request \<Rightarrow> (db, unit) op" where
  "serve E actor (PlaceOrder inp) = finished (Orders_Place E actor inp)"
| "serve E actor (MoveOrder i to note) = finished (Orders_Transition E actor i to note)"
| "serve E actor (GiveDriver i drv trk) = finished (AssignDriver E actor i drv trk)"
| "serve E actor (EditDraft i inp) = finished (UpdateDraft E actor i inp)"
| "serve E actor (FenceOrder i b) = finished (SetGeofencing E actor i b)"
| "serve E actor (PatchOrder i patch) = finished (PatchDetail E actor i patch)"
| "serve E actor (SequenceStops i seq) = finished (SetStopSequence E actor i seq)"
| "serve E actor (AdvanceShipment inp) = finished (Advance E actor inp)"
| "serve E actor (AcceptShipment i pos) = finished (Accept E actor i pos)"
| "serve E actor (CrossGeofence i wh entering t) = finished (ReportGeofenceEvent E i wh entering t)"
| "serve E actor (ReachStop i inp) = finished (ArriveAtStop E actor i inp)"
| "serve E actor (BeginStop i inp) = finished (StartStop E actor i inp)"
| "serve E actor (CheckStop i inp) = finished (CheckStopCargo E actor i inp)"
| "serve E actor (SubmitPod i inp) = finished (Submit E actor i inp)"
| "serve E actor (ReviewPod i p inp) = finished (Review E actor i p inp)"
| "serve E actor (CheckCargo i st m n) = finished (CargoCheck E actor i st m n)"
| "serve E actor (IssueCode i sid nm ph) = finished (Handover_Issue E actor i sid nm ph)"
| "serve E actor (VerifyCode i inp) = finished (Handover_Verify E actor i inp)"
| "serve E actor (OpenField num c u) = finished (FieldSignIn E num c u)"
| "serve E actor (AuditField tok inp) = finished (RecordFieldAudit E tok inp)"
| "serve E actor (CloseField tok nm note) = finished (FinalizeField E tok nm note)"
| "serve E actor (ConfigureFields e ss) = finished (FieldConfig_Update E actor e ss)"

section \<open>Steps\<close>

text \<open>
  A step is a request, or a write of the rest of the program to the tables beside these (agreements,
  invoices, settings), which leaves them alone.
\<close>

inductive step :: "db \<Rightarrow> db \<Rightarrow> bool" where
  request: "writes_its_column E \<Longrightarrow> serve E actor rq d = (r, d') \<Longrightarrow> step d d'"
| beside: "core d' = core d \<Longrightarrow> step d d'"

inductive_cases stepE: "step d d'"

inductive reachable :: "db \<Rightarrow> bool" where
  empty: "core d = core empty_db \<Longrightarrow> reachable d"
| onward: "reachable d \<Longrightarrow> step d d' \<Longrightarrow> reachable d'"

section \<open>Every request keeps the invariants\<close>

lemma keeps_core_fields [op_rules]: "keeps core (FieldConfig_Update E actor e ss)"
proof -
  have s: "keeps core (SetOverride E c e k r l u)" for c e k r l u
    by (auto simp: keeps_def SetOverride_def call_def fail_def exec_def Let_def core_def)
  have "keeps core (write_all E actor e ss)" by (induction ss) (auto intro!: op_rules s)
  then show ?thesis unfolding FieldConfig_Update_def by (intro op_rules)
qed

lemmas field_update_rules [op_rules] = keeps_core_fields [THEN beside_core(7)] keeps_core_fields [THEN beside_core(8)]
  keeps_core_fields [THEN beside_core(9)] keeps_core_fields [THEN beside_core(10)]
  keeps_core_fields [THEN beside_core(11)] keeps_core_fields [THEN beside_core(12)]
  keeps_core_fields [THEN beside_core_audited]

lemma finished_rules:
  "follows shipments_run m \<Longrightarrow> follows shipments_run (finished m)"
  "follows orders_run m \<Longrightarrow> follows orders_run (finished m)"
  "follows records_kept m \<Longrightarrow> follows records_kept (finished m)"
  "preserves P m \<Longrightarrow> preserves P (finished m)"
  unfolding finished_def by (intro op_rules; assumption)+

text \<open>An arrival keeps a journey in order because its stop is the one that was read: ids are unique.\<close>

definition sound :: "db \<Rightarrow> bool" where
  "sound d \<longleftrightarrow> audited d \<and> one_live d \<and> journeys_in_order d"

lemma sound_rule:
  assumes "preserves audited m" and "preserves one_live m" and "preserves journeys_in_order m"
  shows "preserves sound m"
  using assms by (simp add: preserves_def sound_def)

lemma sound_arrival: "preserves sound (ArriveAtStop E actor i inp)"
  unfolding preserves_def
proof (intro allI impI)
  fix d assume d: "sound d"
  obtain r d' where run: "ArriveAtStop E actor i inp d = (r, d')" by fastforce
  have "well_keyed d" using d by (simp add: sound_def audited_def)
  with run d have "journeys_in_order d'" by (auto simp: sound_def intro: ArriveAtStop_in_order)
  moreover have "audited d'" by (rule preservesD [OF audited_visits(1) run]) (use d in \<open>simp add: sound_def\<close>)
  moreover have "one_live d'" by (rule preservesD [OF visits_rules(2) run]) (use d in \<open>simp add: sound_def\<close>)
  ultimately show "sound (snd (ArriveAtStop E actor i inp d))" using run by (simp add: sound_def)
qed

lemma serve_rules:
  assumes "writes_its_column E"
  shows "follows shipments_run (serve E actor rq)" "follows orders_run (serve E actor rq)"
    "follows records_kept (serve E actor rq)" "preserves sound (serve E actor rq)"
proof -
  show "follows shipments_run (serve E actor rq)" "follows orders_run (serve E actor rq)"
    "follows records_kept (serve E actor rq)"
    by (cases rq; simp only: serve.simps; intro finished_rules op_rules UpdateDraft_rules [OF assms])+
  show "preserves sound (serve E actor rq)"
    by (cases rq; simp only: serve.simps; rule finished_rules; (rule sound_arrival)?;
        (intro sound_rule op_rules UpdateDraft_rules [OF assms] audited_UpdateDraft [OF assms])?)
qed

lemma same_core:
  assumes "core d' = core d"
  shows "shipments_run d d' \<and> orders_run d d' \<and> records_kept d d' \<and> (sound d \<longrightarrow> sound d')"
  using assms by (auto simp: sound_def core_def shipments_run_def orders_run_def shipment_view_def order_view_def
      rows_run_refl records_kept_def well_keyed_def decided_pods_def pod_view_def confirmed_codes_def
      arrivals_def starts_def audited_def trail_def one_live_def live_codes_def journeys_in_order_def stops_of_def)

lemma step_follows: "step d d' \<Longrightarrow> shipments_run d d' \<and> orders_run d d' \<and> records_kept d d'"
  by (erule stepE) (auto dest: serve_rules(1-3) [THEN followsD] same_core)

lemma steps_follow: "step\<^sup>*\<^sup>* d d' \<Longrightarrow> shipments_run d d' \<and> orders_run d d' \<and> records_kept d d'"
proof (induction rule: rtranclp_induct)
  case (step d1 d2)
  with step_follows [OF step.hyps(2)] show ?case
    by (blast intro: shipments.onward orders.onward records.onward)
qed (simp add: shipments.stays orders.stays records.stays)

lemma step_keeps: "step d d' \<Longrightarrow> sound d \<Longrightarrow> sound d'"
  by (erule stepE) (auto dest: serve_rules(4) [THEN preservesD] same_core)

lemma reachable_sound: "reachable d \<Longrightarrow> sound d"
proof (induction rule: reachable.induct)
  case (empty d)
  have "sound empty_db"
    using well_keyed_empty by (simp add: sound_def audited_def one_live_def live_codes_def journeys_in_order_def
        stops_of_def empty_db_def)
  with same_core [OF empty] show ?case by blast
next
  case (onward d d')
  with step_keeps [OF onward.hyps(2)] show ?case by blast
qed

lemma reachable_keyed: "reachable d \<Longrightarrow> well_keyed d"
  using reachable_sound by (auto simp: sound_def audited_def)

text \<open>Several requests in a row, each in an environment of its own.\<close>

fun serve_all :: "(env \<times> actor \<times> request) list \<Rightarrow> db \<Rightarrow> db" where
  "serve_all [] d = d"
| "serve_all ((E, actor, rq) # rest) d = serve_all rest (snd (serve E actor rq d))"

lemma serve_all_steps:
  "(\<And>E actor rq. (E, actor, rq) \<in> set rqs \<Longrightarrow> writes_its_column E) \<Longrightarrow> step\<^sup>*\<^sup>* d (serve_all rqs d)"
proof (induction rqs arbitrary: d)
  case (Cons x rqs)
  obtain E actor rq where x: "x = (E, actor, rq)" by (cases x) auto
  then have "step d (snd (serve E actor rq d))"
    using Cons.prems [of E actor rq] by (intro step.request [of E]) (auto intro: prod.collapse [symmetric])
  moreover have "step\<^sup>*\<^sup>* (snd (serve E actor rq d)) (serve_all rqs (snd (serve E actor rq d)))"
    by (rule Cons.IH) (auto intro: Cons.prems)
  ultimately show ?case using x by simp
qed simp

lemma steps_reachable: "step\<^sup>*\<^sup>* d d' \<Longrightarrow> reachable d \<Longrightarrow> reachable d'"
  by (induction rule: rtranclp_induct) (auto intro: reachable.onward)

end
