(* ===== verification/Sample.thy ===== *)
theory Sample
  imports Service
begin

text \<open>
  One order on the road, used to run the modelled operations on concrete rows: a shipper (company
  10) and its transporter (company 20), a driver (user 31), one truckload from W1 to W2 with the
  geofence enforced, and the two stops of its journey.
\<close>

definition sample_order :: "string \<Rightarrow> order" where
  "sample_order status =
     \<lparr>o_ID = 1, o_OrderNumber = ''ORD-2025-000001'', o_AgreementID = None, o_AgreementRootID = None,
      o_ShipperCompanyID = 10, o_TransporterCompanyID = Some 20, o_CreatedByUserID = 11,
      o_OrderKind = ''standard'', o_StatusCode = status, o_DriverID = Some ''D1'',
      o_DriverUserID = Some 31, o_TruckID = Some ''T1'', o_OriginWarehouseID = Some ''W1'',
      o_DestinationWarehouseID = Some ''W2'', o_CargoTypeID = None, o_ItemTypeID = None,
      o_Quantity = None, o_WeightKg = None, o_VolumeM3 = None, o_PickupAt = None,
      o_DeliveryAt = None, o_ExpiresAt = None, o_Price = None, o_CurrencyID = None,
      o_CustomerID = None, o_ReferenceNumber = None, o_GeofencingEnabled = Some True,
      o_Detail = (\<lambda>_. None), o_CancelledAt = None, o_CancelledByUserID = None,
      o_CancelReason = None\<rparr>"

definition sample_shipment :: "string \<Rightarrow> shipment" where
  "sample_shipment status = (new_shipment 1 (Some ''D1'') (Some 31) (Some ''T1'') status)\<lparr>sh_ID := 2\<rparr>"

definition sample_stop :: "uuid \<Rightarrow> int16 \<Rightarrow> string \<Rightarrow> string \<Rightarrow> order_stop" where
  "sample_stop i n kind site = (blank_stop n 1 kind site)\<lparr>st_ID := i, st_OrderID := 1\<rparr>"

definition sample_pod :: "string \<Rightarrow> uuid option \<Rightarrow> string \<Rightarrow> shipment_pod" where
  "sample_pod stage stop status =
     \<lparr>pd_ID = 5, pd_ShipmentID = 2, pd_Stage = stage, pd_Photos = [(''deliveryOrder'', ''u'')],
      pd_Note = None, pd_Status = status, pd_RejectionReason = None, pd_StopID = stop,
      pd_SubmittedByUserID = Some 31, pd_SubmittedAt = 900, pd_ReviewedByUserID = None,
      pd_ReviewedAt = None\<rparr>"

definition sample_code :: "time option \<Rightarrow> uuid option \<Rightarrow> handover" where
  "sample_code verified stop =
     \<lparr>hv_ID = 6, hv_ShipmentID = 2, hv_Stage = ''unloading'', hv_StopID = stop, hv_PICName = None,
      hv_PICWhatsApp = ''628120000'', hv_FieldToken = Some ''tok'', hv_CodeHash = ''hash'',
      hv_Attempts = 0, hv_MaxAttempts = 5, hv_SentAt = 900, hv_ExpiresAt = 4500,
      hv_VerifiedAt = verified, hv_CodeRecipient = ''pic'', hv_FieldVerifiedAt = None,
      hv_FieldAttempts = 0, hv_FieldPICUserID = None, hv_VerifiedLat = None, hv_VerifiedLon = None,
      hv_VerifiedWithinGeofence = None\<rparr>"

text \<open>The order and its shipment in given states, with the two stops.\<close>

definition sample_db :: "string \<Rightarrow> string \<Rightarrow> db" where
  "sample_db order_status shipment_status = empty_db
     \<lparr>db_orders := [sample_order order_status], db_shipments := [sample_shipment shipment_status],
      db_stops := [sample_stop 3 1 StopLoad ''W1'', sample_stop 4 2 StopUnload ''W2''],
      db_next_uuid := 7\<rparr>"

definition sample_driver :: actor where
  "sample_driver = \<lparr>a_UserID = 31, a_CompanyID = 20, a_Role = RoleDriver, a_PlatformStaff = False,
     a_ActingFor = False, a_StatusBypass = False\<rparr>"

definition sample_shipper :: actor where
  "sample_shipper = \<lparr>a_UserID = 11, a_CompanyID = 10, a_Role = RoleShipper, a_PlatformStaff = False,
     a_ActingFor = False, a_StatusBypass = False\<rparr>"

definition sample_planner :: actor where
  "sample_planner = \<lparr>a_UserID = 21, a_CompanyID = 20, a_Role = RoleTransporter,
     a_PlatformStaff = False, a_ActingFor = False, a_StatusBypass = False\<rparr>"

definition sample_position :: position where
  "sample_position = \<lparr>pos_Latitude = 0, pos_Longitude = 0\<rparr>"

text \<open>Both sites are known, with the default radius, and every distance is zero.\<close>

definition sample_site :: warehouse where
  "sample_site = \<lparr>w_Name = ''Gudang'', w_Address = ''Jl. Raya'', w_CityID = ''C1'', w_Latitude = 0, w_Longitude = 0,
     w_GeofenceRadiusMeters = 0, w_PicName = ''Budi'', w_PicPhone = ''0812'', w_PicUserIds = [''41'']\<rparr>"

definition sample_env :: env where
  "sample_env = calm\<lparr>GetWarehouse := (\<lambda>_. Some sample_site)\<rparr>"

lemmas sample_defs = sample_order_def sample_shipment_def sample_stop_def sample_pod_def sample_code_def
  sample_db_def sample_driver_def sample_shipper_def sample_planner_def sample_position_def
  sample_site_def sample_env_def

text \<open>An operation that answers a value has a run.\<close>

lemma answered: "\<not> isl (fst (m s)) \<Longrightarrow> \<exists>x s'. m s = (Inr x, s')"
  by (cases "m s"; cases "fst (m s)") auto

lemma sample_keyed: "well_keyed (sample_db o_st s_st)"
  by (simp add: well_keyed_def sample_defs empty_db_def new_shipment_def blank_stop_def)

lemma sample_in_order: "journeys_in_order (sample_db o_st s_st)"
  by (auto simp: journeys_in_order_def stops_of_def sample_defs empty_db_def blank_stop_def)

lemma sample_one_live: "one_live (sample_db o_st s_st)"
  by (simp add: one_live_def live_codes_def sample_db_def empty_db_def)

text \<open>The driver sets out: the operation runs on the rows.\<close>

definition setting_out :: advance_input where
  "setting_out = \<lparr>ai_ShipmentID = 2, ai_To = ShipmentToLoading, ai_Position = None, ai_Note = []\<rparr>"

lemma sets_out:
  "\<exists>ship d. Advance sample_env sample_driver setting_out (sample_db OrderAssigned ShipmentAssigned)
     = (Inr ship, d)"
  by (rule answered) code_simp

section \<open>One delivery from end to end\<close>

text \<open>
  The requests of one delivery: the shipper books a load, the transporter approves it and gives it a
  driver, the driver accepts, sets out, loads at the first stop and sends the papers, the shipper
  approves them; at the second stop the receiving side's code is confirmed before the unloading, and
  the approval of its papers ends the journey.
\<close>

definition booking :: create_input where
  "booking = \<lparr>ci_AgreementID = None, ci_TransporterCompanyID = Some 20, ci_OrderKind = [],
     ci_OriginWarehouseID = ''W1'', ci_DestinationWarehouseID = ''W2'', ci_CargoTypeID = [], ci_ItemTypeID = [],
     ci_Quantity = None, ci_WeightKg = None, ci_VolumeM3 = None, ci_PickupAt = None, ci_DeliveryAt = None,
     ci_ExpiresAt = None, ci_CustomerID = [], ci_ReferenceNumber = [], ci_Detail = (\<lambda>_. None),
     ci_SubmitImmediately = True, ci_CustomerCompanyID = None, ci_Items = [], ci_Present = (\<lambda>_. False)\<rparr>"

definition haulier :: driver where
  "haulier = \<lparr>d_ID = ''D1'', d_FullName = ''Andi'', d_Status = ''active'', d_Phone = [], d_UserID = ''u31''\<rparr>"

definition road_env :: env where
  "road_env = sample_env\<lparr>dispatch_wired := False, GetDriver := (\<lambda>_. Some haulier),
     parse_uuid := (\<lambda>s. if s = ''u31'' then Some 31 else if s = ''s2'' then Some 2
       else if s = ''s3'' then Some 3 else None)\<rparr>"

definition on_site :: "uuid \<Rightarrow> visit_input" where
  "on_site i = \<lparr>vi_StopID = i, vi_Position = Some sample_position, vi_Matches = Some True, vi_Note = []\<rparr>"

definition papers :: "string \<Rightarrow> string \<Rightarrow> submit_input" where
  "papers stage stop = \<lparr>si_Stage = stage, si_Photos = [(''suratJalan'', ''u'')], si_Note = [], si_StopID = stop\<rparr>"

definition approval :: review_input where
  "approval = \<lparr>ri_Approved = True, ri_Reason = []\<rparr>"

definition right_code :: verify_input where
  "right_code = \<lparr>vf_Code = ''000042'', vf_StopID = Some 3, vf_Position = Some sample_position\<rparr>"

definition booked :: "(env \<times> actor \<times> request) list" where
  "booked = map (\<lambda>(a, r). (road_env, a, r))
     [(sample_shipper, PlaceOrder booking), (sample_planner, MoveOrder 1 OrderApproved []),
      (sample_planner, GiveDriver 1 ''D1'' ''T1''), (sample_driver, AcceptShipment 4 (Some sample_position))]"

definition loaded_up :: "(env \<times> actor \<times> request) list" where
  "loaded_up = map (\<lambda>(a, r). (road_env, a, r))
     [(sample_driver, AdvanceShipment \<lparr>ai_ShipmentID = 4, ai_To = ShipmentToLoading,
         ai_Position = Some sample_position, ai_Note = []\<rparr>),
      (sample_driver, ReachStop 4 (on_site 2)), (sample_driver, BeginStop 4 (on_site 2)),
      (sample_driver, CheckCargo 4 ''loading'' True []), (sample_driver, SubmitPod 4 (papers ''loading'' ''s2'')),
      (sample_shipper, ReviewPod 4 5 approval)]"

definition unloaded :: "(env \<times> actor \<times> request) list" where
  "unloaded = map (\<lambda>(a, r). (road_env, a, r))
     [(sample_driver, ReachStop 4 (on_site 3)), (sample_driver, IssueCode 4 (Some 3) ''Budi'' ''081234567890''),
      (sample_driver, VerifyCode 4 right_code), (sample_driver, BeginStop 4 (on_site 3)),
      (sample_driver, SubmitPod 4 (papers ''unloading'' ''s3'')), (sample_shipper, ReviewPod 4 7 approval)]"

definition delivery :: "(env \<times> actor \<times> request) list" where
  "delivery = booked @ loaded_up @ unloaded"

lemma road_columns [simp]: "writes_its_column road_env"
  by (simp add: writes_its_column_def road_env_def sample_env_def calm_def)

lemma booked_reachable: "reachable (serve_all booked empty_db)"
  by (rule steps_reachable [OF serve_all_steps]) (auto simp: booked_def intro: reachable.empty)

end
