(* ===== verification/Contracts.thy ===== *)
theory Contracts
  imports Orders "HOL-Library.AList"
begin

text \<open>
  The life of an agreement: internal/repository/agreement_version.go and the agreement half of
  repository.go, internal/services/agreement_version_service.go, agreement_routing.go and the first
  half of billing_service.go. A contract is a lineage of versions that share a root.
\<close>

section \<open>The repository\<close>

abbreviation RevisionRenewal :: string where "RevisionRenewal \<equiv> ''renewal''"
abbreviation RevisionUpdate :: string where "RevisionUpdate \<equiv> ''update''"

definition Agreements_FindByIDForService :: "env \<Rightarrow> uuid \<Rightarrow> (db, agreement) op" where
  "Agreements_FindByIDForService E i = call E (Commerce AgreementsFindByIDForService) (query (\<lambda>d.
     one (find (\<lambda>a. ag_ID a = i) (db_agreements d))))"

text \<open>
  What the tables accept (migrations 000001, 000004 to 000006, 000015): the widths of the columns,
  validity in order, prices not negative, and a first version without a predecessor or a later one
  with both a predecessor and a kind.
\<close>

definition fits :: "nat \<Rightarrow> string option \<Rightarrow> bool" where
  "fits n v \<longleftrightarrow> (case v of None \<Rightarrow> True | Some s \<Rightarrow> length s \<le> n)"

definition rate_fits :: "agreement_rate \<Rightarrow> bool" where
  "rate_fits r \<longleftrightarrow> 0 \<le> ar_Price r \<and>
     fits 24 (ar_OriginWarehouseID r) \<and> fits 24 (ar_DestinationWarehouseID r) \<and>
     fits 64 (ar_OriginCityID r) \<and> fits 64 (ar_DestinationCityID r) \<and>
     fits 64 (ar_OriginDistrictID r) \<and> fits 64 (ar_DestinationDistrictID r) \<and>
     fits 24 (ar_TruckTypeID r) \<and> fits 24 (ar_PricingTypeID r) \<and> fits 24 (ar_CurrencyID r)"

definition agreement_fits :: "agreement \<Rightarrow> bool" where
  "agreement_fits a \<longleftrightarrow> utc_day (ag_ValidFrom a) \<le> utc_day (ag_ValidUntil a) \<and> list_all rate_fits (ag_Rates a) \<and>
     fits 24 (ag_PaymentTypeID a) \<and> fits 24 (ag_CurrencyID a) \<and>
     (ag_Version a = 1 \<and> ag_SupersedesAgreementID a = None \<and> ag_RevisionKind a = None \<or>
      1 < ag_Version a \<and> ag_SupersedesAgreementID a \<noteq> None \<and>
      ag_RevisionKind a \<in> {Some RevisionRenewal, Some RevisionUpdate})"

definition number_taken :: "db \<Rightarrow> agreement \<Rightarrow> bool" where
  "number_taken d a \<longleftrightarrow> ag_Version a = 1 \<and>
     list_ex (\<lambda>b. ag_Version b = 1 \<and> ag_AgreementNumber b = ag_AgreementNumber a) (db_agreements d)"

definition version_taken :: "db \<Rightarrow> agreement \<Rightarrow> bool" where
  "version_taken d a \<longleftrightarrow> list_ex (\<lambda>b. ag_RootAgreementID b = ag_RootAgreementID a \<and> ag_Version b = ag_Version a)
     (db_agreements d)"

text \<open>The validity columns are dates: the stored instants are midnights.\<close>

definition dated :: "agreement \<Rightarrow> agreement" where
  "dated a = a\<lparr>ag_ValidFrom := utc_day (ag_ValidFrom a) * day, ag_ValidUntil := utc_day (ag_ValidUntil a) * day\<rparr>"

definition with_ids :: "nat \<Rightarrow> agreement_rate list \<Rightarrow> agreement_rate list" where
  "with_ids n rates = map2 (\<lambda>i r. r\<lparr>ar_ID := i\<rparr>) [n..<n + length rates] rates"

text \<open>The insert of an agreement (its id chosen) with its lines and clients, in one transaction.\<close>

definition insert_agreement :: "agreement \<Rightarrow> (db, agreement) op" where
  "insert_agreement a d =
     (if \<not> agreement_fits a then (Inl (Err ErrStore ''repository: create agreement''), d)
      else if version_taken d a \<or> number_taken d a then (Inl (Err ErrConflict ''repository: conflict''), d)
      else let row = a\<lparr>ag_Rates := with_ids (db_next_ref d + 1) (ag_Rates a)\<rparr>
        in (Inr row, d\<lparr>db_next_ref := db_next_ref d + 1 + length (ag_Rates a),
              db_agreements := db_agreements d @ [dated row]\<rparr>))"

definition Agreements_Create :: "env \<Rightarrow> agreement \<Rightarrow> (db, agreement) op" where
  "Agreements_Create E a = call E (Commerce AgreementsCreate) (\<lambda>d.
     let i = (if ag_ID a = uuid_Nil then db_next_ref d else ag_ID a)
     in insert_agreement (a\<lparr>ag_ID := i, ag_Version := (if ag_Version a = 0 then 1 else ag_Version a),
          ag_RootAgreementID := (if ag_RootAgreementID a = uuid_Nil then i else ag_RootAgreementID a)\<rparr>) d)"

definition Agreements_UpdateFields :: "env \<Rightarrow> uuid \<Rightarrow> (agreement \<Rightarrow> agreement) \<Rightarrow> (db, unit) op" where
  "Agreements_UpdateFields E i f = call E (Commerce AgreementsUpdateFields) (\<lambda>d.
     if rows_affected (\<lambda>a. ag_ID a = i) (db_agreements d) = 0
     then (Inl (Err ErrNotFound ''repository: not found''), d)
     else (Inr (), d\<lparr>db_agreements := update_where (\<lambda>a. ag_ID a = i) f (db_agreements d)\<rparr>))"

definition Agreements_FindExpired :: "env \<Rightarrow> (db, agreement list) op" where
  "Agreements_FindExpired E = call E (Commerce AgreementsFindExpired) (query (\<lambda>d.
     Inr (filter (\<lambda>a. ag_StatusCode a = AgreementActive \<and> ag_ValidUntil a < now E) (db_agreements d))))"

abbreviation of_party :: "uuid \<Rightarrow> agreement \<Rightarrow> bool" where
  "of_party companyID a \<equiv> ag_ShipperCompanyID a = companyID \<or> ag_TransporterCompanyID a = companyID"

definition in_lineage :: "uuid \<Rightarrow> agreement \<Rightarrow> bool" where
  "in_lineage rootID a \<longleftrightarrow> ag_RootAgreementID a = rootID"

definition Agreements_Lineage :: "env \<Rightarrow> uuid \<Rightarrow> uuid \<Rightarrow> (db, agreement list) op" where
  "Agreements_Lineage E companyID rootID = call E (Commerce AgreementsLineage) (query (\<lambda>d.
     Inr (sort_key (\<lambda>a. - ag_Version a)
       (filter (\<lambda>a. in_lineage rootID a \<and> of_party companyID a) (db_agreements d)))))"

definition is_live :: "agreement \<Rightarrow> bool" where
  "is_live a \<longleftrightarrow> ag_StatusCode a = AgreementActive \<and> ag_SupersededAt a = None"

definition ActiveVersion :: "env \<Rightarrow> uuid \<Rightarrow> (db, agreement) op" where
  "ActiveVersion E rootID = call E (Commerce AgreementsActiveVersion) (query (\<lambda>d.
     one (case sort_key (\<lambda>a. - ag_Version a) (filter (\<lambda>a. in_lineage rootID a \<and> is_live a) (db_agreements d)) of
       [] \<Rightarrow> None | a # _ \<Rightarrow> Some a)))"

definition Agreements_PendingApprovals :: "env \<Rightarrow> uuid \<Rightarrow> (db, agreement list) op" where
  "Agreements_PendingApprovals E companyID = call E (Commerce AgreementsPendingApprovals) (query (\<lambda>d.
     let waiting = filter (\<lambda>a. ag_StatusCode a = AgreementPendingApproval \<and> of_party companyID a) (db_agreements d)
     in Inr (sort_key (\<lambda>a. the (ag_RequestedAt a)) (filter (\<lambda>a. ag_RequestedAt a \<noteq> None) waiting) @
          filter (\<lambda>a. ag_RequestedAt a = None) waiting)))"

text \<open>The highest version of a lineage, and whether one of its versions waits for a decision.\<close>

definition max_version :: "db \<Rightarrow> uuid \<Rightarrow> int" where
  "max_version d rootID = foldr max (map ag_Version (filter (in_lineage rootID) (db_agreements d))) 0"

definition is_pending :: "agreement \<Rightarrow> bool" where
  "is_pending a \<longleftrightarrow> ag_StatusCode a = AgreementPendingApproval"

definition CreateRevision :: "env \<Rightarrow> agreement \<Rightarrow> uuid \<Rightarrow> (db, agreement) op" where
  "CreateRevision E revision previousID = call E (Commerce AgreementsCreateRevision) (\<lambda>d.
     case find (\<lambda>a. ag_ID a = previousID) (db_agreements d) of
       None \<Rightarrow> (Inl (Err ErrNotFound ''repository: not found''), d)
     | Some previous \<Rightarrow>
         (let rootID = ag_RootAgreementID previous in
          if list_ex (\<lambda>a. in_lineage rootID a \<and> is_pending a) (db_agreements d)
          then (Inl (Err ErrConflict ''repository: conflict''), d)
          else rewrap (Err ErrStore ''repository: create revision'') (insert_agreement (revision
            \<lparr>ag_ID := (if ag_ID revision = uuid_Nil then db_next_ref d else ag_ID revision),
             ag_Version := max_version d rootID + 1, ag_RootAgreementID := rootID,
             ag_SupersedesAgreementID := Some previousID\<rparr>)) d))"

definition approved_columns :: "env \<Rightarrow> uuid \<Rightarrow> string \<Rightarrow> agreement \<Rightarrow> agreement" where
  "approved_columns E by note a =
     (let a' = a\<lparr>ag_StatusCode := AgreementActive, ag_ApprovedByUserID := Some by, ag_ApprovedAt := Some (now E)\<rparr>
      in if note = [] then a' else a'\<lparr>ag_DecisionNote := Some note\<rparr>)"

definition superseded_columns :: "env \<Rightarrow> agreement \<Rightarrow> agreement" where
  "superseded_columns E a = a\<lparr>ag_StatusCode := AgreementSuperseded, ag_SupersededAt := Some (now E)\<rparr>"

text \<open>Activating a version and retiring every other live one of its lineage is one transaction.\<close>

definition Agreements_Approve :: "env \<Rightarrow> uuid \<Rightarrow> uuid \<Rightarrow> string \<Rightarrow> (db, agreement) op" where
  "Agreements_Approve E i by note = call E (Commerce AgreementsApprove) (\<lambda>d.
     case find (\<lambda>a. ag_ID a = i) (db_agreements d) of
       None \<Rightarrow> (Inl (Err ErrNotFound ''repository: not found''), d)
     | Some a \<Rightarrow>
         if \<not> is_pending a then (Inl (Err ErrConflict ''repository: conflict''), d)
         else (Inr (a\<lparr>ag_StatusCode := AgreementActive, ag_ApprovedAt := Some (now E), ag_ApprovedByUserID := Some by\<rparr>),
           d\<lparr>db_agreements :=
             update_where (\<lambda>b. in_lineage (ag_RootAgreementID a) b \<and> ag_ID b \<noteq> i \<and> is_live b) (superseded_columns E)
               (update_where (\<lambda>b. ag_ID b = i) (approved_columns E by note) (db_agreements d))\<rparr>))"

definition rejected_columns :: "env \<Rightarrow> uuid \<Rightarrow> string \<Rightarrow> agreement \<Rightarrow> agreement" where
  "rejected_columns E by note a =
     (let a' = a\<lparr>ag_StatusCode := AgreementRejected, ag_RejectedByUserID := Some by, ag_RejectedAt := Some (now E)\<rparr>
      in if note = [] then a' else a'\<lparr>ag_DecisionNote := Some note\<rparr>)"

definition Agreements_Reject :: "env \<Rightarrow> uuid \<Rightarrow> uuid \<Rightarrow> string \<Rightarrow> (db, unit) op" where
  "Agreements_Reject E i by note = call E (Commerce AgreementsReject) (\<lambda>d.
     if rows_affected (\<lambda>a. ag_ID a = i \<and> is_pending a) (db_agreements d) = 0
     then (Inl (Err ErrConflict ''repository: conflict''), d)
     else (Inr (), d\<lparr>db_agreements := update_where (\<lambda>a. ag_ID a = i \<and> is_pending a) (rejected_columns E by note)
            (db_agreements d)\<rparr>))"

text \<open>One row of the price history: a version and one of its lines (none, where it has none).\<close>

definition Agreements_PriceHistory ::
  "env \<Rightarrow> uuid \<Rightarrow> uuid \<Rightarrow> (db, (agreement \<times> agreement_rate option) list) op" where
  "Agreements_PriceHistory E companyID rootID = call E (Commerce AgreementsPriceHistory) (query (\<lambda>d.
     if \<not> list_ex (\<lambda>a. in_lineage rootID a \<and> of_party companyID a) (db_agreements d)
     then Inl (Err ErrNotFound ''repository: not found'')
     else Inr (concat (map (\<lambda>a. case sort_key ar_ID (ag_Rates a) of [] \<Rightarrow> [(a, None)]
             | rates \<Rightarrow> map (\<lambda>r. (a, Some r)) rates)
        (sort_key (\<lambda>a. - ag_Version a) (filter (in_lineage rootID) (db_agreements d)))))))"

definition RatesNeedingRoute :: "env \<Rightarrow> uuid \<Rightarrow> (db, agreement_rate list) op" where
  "RatesNeedingRoute E i = call E (Commerce AgreementsRatesNeedingRoute) (query (\<lambda>d.
     Inr (filter (\<lambda>r. ar_RouteStatus r = None) (concat (map ag_Rates (filter (\<lambda>a. ag_ID a = i) (db_agreements d)))))))"

text \<open>The road a line points at must be remembered (its key is a foreign key).\<close>

definition road_missing :: "db \<Rightarrow> agreement_rate \<Rightarrow> bool" where
  "road_missing d r = (case ar_RouteCacheKey r of
     None \<Rightarrow> False | Some k \<Rightarrow> \<not> list_ex (\<lambda>e. rc_CacheKey e = k) (db_route_cache d))"

definition UpdateRate :: "env \<Rightarrow> uuid \<Rightarrow> (agreement_rate \<Rightarrow> agreement_rate) \<Rightarrow> (db, unit) op" where
  "UpdateRate E rateID f = call E (Commerce AgreementsUpdateRate) (\<lambda>d.
     let ags = map (\<lambda>a. a\<lparr>ag_Rates := update_where (\<lambda>r. ar_ID r = rateID) f (ag_Rates a)\<rparr>) (db_agreements d)
     in if list_ex (\<lambda>a. list_ex (\<lambda>r. ar_ID r = rateID \<and> road_missing d r) (ag_Rates a)) ags
        then (Inl (Err ErrStore ''agreement_rates_route_cache_key_fkey''), d)
        else (Inr (), d\<lparr>db_agreements := ags\<rparr>))"

section \<open>Routing the lanes\<close>

text \<open>The generated column \<open>lane_level\<close>.\<close>

definition LaneLevel :: "agreement_rate \<Rightarrow> string" where
  "LaneLevel r =
     (if ar_OriginWarehouseID r \<noteq> None \<and> ar_DestinationWarehouseID r \<noteq> None then ''warehouse''
      else if ar_OriginDistrictID r \<noteq> None \<and> ar_DestinationDistrictID r \<noteq> None then ''district''
      else if ar_OriginCityID r \<noteq> None \<or> ar_DestinationCityID r \<noteq> None then ''city''
      else ''any'')"

definition routeOne :: "env \<Rightarrow> agreement_rate \<Rightarrow> (db, string \<times> int option \<times> string) op" where
  "routeOne E r =
     (if LaneLevel r \<noteq> ''warehouse'' then ok (''noCoordinates'', None, [])
      else case (warehousePoint E (deref (ar_OriginWarehouseID r)), warehousePoint E (deref (ar_DestinationWarehouseID r))) of
        (Inr a, Inr b) \<Rightarrow>
          andThen (attempt (Cache_Route E [a, b] ''truck'' False)) (\<lambda>res.
          case res of
            Inr res \<Rightarrow> ok (''routed'', Some (trunc (ro_DistanceMeters (rr_Route res))), rr_Key res)
          | Inl e \<Rightarrow> ok (if err_class e = ErrNotConfigured then ''pending'' else ''unroutable'', None, []))
      | _ \<Rightarrow> ok (''noCoordinates'', None, []))"

definition routed_columns :: "env \<Rightarrow> string \<Rightarrow> int option \<Rightarrow> string \<Rightarrow> agreement_rate \<Rightarrow> agreement_rate" where
  "routed_columns E status meters key r =
     (let r1 = r\<lparr>ar_RouteStatus := Some status, ar_RoutedAt := Some (now E)\<rparr>;
          r2 = (case meters of None \<Rightarrow> r1 | Some m \<Rightarrow> r1\<lparr>ar_DistanceMeters := Some m\<rparr>)
      in if key = [] then r2 else r2\<lparr>ar_RouteCacheKey := Some key\<rparr>)"

fun route_all :: "env \<Rightarrow> agreement_rate list \<Rightarrow> (db, unit) op" where
  "route_all E [] = ok ()"
| "route_all E (r # rates) =
     andThen (routeOne E r) (\<lambda>(status, meters, key).
     andThen (attempt (UpdateRate E (ar_ID r) (routed_columns E status meters key))) (\<lambda>_.
     route_all E rates))"

definition RouteLanes :: "env \<Rightarrow> uuid \<Rightarrow> (db, unit) op" where
  "RouteLanes E i =
     (if \<not> dispatch_wired E then ok ()
      else andThen (attempt (RatesNeedingRoute E i)) (\<lambda>r.
        case r of Inl _ \<Rightarrow> ok () | Inr rates \<Rightarrow> route_all E rates))"

section \<open>Making an agreement\<close>

record rate_input =
  ri_CustomerCompanyID :: "uuid option"
  ri_OriginWarehouseID :: string
  ri_DestinationWarehouseID :: string
  ri_OriginCityID :: string
  ri_DestinationCityID :: string
  ri_OriginDistrictID :: string
  ri_DestinationDistrictID :: string
  ri_TruckTypeID :: string
  ri_PricingTypeID :: string
  ri_Price :: money
  ri_MinQuantity :: "money option"
  ri_LeadTimeHours :: "int option"

record agreement_input =
  ga_TransporterCompanyID :: uuid
  ga_CustomerCompanyID :: "uuid option"
  ga_ValidFrom :: time
  ga_ValidUntil :: time
  ga_PaymentTypeID :: string
  ga_CurrencyID :: string
  ga_Detail :: detail
  ga_Rates :: "rate_input list"
  ga_Customers :: "(uuid \<times> string) list"
  ga_Present :: "string \<Rightarrow> bool"

abbreviation laneFieldMax :: nat where "laneFieldMax \<equiv> 64"

definition lane_fields :: "rate_input \<Rightarrow> string list" where
  "lane_fields r = [ri_OriginCityID r, ri_DestinationCityID r, ri_OriginDistrictID r, ri_DestinationDistrictID r,
     ri_OriginWarehouseID r, ri_DestinationWarehouseID r, ri_TruckTypeID r, ri_PricingTypeID r]"

fun check_rates :: "rate_input list \<Rightarrow> error option" where
  "check_rates [] = None"
| "check_rates (r # rates) =
     (if ri_Price r < 0 then Some (Err ErrValidation ''rate has a negative price'')
      else if list_ex (\<lambda>v. laneFieldMax < length v) (lane_fields r)
      then Some (Err ErrValidation ''rate field is longer than allowed'')
      else check_rates rates)"

text \<open>\<open>setIfNotEmpty(&column, v)\<close>.\<close>

definition setIfNotEmpty :: "string option \<Rightarrow> string \<Rightarrow> string option" where
  "setIfNotEmpty column v = (if v = [] then column else Some v)"

definition priced_rate :: "rate_input \<Rightarrow> agreement_rate" where
  "priced_rate r =
     \<lparr>ar_ID = uuid_Nil, ar_OriginWarehouseID = None, ar_DestinationWarehouseID = None,
      ar_OriginCityID = setIfNotEmpty None (ri_OriginCityID r), ar_DestinationCityID = setIfNotEmpty None (ri_DestinationCityID r),
      ar_OriginDistrictID = setIfNotEmpty None (ri_OriginDistrictID r),
      ar_DestinationDistrictID = setIfNotEmpty None (ri_DestinationDistrictID r), ar_CustomerCompanyID = None,
      ar_TruckTypeID = setIfNotEmpty None (ri_TruckTypeID r), ar_PricingTypeID = setIfNotEmpty None (ri_PricingTypeID r),
      ar_Price = ri_Price r, ar_MinQuantity = ri_MinQuantity r, ar_CurrencyID = None,
      ar_LeadTimeHours = ri_LeadTimeHours r, ar_DistanceMeters = None, ar_RouteCacheKey = None,
      ar_RoutedAt = None, ar_RouteStatus = None\<rparr>"

definition created_rate :: "string \<Rightarrow> rate_input \<Rightarrow> agreement_rate" where
  "created_rate currency r = (priced_rate r)
     \<lparr>ar_OriginWarehouseID := setIfNotEmpty None (ri_OriginWarehouseID r),
      ar_DestinationWarehouseID := setIfNotEmpty None (ri_DestinationWarehouseID r),
      ar_CustomerCompanyID := ri_CustomerCompanyID r, ar_CurrencyID := setIfNotEmpty None currency\<rparr>"

text \<open>The clients covered, the counterparty always among them; a later entry for a client replaces its label.\<close>

definition cover :: "uuid \<Rightarrow> (uuid \<times> string) list \<Rightarrow> agreement_customer list" where
  "cover shipper customers =
     map (\<lambda>(i, l). \<lparr>gc_CustomerCompanyID = i, gc_Label = nonempty l\<rparr>)
       (fold (\<lambda>(i, l) acc. if i = uuid_Nil then acc else AList.update i l acc) customers [(shipper, [])])"

definition agreementNumber :: "env \<Rightarrow> uuid \<Rightarrow> uuid \<Rightarrow> (db, string) op" where
  "agreementNumber E transporter client =
     andThen (OrdersNextNumber_op E ''agreement'' (year_text E)) (\<lambda>seq.
     ok (if company_code E transporter = [] \<or> company_code E client = []
         then ''AGR-'' @ year_text E @ ''-'' @ zero_padded 6 (nat seq)
         else ''AGR-'' @ company_code E transporter @ ''-'' @ company_code E client @ ''-'' @ zero_padded 6 (nat seq)))"

text \<open>Shipper, transporter and first status: a transporter that records a client's contract puts it in force.\<close>

definition contract_parties :: "actor \<Rightarrow> agreement_input \<Rightarrow> uuid \<times> uuid \<times> string" where
  "contract_parties actor inp =
     (case ga_CustomerCompanyID inp of
        None \<Rightarrow> (a_CompanyID actor, ga_TransporterCompanyID inp, AgreementSubmitted)
      | Some c \<Rightarrow> (c, a_CompanyID actor, AgreementActive))"

definition new_agreement :: "actor \<Rightarrow> agreement_input \<Rightarrow> string \<Rightarrow> agreement" where
  "new_agreement actor inp number =
     (let (shipper, transporter, status) = contract_parties actor inp in
     \<lparr>ag_ID = uuid_Nil, ag_AgreementNumber = number, ag_ShipperCompanyID = shipper,
      ag_TransporterCompanyID = transporter, ag_Version = 0, ag_RootAgreementID = uuid_Nil,
      ag_SupersedesAgreementID = None, ag_RevisionKind = None, ag_RevisionNote = None,
      ag_RequestedByUserID = None, ag_RequestedAt = None, ag_ApprovedByUserID = None, ag_ApprovedAt = None,
      ag_RejectedByUserID = None, ag_RejectedAt = None, ag_DecisionNote = None, ag_SupersededAt = None,
      ag_CreatedByUserID = a_UserID actor, ag_StatusCode = status, ag_ValidFrom = ga_ValidFrom inp,
      ag_ValidUntil = ga_ValidUntil inp, ag_Verified = False, ag_VerifiedByUserID = None, ag_VerifiedAt = None,
      ag_PaymentTypeID = setIfNotEmpty None (ga_PaymentTypeID inp), ag_CurrencyID = setIfNotEmpty None (ga_CurrencyID inp),
      ag_Detail = ga_Detail inp, ag_Rates = map (created_rate (ga_CurrencyID inp)) (ga_Rates inp),
      ag_Customers = cover shipper (ga_Customers inp)\<rparr>)"

definition agreement_event :: "actor \<Rightarrow> string \<Rightarrow> uuid \<Rightarrow> audience \<Rightarrow> key_part list \<Rightarrow> event" where
  "agreement_event actor type i audience key =
     \<lparr>ev_Type = type, ev_SubjectID = i, ev_SubjectType = ''agreement'', ev_Audience = audience,
      ev_ActorID = Some (a_UserID actor), ev_Key = key\<rparr>"

definition CreateAgreement :: "env \<Rightarrow> actor \<Rightarrow> agreement_input \<Rightarrow> (db, agreement) op" where
  "CreateAgreement E actor inp =
     (let (shipper, transporter, status) = contract_parties actor inp in
     andThen (refuse (ga_ValidUntil inp < ga_ValidFrom inp)
       (Err ErrValidation ''validUntil cannot be before validFrom'')) (\<lambda>_.
     andThen (refuse (transporter = shipper) (Err ErrValidation ''a company cannot contract with itself'')) (\<lambda>_.
     andThen (refuse (ga_Rates inp = []) (Err ErrValidation ''an agreement needs at least one rate'')) (\<lambda>_.
     andThen (if fields_wired E then FieldConfig_Validate E (a_CompanyID actor) EntityAgreement (ga_Present inp)
              else ok ()) (\<lambda>_.
     andThen (case check_rates (ga_Rates inp) of Some e \<Rightarrow> fail e | None \<Rightarrow> ok ()) (\<lambda>_.
     andThen (agreementNumber E transporter shipper) (\<lambda>number.
     andThen (Agreements_Create E (new_agreement actor inp number)) (\<lambda>a.
     andThen (RouteLanes E (ag_ID a)) (\<lambda>_.
     andThen (notify (agreement_event actor ''AGREEMENT_CREATED'' (ag_ID a)
         (if ga_CustomerCompanyID inp \<noteq> None then ToCompanyRoles shipper [RoleShipper, RoleManager]
          else ToCompanyRoles transporter [RoleTransporter, RoleManager])
         [KeyText ''agreement-created'', KeyID (ag_ID a)])) (\<lambda>_.
     ok a))))))))))"

section \<open>Deciding, verifying, expiring\<close>

definition DecideAgreement :: "env \<Rightarrow> actor \<Rightarrow> uuid \<Rightarrow> bool \<Rightarrow> (db, unit) op" where
  "DecideAgreement E actor i approve =
     andThen (Agreements_FindByID E (a_CompanyID actor) i) (\<lambda>a.
     andThen (refuse (ag_TransporterCompanyID a \<noteq> a_CompanyID actor \<and> \<not> is_admin actor)
       (Err ErrForbidden ''only the transporter may decide this agreement'')) (\<lambda>_.
     andThen (refuse (ag_StatusCode a \<noteq> AgreementSubmitted)
       (Err ErrTransition (''agreement is '' @ ag_StatusCode a @ '', not awaiting a decision''))) (\<lambda>_.
     let status = (if approve then AgreementActive else AgreementRejected)
     in andThen (Agreements_UpdateFields E i (\<lambda>a. a\<lparr>ag_StatusCode := status\<rparr>)) (\<lambda>_.
        notify (agreement_event actor (if approve then ''AGREEMENT_APPROVED'' else ''AGREEMENT_REJECTED'') i
          (ToCompanyRoles (ag_ShipperCompanyID a) [RoleShipper])
          [KeyText ''agreement'', KeyID i, KeyText status])))))"

definition verified_columns :: "env \<Rightarrow> actor \<Rightarrow> agreement \<Rightarrow> agreement" where
  "verified_columns E actor a =
     a\<lparr>ag_Verified := True, ag_VerifiedByUserID := Some (a_UserID actor), ag_VerifiedAt := Some (now E)\<rparr>"

definition VerifyAgreement :: "env \<Rightarrow> actor \<Rightarrow> uuid \<Rightarrow> (db, unit) op" where
  "VerifyAgreement E actor i =
     andThen (Agreements_FindByID E (a_CompanyID actor) i) (\<lambda>a.
     andThen (refuse (ag_ShipperCompanyID a \<noteq> a_CompanyID actor)
       (Err ErrForbidden ''only the shipper may verify this agreement'')) (\<lambda>_.
     Agreements_UpdateFields E i (verified_columns E actor)))"

text \<open>The sweep: one failure does not abandon the rest. The value is how many were marked.\<close>

fun expire_all :: "env \<Rightarrow> agreement list \<Rightarrow> (db, nat) op" where
  "expire_all E [] = ok 0"
| "expire_all E (a # rest) =
     andThen (attempt (Agreements_UpdateFields E (ag_ID a) (\<lambda>a. a\<lparr>ag_StatusCode := AgreementExpired\<rparr>))) (\<lambda>r.
     case r of
       Inl _ \<Rightarrow> expire_all E rest
     | Inr _ \<Rightarrow>
         andThen (notify \<lparr>ev_Type = ''AGREEMENT_EXPIRED'', ev_SubjectID = ag_ID a, ev_SubjectType = ''agreement'',
           ev_Audience = ToCompanyRoles (ag_ShipperCompanyID a) [RoleShipper], ev_ActorID = None,
           ev_Key = [KeyText ''agreement-expired'', KeyID (ag_ID a), KeyTime (utc_day (now E))]\<rparr>) (\<lambda>_.
         andThen (expire_all E rest) (\<lambda>n. ok (Suc n))))"

definition ExpireAgreements :: "env \<Rightarrow> (db, nat) op" where
  "ExpireAgreements E = andThen (Agreements_FindExpired E) (expire_all E)"

section \<open>Revising\<close>

record revise_input =
  rv_Kind :: string
  rv_Note :: string
  rv_ValidFrom :: "time option"
  rv_ValidUntil :: "time option"
  rv_PaymentTypeID :: string
  rv_CurrencyID :: string
  rv_Detail :: "detail option"
  rv_Rates :: "rate_input list"
  rv_Present :: "string \<Rightarrow> bool option"

text \<open>The price matrix carried forward: cities, districts, truck and pricing type, price and terms.\<close>

definition carried_rate :: "agreement_rate \<Rightarrow> rate_input" where
  "carried_rate r =
     \<lparr>ri_CustomerCompanyID = None, ri_OriginWarehouseID = [], ri_DestinationWarehouseID = [],
      ri_OriginCityID = deref (ar_OriginCityID r), ri_DestinationCityID = deref (ar_DestinationCityID r),
      ri_OriginDistrictID = deref (ar_OriginDistrictID r), ri_DestinationDistrictID = deref (ar_DestinationDistrictID r),
      ri_TruckTypeID = deref (ar_TruckTypeID r), ri_PricingTypeID = deref (ar_PricingTypeID r),
      ri_Price = ar_Price r, ri_MinQuantity = ar_MinQuantity r, ri_LeadTimeHours = ar_LeadTimeHours r\<rparr>"

definition revised_rate :: "string \<Rightarrow> rate_input \<Rightarrow> agreement_rate" where
  "revised_rate currency r = (priced_rate r)\<lparr>ar_CurrencyID := setIfNotEmpty None currency\<rparr>"

definition revised_terms :: "env \<Rightarrow> actor \<Rightarrow> agreement \<Rightarrow> revise_input \<Rightarrow> agreement" where
  "revised_terms E actor previous inp =
     \<lparr>ag_ID = uuid_Nil, ag_AgreementNumber = ag_AgreementNumber previous,
      ag_ShipperCompanyID = ag_ShipperCompanyID previous, ag_TransporterCompanyID = ag_TransporterCompanyID previous,
      ag_Version = 0, ag_RootAgreementID = uuid_Nil, ag_SupersedesAgreementID = None,
      ag_RevisionKind = Some (rv_Kind inp), ag_RevisionNote = nonempty (rv_Note inp),
      ag_RequestedByUserID = Some (a_UserID actor), ag_RequestedAt = Some (now E),
      ag_ApprovedByUserID = None, ag_ApprovedAt = None, ag_RejectedByUserID = None, ag_RejectedAt = None,
      ag_DecisionNote = None, ag_SupersededAt = None, ag_CreatedByUserID = a_UserID actor,
      ag_StatusCode = AgreementPendingApproval,
      ag_ValidFrom = (case rv_ValidFrom inp of Some t \<Rightarrow> t | None \<Rightarrow> ag_ValidFrom previous),
      ag_ValidUntil = (case rv_ValidUntil inp of Some t \<Rightarrow> t | None \<Rightarrow> ag_ValidUntil previous),
      ag_Verified = False, ag_VerifiedByUserID = None, ag_VerifiedAt = None,
      ag_PaymentTypeID = setIfNotEmpty (ag_PaymentTypeID previous) (rv_PaymentTypeID inp),
      ag_CurrencyID = setIfNotEmpty (ag_CurrencyID previous) (rv_CurrencyID inp),
      ag_Detail = (case rv_Detail inp of Some dt \<Rightarrow> dt | None \<Rightarrow> ag_Detail previous), ag_Rates = [], ag_Customers = []\<rparr>"

definition buildRevision :: "env \<Rightarrow> actor \<Rightarrow> agreement \<Rightarrow> revise_input \<Rightarrow> agreement result" where
  "buildRevision E actor previous inp =
     (let revision = revised_terms E actor previous inp;
          rates = (if rv_Rates inp = [] then map carried_rate (ag_Rates previous) else rv_Rates inp)
      in if ag_ValidUntil revision < ag_ValidFrom revision
         then Inl (Err ErrValidation ''validUntil cannot be before validFrom'')
         else if rv_Kind inp = RevisionRenewal \<and> ag_ValidUntil revision \<le> ag_ValidUntil previous
         then Inl (Err ErrValidation ''a renewal must extend the term'')
         else if rates = [] then Inl (Err ErrValidation ''an agreement needs at least one rate'')
         else if list_ex (\<lambda>r. ri_Price r < 0) rates then Inl (Err ErrValidation ''rate has a negative price'')
         else Inr (revision\<lparr>ag_Rates := map (revised_rate (deref (ag_CurrencyID revision))) rates\<rparr>))"

text \<open>The second half of \<open>Revise\<close>: a renewal takes effect at once, an update waits for approval.\<close>

definition submit_revision :: "env \<Rightarrow> actor \<Rightarrow> uuid \<Rightarrow> revise_input \<Rightarrow> agreement \<Rightarrow> (db, agreement) op" where
  "submit_revision E actor previousID inp built =
     andThen (attempt (CreateRevision E built previousID)) (\<lambda>r.
     case r of
       Inl e \<Rightarrow> fail (if err_class e = ErrConflict
         then Err ErrValidation ''this agreement already has a revision awaiting approval'' else e)
     | Inr revision \<Rightarrow>
         if rv_Kind inp = RevisionRenewal
         then Agreements_Approve E (ag_ID revision) (a_UserID actor) ''Renewal, no approval required''
         else andThen (notify (agreement_event actor ''AGREEMENT_CREATED'' (ag_ID revision)
             (ToCompanyRoles (a_CompanyID actor) [RoleManager, RoleAdmin])
             [KeyText ''agreement-revision'', KeyID (ag_ID revision)])) (\<lambda>_. ok revision))"

definition Revise :: "env \<Rightarrow> actor \<Rightarrow> uuid \<Rightarrow> revise_input \<Rightarrow> (db, agreement) op" where
  "Revise E actor previousID inp =
     andThen (refuse (rv_Kind inp \<noteq> RevisionRenewal \<and> rv_Kind inp \<noteq> RevisionUpdate)
       (Err ErrValidation ''a revision is a renewal or an update'')) (\<lambda>_.
     andThen (Agreements_FindByID E (a_CompanyID actor) previousID) (\<lambda>previous.
     andThen (refuse (ag_TransporterCompanyID previous \<noteq> a_CompanyID actor)
       (Err ErrForbidden ''only the transporter may revise an agreement'')) (\<lambda>_.
     andThen (refuse (ag_StatusCode previous \<in> {AgreementRejected, AgreementCancelled})
       (Err ErrValidation ''version was never in force, so there is nothing to revise'')) (\<lambda>_.
     andThen (if fields_wired E then FieldConfig_Validate E (a_CompanyID actor) EntityAgreement
         (\<lambda>k. case rv_Present inp k of Some b \<Rightarrow> b | None \<Rightarrow> k = ''customerId'' \<or> k = ''agreementType'')
       else ok ()) (\<lambda>_.
     andThen (from_result (buildRevision E actor previous inp)) (\<lambda>built.
     submit_revision E actor previousID inp built))))))"

definition userIDs :: "uuid option \<Rightarrow> uuid list" where
  "userIDs i = (case i of None \<Rightarrow> [] | Some u \<Rightarrow> [u])"

definition not_awaiting :: "error \<Rightarrow> error" where
  "not_awaiting e = (if err_class e = ErrConflict
     then Err ErrValidation ''this revision is not awaiting a decision'' else e)"

definition ApproveRevision :: "env \<Rightarrow> actor \<Rightarrow> uuid \<Rightarrow> string \<Rightarrow> (db, agreement) op" where
  "ApproveRevision E actor i note =
     andThen (Agreements_FindByID E (a_CompanyID actor) i) (\<lambda>a.
     andThen (refuse (ag_TransporterCompanyID a \<noteq> a_CompanyID actor)
       (Err ErrForbidden ''only the transporter may approve its own revisions'')) (\<lambda>_.
     andThen (refuse (ag_RequestedByUserID a = Some (a_UserID actor))
       (Err ErrForbidden ''a revision cannot be approved by the person who requested it'')) (\<lambda>_.
     andThen (attempt (Agreements_Approve E i (a_UserID actor) note)) (\<lambda>r.
     case r of
       Inl e \<Rightarrow> fail (not_awaiting e)
     | Inr approved \<Rightarrow>
         andThen (notify (agreement_event actor ''AGREEMENT_APPROVED'' i (ToUsers (userIDs (ag_RequestedByUserID a)))
           [KeyText ''agreement-approved'', KeyID i])) (\<lambda>_. ok approved)))))"

definition RejectRevision :: "env \<Rightarrow> actor \<Rightarrow> uuid \<Rightarrow> string \<Rightarrow> (db, unit) op" where
  "RejectRevision E actor i note =
     andThen (Agreements_FindByID E (a_CompanyID actor) i) (\<lambda>a.
     andThen (refuse (ag_TransporterCompanyID a \<noteq> a_CompanyID actor)
       (Err ErrForbidden ''only the transporter may decide its own revisions'')) (\<lambda>_.
     andThen (refuse (ag_RequestedByUserID a = Some (a_UserID actor))
       (Err ErrForbidden ''a revision cannot be decided by the person who requested it'')) (\<lambda>_.
     andThen (attempt (Agreements_Reject E i (a_UserID actor) note)) (\<lambda>r.
     case r of
       Inl e \<Rightarrow> fail (not_awaiting e)
     | Inr _ \<Rightarrow> notify (agreement_event actor ''AGREEMENT_REJECTED'' i (ToUsers (userIDs (ag_RequestedByUserID a)))
           [KeyText ''agreement-rejected'', KeyID i])))))"

definition Lineage :: "env \<Rightarrow> actor \<Rightarrow> uuid \<Rightarrow> (db, agreement list) op" where
  "Lineage E actor rootID =
     andThen (Agreements_Lineage E (a_CompanyID actor) rootID) (\<lambda>versions.
     if versions = [] then fail (Err ErrNotFound ''repository: not found'') else ok versions)"

definition PendingApprovals :: "env \<Rightarrow> actor \<Rightarrow> (db, agreement list) op" where
  "PendingApprovals E actor = Agreements_PendingApprovals E (a_CompanyID actor)"

definition PriceHistory :: "env \<Rightarrow> actor \<Rightarrow> uuid \<Rightarrow> (db, (agreement \<times> agreement_rate option) list) op" where
  "PriceHistory E actor rootID = Agreements_PriceHistory E (a_CompanyID actor) rootID"

section \<open>A lineage stays sound\<close>

text \<open>
  Ids and roots are from the supply, versions are numbered from one and never twice, only a first
  version waits for the other party, at most one revision of a contract waits for approval and at
  most one is in force.
\<close>

definition pending_in :: "uuid \<Rightarrow> agreement \<Rightarrow> bool" where
  "pending_in rootID a \<longleftrightarrow> in_lineage rootID a \<and> is_pending a"

definition in_force :: "uuid \<Rightarrow> agreement \<Rightarrow> bool" where
  "in_force rootID a \<longleftrightarrow> in_lineage rootID a \<and> is_live a \<and> 1 < ag_Version a"

definition row_sound :: "nat \<Rightarrow> agreement \<Rightarrow> bool" where
  "row_sound n a \<longleftrightarrow> ag_ID a < n \<and> ag_RootAgreementID a < n \<and> 1 \<le> ag_Version a \<and>
     (ag_StatusCode a = AgreementSubmitted \<longrightarrow> ag_Version a = 1) \<and>
     (is_pending a \<longrightarrow> 1 < ag_Version a \<and> ag_SupersededAt a = None)"

definition lineage_sound :: "db \<Rightarrow> bool" where
  "lineage_sound d \<longleftrightarrow> distinct (map ag_ID (db_agreements d)) \<and>
     distinct (map (\<lambda>a. (ag_RootAgreementID a, ag_Version a)) (db_agreements d)) \<and>
     list_all (row_sound (db_next_ref d)) (db_agreements d) \<and> 0 < db_next_ref d \<and>
     (\<forall>rootID. length (filter (pending_in rootID) (db_agreements d)) \<le> 1 \<and>
        length (filter (in_force rootID) (db_agreements d)) \<le> 1)"

lemma count_le: "(\<And>x. x \<in> set xs \<Longrightarrow> P (g x) \<Longrightarrow> P x) \<Longrightarrow> length (filter P (map g xs)) \<le> length (filter P xs)"
  by (induction xs) (auto simp: le_SucI)

lemma filter_length_mono: "(\<And>x. P x \<Longrightarrow> Q x) \<Longrightarrow> length (filter P xs) \<le> length (filter Q xs)"
  by (induction xs) (auto simp: le_SucI)

lemma count_one: "distinct (map k xs) \<Longrightarrow> (\<And>x. x \<in> set xs \<Longrightarrow> P x \<Longrightarrow> k x = i) \<Longrightarrow> length (filter P xs) \<le> 1"
proof (induction xs)
  case (Cons x xs)
  show ?case
  proof (cases "P x")
    case True
    with Cons.prems have "filter P xs = []" by (force simp: filter_empty_conv)
    with True show ?thesis by simp
  next
    case False
    with Cons show ?thesis by simp
  qed
qed simp

text \<open>An update of rows that keeps identities and lets no row start to wait or come into force.\<close>

definition calms :: "(agreement \<Rightarrow> agreement) \<Rightarrow> bool" where
  "calms f \<longleftrightarrow> (\<forall>a. ag_ID (f a) = ag_ID a \<and> ag_RootAgreementID (f a) = ag_RootAgreementID a \<and>
     ag_Version (f a) = ag_Version a \<and> (is_pending (f a) \<longrightarrow> is_pending a \<and> ag_SupersededAt (f a) = ag_SupersededAt a) \<and>
     (ag_StatusCode (f a) = AgreementSubmitted \<longrightarrow> ag_StatusCode a = AgreementSubmitted))"

lemma sound_rewrite:
  assumes "lineage_sound d" and "calms f"
    and "\<And>rt. length (filter (in_force rt) (update_where P f (db_agreements d))) \<le> 1"
  shows "lineage_sound (d\<lparr>db_agreements := update_where P f (db_agreements d)\<rparr>)"
proof -
  let ?xs = "db_agreements d" and ?ys = "update_where P f (db_agreements d)"
  have g: "ag_ID (f a) = ag_ID a" "ag_RootAgreementID (f a) = ag_RootAgreementID a" "ag_Version (f a) = ag_Version a" for a
    using assms(2) by (auto simp: calms_def)
  have 1: "map ag_ID ?ys = map ag_ID ?xs"
    "map (\<lambda>a. (ag_RootAgreementID a, ag_Version a)) ?ys = map (\<lambda>a. (ag_RootAgreementID a, ag_Version a)) ?xs"
    by (auto simp: update_where_def g)
  have 2: "row_sound n a \<Longrightarrow> row_sound n (f a)" for n a
    using assms(2) by (auto simp: row_sound_def calms_def)
  have 3: "length (filter (pending_in rt) ?ys) \<le> length (filter (pending_in rt) ?xs)" for rt
    unfolding update_where_def using assms(2)
    by (intro count_le) (auto simp: pending_in_def in_lineage_def calms_def split: if_splits)
  have 4: "list_all (row_sound n) ?xs \<Longrightarrow> list_all (row_sound n) ?ys" for n
    using 2 by (auto simp: update_where_def list_all_iff)
  show ?thesis using assms(1,3) 4 order_trans[OF 3]
    by (simp add: lineage_sound_def 1)
qed

lemma sound_update:
  assumes "lineage_sound d" and "calms f"
    and "\<And>a. a \<in> set (db_agreements d) \<Longrightarrow> P a \<Longrightarrow> 1 < ag_Version a \<Longrightarrow> is_live (f a) \<Longrightarrow> is_live a"
  shows "lineage_sound (d\<lparr>db_agreements := update_where P f (db_agreements d)\<rparr>)"
proof (rule sound_rewrite [OF assms(1,2)])
  fix rt
  have "length (filter (in_force rt) (update_where P f (db_agreements d))) \<le> length (filter (in_force rt) (db_agreements d))"
    unfolding update_where_def using assms(2,3)
    by (intro count_le) (auto simp: in_force_def in_lineage_def calms_def split: if_splits)
  with assms(1) show "length (filter (in_force rt) (update_where P f (db_agreements d))) \<le> 1"
    unfolding lineage_sound_def by (meson order_trans)
qed

lemma calm_columns:
  "calms (verified_columns E actor)" "calms (\<lambda>a. a\<lparr>ag_StatusCode := AgreementExpired\<rparr>)" "calms (superseded_columns E)"
  "calms (\<lambda>a. a\<lparr>ag_StatusCode := AgreementActive\<rparr>)" "calms (\<lambda>a. a\<lparr>ag_StatusCode := AgreementRejected\<rparr>)"
  "calms (rejected_columns E by note)" "calms (approved_columns E by note)"
  by (auto simp: calms_def verified_columns_def superseded_columns_def rejected_columns_def approved_columns_def
      is_pending_def Let_def)

lemma dated_same [simp]:
  "ag_ID (dated a) = ag_ID a" "ag_RootAgreementID (dated a) = ag_RootAgreementID a" "ag_Version (dated a) = ag_Version a"
  "ag_StatusCode (dated a) = ag_StatusCode a" "ag_SupersededAt (dated a) = ag_SupersededAt a"
  "is_pending (dated a) = is_pending a" "is_live (dated a) = is_live a"
  by (simp_all add: dated_def is_pending_def is_live_def)

lemma row_sound_later: "row_sound n a \<Longrightarrow> n \<le> m \<Longrightarrow> row_sound m a"
  by (auto simp: row_sound_def)

text \<open>A new row: of a new lineage, or the next version of one that has none waiting.\<close>

lemma sound_insert:
  assumes "lineage_sound d" and run: "insert_agreement a d = (r, d')" and "ag_ID a = db_next_ref d"
    and "ag_RootAgreementID a \<le> db_next_ref d" and "1 \<le> ag_Version a"
    and "ag_StatusCode a = AgreementSubmitted \<longrightarrow> ag_Version a = 1"
    and "is_pending a \<longrightarrow> 1 < ag_Version a \<and> ag_SupersededAt a = None \<and>
      filter (pending_in (ag_RootAgreementID a)) (db_agreements d) = []"
    and "\<not> (is_live a \<and> 1 < ag_Version a)"
  shows "lineage_sound d'"
proof (cases r)
  case (Inl e)
  with run have "d' = d" by (auto simp: insert_agreement_def Let_def split: if_splits)
  with assms(1) show ?thesis by simp
next
  case (Inr row)
  let ?row = "a\<lparr>ag_Rates := with_ids (db_next_ref d + 1) (ag_Rates a)\<rparr>"
  from run Inr have v: "\<not> version_taken d a"
    and d': "d' = d\<lparr>db_next_ref := db_next_ref d + 1 + length (ag_Rates a), db_agreements := db_agreements d @ [dated ?row]\<rparr>"
    by (auto simp: insert_agreement_def Let_def split: if_splits)
  have p: "is_pending ?row = is_pending a" "is_live ?row = is_live a" by (simp_all add: is_pending_def is_live_def)
  have old: "\<forall>b\<in>set (db_agreements d). row_sound (db_next_ref d) b" using assms(1) by (simp add: lineage_sound_def list_all_iff)
  then have "db_next_ref d \<notin> ag_ID ` set (db_agreements d)" by (force simp: row_sound_def)
  moreover have "(ag_RootAgreementID a, ag_Version a) \<notin> (\<lambda>b. (ag_RootAgreementID b, ag_Version b)) ` set (db_agreements d)"
    using v by (auto simp: version_taken_def list_ex_iff)
  moreover have "row_sound (db_next_ref d + 1 + length (ag_Rates a)) (dated ?row)"
    using assms(3-7) p by (simp add: row_sound_def)
  moreover have "length (filter (pending_in rt) (db_agreements d @ [dated ?row])) \<le> 1" for rt
  proof (cases "pending_in rt (dated ?row)")
    case True
    then have "is_pending a" "rt = ag_RootAgreementID a" using p by (auto simp: pending_in_def in_lineage_def)
    with assms(7) show ?thesis by simp
  next
    case False
    with assms(1) show ?thesis by (simp add: lineage_sound_def)
  qed
  moreover have "\<not> in_force rt (dated ?row)" for rt using assms(8) p by (auto simp: in_force_def)
  ultimately show ?thesis using assms(1,3) old d'
    by (auto simp: lineage_sound_def list_all_iff intro: row_sound_later)
qed

subsection \<open>The writes\<close>

lemma soundI: "(\<And>d r d'. lineage_sound d \<Longrightarrow> m d = (r, d') \<Longrightarrow> lineage_sound d') \<Longrightarrow> preserves lineage_sound m"
  unfolding preserves_def by (metis prod.collapse)

lemma sound_call: "preserves P m \<Longrightarrow> preserves P (call E c m)"
  by (auto simp: call_def intro: op_rules)

lemma sound_fields:
  assumes "calms f" and "\<And>a. is_live (f a) \<Longrightarrow> is_live a"
  shows "preserves lineage_sound (Agreements_UpdateFields E i f)"
  unfolding Agreements_UpdateFields_def
  by (intro sound_call soundI) (auto split: if_splits intro!: sound_update assms)

lemma not_live_columns:
  "\<not> is_live (a\<lparr>ag_StatusCode := AgreementExpired\<rparr>)" "\<not> is_live (superseded_columns E a)" "\<not> is_live (rejected_columns E by note a)"
  "is_live (verified_columns E actor a) = is_live a"
  by (auto simp: is_live_def superseded_columns_def rejected_columns_def verified_columns_def Let_def)

lemma sound_rate [op_rules]: "preserves lineage_sound (UpdateRate E i f)"
proof -
  let ?f = "\<lambda>a. a\<lparr>ag_Rates := update_where (\<lambda>r. ar_ID r = i) f (ag_Rates a)\<rparr>"
  have f: "calms ?f" "is_live (?f a) \<Longrightarrow> is_live a" for a
    by (auto simp: calms_def is_pending_def is_live_def)
  have "lineage_sound (d\<lparr>db_agreements := map ?f (db_agreements d)\<rparr>)" if "lineage_sound d" for d
    using sound_update [OF that f(1), of "\<lambda>_. True"] f(2) by (simp add: update_where_def [of "\<lambda>_. True"])
  then show ?thesis unfolding UpdateRate_def
    by (intro sound_call soundI) (auto simp: Let_def split: if_splits)
qed

lemma sound_reject [op_rules]: "preserves lineage_sound (Agreements_Reject E i by note)"
  unfolding Agreements_Reject_def
  by (intro sound_call soundI) (auto split: if_splits simp: not_live_columns intro!: sound_update calm_columns)

lemma sound_create [op_rules]: "preserves lineage_sound (Agreements_Create E (new_agreement actor inp number))"
proof (unfold Agreements_Create_def, intro sound_call soundI)
  fix d r d' assume d: "lineage_sound d"
  let ?a = "new_agreement actor inp number"
  have a: "ag_ID ?a = uuid_Nil" "ag_Version ?a = 0" "ag_RootAgreementID ?a = uuid_Nil" "\<not> is_pending ?a"
    by (auto simp: new_agreement_def contract_parties_def is_pending_def split: option.splits prod.splits)
  assume "(let i = (if ag_ID ?a = uuid_Nil then db_next_ref d else ag_ID ?a)
     in insert_agreement (?a\<lparr>ag_ID := i, ag_Version := (if ag_Version ?a = 0 then 1 else ag_Version ?a),
          ag_RootAgreementID := (if ag_RootAgreementID ?a = uuid_Nil then i else ag_RootAgreementID ?a)\<rparr>) d) = (r, d')"
  then show "lineage_sound d'"
    using a(4) by (auto simp: a Let_def is_pending_def intro!: sound_insert [OF d])
qed

lemma max_version_ge: "a \<in> set (db_agreements d) \<Longrightarrow> in_lineage rt a \<Longrightarrow> ag_Version a \<le> max_version d rt"
proof -
  have "x \<in> set xs \<Longrightarrow> x \<le> foldr max xs (0::int)" for x xs by (induction xs) auto
  then show "a \<in> set (db_agreements d) \<Longrightarrow> in_lineage rt a \<Longrightarrow> ag_Version a \<le> max_version d rt"
    by (auto simp: max_version_def)
qed

lemma sound_revision:
  assumes "ag_ID a = uuid_Nil" "ag_StatusCode a = AgreementPendingApproval" "ag_SupersededAt a = None"
  shows "preserves lineage_sound (CreateRevision E a i)"
proof (unfold CreateRevision_def, intro sound_call soundI)
  fix d r d' assume d: "lineage_sound d"
  assume run: "(case find (\<lambda>a. ag_ID a = i) (db_agreements d) of
       None \<Rightarrow> (Inl (Err ErrNotFound ''repository: not found''), d)
     | Some previous \<Rightarrow>
         (let rootID = ag_RootAgreementID previous in
          if list_ex (\<lambda>a. in_lineage rootID a \<and> is_pending a) (db_agreements d)
          then (Inl (Err ErrConflict ''repository: conflict''), d)
          else rewrap (Err ErrStore ''repository: create revision'') (insert_agreement (a
            \<lparr>ag_ID := (if ag_ID a = uuid_Nil then db_next_ref d else ag_ID a),
             ag_Version := max_version d rootID + 1, ag_RootAgreementID := rootID,
             ag_SupersedesAgreementID := Some i\<rparr>)) d)) = (r, d')"
  show "lineage_sound d'"
  proof (cases "find (\<lambda>a. ag_ID a = i) (db_agreements d)")
    case None
    with run d show ?thesis by simp
  next
    case (Some p)
    then have p: "p \<in> set (db_agreements d)" by (rule find_Some_iff_first [THEN conjunct1])
    with d have rs: "row_sound (db_next_ref d) p" by (simp add: lineage_sound_def list_all_iff)
    moreover have "ag_Version p \<le> max_version d (ag_RootAgreementID p)"
      using p by (rule max_version_ge) (simp add: in_lineage_def)
    ultimately have v: "1 \<le> max_version d (ag_RootAgreementID p)" "ag_RootAgreementID p < db_next_ref d"
      by (auto simp: row_sound_def)
    let ?b = "a\<lparr>ag_ID := db_next_ref d, ag_Version := max_version d (ag_RootAgreementID p) + 1,
      ag_RootAgreementID := ag_RootAgreementID p, ag_SupersedesAgreementID := Some i\<rparr>"
    show ?thesis
    proof (cases "list_ex (\<lambda>a. in_lineage (ag_RootAgreementID p) a \<and> is_pending a) (db_agreements d)")
      case True
      with run Some d show ?thesis by simp
    next
      case False
      then have np: "filter (pending_in (ag_RootAgreementID p)) (db_agreements d) = []"
        by (auto simp: filter_empty_conv list_ex_iff pending_in_def)
      from run Some False assms(1) obtain r' where "insert_agreement ?b d = (r', d')"
        by (auto simp: rewrap_def Let_def split: prod.splits sum.splits)
      then show ?thesis
        using v assms(2,3) np by (intro sound_insert [OF d]) (auto simp: is_live_def)
    qed
  qed
qed

text \<open>An approval in one pass over the rows.\<close>

definition approving :: "env \<Rightarrow> uuid \<Rightarrow> string \<Rightarrow> agreement \<Rightarrow> agreement \<Rightarrow> agreement" where
  "approving E by note a b =
     (if ag_ID b = ag_ID a then approved_columns E by note b
      else if in_lineage (ag_RootAgreementID a) b \<and> is_live b then superseded_columns E b else b)"

lemma approved_same [simp]:
  "ag_ID (approved_columns E by note a) = ag_ID a" "ag_RootAgreementID (approved_columns E by note a) = ag_RootAgreementID a"
  "ag_Version (approved_columns E by note a) = ag_Version a" "ag_StatusCode (approved_columns E by note a) = AgreementActive"
  "ag_SupersededAt (approved_columns E by note a) = ag_SupersededAt a"
  by (simp_all add: approved_columns_def Let_def)

lemma superseded_same [simp]:
  "ag_ID (superseded_columns E a) = ag_ID a" "ag_RootAgreementID (superseded_columns E a) = ag_RootAgreementID a"
  "ag_Version (superseded_columns E a) = ag_Version a" "ag_StatusCode (superseded_columns E a) = AgreementSuperseded"
  by (simp_all add: superseded_columns_def)

lemma approving_same [simp]:
  "ag_ID (approving E by note a b) = ag_ID b" "ag_RootAgreementID (approving E by note a b) = ag_RootAgreementID b"
  "ag_Version (approving E by note a b) = ag_Version b"
  by (simp_all add: approving_def)

lemma Approve_Inr:
  assumes "Agreements_Approve E i by note d = (Inr x, d')"
  obtains a where "find (\<lambda>a. ag_ID a = i) (db_agreements d) = Some a" "is_pending a" "a \<in> set (db_agreements d)" "ag_ID a = i"
    "x = a\<lparr>ag_StatusCode := AgreementActive, ag_ApprovedAt := Some (now E), ag_ApprovedByUserID := Some by\<rparr>"
    "d' = d\<lparr>db_agreements := map (approving E by note a) (db_agreements d)\<rparr>"
proof -
  have f: "update_where (\<lambda>b. in_lineage rt b \<and> ag_ID b \<noteq> ag_ID a \<and> is_live b) (superseded_columns E)
      (update_where (\<lambda>b. ag_ID b = ag_ID a) (approved_columns E by note) xs) = map (approving E by note a) xs"
    if "rt = ag_RootAgreementID a" for a xs rt
    using that by (auto simp: update_where_def approving_def in_lineage_def)
  show ?thesis
  proof (cases "find (\<lambda>a. ag_ID a = i) (db_agreements d)")
    case None
    with assms show ?thesis by (simp add: Agreements_Approve_def call_def split: if_splits)
  next
    case (Some a)
    then have "a \<in> set (db_agreements d) \<and> ag_ID a = i" by (rule find_Some_iff_first)
    with assms Some that f [OF refl, of a] show ?thesis
      by (auto simp: Agreements_Approve_def call_def split: if_splits)
  qed
qed

lemma Approve_Inl: "Agreements_Approve E i by note d = (Inl e, d') \<Longrightarrow> d' = d"
  by (auto simp: Agreements_Approve_def call_def split: if_splits option.splits)

text \<open>After an approval the approved version is the lineage's only live one.\<close>

lemma approving_live:
  assumes "distinct (map ag_ID xs)" and "a \<in> set xs" and "is_pending a" and "ag_SupersededAt a = None"
  shows "filter (\<lambda>b. in_lineage (ag_RootAgreementID a) b \<and> is_live b) (map (approving E by note a) xs)
    = [approved_columns E by note a]"
proof -
  let ?L = "\<lambda>b. in_lineage (ag_RootAgreementID a) b \<and> is_live b"
  have L: "?L (approving E by note a b) \<longleftrightarrow> ag_ID b = ag_ID a" if "b \<in> set xs" for b
  proof (cases "ag_ID b = ag_ID a")
    case True
    with assms(1,2) that have "b = a" by (metis distinct_map inj_onD)
    with assms(4) show ?thesis by (simp add: approving_def is_live_def in_lineage_def)
  next
    case False
    then show ?thesis by (auto simp: approving_def is_live_def in_lineage_def)
  qed
  then have "filter ?L (map (approving E by note a) xs) = map (approving E by note a) (filter (\<lambda>b. ag_ID b = ag_ID a) xs)"
    by (simp add: filter_map o_def cong: filter_cong)
  also have "filter (\<lambda>b. ag_ID b = ag_ID a) xs = [a]"
    using assms(1,2) by (induction xs) (auto simp: filter_empty_conv rev_image_eqI)
  finally show ?thesis by (simp add: approving_def [of E "by" "note" a a])
qed

lemma approving_others:
  assumes "lineage_sound d" and "a \<in> set (db_agreements d)"
  shows "filter (\<lambda>b. \<not> in_lineage (ag_RootAgreementID a) b) (map (approving E by note a) (db_agreements d)) =
    filter (\<lambda>b. \<not> in_lineage (ag_RootAgreementID a) b) (db_agreements d)"
proof -
  have "inj_on ag_ID (set (db_agreements d))" using assms(1) by (simp add: lineage_sound_def distinct_map)
  then have other: "approving E by note a b = b" if "b \<in> set (db_agreements d)" "\<not> in_lineage (ag_RootAgreementID a) b" for b
    using that assms(2) by (auto simp: approving_def in_lineage_def dest: inj_onD)
  have lin: "in_lineage rt (approving E by note a b) = in_lineage rt b" for rt b by (simp add: in_lineage_def)
  have "map (approving E by note a) ys = ys" if "ys = filter (\<lambda>b. \<not> in_lineage (ag_RootAgreementID a) b) (db_agreements d)" for ys
    using that by (intro map_idI other) auto
  then show ?thesis by (simp add: filter_map o_def lin)
qed

lemma sound_approve [op_rules]: "preserves lineage_sound (Agreements_Approve E i by note)"
proof (rule soundI)
  fix d r d' assume d: "lineage_sound d" and run: "Agreements_Approve E i by note d = (r, d')"
  show "lineage_sound d'"
  proof (cases r)
    case (Inl e)
    with run d show ?thesis by (auto dest: Approve_Inl)
  next
    case (Inr x)
    with run obtain a where a: "is_pending a" "a \<in> set (db_agreements d)"
      and d': "d' = d\<lparr>db_agreements := map (approving E by note a) (db_agreements d)\<rparr>"
      using Approve_Inr by metis
    have same: "map (approving E by note a) xs = update_where (\<lambda>_. True) (approving E by note a) xs" for xs
      by (simp add: update_where_def)
    have 0: "distinct (map ag_ID (db_agreements d))" "row_sound (db_next_ref d) a"
      using d a by (auto simp: lineage_sound_def list_all_iff)
    have c: "calms (approving E by note a)"
      by (auto simp: calms_def approving_def is_pending_def)
    have "length (filter (in_force rt) (map (approving E by note a) (db_agreements d))) \<le> 1" for rt
    proof (cases "rt = ag_RootAgreementID a")
      case True
      let ?ys = "map (approving E by note a) (db_agreements d)"
      have "length (filter (in_force rt) ?ys) \<le> length (filter (\<lambda>b. in_lineage (ag_RootAgreementID a) b \<and> is_live b) ?ys)"
        using True by (intro filter_length_mono) (simp add: in_force_def)
      also have "\<dots> = 1" using 0(2) a(1) approving_live [OF 0(1) a(2,1), of E "by" "note"]
        by (simp only: row_sound_def) simp
      finally show ?thesis .
    next
      case False
      have "length (filter (in_force rt) (map (approving E by note a) (db_agreements d))) \<le> length (filter (in_force rt) (db_agreements d))"
      proof (rule count_le)
        fix b assume b: "b \<in> set (db_agreements d)" and f: "in_force rt (approving E by note a b)"
        with False have "ag_RootAgreementID b \<noteq> ag_RootAgreementID a" by (auto simp: in_force_def in_lineage_def)
        then have "approving E by note a b = b" using b a(2) 0(1)
          by (auto simp: approving_def in_lineage_def distinct_map dest: inj_onD)
        with f show "in_force rt b" by simp
      qed
      with d show ?thesis unfolding lineage_sound_def by (meson order_trans)
    qed
    then show ?thesis using sound_rewrite [OF d c, of "\<lambda>_. True"] by (simp add: d' same)
  qed
qed

subsection \<open>The operations\<close>

lemma keeps_through: "keeps g m \<Longrightarrow> (\<And>s. f s = h (g s)) \<Longrightarrow> keeps f m"
  by (simp add: keeps_def)

lemma sound_frame: "keeps (\<lambda>d. (db_agreements d, db_next_ref d)) m \<Longrightarrow> preserves lineage_sound m"
  by (auto simp: keeps_def preserves_def lineage_sound_def)

lemma readonly_contracts [op_rules]:
  "readonly (Agreements_FindExpired E)" "readonly (RatesNeedingRoute E i)" "readonly (Agreements_FindByIDForService E i)"
  "readonly (Agreements_Lineage E c i)" "readonly (Agreements_PendingApprovals E c)" "readonly (Agreements_PriceHistory E c i)"
  unfolding Agreements_FindExpired_def RatesNeedingRoute_def Agreements_FindByIDForService_def
    Agreements_Lineage_def Agreements_PendingApprovals_def Agreements_PriceHistory_def
  by (intro op_rules)+

lemmas contract_reads [op_rules] = readonly_contracts [THEN preserves_readonly]

lemma sound_routing [op_rules]: "preserves lineage_sound (RouteLanes E i)"
proof -
  have "keeps but_cache m \<Longrightarrow> keeps (\<lambda>d. (db_agreements d, db_next_ref d)) m" for m :: "(db, 'x) op"
    by (erule keeps_through [where h = "\<lambda>d. (db_agreements d, db_next_ref d)"]) (simp add: but_cache_def)
  then have [op_rules]: "preserves lineage_sound (Cache_Route E ps prof a)" for ps prof a
    by (intro sound_frame) (auto intro: op_rules)
  have one: "preserves lineage_sound (routeOne E r)" for r
    unfolding routeOne_def
    by (auto split: sum.splits intro!: op_rules)
  have "preserves lineage_sound (route_all E rates)" for rates
    by (induction rates) (auto intro!: op_rules one)
  then show ?thesis unfolding RouteLanes_def by (intro op_rules)
qed

lemma sound_notify [op_rules]: "preserves lineage_sound (notify ev)"
  by (intro sound_frame) (auto simp: keeps_def notify_def exec_def)

lemma sound_number [op_rules]: "preserves lineage_sound (agreementNumber E t c)"
  by (intro sound_frame) (auto simp: keeps_def agreementNumber_def OrdersNextNumber_op_def call_def op_defs Let_def)

lemma sound_CreateAgreement: "preserves lineage_sound (CreateAgreement E actor inp)"
  unfolding CreateAgreement_def
  by (auto split: prod.splits option.splits intro!: op_rules)

lemma built_revision:
  "buildRevision E actor previous inp = Inr a \<Longrightarrow>
     ag_ID a = uuid_Nil \<and> ag_StatusCode a = AgreementPendingApproval \<and> ag_SupersededAt a = None \<and>
     ag_ValidFrom a \<le> ag_ValidUntil a \<and> ag_Rates a \<noteq> [] \<and>
     ag_ShipperCompanyID a = ag_ShipperCompanyID previous \<and> ag_TransporterCompanyID a = ag_TransporterCompanyID previous \<and>
     (rv_Kind inp = RevisionRenewal \<longrightarrow> ag_ValidUntil previous < ag_ValidUntil a)"
  by (auto simp: buildRevision_def revised_terms_def Let_def split: if_splits)

lemma sound_Revise: "preserves lineage_sound (Revise E actor i inp)"
  unfolding Revise_def submit_revision_def
  by (intro op_rules preserves_result sound_revision) (auto dest: built_revision)

lemma sound_decisions:
  "preserves lineage_sound (ApproveRevision E actor i note)" "preserves lineage_sound (RejectRevision E actor i note)"
  unfolding ApproveRevision_def RejectRevision_def by (intro op_rules)+

lemma sound_VerifyAgreement: "preserves lineage_sound (VerifyAgreement E actor i)"
  unfolding VerifyAgreement_def
  by (intro op_rules sound_fields calm_columns) (simp add: not_live_columns)

lemma sound_ExpireAgreements: "preserves lineage_sound (ExpireAgreements E)"
proof -
  have "preserves lineage_sound (Agreements_UpdateFields E i (\<lambda>a. a\<lparr>ag_StatusCode := AgreementExpired\<rparr>))" for i
    by (intro sound_fields calm_columns) (simp add: not_live_columns)
  then have "preserves lineage_sound (expire_all E rows)" for rows
    by (induction rows) (auto intro!: op_rules)
  then show ?thesis unfolding ExpireAgreements_def by (intro op_rules)
qed

text \<open>A decision touches a first version only.\<close>

lemma Decide_effect:
  assumes "DecideAgreement E actor i approve d = (r, d')"
  shows "db_agreements d' = db_agreements d \<and> db_next_ref d' = db_next_ref d \<or>
    (\<exists>a. find (\<lambda>a. ag_ID a = i \<and> of_party (a_CompanyID actor) a) (db_agreements d) = Some a \<and>
      ag_StatusCode a = AgreementSubmitted \<and> (ag_TransporterCompanyID a = a_CompanyID actor \<or> is_admin actor) \<and>
      db_next_ref d' = db_next_ref d \<and>
      db_agreements d' = update_where (\<lambda>a. ag_ID a = i)
        (\<lambda>a. a\<lparr>ag_StatusCode := if approve then AgreementActive else AgreementRejected\<rparr>) (db_agreements d))"
  using assms
  by (auto simp: DecideAgreement_def Agreements_FindByID_def Agreements_UpdateFields_def call_def op_defs query_def
      one_def notify_def exec_def Let_def split: if_splits option.splits sum.splits)

lemma same_id:
  assumes "lineage_sound d" "a \<in> set (db_agreements d)" "b \<in> set (db_agreements d)" "ag_ID a = ag_ID b"
  shows "a = b"
proof -
  from assms(1) have "inj_on ag_ID (set (db_agreements d))" by (simp add: lineage_sound_def distinct_map)
  then show ?thesis using assms(2-4) by (simp add: inj_onD)
qed

lemma sound_DecideAgreement: "preserves lineage_sound (DecideAgreement E actor i approve)"
proof (rule soundI)
  fix d r d' assume d: "lineage_sound d" and run: "DecideAgreement E actor i approve d = (r, d')"
  let ?f = "\<lambda>a. a\<lparr>ag_StatusCode := if approve then AgreementActive else AgreementRejected\<rparr>"
  have same: "lineage_sound d'" if "lineage_sound e" "db_agreements d' = db_agreements e" "db_next_ref d' = db_next_ref e" for e
    using that by (simp add: lineage_sound_def)
  from Decide_effect [OF run] consider (kept) "db_agreements d' = db_agreements d" "db_next_ref d' = db_next_ref d"
    | (decided) a where "find (\<lambda>a. ag_ID a = i \<and> of_party (a_CompanyID actor) a) (db_agreements d) = Some a"
      "ag_StatusCode a = AgreementSubmitted" "db_next_ref d' = db_next_ref d"
      "db_agreements d' = update_where (\<lambda>a. ag_ID a = i) ?f (db_agreements d)"
    by blast
  then show "lineage_sound d'"
  proof cases
    case kept
    with d show ?thesis by (rule same)
  next
    case (decided a)
    note f = decided(1) and st = decided(2) and n = decided(3) and rows = decided(4)
    have a: "a \<in> set (db_agreements d)" "ag_ID a = i" using find_Some_iff_first [OF f] by auto
    with d st have v: "ag_Version a = 1" by (auto simp: lineage_sound_def list_all_iff row_sound_def)
    have "b = a" if "b \<in> set (db_agreements d)" "ag_ID b = i" for b
      using that a by (intro same_id [OF d]) auto
    then have "lineage_sound (d\<lparr>db_agreements := update_where (\<lambda>a. ag_ID a = i) ?f (db_agreements d)\<rparr>)"
      using v by (intro sound_update d) (cases approve; auto simp: calm_columns)+
    then show ?thesis by (rule same) (simp_all add: n rows)
  qed
qed

section \<open>Every contract the system can hold\<close>

datatype deal =
    MakeDeal actor agreement_input
  | DecideDeal actor uuid bool
  | VerifyDeal actor uuid
  | ReviseDeal actor uuid revise_input
  | ApproveDeal actor uuid string
  | RejectDeal actor uuid string
  | ExpireDeals

definition done_with :: "(db, 'a) op \<Rightarrow> (db, unit) op" where
  "done_with m = andThen m (\<lambda>_. ok ())"

fun strike :: "env \<Rightarrow> deal \<Rightarrow> (db, unit) op" where
  "strike E (MakeDeal actor inp) = done_with (CreateAgreement E actor inp)"
| "strike E (DecideDeal actor i approve) = DecideAgreement E actor i approve"
| "strike E (VerifyDeal actor i) = VerifyAgreement E actor i"
| "strike E (ReviseDeal actor i inp) = done_with (Revise E actor i inp)"
| "strike E (ApproveDeal actor i note) = done_with (ApproveRevision E actor i note)"
| "strike E (RejectDeal actor i note) = RejectRevision E actor i note"
| "strike E ExpireDeals = done_with (ExpireAgreements E)"

inductive contracted :: "db \<Rightarrow> bool" where
  nothing_signed: "db_agreements d = [] \<Longrightarrow> 0 < db_next_ref d \<Longrightarrow> contracted d"
| struck: "contracted d \<Longrightarrow> strike E q d = (r, d') \<Longrightarrow> contracted d'"

lemma sound_strike: "preserves lineage_sound (strike E q)"
  by (cases q) (auto simp: done_with_def intro!: op_rules sound_CreateAgreement sound_DecideAgreement
      sound_VerifyAgreement sound_Revise sound_decisions sound_ExpireAgreements)

lemma contracted_sound: "contracted d \<Longrightarrow> lineage_sound d"
proof (induction rule: contracted.induct)
  case (nothing_signed d)
  then show ?case by (simp add: lineage_sound_def)
next
  case (struck d E q r d')
  then show ?case using preservesD [OF sound_strike] by blast
qed

section \<open>What an approval and a revision did\<close>

lemma Agreements_FindByID_Inr [simp]:
  "Agreements_FindByID E c i d = (Inr a, d') \<longleftrightarrow> \<not> down E AgreementsFindByID \<and>
     find (\<lambda>a. ag_ID a = i \<and> of_party c a) (db_agreements d) = Some a \<and> d' = d"
  by (auto simp: Agreements_FindByID_def call_def fail_def query_def one_def split: option.splits)

lemma find_by_id:
  assumes "lineage_sound d" "find (\<lambda>a. ag_ID a = i \<and> Q a) (db_agreements d) = Some a"
    "find (\<lambda>a. ag_ID a = i) (db_agreements d) = Some b"
  shows "b = a"
  using find_Some_iff_first [OF assms(2)] find_Some_iff_first [OF assms(3)] by (auto intro: same_id [OF assms(1)])

lemma ApproveRevision_Inr:
  assumes "lineage_sound d" and "ApproveRevision E actor i note d = (Inr x, d')"
  obtains a where "a \<in> set (db_agreements d)" "ag_ID a = i" "is_pending a" "ag_SupersededAt a = None"
    "ag_TransporterCompanyID a = a_CompanyID actor" "ag_RequestedByUserID a \<noteq> Some (a_UserID actor)"
    "db_agreements d' = map (approving E (a_UserID actor) note a) (db_agreements d)"
proof -
  from assms(2) obtain a d1 where a: "find (\<lambda>a. ag_ID a = i \<and> of_party (a_CompanyID actor) a) (db_agreements d) = Some a"
    "ag_TransporterCompanyID a = a_CompanyID actor" "ag_RequestedByUserID a \<noteq> Some (a_UserID actor)"
    and run: "Agreements_Approve E i (a_UserID actor) note d = (Inr x, d1)" "db_agreements d' = db_agreements d1"
    by (auto simp: ApproveRevision_def andThen_Inr) (auto simp: andThen_Inr notify_def exec_def split: sum.split_asm)
  from run(1) obtain b where b: "find (\<lambda>a. ag_ID a = i) (db_agreements d) = Some b" "is_pending b" "b \<in> set (db_agreements d)"
    "ag_ID b = i" "d1 = d\<lparr>db_agreements := map (approving E (a_UserID actor) note b) (db_agreements d)\<rparr>"
    by (rule Approve_Inr)
  moreover have "b = a" using assms(1) a(1) b(1) by (rule find_by_id)
  moreover have "ag_SupersededAt b = None"
    using assms(1) b(2,3) by (auto simp: lineage_sound_def list_all_iff row_sound_def)
  ultimately show ?thesis using that a run(2) by auto
qed

abbreviation live_in :: "uuid \<Rightarrow> db \<Rightarrow> agreement list" where
  "live_in rootID d \<equiv> filter (\<lambda>b. in_lineage rootID b \<and> is_live b) (db_agreements d)"

lemma insert_Inr:
  "insert_agreement a d = (Inr x, d') \<Longrightarrow>
     x = a\<lparr>ag_Rates := with_ids (db_next_ref d + 1) (ag_Rates a)\<rparr> \<and> \<not> version_taken d a \<and> agreement_fits a \<and>
     db_agreements d' = db_agreements d @ [dated x] \<and> db_next_ref d < db_next_ref d'"
  by (auto simp: insert_agreement_def Let_def split: if_splits)

lemma CreateRevision_Inr:
  assumes "CreateRevision E a i d = (Inr x, d')"
  obtains p where "find (\<lambda>a. ag_ID a = i) (db_agreements d) = Some p"
    "filter (pending_in (ag_RootAgreementID p)) (db_agreements d) = []"
    "x = a\<lparr>ag_ID := (if ag_ID a = uuid_Nil then db_next_ref d else ag_ID a),
      ag_Version := max_version d (ag_RootAgreementID p) + 1, ag_RootAgreementID := ag_RootAgreementID p,
      ag_SupersedesAgreementID := Some i, ag_Rates := with_ids (db_next_ref d + 1) (ag_Rates a)\<rparr>"
    "db_agreements d' = db_agreements d @ [dated x]"
proof -
  from assms obtain p where p: "find (\<lambda>a. ag_ID a = i) (db_agreements d) = Some p"
    and c: "\<not> list_ex (\<lambda>b. in_lineage (ag_RootAgreementID p) b \<and> is_pending b) (db_agreements d)"
    and ins: "insert_agreement (a\<lparr>ag_ID := (if ag_ID a = uuid_Nil then db_next_ref d else ag_ID a),
      ag_Version := max_version d (ag_RootAgreementID p) + 1, ag_RootAgreementID := ag_RootAgreementID p,
      ag_SupersedesAgreementID := Some i\<rparr>) d = (Inr x, d')"
    by (auto simp: CreateRevision_def call_def Let_def split: if_split_asm option.split_asm)
  have "filter (pending_in (ag_RootAgreementID p)) (db_agreements d) = []"
    using c by (auto simp: filter_empty_conv list_ex_iff pending_in_def)
  with p insert_Inr [OF ins] that show ?thesis by simp
qed

lemma live_added: "is_pending x \<Longrightarrow> live_in rt (d\<lparr>db_agreements := db_agreements d @ [dated x]\<rparr>) = live_in rt d"
  by (simp add: is_pending_def is_live_def)

text \<open>A revision that was accepted: the version it made, and what is in force now.\<close>

lemma Revise_Inr:
  assumes d: "lineage_sound d" and run: "Revise E actor i inp d = (Inr x, d')"
  obtains p a built where "p \<in> set (db_agreements d)" "ag_ID p = i" "ag_TransporterCompanyID p = a_CompanyID actor"
    "ag_StatusCode p \<notin> {AgreementRejected, AgreementCancelled}" "buildRevision E actor p inp = Inr built"
    "filter (pending_in (ag_RootAgreementID p)) (db_agreements d) = []"
    "a = built\<lparr>ag_ID := db_next_ref d, ag_Version := max_version d (ag_RootAgreementID p) + 1,
      ag_RootAgreementID := ag_RootAgreementID p, ag_SupersedesAgreementID := Some i,
      ag_Rates := with_ids (db_next_ref d + 1) (ag_Rates built)\<rparr>"
    "if rv_Kind inp = RevisionRenewal
     then db_agreements d' = map (approving E (a_UserID actor) ''Renewal, no approval required'' (dated a)) (db_agreements d @ [dated a])
     else rv_Kind inp = RevisionUpdate \<and> x = a \<and> db_agreements d' = db_agreements d @ [dated a]"
proof -
  let ?fields = "if fields_wired E then FieldConfig_Validate E (a_CompanyID actor) EntityAgreement
         (\<lambda>k. case rv_Present inp k of Some b \<Rightarrow> b | None \<Rightarrow> k = ''customerId'' \<or> k = ''agreementType'')
       else ok ()"
  have ro: "readonly ?fields" by (intro op_rules)
  from run obtain p d1 built where p: "find (\<lambda>a. ag_ID a = i \<and> of_party (a_CompanyID actor) a) (db_agreements d) = Some p"
    "ag_TransporterCompanyID p = a_CompanyID actor" "ag_StatusCode p \<notin> {AgreementRejected, AgreementCancelled}"
    and f: "?fields d = (Inr (), d1)" and b: "buildRevision E actor p inp = Inr built"
    and k: "rv_Kind inp = RevisionRenewal \<or> rv_Kind inp = RevisionUpdate"
    and later: "submit_revision E actor i inp built d1 = (Inr x, d')"
    by (auto simp: Revise_def andThen_Inr)
  from readonlyD [OF ro f] have d1: "d1 = d" .
  from later obtain y d2 where c: "CreateRevision E built i d = (Inr y, d2)"
    and t: "if rv_Kind inp = RevisionRenewal
      then Agreements_Approve E (ag_ID y) (a_UserID actor) ''Renewal, no approval required'' d2 = (Inr x, d')
      else y = x \<and> db_agreements d' = db_agreements d2"
    unfolding submit_revision_def d1
    by (auto simp: andThen_Inr) (auto simp: andThen_Inr notify_def exec_def split: sum.split_asm if_split_asm)
  have new: "ag_ID built = uuid_Nil" using built_revision [OF b] by simp
  have in_p: "p \<in> set (db_agreements d)" "ag_ID p = i" using find_Some_iff_first [OF p(1)] by auto
  from c obtain q where q: "find (\<lambda>a. ag_ID a = i) (db_agreements d) = Some q"
    "filter (pending_in (ag_RootAgreementID q)) (db_agreements d) = []"
    "y = built\<lparr>ag_ID := db_next_ref d, ag_Version := max_version d (ag_RootAgreementID q) + 1,
      ag_RootAgreementID := ag_RootAgreementID q, ag_SupersedesAgreementID := Some i,
      ag_Rates := with_ids (db_next_ref d + 1) (ag_Rates built)\<rparr>"
    "db_agreements d2 = db_agreements d @ [dated y]"
    using new by (elim CreateRevision_Inr) auto
  have "q = p" using d p(1) q(1) by (rule find_by_id)
  have fresh: "ag_ID y = db_next_ref d" using q(3) by simp
  have "find (\<lambda>a. ag_ID a = ag_ID y) (db_agreements d) = None"
    using d fresh by (auto simp: find_None_iff lineage_sound_def list_all_iff row_sound_def)
  then have at: "find (\<lambda>a. ag_ID a = ag_ID y) (db_agreements d2) = Some (dated y)"
    by (simp add: q(4) find_append)
  have renewed: "db_agreements d' = map (approving E (a_UserID actor) ''Renewal, no approval required'' (dated y)) (db_agreements d @ [dated y])"
    if "rv_Kind inp = RevisionRenewal"
  proof -
    from t that have "Agreements_Approve E (ag_ID y) (a_UserID actor) ''Renewal, no approval required'' d2 = (Inr x, d')" by simp
    then show ?thesis by (rule Approve_Inr) (use at q(4) in simp)
  qed
  show ?thesis using that [OF in_p p(2,3) b] q \<open>q = p\<close> k t renewed by auto
qed

lemma dated_more [simp]:
  "ag_SupersedesAgreementID (dated a) = ag_SupersedesAgreementID a" "ag_Rates (dated a) = ag_Rates a"
  "ag_ShipperCompanyID (dated a) = ag_ShipperCompanyID a" "ag_TransporterCompanyID (dated a) = ag_TransporterCompanyID a"
  by (simp_all add: dated_def)

lemma approved_more [simp]:
  "ag_SupersedesAgreementID (approved_columns E by note a) = ag_SupersedesAgreementID a"
  "ag_Rates (approved_columns E by note a) = ag_Rates a"
  "ag_ShipperCompanyID (approved_columns E by note a) = ag_ShipperCompanyID a"
  "ag_TransporterCompanyID (approved_columns E by note a) = ag_TransporterCompanyID a"
  "ag_ValidUntil (approved_columns E by note a) = ag_ValidUntil a"
  by (simp_all add: approved_columns_def Let_def)

lemma with_ids_Nil [simp]: "with_ids n rates = [] \<longleftrightarrow> rates = []"
  by (cases rates) (simp_all add: with_ids_def upt_rec)

lemma renewal_until:
  "buildRevision E actor p inp = Inr a \<Longrightarrow> rv_Kind inp = RevisionRenewal \<Longrightarrow>
     \<exists>t. rv_ValidUntil inp = Some t \<and> ag_ValidUntil p < t \<and> ag_ValidUntil a = t"
  by (auto simp: buildRevision_def revised_terms_def Let_def split: if_split_asm option.split_asm)

lemma revised:
  assumes d: "lineage_sound d" and run: "Revise E actor i inp d = (Inr x, d')"
  shows "\<exists>p\<in>set (db_agreements d). \<exists>new\<in>set (db_agreements d').
    ag_ID p = i \<and> ag_TransporterCompanyID p = a_CompanyID actor \<and>
    ag_StatusCode p \<notin> {AgreementRejected, AgreementCancelled} \<and>
    (\<forall>a\<in>set (db_agreements d). in_lineage (ag_RootAgreementID p) a \<longrightarrow> \<not> is_pending a \<and> ag_Version a < ag_Version new) \<and>
    ag_RootAgreementID new = ag_RootAgreementID p \<and> ag_SupersedesAgreementID new = Some i \<and> ag_Rates new \<noteq> [] \<and>
    ag_ShipperCompanyID new = ag_ShipperCompanyID p \<and> ag_TransporterCompanyID new = ag_TransporterCompanyID p \<and>
    (if rv_Kind inp = RevisionRenewal
     then (\<exists>t. rv_ValidUntil inp = Some t \<and> ag_ValidUntil p < t \<and> ag_ValidUntil new = utc_day t * day) \<and>
       live_in (ag_RootAgreementID p) d' = [new]
     else is_pending new \<and> live_in (ag_RootAgreementID p) d' = live_in (ag_RootAgreementID p) d)"
  using assms
proof (rule Revise_Inr)
  fix p a built :: agreement
  let ?rt = "ag_RootAgreementID p" and ?old = "db_agreements d" and ?note = "''Renewal, no approval required''"
  assume p: "p \<in> set ?old" "ag_ID p = i" "ag_TransporterCompanyID p = a_CompanyID actor"
      "ag_StatusCode p \<notin> {AgreementRejected, AgreementCancelled}"
    and b: "buildRevision E actor p inp = Inr built" and none: "filter (pending_in ?rt) ?old = []"
    and a: "a = built\<lparr>ag_ID := db_next_ref d, ag_Version := max_version d ?rt + 1, ag_RootAgreementID := ?rt,
      ag_SupersedesAgreementID := Some i, ag_Rates := with_ids (db_next_ref d + 1) (ag_Rates built)\<rparr>"
    and e: "if rv_Kind inp = RevisionRenewal
      then db_agreements d' = map (approving E (a_UserID actor) ?note (dated a)) (?old @ [dated a])
      else rv_Kind inp = RevisionUpdate \<and> x = a \<and> db_agreements d' = ?old @ [dated a]"
  have w: "\<not> is_pending c \<and> ag_Version c < ag_Version a" if "c \<in> set ?old" "in_lineage ?rt c" for c
    using that none max_version_ge [OF that] a by (auto simp: filter_empty_conv pending_in_def)
  have pend: "is_pending a" "ag_SupersededAt a = None" "ag_ID a = db_next_ref d"
    using built_revision [OF b] a by (auto simp: is_pending_def)
  have ids: "distinct (map ag_ID (?old @ [dated a]))"
    using d pend(3) by (auto simp: lineage_sound_def list_all_iff row_sound_def)
  show ?thesis
  proof (cases "rv_Kind inp = RevisionRenewal")
    case True
    let ?new = "approved_columns E (a_UserID actor) ?note (dated a)"
    from e True have d': "db_agreements d' = map (approving E (a_UserID actor) ?note (dated a)) (?old @ [dated a])" by simp
    have live: "live_in ?rt d' = [?new]"
      using approving_live [OF ids, of "dated a" E "a_UserID actor" ?note] pend a unfolding d' by simp
    then have "?new \<in> set (live_in ?rt d')" by simp
    then have "?new \<in> set (db_agreements d')" by simp
    moreover have "\<exists>t. rv_ValidUntil inp = Some t \<and> ag_ValidUntil p < t \<and> ag_ValidUntil ?new = utc_day t * day"
      using renewal_until [OF b True] a by (auto simp: dated_def)
    ultimately show ?thesis using p w live a built_revision [OF b] True
      by (intro bexI [of _ p] bexI [of _ ?new]) auto
  next
    case False
    with e have d': "db_agreements d' = ?old @ [dated a]" by simp
    then have "live_in ?rt d' = live_in ?rt d" using pend(1) by (simp add: is_pending_def is_live_def)
    then show ?thesis using p w a pend built_revision [OF b] False d'
      by (intro bexI [of _ p] bexI [of _ "dated a"]) auto
  qed
qed

end
