(* ===== verification/Billing.thy ===== *)
theory Billing
  imports Contracts
begin

text \<open>
  Invoices: \<open>Invoice.Recalculate\<close> of internal/models/models.go, the invoices of
  internal/repository/repository.go and the second half of internal/services/billing_service.go.
\<close>

section \<open>Amounts\<close>

definition Recalculate :: "invoice \<Rightarrow> invoice" where
  "Recalculate i =
     (let ppn = round_to 2 (iv_Subtotal i * iv_PPNPercentage i);
          pph = round_to 2 (iv_Subtotal i * iv_PPH23Percentage i)
      in i\<lparr>iv_PPNAmount := ppn, iv_PPH23Amount := pph,
           iv_Total := round_to 2 (iv_Subtotal i + ppn - pph + iv_Adjustment i)\<rparr>)"

section \<open>The repository\<close>

definition Orders_FindByIDs :: "env \<Rightarrow> uuid list \<Rightarrow> (db, order list) op" where
  "Orders_FindByIDs E ids = (if ids = [] then ok [] else
     call E OrdersFindByIDs (query (\<lambda>d. Inr (filter (\<lambda>r. o_ID r \<in> set ids) (db_orders d)))))"

definition Invoices_FindByID :: "env \<Rightarrow> uuid \<Rightarrow> uuid \<Rightarrow> (db, invoice) op" where
  "Invoices_FindByID E companyID i = call E (Commerce InvoicesFindByID) (query (\<lambda>d.
     one (find (\<lambda>v. iv_ID v = i \<and> (iv_ShipperCompanyID v = companyID \<or> iv_TransporterCompanyID v = companyID))
       (db_invoices d))))"

definition Invoices_FindByIDForService :: "env \<Rightarrow> uuid \<Rightarrow> (db, invoice) op" where
  "Invoices_FindByIDForService E i = call E (Commerce InvoicesFindByIDForService) (query (\<lambda>d.
     one (find (\<lambda>v. iv_ID v = i) (db_invoices d))))"

text \<open>
  What the tables accept (migration 000001): the precision of the columns, one line per order, a
  number nobody has. Numbers are rounded to the scale of their column.
\<close>

definition stored_line :: "invoice_line \<Rightarrow> invoice_line" where
  "stored_line l = l\<lparr>il_Quantity := round_to 2 (il_Quantity l), il_UnitPrice := round_to 2 (il_UnitPrice l),
     il_Amount := round_to 2 (il_Amount l)\<rparr>"

definition stored_invoice :: "invoice \<Rightarrow> invoice" where
  "stored_invoice v = v\<lparr>iv_Subtotal := round_to 2 (iv_Subtotal v), iv_PPNPercentage := round_to 4 (iv_PPNPercentage v),
     iv_PPNAmount := round_to 2 (iv_PPNAmount v), iv_PPH23Percentage := round_to 4 (iv_PPH23Percentage v),
     iv_PPH23Amount := round_to 2 (iv_PPH23Amount v), iv_Adjustment := round_to 2 (iv_Adjustment v),
     iv_Total := round_to 2 (iv_Total v), iv_Lines := map stored_line (iv_Lines v)\<rparr>"

definition invoice_fits :: "invoice \<Rightarrow> bool" where
  "invoice_fits v \<longleftrightarrow> list_all (numeric_fits 16) [iv_Subtotal v, iv_PPNAmount v, iv_PPH23Amount v, iv_Adjustment v, iv_Total v] \<and>
     list_all (numeric_fits 2) [iv_PPNPercentage v, iv_PPH23Percentage v] \<and> fits 24 (iv_CurrencyID v) \<and>
     list_all (\<lambda>l. numeric_fits 10 (il_Quantity l) \<and> numeric_fits 16 (il_UnitPrice l) \<and> numeric_fits 16 (il_Amount l)) (iv_Lines v)"

definition Invoices_Create :: "env \<Rightarrow> invoice \<Rightarrow> (db, invoice) op" where
  "Invoices_Create E v = call E (Commerce InvoicesCreate) (\<lambda>d.
     if \<not> invoice_fits (stored_invoice v) then (Inl (Err ErrStore ''repository: create invoice''), d)
     else if list_ex (\<lambda>w. iv_InvoiceNumber w = iv_InvoiceNumber v) (db_invoices d) \<or> \<not> distinct (map il_OrderID (iv_Lines v))
     then (Inl (Err ErrConflict ''repository: conflict''), d)
     else let row = v\<lparr>iv_ID := db_next_ref d\<rparr>
       in (Inr row, d\<lparr>db_next_ref := db_next_ref d + 1, db_invoices := db_invoices d @ [stored_invoice row]\<rparr>))"

definition Invoices_ApplyStatus ::
  "env \<Rightarrow> uuid \<Rightarrow> string \<Rightarrow> string \<Rightarrow> (invoice \<Rightarrow> invoice) \<Rightarrow> (db, unit) op" where
  "Invoices_ApplyStatus E i st to f = call E (Commerce InvoicesApplyStatus) (\<lambda>d.
     if rows_affected (\<lambda>v. iv_ID v = i \<and> iv_StatusCode v = st) (db_invoices d) = 0
     then (Inl (Err ErrConflict (''the invoice is no longer in state '' @ st)), d)
     else (Inr (), d\<lparr>db_invoices := update_where (\<lambda>v. iv_ID v = i \<and> iv_StatusCode v = st)
            (\<lambda>v. (f v)\<lparr>iv_StatusCode := to\<rparr>) (db_invoices d)\<rparr>))"

definition live_invoice :: "invoice \<Rightarrow> bool" where
  "live_invoice v \<longleftrightarrow> iv_StatusCode v \<noteq> InvoiceCancelled"

text \<open>The orders on live invoices, once for every line.\<close>

definition billed_orders :: "invoice list \<Rightarrow> uuid list" where
  "billed_orders vs = concat (map (\<lambda>v. map il_OrderID (iv_Lines v)) (filter live_invoice vs))"

definition OrdersAlreadyBilled :: "env \<Rightarrow> uuid list \<Rightarrow> (db, uuid list) op" where
  "OrdersAlreadyBilled E ids = (if ids = [] then ok [] else
     call E (Commerce InvoicesOrdersAlreadyBilled) (query (\<lambda>d.
       Inr (filter (\<lambda>i. i \<in> set ids) (billed_orders (db_invoices d))))))"

section \<open>Making an invoice\<close>

record invoice_input =
  bi_ShipperCompanyID :: uuid
  bi_OrderIDs :: "uuid list"
  bi_CurrencyID :: string
  bi_Adjustment :: money
  bi_Notes :: string
  bi_DueAt :: "time option"

text \<open>The checks of each order in turn; the first that fails is reported.\<close>

fun check_orders :: "actor \<Rightarrow> uuid \<Rightarrow> order list \<Rightarrow> error option" where
  "check_orders actor shipper [] = None"
| "check_orders actor shipper (r # rs) =
     (if o_StatusCode r \<noteq> OrderCompleted \<and> o_StatusCode r \<noteq> OrderDelivered
      then Some (Err ErrValidation (''order '' @ o_OrderNumber r @ '' is '' @ o_StatusCode r @ '' and cannot be billed yet''))
      else if o_TransporterCompanyID r \<noteq> Some (a_CompanyID actor)
      then Some (Err ErrForbidden (''order '' @ o_OrderNumber r @ '' was not carried by your company''))
      else if o_ShipperCompanyID r \<noteq> shipper
      then Some (Err ErrValidation (''order '' @ o_OrderNumber r @ '' belongs to a different shipper''))
      else check_orders actor shipper rs)"

definition nextNumber :: "env \<Rightarrow> string \<Rightarrow> string \<Rightarrow> (db, string) op" where
  "nextNumber E scope prefix =
     andThen (OrdersNextNumber_op E scope (year_text E)) (\<lambda>seq.
     ok (prefix @ ''-'' @ year_text E @ ''-'' @ zero_padded 6 (nat seq)))"

definition order_amount :: "order \<Rightarrow> money" where
  "order_amount r = (case o_Price r of None \<Rightarrow> 0 | Some p \<Rightarrow> p)"

definition order_line :: "order \<Rightarrow> invoice_line" where
  "order_line r = \<lparr>il_OrderID = o_ID r, il_Description = Some (''Order '' @ o_OrderNumber r),
     il_Quantity = 1, il_UnitPrice = order_amount r, il_Amount = order_amount r\<rparr>"

definition new_invoice :: "actor \<Rightarrow> invoice_input \<Rightarrow> rat \<times> rat \<Rightarrow> string \<Rightarrow> order list \<Rightarrow> invoice" where
  "new_invoice actor inp rates number orders =
     \<lparr>iv_ID = uuid_Nil, iv_InvoiceNumber = number, iv_ShipperCompanyID = bi_ShipperCompanyID inp,
      iv_TransporterCompanyID = a_CompanyID actor, iv_StatusCode = InvoiceDraft,
      iv_Subtotal = foldl (\<lambda>s r. s + order_amount r) 0 orders, iv_PPNPercentage = fst rates, iv_PPNAmount = 0,
      iv_PPH23Percentage = snd rates, iv_PPH23Amount = 0, iv_Adjustment = bi_Adjustment inp, iv_Total = 0,
      iv_CurrencyID = setIfNotEmpty None (bi_CurrencyID inp), iv_IssuedAt = None, iv_DueAt = bi_DueAt inp,
      iv_SubmittedAt = None, iv_VerifiedAt = None, iv_PaidAt = None, iv_CancelledAt = None,
      iv_Notes = nonempty (bi_Notes inp), iv_Detail = (\<lambda>_. None), iv_Lines = map order_line orders\<rparr>"

definition CreateInvoice :: "env \<Rightarrow> actor \<Rightarrow> invoice_input \<Rightarrow> (db, invoice) op" where
  "CreateInvoice E actor inp =
     andThen (refuse (bi_OrderIDs inp = []) (Err ErrValidation ''an invoice needs at least one order'')) (\<lambda>_.
     andThen (Orders_FindByIDs E (bi_OrderIDs inp)) (\<lambda>orders.
     andThen (refuse (length orders \<noteq> length (bi_OrderIDs inp)) (Err ErrValidation ''some orders could not be found'')) (\<lambda>_.
     andThen (case check_orders actor (bi_ShipperCompanyID inp) orders of Some e \<Rightarrow> fail e | None \<Rightarrow> ok ()) (\<lambda>_.
     andThen (OrdersAlreadyBilled E (bi_OrderIDs inp)) (\<lambda>billed.
     andThen (refuse (billed \<noteq> []) (Err ErrValidation
       (digits (length billed) @ '' of these orders are already on an invoice''))) (\<lambda>_.
     andThen (from_result (case CompanySettings E (a_CompanyID actor) of
       None \<Rightarrow> Inl (Err ErrStore ''resolve company settings'') | Some rates \<Rightarrow> Inr rates)) (\<lambda>rates.
     andThen (nextNumber E ''invoice'' ''INV'') (\<lambda>number.
     Invoices_Create E (Recalculate (new_invoice actor inp rates number orders))))))))))"

section \<open>Moving an invoice\<close>

definition invoiceTransitions :: "(string \<times> string list) list" where
  "invoiceTransitions =
     [(InvoiceDraft, [InvoiceIssued, InvoiceCancelled]),
      (InvoiceIssued, [InvoiceSubmitted, InvoiceCancelled]),
      (InvoiceSubmitted, [InvoiceVerified, InvoiceIssued, InvoiceCancelled]),
      (InvoiceVerified, [InvoicePaid, InvoiceCancelled]),
      (InvoicePaid, []),
      (InvoiceCancelled, [])]"

definition invoiceEventFor :: "string \<Rightarrow> string option" where
  "invoiceEventFor st =
     (if st = InvoiceIssued then Some ''INVOICE_ISSUED''
      else if st = InvoicePaid then Some ''INVOICE_PAID'' else None)"

definition invoice_move :: "string \<Rightarrow> string \<Rightarrow> error option" where
  "invoice_move st to =
     (case map_of invoiceTransitions st of
        None \<Rightarrow> Some (Err ErrTransition (''unknown invoice status '' @ st))
      | Some allowed \<Rightarrow> if to \<in> set allowed then None
          else Some (Err ErrTransition (''an invoice cannot move from '' @ st @ '' to '' @ to)))"

definition invoice_side :: "actor \<Rightarrow> invoice \<Rightarrow> string \<Rightarrow> error option" where
  "invoice_side actor v to =
     (if to \<in> {InvoiceIssued, InvoiceSubmitted}
      then if iv_TransporterCompanyID v \<noteq> a_CompanyID actor \<and> \<not> is_admin actor
        then Some (Err ErrForbidden ''only the transporter may issue or submit this invoice'') else None
      else if to \<in> {InvoiceVerified, InvoicePaid}
      then if iv_ShipperCompanyID v \<noteq> a_CompanyID actor \<and> \<not> is_admin actor
        then Some (Err ErrForbidden ''only the shipper may verify or settle this invoice'') else None
      else None)"

definition bill_stamped :: "env \<Rightarrow> string \<Rightarrow> invoice \<Rightarrow> invoice" where
  "bill_stamped E to v =
     (if to = InvoiceIssued then v\<lparr>iv_IssuedAt := Some (now E)\<rparr>
      else if to = InvoiceSubmitted then v\<lparr>iv_SubmittedAt := Some (now E)\<rparr>
      else if to = InvoiceVerified then v\<lparr>iv_VerifiedAt := Some (now E)\<rparr>
      else if to = InvoicePaid then v\<lparr>iv_PaidAt := Some (now E)\<rparr>
      else if to = InvoiceCancelled then v\<lparr>iv_CancelledAt := Some (now E)\<rparr> else v)"

definition TransitionInvoice :: "env \<Rightarrow> actor \<Rightarrow> uuid \<Rightarrow> string \<Rightarrow> (db, unit) op" where
  "TransitionInvoice E actor i to =
     andThen (Invoices_FindByID E (a_CompanyID actor) i) (\<lambda>v.
     andThen (case invoice_move (iv_StatusCode v) to of Some e \<Rightarrow> fail e | None \<Rightarrow> ok ()) (\<lambda>_.
     andThen (case invoice_side actor v to of Some e \<Rightarrow> fail e | None \<Rightarrow> ok ()) (\<lambda>_.
     andThen (Invoices_ApplyStatus E i (iv_StatusCode v) to (bill_stamped E to)) (\<lambda>_.
     case invoiceEventFor to of
       None \<Rightarrow> ok ()
     | Some type \<Rightarrow> notify \<lparr>ev_Type = type, ev_SubjectID = i, ev_SubjectType = ''invoice'',
         ev_Audience = (if to = InvoicePaid then ToCompanyRoles (iv_TransporterCompanyID v) [RoleTransporter, RoleManager]
           else ToCompanyRoles (iv_ShipperCompanyID v) [RoleShipper]),
         ev_ActorID = Some (a_UserID actor), ev_Key = [KeyText ''invoice'', KeyID i, KeyText to]\<rparr>))))"

definition GetInvoice :: "env \<Rightarrow> actor \<Rightarrow> uuid \<Rightarrow> (db, invoice) op" where
  "GetInvoice E actor i = Invoices_FindByID E (a_CompanyID actor) i"

section \<open>The arithmetic\<close>

lemma cents_simps [simp]: "cents 0" "cents 1" "cents x \<Longrightarrow> cents y \<Longrightarrow> cents (x + y)" "cents x \<Longrightarrow> cents y \<Longrightarrow> cents (x - y)"
  by (auto simp: cents_def algebra_simps Ints_add Ints_diff)

lemma foldl_sum: "foldl (\<lambda>s r. s + f r) (b::rat) xs = b + sum_list (map f xs)"
  by (induction xs arbitrary: b) simp_all

text \<open>Whole cents in, whole cents out: the printed parts add up to the printed total.\<close>

lemma Recalculate_adds_up:
  assumes "cents (iv_Subtotal v)" "cents (iv_Adjustment v)"
  shows "iv_Total (Recalculate v) = iv_Subtotal v + iv_PPNAmount (Recalculate v) - iv_PPH23Amount (Recalculate v) + iv_Adjustment v"
  using assms by (simp add: Recalculate_def Let_def cents_round)

lemma Recalculate_same [simp]:
  "iv_Subtotal (Recalculate v) = iv_Subtotal v" "iv_Adjustment (Recalculate v) = iv_Adjustment v"
  "iv_Lines (Recalculate v) = iv_Lines v" "iv_StatusCode (Recalculate v) = iv_StatusCode v"
  "iv_InvoiceNumber (Recalculate v) = iv_InvoiceNumber v" "iv_PPNPercentage (Recalculate v) = iv_PPNPercentage v"
  "iv_PPH23Percentage (Recalculate v) = iv_PPH23Percentage v" "iv_ShipperCompanyID (Recalculate v) = iv_ShipperCompanyID v"
  "iv_TransporterCompanyID (Recalculate v) = iv_TransporterCompanyID v"
  by (simp_all add: Recalculate_def Let_def)

lemma stored_same [simp]:
  "iv_ID (stored_invoice v) = iv_ID v" "iv_StatusCode (stored_invoice v) = iv_StatusCode v"
  "iv_InvoiceNumber (stored_invoice v) = iv_InvoiceNumber v" "map il_OrderID (iv_Lines (stored_invoice v)) = map il_OrderID (iv_Lines v)"
  by (simp_all add: stored_invoice_def stored_line_def)

section \<open>What the operations did\<close>

lemma check_orders_None:
  "check_orders actor shipper rs = None \<longleftrightarrow> (\<forall>r\<in>set rs. o_StatusCode r \<in> {OrderCompleted, OrderDelivered} \<and>
     o_TransporterCompanyID r = Some (a_CompanyID actor) \<and> o_ShipperCompanyID r = shipper)"
  by (induction rs) auto

lemma readonly_invoices [op_rules]:
  "readonly (Orders_FindByIDs E ids)" "readonly (Invoices_FindByID E c i)" "readonly (Invoices_FindByIDForService E i)"
  "readonly (OrdersAlreadyBilled E ids)"
  unfolding Orders_FindByIDs_def Invoices_FindByID_def Invoices_FindByIDForService_def OrdersAlreadyBilled_def
  by (intro op_rules)+

lemma Orders_FindByIDs_Inr:
  "Orders_FindByIDs E ids d = (Inr rs, d') \<Longrightarrow> rs = filter (\<lambda>r. o_ID r \<in> set ids) (db_orders d) \<and> d' = d"
  by (auto simp: Orders_FindByIDs_def call_def query_def split: if_splits)

lemma OrdersAlreadyBilled_Inr:
  "OrdersAlreadyBilled E ids d = (Inr bs, d') \<Longrightarrow> bs = filter (\<lambda>i. i \<in> set ids) (billed_orders (db_invoices d)) \<and> d' = d"
  by (auto simp: OrdersAlreadyBilled_def call_def query_def split: if_splits)

lemma Invoices_Create_Inr:
  "Invoices_Create E v d = (Inr x, d') \<Longrightarrow> x = v\<lparr>iv_ID := db_next_ref d\<rparr> \<and> db_invoices d' = db_invoices d @ [stored_invoice x] \<and>
     distinct (map il_OrderID (iv_Lines v)) \<and> iv_InvoiceNumber v \<notin> iv_InvoiceNumber ` set (db_invoices d) \<and>
     db_next_ref d' = db_next_ref d + 1 \<and> db_orders d' = db_orders d \<and> db_agreements d' = db_agreements d"
  by (auto simp: Invoices_Create_def call_def Let_def list_ex_iff split: if_split_asm)

lemma CreateInvoice_Inr:
  assumes "CreateInvoice E actor inp d = (Inr v, d')"
  obtains orders rates number where "orders = filter (\<lambda>r. o_ID r \<in> set (bi_OrderIDs inp)) (db_orders d)"
    "bi_OrderIDs inp \<noteq> []" "length orders = length (bi_OrderIDs inp)"
    "check_orders actor (bi_ShipperCompanyID inp) orders = None"
    "\<forall>i\<in>set (bi_OrderIDs inp). i \<notin> set (billed_orders (db_invoices d))"
    "CompanySettings E (a_CompanyID actor) = Some rates"
    "v = (Recalculate (new_invoice actor inp rates number orders))\<lparr>iv_ID := db_next_ref d\<rparr>"
    "distinct (map il_OrderID (iv_Lines v))" "number \<notin> iv_InvoiceNumber ` set (db_invoices d)"
    "db_invoices d' = db_invoices d @ [stored_invoice v]" "db_orders d' = db_orders d" "db_next_ref d' = db_next_ref d + 1"
proof -
  from assms obtain orders rates number d1 s1 s2 where ne: "bi_OrderIDs inp \<noteq> []"
    and f: "Orders_FindByIDs E (bi_OrderIDs inp) d = (Inr orders, s1)"
    and l: "length orders = length (bi_OrderIDs inp)" and c: "check_orders actor (bi_ShipperCompanyID inp) orders = None"
    and b: "OrdersAlreadyBilled E (bi_OrderIDs inp) s1 = (Inr [], s2)"
    and s: "CompanySettings E (a_CompanyID actor) = Some rates" and n: "nextNumber E ''invoice'' ''INV'' s2 = (Inr number, d1)"
    and cr: "Invoices_Create E (Recalculate (new_invoice actor inp rates number orders)) d1 = (Inr v, d')"
    by (auto simp: CreateInvoice_def andThen_Inr split: option.split_asm)
  have s12: "s1 = d" "s2 = d" using Orders_FindByIDs_Inr [OF f] OrdersAlreadyBilled_Inr [OF b] by simp_all
  have d1: "db_invoices d1 = db_invoices d" "db_orders d1 = db_orders d" "db_next_ref d1 = db_next_ref d"
    using n s12 by (auto simp: nextNumber_def OrdersNextNumber_op_def call_def andThen_Inr Let_def split: if_split_asm)
  have nb: "\<forall>i\<in>set (bi_OrderIDs inp). i \<notin> set (billed_orders (db_invoices d))"
    using OrdersAlreadyBilled_Inr [OF b] s12 by (metis (mono_tags) filter_empty_conv)
  from Invoices_Create_Inr [OF cr] show ?thesis
    using that [of orders rates number] ne l c s d1 Orders_FindByIDs_Inr [OF f] nb s12
    by (auto simp: new_invoice_def)
qed

lemma after_read: "m d = (Inr x, d) \<Longrightarrow> andThen m f d = f x d"
  by (simp add: andThen_def)

lemma TransitionInvoice_effect:
  assumes "TransitionInvoice E actor i to d = (r, d')"
  shows "db_invoices d' = db_invoices d \<and> isl r \<and> d' = d \<or>
    (\<exists>v. find (\<lambda>v. iv_ID v = i \<and> (iv_ShipperCompanyID v = a_CompanyID actor \<or> iv_TransporterCompanyID v = a_CompanyID actor))
        (db_invoices d) = Some v \<and>
      invoice_move (iv_StatusCode v) to = None \<and> invoice_side actor v to = None \<and> r = Inr () \<and> db_next_ref d' = db_next_ref d \<and>
      db_invoices d' = update_where (\<lambda>w. iv_ID w = i \<and> iv_StatusCode w = iv_StatusCode v)
        (\<lambda>w. (bill_stamped E to w)\<lparr>iv_StatusCode := to\<rparr>) (db_invoices d))"
proof (cases "down E (Commerce InvoicesFindByID)")
  case True
  with assms show ?thesis by (auto simp: TransitionInvoice_def Invoices_FindByID_def call_def op_defs)
next
  case up: False
  let ?Q = "\<lambda>v. iv_ID v = i \<and> (iv_ShipperCompanyID v = a_CompanyID actor \<or> iv_TransporterCompanyID v = a_CompanyID actor)"
  show ?thesis
  proof (cases "find ?Q (db_invoices d)")
    case None
    with assms up show ?thesis by (auto simp: TransitionInvoice_def Invoices_FindByID_def call_def op_defs query_def one_def)
  next
    case (Some v)
    then have f: "Invoices_FindByID E (a_CompanyID actor) i d = (Inr v, d)"
      using up by (simp add: Invoices_FindByID_def call_def query_def one_def)
    have run: "andThen (case invoice_move (iv_StatusCode v) to of Some e \<Rightarrow> fail e | None \<Rightarrow> ok ()) (\<lambda>_.
      andThen (case invoice_side actor v to of Some e \<Rightarrow> fail e | None \<Rightarrow> ok ()) (\<lambda>_.
      andThen (Invoices_ApplyStatus E i (iv_StatusCode v) to (bill_stamped E to)) (\<lambda>_.
      case invoiceEventFor to of None \<Rightarrow> ok ()
      | Some type \<Rightarrow> notify \<lparr>ev_Type = type, ev_SubjectID = i, ev_SubjectType = ''invoice'',
         ev_Audience = (if to = InvoicePaid then ToCompanyRoles (iv_TransporterCompanyID v) [RoleTransporter, RoleManager]
           else ToCompanyRoles (iv_ShipperCompanyID v) [RoleShipper]),
         ev_ActorID = Some (a_UserID actor), ev_Key = [KeyText ''invoice'', KeyID i, KeyText to]\<rparr>))) d = (r, d')"
      using assms unfolding TransitionInvoice_def
        after_read [where m = "Invoices_FindByID E (a_CompanyID actor) i" and d = d and x = v, OF f] .
    then have "isl r \<and> d' = d \<or> invoice_move (iv_StatusCode v) to = None \<and> invoice_side actor v to = None \<and> r = Inr () \<and>
      db_next_ref d' = db_next_ref d \<and> db_invoices d' = update_where (\<lambda>w. iv_ID w = i \<and> iv_StatusCode w = iv_StatusCode v)
        (\<lambda>w. (bill_stamped E to w)\<lparr>iv_StatusCode := to\<rparr>) (db_invoices d)"
      by (cases "invoice_move (iv_StatusCode v) to"; cases "invoice_side actor v to"; cases "invoiceEventFor to")
         (auto simp: Invoices_ApplyStatus_def call_def notify_def exec_def op_defs split: if_split_asm)
    with Some show ?thesis by auto
  qed
qed

section \<open>The books stay sound\<close>

definition books_sound :: "db \<Rightarrow> bool" where
  "books_sound d \<longleftrightarrow> distinct (map iv_ID (db_invoices d)) \<and> list_all (\<lambda>v. iv_ID v < db_next_ref d) (db_invoices d) \<and>
     distinct (map iv_InvoiceNumber (db_invoices d)) \<and> distinct (billed_orders (db_invoices d)) \<and>
     list_all (\<lambda>v. iv_StatusCode v \<in> fst ` set invoiceTransitions) (db_invoices d)"

lemma billed_append: "billed_orders (vs @ ws) = billed_orders vs @ billed_orders ws"
  by (simp add: billed_orders_def)

lemma billed_fewer:
  assumes "\<And>v. map il_OrderID (iv_Lines (g v)) = map il_OrderID (iv_Lines v)" "\<And>v. v \<in> set vs \<Longrightarrow> live_invoice (g v) \<Longrightarrow> live_invoice v"
  shows "set (billed_orders (map g vs)) \<subseteq> set (billed_orders vs) \<and> (distinct (billed_orders vs) \<longrightarrow> distinct (billed_orders (map g vs)))"
  using assms(2)
proof (induction vs)
  case (Cons v vs)
  have c: "billed_orders (w # ws) = (if live_invoice w then map il_OrderID (iv_Lines w) else []) @ billed_orders ws" for w ws
    by (simp add: billed_orders_def)
  from Cons have "set (billed_orders (map g vs)) \<subseteq> set (billed_orders vs) \<and> (distinct (billed_orders vs) \<longrightarrow> distinct (billed_orders (map g vs)))"
    and "live_invoice (g v) \<Longrightarrow> live_invoice v" by simp_all
  then show ?case using assms(1) [of v] by (auto simp: c simp del: set_map)
qed (simp add: billed_orders_def)

lemma order_line_ids: "map il_OrderID (map order_line rs) = map o_ID rs"
  by (simp add: order_line_def o_def)

lemma books_ok:
  "(\<And>d r d'. books_sound d \<Longrightarrow> m d = (r, d') \<Longrightarrow> books_sound d') \<Longrightarrow> preserves books_sound m"
  unfolding preserves_def by (metis prod.collapse)

lemma nextNumber_beside:
  "nextNumber E scope prefix d = (r, d') \<Longrightarrow> db_invoices d' = db_invoices d \<and> db_next_ref d' = db_next_ref d"
  by (auto simp: nextNumber_def OrdersNextNumber_op_def call_def op_defs Let_def split: if_split_asm)

lemma failed_invoice:
  assumes "CreateInvoice E actor inp d = (Inl e, d')"
  shows "db_invoices d' = db_invoices d \<and> db_next_ref d' = db_next_ref d"
  using assms
  by (auto simp: CreateInvoice_def andThen_Inl Invoices_Create_def call_def Let_def split: option.split_asm if_split_asm
      dest!: readonlyD [OF readonly_invoices(1)] readonlyD [OF readonly_invoices(4)] nextNumber_beside)

lemma sound_CreateInvoice: "preserves books_sound (CreateInvoice E actor inp)"
proof (rule books_ok)
  fix d r d' assume d: "books_sound d" and run: "CreateInvoice E actor inp d = (r, d')"
  show "books_sound d'"
  proof (cases r)
    case (Inl e)
    with run failed_invoice d show ?thesis by (metis books_sound_def)
  next
    case (Inr v)
    with run obtain orders rates number where o: "orders = filter (\<lambda>r. o_ID r \<in> set (bi_OrderIDs inp)) (db_orders d)"
      and nb: "\<forall>i\<in>set (bi_OrderIDs inp). i \<notin> set (billed_orders (db_invoices d))"
      and v: "v = (Recalculate (new_invoice actor inp rates number orders))\<lparr>iv_ID := db_next_ref d\<rparr>"
      and l: "distinct (map il_OrderID (iv_Lines v))" and n: "number \<notin> iv_InvoiceNumber ` set (db_invoices d)"
      and d': "db_invoices d' = db_invoices d @ [stored_invoice v]" "db_next_ref d' = db_next_ref d + 1"
      by (auto elim: CreateInvoice_Inr)
    have fresh: "db_next_ref d \<notin> iv_ID ` set (db_invoices d)" using d by (auto simp: books_sound_def list_all_iff)
    have st: "iv_StatusCode v = InvoiceDraft" "iv_InvoiceNumber v = number" "iv_ID v = db_next_ref d"
      "map il_OrderID (iv_Lines v) = map o_ID orders"
      by (simp_all add: v new_invoice_def order_line_ids del: map_map)
    have "billed_orders [stored_invoice v] = map o_ID orders" using st by (simp add: billed_orders_def live_invoice_def)
    moreover have "set (map o_ID orders) \<inter> set (billed_orders (db_invoices d)) = {}" using o nb by auto
    ultimately have "distinct (billed_orders (db_invoices d'))" using d l st(4) by (auto simp: d' billed_append books_sound_def)
    then show ?thesis using d d' fresh st n
      by (auto simp: books_sound_def list_all_iff invoiceTransitions_def less_Suc_eq)
  qed
qed

lemma bill_stamped_same [simp]:
  "iv_ID (bill_stamped E to v) = iv_ID v" "iv_InvoiceNumber (bill_stamped E to v) = iv_InvoiceNumber v" "iv_Lines (bill_stamped E to v) = iv_Lines v"
  "iv_Total (bill_stamped E to v) = iv_Total v" "iv_StatusCode (bill_stamped E to v) = iv_StatusCode v"
  "iv_ShipperCompanyID (bill_stamped E to v) = iv_ShipperCompanyID v" "iv_TransporterCompanyID (bill_stamped E to v) = iv_TransporterCompanyID v"
  by (simp_all add: bill_stamped_def)

lemma invoice_move_known:
  "invoice_move st to = None \<Longrightarrow> to \<in> fst ` set invoiceTransitions \<and> st \<in> fst ` set invoiceTransitions \<and>
     st \<noteq> InvoicePaid \<and> st \<noteq> InvoiceCancelled \<and> to \<noteq> InvoiceDraft"
  by (auto simp: invoice_move_def invoiceTransitions_def split: if_splits option.splits)

lemma books_map:
  assumes d: "books_sound d" and d': "db_invoices d' = map g (db_invoices d)" "db_next_ref d' = db_next_ref d"
    and same: "\<And>v. iv_ID (g v) = iv_ID v" "\<And>v. iv_InvoiceNumber (g v) = iv_InvoiceNumber v"
      "\<And>v. map il_OrderID (iv_Lines (g v)) = map il_OrderID (iv_Lines v)"
    and live: "\<And>v. live_invoice (g v) \<Longrightarrow> live_invoice v"
    and known: "\<And>v. iv_StatusCode v \<in> fst ` set invoiceTransitions \<Longrightarrow> iv_StatusCode (g v) \<in> fst ` set invoiceTransitions"
  shows "books_sound d'"
proof -
  have "map iv_ID (map g vs) = map iv_ID vs" "map iv_InvoiceNumber (map g vs) = map iv_InvoiceNumber vs" for vs
    by (simp_all add: o_def same)
  moreover have "distinct (billed_orders (map g (db_invoices d)))"
    using d billed_fewer [of g "db_invoices d", OF same(3) live] by (simp add: books_sound_def)
  ultimately show ?thesis using d known
    by (simp add: books_sound_def d' list_all_iff same o_def)
qed

lemma sound_TransitionInvoice: "preserves books_sound (TransitionInvoice E actor i to)"
proof (rule books_ok)
  fix d r d' assume d: "books_sound d" and run: "TransitionInvoice E actor i to d = (r, d')"
  from TransitionInvoice_effect [OF run, unfolded update_where_def] consider (kept) "d' = d"
    | (moved) v :: invoice where "invoice_move (iv_StatusCode v) to = None" "db_next_ref d' = db_next_ref d"
      "db_invoices d' = map (\<lambda>w. if iv_ID w = i \<and> iv_StatusCode w = iv_StatusCode v
        then (bill_stamped E to w)\<lparr>iv_StatusCode := to\<rparr> else w) (db_invoices d)"
    by blast
  then show "books_sound d'"
  proof cases
    case kept
    with d show ?thesis by simp
  next
    case (moved v)
    have L: "live_invoice w" if "live_invoice (if iv_ID w = i \<and> iv_StatusCode w = iv_StatusCode v
        then (bill_stamped E to w)\<lparr>iv_StatusCode := to\<rparr> else w)" for w
      using that invoice_move_known [OF moved(1)] by (auto simp: live_invoice_def split: if_splits)
    have K: "to \<in> fst ` set invoiceTransitions" using invoice_move_known [OF moved(1)] by blast
    show ?thesis
      by (rule books_map [OF d moved(3,2)]) (simp, simp, simp, erule L, simp add: K)
  qed
qed

text \<open>Everything the books can hold: bills made and moved, while the rest of the store changes.\<close>

inductive booked_bills :: "db \<Rightarrow> bool" where
  no_bills: "db_invoices d = [] \<Longrightarrow> booked_bills d"
| made: "booked_bills d \<Longrightarrow> CreateInvoice E actor inp d = (r, d') \<Longrightarrow> booked_bills d'"
| moved: "booked_bills d \<Longrightarrow> TransitionInvoice E actor i to d = (r, d') \<Longrightarrow> booked_bills d'"
| elsewhere: "booked_bills d \<Longrightarrow> db_invoices d' = db_invoices d \<Longrightarrow> db_next_ref d \<le> db_next_ref d' \<Longrightarrow> booked_bills d'"

lemma booked_sound: "booked_bills d \<Longrightarrow> books_sound d"
proof (induction rule: booked_bills.induct)
  case (elsewhere d d')
  then show ?case by (auto simp: books_sound_def list_all_iff)
qed (auto simp: books_sound_def billed_orders_def dest: preservesD [OF sound_CreateInvoice] preservesD [OF sound_TransitionInvoice])

section \<open>What a bill says and who may move it\<close>

lemma stored_cents:
  assumes "cents (iv_Subtotal v)" "cents (iv_Adjustment v)"
  shows "iv_Subtotal (stored_invoice v) = iv_Subtotal v" "iv_Adjustment (stored_invoice v) = iv_Adjustment v"
    "iv_PPNAmount (stored_invoice (Recalculate v)) = iv_PPNAmount (Recalculate v)"
    "iv_PPH23Amount (stored_invoice (Recalculate v)) = iv_PPH23Amount (Recalculate v)"
    "iv_Total (stored_invoice (Recalculate v)) = iv_Total (Recalculate v)"
  using assms by (simp_all add: stored_invoice_def cents_round Recalculate_def Let_def)

lemma sum_cents: "(\<forall>r\<in>set rs. cents (order_amount r)) \<Longrightarrow> cents (sum_list (map order_amount rs))"
  by (induction rs) simp_all

lemma sub_new_invoice: "iv_Subtotal (new_invoice actor inp rates number rs) = sum_list (map order_amount rs)"
  by (simp add: new_invoice_def foldl_sum)

lemma bill_amounts:
  assumes run: "CreateInvoice E actor inp d = (Inr v, d')"
    and c: "\<forall>r\<in>set (db_orders d). cents (order_amount r)" "cents (bi_Adjustment inp)"
  shows "\<exists>rates orders. CompanySettings E (a_CompanyID actor) = Some rates \<and>
    orders = filter (\<lambda>r. o_ID r \<in> set (bi_OrderIDs inp)) (db_orders d) \<and>
    map il_OrderID (iv_Lines v) = map o_ID orders \<and> distinct (map o_ID orders) \<and> set (map o_ID orders) = set (bi_OrderIDs inp) \<and>
    (\<forall>r\<in>set orders. o_StatusCode r \<in> {OrderCompleted, OrderDelivered} \<and>
       o_TransporterCompanyID r = Some (a_CompanyID actor) \<and> o_ShipperCompanyID r = bi_ShipperCompanyID inp) \<and>
    iv_Subtotal v = sum_list (map order_amount orders) \<and> iv_Subtotal v = sum_list (map il_Amount (iv_Lines v)) \<and>
    \<bar>iv_PPNAmount v - iv_Subtotal v * fst rates\<bar> \<le> 1 / 200 \<and> \<bar>iv_PPH23Amount v - iv_Subtotal v * snd rates\<bar> \<le> 1 / 200 \<and>
    iv_Total v = iv_Subtotal v + iv_PPNAmount v - iv_PPH23Amount v + bi_Adjustment inp"
proof -
  from run obtain orders rates number where o: "orders = filter (\<lambda>r. o_ID r \<in> set (bi_OrderIDs inp)) (db_orders d)"
    and l: "length orders = length (bi_OrderIDs inp)" and k: "check_orders actor (bi_ShipperCompanyID inp) orders = None"
    and s: "CompanySettings E (a_CompanyID actor) = Some rates"
    and v: "v = (Recalculate (new_invoice actor inp rates number orders))\<lparr>iv_ID := db_next_ref d\<rparr>"
    and dl: "distinct (map il_OrderID (iv_Lines v))"
    by (auto elim: CreateInvoice_Inr)
  let ?n = "new_invoice actor inp rates number orders"
  have lines: "map il_OrderID (iv_Lines v) = map o_ID orders" "map il_Amount (iv_Lines v) = map order_amount orders"
    by (simp_all add: v new_invoice_def order_line_def o_def)
  have sub: "iv_Subtotal v = sum_list (map order_amount orders)" by (simp add: v sub_new_invoice)
  have ids: "set (map o_ID orders) = set (bi_OrderIDs inp)"
  proof (rule card_seteq)
    show "set (map o_ID orders) \<subseteq> set (bi_OrderIDs inp)" by (auto simp: o)
    have "card (set (map o_ID orders)) = length orders" using dl lines(1) by (metis distinct_card length_map)
    then show "card (set (bi_OrderIDs inp)) \<le> card (set (map o_ID orders))" using l card_length [of "bi_OrderIDs inp"] by simp
  qed simp
  have "cents (iv_Subtotal ?n)" "cents (iv_Adjustment ?n)"
    using c sum_cents [of orders] by (auto simp: o new_invoice_def foldl_sum)
  from Recalculate_adds_up [OF this] have "iv_Total v = iv_Subtotal v + iv_PPNAmount v - iv_PPH23Amount v + bi_Adjustment inp"
    by (simp add: v) (simp add: new_invoice_def)
  moreover have "iv_PPNAmount v = round_to 2 (iv_Subtotal v * fst rates)" "iv_PPH23Amount v = round_to 2 (iv_Subtotal v * snd rates)"
    by (simp_all add: v Recalculate_def Let_def) (simp_all add: new_invoice_def)
  moreover have "\<bar>round_to 2 x - x\<bar> \<le> 1 / 200" for x using round_to_error [of 2 x] by simp
  ultimately show ?thesis using o s k lines sub dl ids unfolding check_orders_None by auto
qed

lemma bill_moved:
  assumes d: "books_sound d" and run: "TransitionInvoice E actor i to d = (Inr (), d')"
  shows "\<exists>v\<in>set (db_invoices d). iv_ID v = i \<and> invoice_move (iv_StatusCode v) to = None \<and> invoice_side actor v to = None \<and>
    (iv_ShipperCompanyID v = a_CompanyID actor \<or> iv_TransporterCompanyID v = a_CompanyID actor) \<and>
    db_invoices d' = map (\<lambda>w. if w = v then (bill_stamped E to v)\<lparr>iv_StatusCode := to\<rparr> else w) (db_invoices d)"
proof -
  from TransitionInvoice_effect [OF run] obtain v where
    f: "find (\<lambda>v. iv_ID v = i \<and> (iv_ShipperCompanyID v = a_CompanyID actor \<or> iv_TransporterCompanyID v = a_CompanyID actor))
        (db_invoices d) = Some v"
    and m: "invoice_move (iv_StatusCode v) to = None" "invoice_side actor v to = None"
    and e: "db_invoices d' = update_where (\<lambda>w. iv_ID w = i \<and> iv_StatusCode w = iv_StatusCode v)
        (\<lambda>w. (bill_stamped E to w)\<lparr>iv_StatusCode := to\<rparr>) (db_invoices d)"
    by auto
  have v: "v \<in> set (db_invoices d)" "iv_ID v = i" "iv_ShipperCompanyID v = a_CompanyID actor \<or> iv_TransporterCompanyID v = a_CompanyID actor"
    using find_Some_iff_first [OF f] by auto
  have "inj_on iv_ID (set (db_invoices d))" using d by (simp add: books_sound_def distinct_map)
  then have "iv_ID w = i \<and> iv_StatusCode w = iv_StatusCode v \<longleftrightarrow> w = v" if "w \<in> set (db_invoices d)" for w
    using that v by (auto dest: inj_onD)
  then have "db_invoices d' = map (\<lambda>w. if w = v then (bill_stamped E to v)\<lparr>iv_StatusCode := to\<rparr> else w) (db_invoices d)"
    by (auto simp: e update_where_def)
  with v m show ?thesis by blast
qed

end
