(* ===== verification/Allowance.thy ===== *)
theory Allowance
  imports Contracts
begin

text \<open>
  internal/services/{allowance_service,allowance_snapshot}.go and AllowanceRepository of
  internal/repository/allowance.go: the driver's advance (uang sangu) of an order, the evidence it is
  entered against, the contract that fixes it, and its superseded versions.
\<close>

section \<open>The toll class\<close>

abbreviation TollRatePerKm :: rat where "TollRatePerKm \<equiv> 1350"

fun contains_text :: "string \<Rightarrow> string \<Rightarrow> bool" where
  "contains_text [] sub = (sub = [])"
| "contains_text (c # cs) sub = (take (length sub) (c # cs) = sub \<or> contains_text cs sub)"

text \<open>The axles of the catalogue where it has them, else what the (ASCII) name says.\<close>

definition golonganForTruckType :: "string \<Rightarrow> json option \<Rightarrow> int" where
  "golonganForTruckType name axle =
     (let named = (let t = map lower_char name
            in if contains_text t ''pickup'' \<or> contains_text t ''van'' then 1
               else if contains_text t ''trailer 4'' \<or> contains_text t ''40'' \<or> contains_text t ''45'' then 5
               else if contains_text t ''trailer'' then 4
               else if contains_text t ''tronton'' then 3
               else 2)
      in case axle of
           Some (JNum a) \<Rightarrow> if 0 < a then (if 5 \<le> a then 5 else if 3 \<le> a then go_int a else 2) else named
         | _ \<Rightarrow> named)"

definition golonganForOrder :: "env \<Rightarrow> order \<Rightarrow> int" where
  "golonganForOrder E ord =
     (case o_TruckID ord of
        None \<Rightarrow> 2
      | Some i \<Rightarrow>
          if \<not> masterdata_wired E then 2
          else case GetTruck E i of
            None \<Rightarrow> 2
          | Some t \<Rightarrow>
              if t_TruckTypeID t = [] then 2
              else case GetTruckType E (t_TruckTypeID t) (t_CompanyID t) of
                None \<Rightarrow> 2
              | Some (name, axle) \<Rightarrow> golonganForTruckType name axle)"

section \<open>The evidence\<close>

type_synonym fares = "string \<rightharpoonup> int"

record evidence =
  en_HaulDistanceMeters :: "int option"
  en_ApproachDistanceMeters :: "int option"
  en_TotalDistanceMeters :: int
  en_TollDistanceMeters :: int
  en_TollEstimate :: money
  en_TollEstimateSource :: string
  en_TollGolongan :: int
  en_TollPrices :: "fares option"
  en_TollDataComplete :: bool

text \<open>The fares stored with a road; none where they are empty.\<close>

definition tollPricesOf :: "(string \<times> int) list option \<Rightarrow> fares option" where
  "tollPricesOf raw = (case raw of Some (p # ps) \<Rightarrow> Some (map_of (p # ps)) | _ \<Rightarrow> None)"

text \<open>\<open>prices[k] += v\<close> over the fares of a leg.\<close>

definition add_fares :: "fares \<Rightarrow> fares \<Rightarrow> fares" where
  "add_fares acc leg k = (case leg k of None \<Rightarrow> acc k | Some v \<Rightarrow> Some (the_default 0 (acc k) + v))"

text \<open>What the loop over the legs carries.\<close>

record reckoning =
  rk_Evidence :: evidence
  rk_Tariff :: int
  rk_RateMeters :: int
  rk_Prices :: fares
  rk_AnyToll :: bool

definition reckon_leg :: "string \<Rightarrow> reckoning \<Rightarrow> planned_leg \<Rightarrow> reckoning" where
  "reckon_leg classKey k leg =
     (case pl_Cache leg of
        None \<Rightarrow> k
      | Some road \<Rightarrow>
          (let distance = rc_DistanceMeters road;
               e = rk_Evidence k;
               e1 = (if rt_Leg (pl_Route leg) = LegHaul then e\<lparr>en_HaulDistanceMeters := Some distance\<rparr>
                     else if rt_Leg (pl_Route leg) = LegApproach then e\<lparr>en_ApproachDistanceMeters := Some distance\<rparr>
                     else e);
               e2 = e1\<lparr>en_TotalDistanceMeters := en_TotalDistanceMeters e1 + distance,
                     en_TollDistanceMeters := en_TollDistanceMeters e1 + rc_TollDistanceMeters road,
                     en_TollDataComplete := en_TollDataComplete e1 \<and>
                       \<not> (rc_HasToll road \<and> rc_TollDistanceMeters road = 0)\<rparr>
           in if \<not> rc_HasToll road then k\<lparr>rk_Evidence := e2\<rparr>
              else case tollPricesOf (rc_Toll road) of
                Some fares \<Rightarrow> k\<lparr>rk_Evidence := e2, rk_AnyToll := True,
                  rk_Tariff := rk_Tariff k + the_default 0 (fares classKey), rk_Prices := add_fares (rk_Prices k) fares\<rparr>
              | None \<Rightarrow> k\<lparr>rk_Evidence := e2\<lparr>en_TollEstimateSource := ''rate''\<rparr>, rk_AnyToll := True,
                  rk_RateMeters := rk_RateMeters k + rc_TollDistanceMeters road\<rparr>))"

definition no_evidence :: "int \<Rightarrow> evidence" where
  "no_evidence golongan = \<lparr>en_HaulDistanceMeters = None, en_ApproachDistanceMeters = None,
     en_TotalDistanceMeters = 0, en_TollDistanceMeters = 0, en_TollEstimate = 0, en_TollEstimateSource = ''tariff'',
     en_TollGolongan = golongan, en_TollPrices = None, en_TollDataComplete = True\<rparr>"

definition evidence_of :: "int \<Rightarrow> planned_leg list \<Rightarrow> evidence" where
  "evidence_of golongan legs =
     (let k = foldl (reckon_leg (''golongan_'' @ digits (nat golongan)))
            \<lparr>rk_Evidence = no_evidence golongan, rk_Tariff = 0, rk_RateMeters = 0, rk_Prices = Map.empty,
             rk_AnyToll = False\<rparr> legs;
          e = (rk_Evidence k)\<lparr>en_TollEstimate :=
            round_to 0 (of_int (rk_Tariff k) + of_int (rk_RateMeters k) / 1000 * TollRatePerKm)\<rparr>;
          e1 = (if rk_AnyToll k \<and> en_TollEstimateSource e = ''tariff'' then e\<lparr>en_TollPrices := Some (rk_Prices k)\<rparr> else e)
      in if \<not> rk_AnyToll k then e1\<lparr>en_TollEstimateSource := ''none'', en_TollGolongan := 0\<rparr> else e1)"

definition evidence :: "env \<Rightarrow> uuid \<Rightarrow> order \<Rightarrow> (db, evidence) op" where
  "evidence E orderID ord =
     andThen (Legs_ListByOrder E orderID) (\<lambda>legs0.
     andThen (repriced E orderID legs0) (\<lambda>legs.
     ok (evidence_of (golonganForOrder E ord) legs)))"

section \<open>The contract's allowance\<close>

record allowance_snapshot =
  as_AgreementNumber :: string
  as_Total :: money
  as_UpfrontPercent :: money
  as_Upfront :: money
  as_Final :: money

definition moneyFromDetail :: "env \<Rightarrow> json option \<Rightarrow> money option" where
  "moneyFromDetail E v = (case v of Some (JNum n) \<Rightarrow> Some n | Some (JStr s) \<Rightarrow> parse_decimal E s | _ \<Rightarrow> None)"

text \<open>All three figures or none; the percentage is nought where it cannot be read.\<close>

definition allowanceSnapshotOf :: "env \<Rightarrow> agreement \<Rightarrow> allowance_snapshot option" where
  "allowanceSnapshotOf E a =
     (case ag_Detail a ''allowance'' of
        Some (JObj raw) \<Rightarrow>
          (case (moneyFromDetail E (map_of raw ''total''), moneyFromDetail E (map_of raw ''upfront''),
                 moneyFromDetail E (map_of raw ''final'')) of
             (Some tot, Some upf, Some rest) \<Rightarrow>
               Some \<lparr>as_AgreementNumber = ag_AgreementNumber a, as_Total = tot,
                 as_UpfrontPercent = the_default 0 (moneyFromDetail E (map_of raw ''upfrontPercent'')),
                 as_Upfront = upf, as_Final = rest\<rparr>
           | _ \<Rightarrow> None)
      | _ \<Rightarrow> None)"

definition snapshotFor :: "env \<Rightarrow> order \<Rightarrow> (db, allowance_snapshot option) op" where
  "snapshotFor E ord =
     (case o_AgreementID ord of
        None \<Rightarrow> ok None
      | Some i \<Rightarrow>
          if \<not> agreements_wired E then ok None
          else andThen (attempt (Agreements_FindByIDForService E i)) (\<lambda>r.
            ok (case r of Inl _ \<Rightarrow> None | Inr a \<Rightarrow> allowanceSnapshotOf E a)))"

section \<open>The repository\<close>

definition Allowances_FindByOrder :: "env \<Rightarrow> uuid \<Rightarrow> (db, order_allowance) op" where
  "Allowances_FindByOrder E i = call E (Dispatch AllowancesFindByOrder) (query (\<lambda>d.
     one (find (\<lambda>a. oa_OrderID a = i) (db_allowances d))))"

text \<open>The columns: two decimals, a total that is not negative, of an order that exists.\<close>

definition stored_allowance :: "order_allowance \<Rightarrow> order_allowance" where
  "stored_allowance a = a\<lparr>oa_TollEstimate := map_option (round_to 2) (oa_TollEstimate a), oa_Total := round_to 2 (oa_Total a)\<rparr>"

definition allowance_accepted :: "order_allowance \<Rightarrow> db \<Rightarrow> bool" where
  "allowance_accepted a d \<longleftrightarrow> list_ex (\<lambda>r. o_ID r = oa_OrderID a) (db_orders d) \<and> 0 \<le> oa_Total a \<and>
     numeric_fits 16 (oa_Total a) \<and> (case oa_TollEstimate a of None \<Rightarrow> True | Some t \<Rightarrow> numeric_fits 16 t) \<and>
     fits 24 (oa_CurrencyID a)"

definition superseded_version :: "env \<Rightarrow> order_allowance \<Rightarrow> string \<Rightarrow> uuid \<Rightarrow> allowance_revision" where
  "superseded_version E old reason by_user = \<lparr>ah_OrderID = oa_OrderID old, ah_Components = oa_Components old,
     ah_Total = oa_Total old, ah_Reason = nonempty reason,
     ah_ChangedByUserID = (if by_user \<noteq> uuid_Nil then Some by_user else None), ah_ChangedAt = now E\<rparr>"

definition entered_again :: "order_allowance \<Rightarrow> order_allowance \<Rightarrow> order_allowance" where
  "entered_again a old = old\<lparr>oa_HaulDistanceMeters := oa_HaulDistanceMeters a,
     oa_ApproachDistanceMeters := oa_ApproachDistanceMeters a, oa_TollEstimate := oa_TollEstimate a,
     oa_Components := oa_Components a, oa_Total := oa_Total a, oa_CurrencyID := oa_CurrencyID a, oa_Note := oa_Note a,
     oa_EnteredByUserID := oa_EnteredByUserID a, oa_EnteredAt := oa_EnteredAt a\<rparr>"

definition Allowances_Save :: "env \<Rightarrow> order_allowance \<Rightarrow> string \<Rightarrow> uuid \<Rightarrow> (db, unit) op" where
  "Allowances_Save E a0 reason by_user = call E (Dispatch AllowancesSave) (\<lambda>d.
     let a = stored_allowance a0
     in case find (\<lambda>r. oa_OrderID r = oa_OrderID a) (db_allowances d) of
          Some old \<Rightarrow>
            if oa_FinalisedAt old \<noteq> None \<and> reason = [] then (Inl (Err ErrConflict ''repository: conflict''), d)
            else if \<not> allowance_accepted a d then (Inl (Err ErrStore ''order_allowances''), d)
            else (Inr (), d\<lparr>
              db_allowance_history := db_allowance_history d @ [superseded_version E old reason by_user],
              db_allowances := update_where (\<lambda>r. oa_OrderID r = oa_OrderID a) (entered_again a) (db_allowances d)\<rparr>)
        | None \<Rightarrow>
            if \<not> allowance_accepted a d then (Inl (Err ErrStore ''order_allowances''), d)
            else (Inr (), d\<lparr>db_allowances := db_allowances d @ [a]\<rparr>))"

definition Allowances_Finalise :: "env \<Rightarrow> uuid \<Rightarrow> uuid \<Rightarrow> (db, unit) op" where
  "Allowances_Finalise E i by_user = call E (Dispatch AllowancesFinalise) (\<lambda>d.
     let P = (\<lambda>a. oa_OrderID a = i \<and> oa_FinalisedAt a = None)
     in if rows_affected P (db_allowances d) = 0 then (Inl (Err ErrConflict ''repository: conflict''), d)
        else (Inr (), d\<lparr>db_allowances := update_where P
          (\<lambda>a. a\<lparr>oa_FinalisedAt := Some (now E), oa_FinalisedByUserID := Some by_user\<rparr>) (db_allowances d)\<rparr>))"

text \<open>Newest first.\<close>

definition Allowances_History :: "env \<Rightarrow> uuid \<Rightarrow> (db, allowance_revision list) op" where
  "Allowances_History E i = call E (Dispatch AllowancesHistory) (query (\<lambda>d.
     Inr (sort_key (\<lambda>h. - ah_ChangedAt h) (filter (\<lambda>h. ah_OrderID h = i) (db_allowance_history d)))))"

section \<open>The service\<close>

record allowance_view =
  vw_Allowance :: "order_allowance option"
  vw_Evidence :: evidence
  vw_Snapshot :: "allowance_snapshot option"
  vw_Editable :: bool

definition Allowance_Get :: "env \<Rightarrow> actor \<Rightarrow> uuid \<Rightarrow> (db, allowance_view) op" where
  "Allowance_Get E actor orderID =
     andThen (Orders_FindByID E (a_CompanyID actor) orderID) (\<lambda>ord.
     andThen (evidence E orderID ord) (\<lambda>ev.
     andThen (snapshotFor E ord) (\<lambda>snapshot.
     andThen (attempt (Allowances_FindByOrder E orderID)) (\<lambda>r.
     case r of
       Inr a \<Rightarrow> ok \<lparr>vw_Allowance = Some a, vw_Evidence = ev, vw_Snapshot = snapshot,
         vw_Editable = (snapshot = None \<and> oa_FinalisedAt a = None)\<rparr>
     | Inl e \<Rightarrow>
         if err_class e = ErrNotFound
         then ok \<lparr>vw_Allowance = None, vw_Evidence = ev, vw_Snapshot = snapshot, vw_Editable = (snapshot = None)\<rparr>
         else fail e))))"

record allowance_input =
  ai_Components :: "allowance_component list"
  ai_CurrencyID :: string
  ai_Note :: string
  ai_Reason :: string

text \<open>The lines as they are summed up: the total, or the first line that will not do.\<close>

fun add_lines :: "money \<Rightarrow> allowance_component list \<Rightarrow> money result" where
  "add_lines acc [] = Inr acc"
| "add_lines acc (c # cs) =
     (if al_Code c = [] then Inl (Err ErrValidation ''every allowance line needs a code'')
      else if al_Amount c < 0 then Inl (Err ErrValidation (al_Label c @ '' is negative''))
      else add_lines (acc + al_Amount c) cs)"

definition entered_row :: "env \<Rightarrow> actor \<Rightarrow> uuid \<Rightarrow> evidence \<Rightarrow> allowance_component list \<Rightarrow> money \<Rightarrow> order_allowance" where
  "entered_row E actor orderID ev cs tot =
     \<lparr>oa_OrderID = orderID, oa_HaulDistanceMeters = en_HaulDistanceMeters ev,
      oa_ApproachDistanceMeters = en_ApproachDistanceMeters ev, oa_TollEstimate = Some (en_TollEstimate ev),
      oa_Components = cs, oa_Total = tot, oa_CurrencyID = None, oa_Note = None,
      oa_EnteredByUserID = Some (a_UserID actor), oa_EnteredAt = Some (now E), oa_FinalisedAt = None,
      oa_FinalisedByUserID = None\<rparr>"

text \<open>Every error of a class is answered as another one.\<close>

definition reword :: "sentinel \<Rightarrow> error \<Rightarrow> ('s, 'a) op \<Rightarrow> ('s, 'a) op" where
  "reword c e m = andThen (attempt m) (\<lambda>r.
     case r of Inr x \<Rightarrow> ok x | Inl e0 \<Rightarrow> fail (if err_class e0 = c then e else e0))"

definition Allowance_Save :: "env \<Rightarrow> actor \<Rightarrow> uuid \<Rightarrow> allowance_input \<Rightarrow> (db, allowance_view) op" where
  "Allowance_Save E actor orderID inp =
     andThen (Orders_FindByID E (a_CompanyID actor) orderID) (\<lambda>ord.
     andThen (snapshotFor E ord) (\<lambda>snapshot.
     andThen (case snapshot of None \<Rightarrow> ok ()
       | Some s \<Rightarrow> fail (Err ErrValidation (''uang sangu sudah ditetapkan di agreement '' @ as_AgreementNumber s))) (\<lambda>_.
     andThen (from_result (add_lines 0 (ai_Components inp))) (\<lambda>tot.
     andThen (evidence E orderID ord) (\<lambda>ev.
     andThen (reword ErrConflict (Err ErrValidation ''this advance is finalised; a change needs a reason'')
       (Allowances_Save E ((entered_row E actor orderID ev (ai_Components inp) tot)
          \<lparr>oa_CurrencyID := nonempty (ai_CurrencyID inp), oa_Note := nonempty (ai_Note inp)\<rparr>)
          (ai_Reason inp) (a_UserID actor))) (\<lambda>_.
     Allowance_Get E actor orderID))))))"

definition contract_line :: "allowance_snapshot \<Rightarrow> allowance_component" where
  "contract_line s = \<lparr>al_Code = ''agreement'', al_Label = ''Uang sangu sesuai agreement '' @ as_AgreementNumber s,
     al_Amount = as_Total s, al_Note = ''Ditetapkan di agreement, tidak dihitung per order''\<rparr>"

definition materialiseSnapshot :: "env \<Rightarrow> actor \<Rightarrow> uuid \<Rightarrow> order \<Rightarrow> allowance_snapshot \<Rightarrow> (db, unit) op" where
  "materialiseSnapshot E actor orderID ord snapshot =
     andThen (evidence E orderID ord) (\<lambda>ev.
     Allowances_Save E (entered_row E actor orderID ev [contract_line snapshot] (as_Total snapshot)) [] (a_UserID actor))"

definition Allowance_Finalise :: "env \<Rightarrow> actor \<Rightarrow> uuid \<Rightarrow> (db, allowance_view) op" where
  "Allowance_Finalise E actor orderID =
     andThen (Orders_FindByID E (a_CompanyID actor) orderID) (\<lambda>ord.
     andThen (attempt (Allowances_FindByOrder E orderID)) (\<lambda>r.
     andThen (case r of
         Inr _ \<Rightarrow> ok ()
       | Inl e \<Rightarrow>
           if err_class e = ErrNotFound
           then andThen (snapshotFor E ord) (\<lambda>snapshot.
             case snapshot of None \<Rightarrow> ok () | Some s \<Rightarrow> materialiseSnapshot E actor orderID ord s)
           else fail e) (\<lambda>_.
     andThen (reword ErrConflict (Err ErrValidation ''there is no open advance to finalise'')
       (Allowances_Finalise E orderID (a_UserID actor))) (\<lambda>_.
     Allowance_Get E actor orderID))))"

definition Allowance_History :: "env \<Rightarrow> actor \<Rightarrow> uuid \<Rightarrow> (db, allowance_revision list) op" where
  "Allowance_History E actor orderID =
     andThen (Orders_FindByID E (a_CompanyID actor) orderID) (\<lambda>_. Allowances_History E orderID)"

text \<open>
  The screen of the advances: the company's orders that go somewhere, with or without an advance, the
  open ones first and within these the next to leave. Where the database may choose between equal
  rows the older one is first.
\<close>

record allowance_list_row =
  lr_Order :: order
  lr_Total :: "money option"
  lr_EnteredAt :: "time option"
  lr_FinalisedAt :: "time option"

definition list_row :: "db \<Rightarrow> order \<Rightarrow> allowance_list_row" where
  "list_row d r = (let a = find (\<lambda>a. oa_OrderID a = o_ID r) (db_allowances d)
     in \<lparr>lr_Order = r, lr_Total = map_option oa_Total a, lr_EnteredAt = Option.bind a oa_EnteredAt,
         lr_FinalisedAt = Option.bind a oa_FinalisedAt\<rparr>)"

definition in_state :: "string \<Rightarrow> allowance_list_row \<Rightarrow> bool" where
  "in_state state r =
     (if state = ''pending'' then lr_Total r \<noteq> None \<and> lr_FinalisedAt r = None
      else if state = ''final'' then lr_FinalisedAt r \<noteq> None
      else if state = ''none'' then lr_Total r = None
      else True)"

definition list_key :: "allowance_list_row \<Rightarrow> bool \<times> time \<times> bool \<times> time" where
  "list_key r = (lr_FinalisedAt r \<noteq> None, the_default 0 (lr_FinalisedAt r),
     o_PickupAt (lr_Order r) = None, the_default 0 (o_PickupAt (lr_Order r)))"

definition ListByCompany :: "env \<Rightarrow> uuid \<Rightarrow> string \<Rightarrow> nat \<Rightarrow> nat \<Rightarrow> (db, allowance_list_row list \<times> nat) op" where
  "ListByCompany E companyID state offset limit = call E (Dispatch AllowancesList) (query (\<lambda>d.
     let rows = filter (in_state state) (map (list_row d) (filter (\<lambda>r.
           (o_ShipperCompanyID r = companyID \<or> o_TransporterCompanyID r = Some companyID) \<and>
           o_StatusCode r \<in> {OrderReadyToPlan, OrderAssigned, OrderInTransit, OrderDelivered, OrderCompleted})
           (db_orders d)))
     in Inr (take limit (drop offset (sort_key list_key rows)), length rows)))"

definition Allowance_List :: "env \<Rightarrow> actor \<Rightarrow> string \<Rightarrow> int \<Rightarrow> int \<Rightarrow> (db, allowance_list_row list \<times> nat) op" where
  "Allowance_List E actor state page0 pageSize0 =
     (let pageSize = (if pageSize0 \<le> 0 \<or> 200 < pageSize0 then 20 else pageSize0);
          page = (if page0 < 0 then 0 else page0)
      in ListByCompany E (a_CompanyID actor) state (nat (page * pageSize)) (nat pageSize))"

section \<open>What the evidence adds up\<close>

definition roads_of :: "planned_leg list \<Rightarrow> route_cache_entry list" where
  "roads_of legs = List.map_filter pl_Cache legs"

definition priced_road :: "route_cache_entry \<Rightarrow> bool" where
  "priced_road r \<longleftrightarrow> tollPricesOf (rc_Toll r) \<noteq> None"

definition fare_of :: "string \<Rightarrow> route_cache_entry \<Rightarrow> int" where
  "fare_of classKey r = (case tollPricesOf (rc_Toll r) of None \<Rightarrow> 0 | Some fares \<Rightarrow> the_default 0 (fares classKey))"

lemma roads_of_Nil: "roads_of [] = []"
  by (simp add: roads_of_def List.map_filter_def)

lemma roads_of_one: "roads_of [l] = (case pl_Cache l of None \<Rightarrow> [] | Some r \<Rightarrow> [r])"
  by (simp add: roads_of_def List.map_filter_def split: option.split)

lemma roads_of_Cons: "roads_of (l # legs) = roads_of [l] @ roads_of legs"
  by (simp add: roads_of_def List.map_filter_def)

definition tolled_roads :: "planned_leg list \<Rightarrow> route_cache_entry list" where
  "tolled_roads legs = filter rc_HasToll (roads_of legs)"

lemma tolled_Cons: "tolled_roads (l # legs) = tolled_roads [l] @ tolled_roads legs"
  unfolding tolled_roads_def roads_of_Cons [of l legs] by simp

text \<open>What one leg adds.\<close>

lemma reckon_leg_adds:
  "rk_Tariff (reckon_leg c k l) = rk_Tariff k + sum_list (map (fare_of c) (filter priced_road (tolled_roads [l])))"
  "rk_RateMeters (reckon_leg c k l) =
     rk_RateMeters k + sum_list (map rc_TollDistanceMeters (filter (\<lambda>r. \<not> priced_road r) (tolled_roads [l])))"
  "rk_AnyToll (reckon_leg c k l) \<longleftrightarrow> rk_AnyToll k \<or> tolled_roads [l] \<noteq> []"
  "en_TollEstimateSource (rk_Evidence (reckon_leg c k l)) =
     (if filter (\<lambda>r. \<not> priced_road r) (tolled_roads [l]) = [] then en_TollEstimateSource (rk_Evidence k) else ''rate'')"
  "en_TotalDistanceMeters (rk_Evidence (reckon_leg c k l)) =
     en_TotalDistanceMeters (rk_Evidence k) + sum_list (map rc_DistanceMeters (roads_of [l]))"
  "en_TollDistanceMeters (rk_Evidence (reckon_leg c k l)) =
     en_TollDistanceMeters (rk_Evidence k) + sum_list (map rc_TollDistanceMeters (roads_of [l]))"
  "en_TollDataComplete (rk_Evidence (reckon_leg c k l)) \<longleftrightarrow>
     en_TollDataComplete (rk_Evidence k) \<and> (\<forall>r\<in>set (tolled_roads [l]). rc_TollDistanceMeters r \<noteq> 0)"
  "en_TollGolongan (rk_Evidence (reckon_leg c k l)) = en_TollGolongan (rk_Evidence k)"
  unfolding reckon_leg_def tolled_roads_def roads_of_one priced_road_def fare_of_def Let_def
  by (auto split: option.split)

lemma reckoned:
  fixes legs k c
  defines "k' \<equiv> foldl (reckon_leg c) k legs"
  shows "rk_Tariff k' = rk_Tariff k + sum_list (map (fare_of c) (filter priced_road (tolled_roads legs)))"
    and "rk_RateMeters k' =
      rk_RateMeters k + sum_list (map rc_TollDistanceMeters (filter (\<lambda>r. \<not> priced_road r) (tolled_roads legs)))"
    and "rk_AnyToll k' \<longleftrightarrow> rk_AnyToll k \<or> tolled_roads legs \<noteq> []"
    and "en_TollEstimateSource (rk_Evidence k') =
      (if filter (\<lambda>r. \<not> priced_road r) (tolled_roads legs) = [] then en_TollEstimateSource (rk_Evidence k) else ''rate'')"
    and "en_TotalDistanceMeters (rk_Evidence k') =
      en_TotalDistanceMeters (rk_Evidence k) + sum_list (map rc_DistanceMeters (roads_of legs))"
    and "en_TollDistanceMeters (rk_Evidence k') =
      en_TollDistanceMeters (rk_Evidence k) + sum_list (map rc_TollDistanceMeters (roads_of legs))"
    and "en_TollDataComplete (rk_Evidence k') \<longleftrightarrow>
      en_TollDataComplete (rk_Evidence k) \<and> (\<forall>r\<in>set (tolled_roads legs). rc_TollDistanceMeters r \<noteq> 0)"
    and "en_TollGolongan (rk_Evidence k') = en_TollGolongan (rk_Evidence k)"
  unfolding k'_def
proof (induction legs arbitrary: k)
  case (Cons l legs)
  note adds = Cons.IH reckon_leg_adds roads_of_Cons [of l legs] tolled_Cons [of l legs]
  { case 1 show ?case by (simp add: adds) next
    case 2 show ?case by (simp add: adds) next
    case 3 show ?case by (simp add: adds) next
    case 4 show ?case by (simp add: adds) next
    case 5 show ?case by (simp add: adds) next
    case 6 show ?case by (simp add: adds) next
    case 7 show ?case by (simp add: adds ball_Un conj_ac) next
    case 8 show ?case by (simp add: adds) }
qed (simp_all add: roads_of_Nil tolled_roads_def)

text \<open>
  The estimate: the fares of the class where the gates were priced, the rate per kilometre where they
  were not.
\<close>

lemma evidence_spec:
  fixes legs g
  defines "e \<equiv> evidence_of g legs" and "c \<equiv> ''golongan_'' @ digits (nat g)"
  shows "en_TotalDistanceMeters e = sum_list (map rc_DistanceMeters (roads_of legs))"
    and "en_TollDistanceMeters e = sum_list (map rc_TollDistanceMeters (roads_of legs))"
    and "en_TollEstimate e = round_to 0 (of_int (sum_list (map (fare_of c) (filter priced_road (tolled_roads legs)))) +
      of_int (sum_list (map rc_TollDistanceMeters (filter (\<lambda>r. \<not> priced_road r) (tolled_roads legs)))) / 1000 * TollRatePerKm)"
    and "en_TollEstimateSource e = (if tolled_roads legs = [] then ''none''
      else if filter (\<lambda>r. \<not> priced_road r) (tolled_roads legs) = [] then ''tariff'' else ''rate'')"
    and "en_TollDataComplete e \<longleftrightarrow> (\<forall>r\<in>set (tolled_roads legs). rc_TollDistanceMeters r \<noteq> 0)"
    and "en_TollGolongan e = (if tolled_roads legs = [] then 0 else g)"
  unfolding e_def c_def evidence_of_def Let_def by (auto simp add: reckoned no_evidence_def)

section \<open>What the operations do\<close>

lemma add_lines_Inr:
  "add_lines acc cs = Inr tot \<longleftrightarrow>
     (\<forall>c\<in>set cs. al_Code c \<noteq> [] \<and> 0 \<le> al_Amount c) \<and> tot = acc + sum_list (map al_Amount cs)"
  by (induction cs arbitrary: acc) auto

lemma repriced_read:
  assumes "Legs_ListByOrder E i d = (Inr legs, d')"
  shows "repriced E j legs s = (Inr legs, s)"
  by (simp add: repriced_def nothing_unpriced [OF assms] andThen_def ok_def)

lemma evidence_Inr:
  "evidence E i ord d = (Inr ev, d') \<longleftrightarrow> d' = d \<and> \<not> down E (Dispatch RoutesListByOrder) \<and>
     ev = evidence_of (golonganForOrder E ord) (map (read_leg d) (filter (\<lambda>l. rt_OrderID l = i) (db_routes d)))"
proof -
  have "evidence E i ord d = (Inr ev, d') \<longleftrightarrow> (\<exists>legs d1. Legs_ListByOrder E i d = (Inr legs, d1) \<and> d' = d1 \<and>
      ev = evidence_of (golonganForOrder E ord) legs)"
    unfolding evidence_def andThen_Inr by (auto simp: repriced_read)
  then show ?thesis by (auto simp: Legs_ListByOrder_def call_Inr query_def)
qed

lemma readonly_evidence [op_rules]: "readonly (evidence E i ord)"
proof (rule readonlyI)
  fix s r s' assume a: "evidence E i ord s = (r, s')"
  obtain l s1 where l: "Legs_ListByOrder E i s = (l, s1)" by fastforce
  then have "s1 = s" by (rule readonlyD [rotated]) (intro op_rules)
  with a l show "s' = s"
    by (cases l) (auto simp: evidence_def andThen_def repriced_read [where d = s and d' = s] ok_def)
qed

lemma readonly_allowances [op_rules]:
  "readonly (snapshotFor E ord)" "readonly (Allowances_FindByOrder E i)" "readonly (Allowances_History E i)"
  "readonly (Allowance_Get E actor i)" "readonly (Allowance_History E actor i)" "readonly (Allowance_List E actor st p n)"
proof -
  have ag: "readonly (Agreements_FindByIDForService E i)" for i
    unfolding Agreements_FindByIDForService_def by (intro op_rules)
  show s: "readonly (snapshotFor E ord)" for ord unfolding snapshotFor_def by (intro op_rules ag)
  show f: "readonly (Allowances_FindByOrder E i)" "readonly (Allowances_History E i)" for i
    unfolding Allowances_FindByOrder_def Allowances_History_def by (intro op_rules)+
  show "readonly (Allowance_Get E actor i)" unfolding Allowance_Get_def by (intro op_rules s f)
  show "readonly (Allowance_History E actor i)" unfolding Allowance_History_def by (intro op_rules f)
  show "readonly (Allowance_List E actor st p n)"
    unfolding Allowance_List_def ListByCompany_def Let_def by (intro op_rules)
qed

lemma reword_Inr [simp]: "reword c e m s = (Inr x, s') \<longleftrightarrow> m s = (Inr x, s')"
proof -
  obtain r s1 where "m s = (r, s1)" by fastforce
  then show ?thesis by (cases r) (auto simp: reword_def andThen_def attempt_def)
qed

lemma Orders_FindByID_Inr:
  "Orders_FindByID E c i d = (Inr ord, d') \<Longrightarrow> d' = d \<and> ord \<in> set (db_orders d) \<and> o_ID ord = i \<and> InvolvesCompany ord c"
  by (auto simp: Orders_FindByID_def call_Inr query_def one_def InvolvesCompany_def split: option.splits
      dest!: find_Some_iff_first)

section \<open>Nothing is overwritten\<close>

text \<open>An order has one advance; every version of it that was ever entered, the current one last.\<close>

definition one_advance :: "db \<Rightarrow> bool" where
  "one_advance d \<longleftrightarrow> distinct (map oa_OrderID (db_allowances d))"

definition superseded :: "uuid \<Rightarrow> db \<Rightarrow> allowance_revision list" where
  "superseded i d = filter (\<lambda>h. ah_OrderID h = i) (db_allowance_history d)"

definition current :: "uuid \<Rightarrow> db \<Rightarrow> order_allowance list" where
  "current i d = filter (\<lambda>a. oa_OrderID a = i) (db_allowances d)"

type_synonym version = "allowance_component list \<times> money"

definition versions :: "uuid \<Rightarrow> db \<Rightarrow> version list" where
  "versions i d = map (\<lambda>h. (ah_Components h, ah_Total h)) (superseded i d) @
     map (\<lambda>a. (oa_Components a, oa_Total a)) (current i d)"

text \<open>
  Where the advances may go: versions are only added, an advance that was committed to the driver
  stays committed as it was, and whatever replaces it says why.
\<close>

definition committed :: "uuid \<Rightarrow> db \<Rightarrow> (time option \<times> uuid option) list" where
  "committed i d = map (\<lambda>a. (oa_FinalisedAt a, oa_FinalisedByUserID a)) (filter (\<lambda>a. oa_FinalisedAt a \<noteq> None) (current i d))"

definition advances_kept :: "db \<Rightarrow> db \<Rightarrow> bool" where
  "advances_kept d d' \<longleftrightarrow> (one_advance d \<longrightarrow> one_advance d' \<and>
     (\<forall>i. (\<exists>later. versions i d' = versions i d @ later) \<and>
          (committed i d \<noteq> [] \<longrightarrow> committed i d' = committed i d) \<and>
          (\<exists>more. superseded i d' = superseded i d @ more \<and>
            (committed i d \<noteq> [] \<longrightarrow> (\<forall>h\<in>set more. ah_Reason h \<noteq> None)))))"

interpretation advances: store_order advances_kept
proof
  show "advances_kept s s" for s by (simp add: advances_kept_def)
  show "advances_kept s u" if "advances_kept s t" "advances_kept t u" for s t u
    unfolding advances_kept_def
  proof (intro impI conjI allI)
    assume one: "one_advance s"
    with that(1) have t: "one_advance t" by (simp add: advances_kept_def)
    with that(2) show "one_advance u" by (simp add: advances_kept_def)
    fix i
    have "\<exists>l. versions i t = versions i s @ l" "\<exists>l. versions i u = versions i t @ l"
      using one t that unfolding advances_kept_def by blast+
    then show "\<exists>later. versions i u = versions i s @ later" by auto
    show "committed i s \<noteq> [] \<Longrightarrow> committed i u = committed i s"
      using one t that by (simp add: advances_kept_def)
    have "\<exists>m. superseded i t = superseded i s @ m \<and> (committed i s \<noteq> [] \<longrightarrow> (\<forall>h\<in>set m. ah_Reason h \<noteq> None))"
      "\<exists>m. superseded i u = superseded i t @ m \<and> (committed i t \<noteq> [] \<longrightarrow> (\<forall>h\<in>set m. ah_Reason h \<noteq> None))"
      "committed i s \<noteq> [] \<Longrightarrow> committed i t = committed i s"
      using one t that unfolding advances_kept_def by blast+
    then obtain m1 m2 where m: "superseded i t = superseded i s @ m1" "superseded i u = superseded i t @ m2"
      "committed i s \<noteq> [] \<longrightarrow> (\<forall>h\<in>set m1. ah_Reason h \<noteq> None)" "committed i t \<noteq> [] \<longrightarrow> (\<forall>h\<in>set m2. ah_Reason h \<noteq> None)"
      "committed i s \<noteq> [] \<longrightarrow> committed i t = committed i s" by blast
    then show "\<exists>more. superseded i u = superseded i s @ more \<and>
        (committed i s \<noteq> [] \<longrightarrow> (\<forall>h\<in>set more. ah_Reason h \<noteq> None))"
      by (intro exI [of _ "m1 @ m2"]) auto
  qed
qed

text \<open>An operation beside the two tables.\<close>

definition advance_tables :: "db \<Rightarrow> order_allowance list \<times> allowance_revision list" where
  "advance_tables d = (db_allowances d, db_allowance_history d)"

lemma advances_beside:
  "keeps advance_tables m \<Longrightarrow> follows advances_kept m"
  "keeps advance_tables m \<Longrightarrow> preserves one_advance m"
  by (auto simp: keeps_def follows_def preserves_def advance_tables_def advances_kept_def versions_def committed_def
      superseded_def current_def one_advance_def)

lemma one_current:
  assumes "one_advance d" and "find (\<lambda>r. oa_OrderID r = i) (db_allowances d) = Some a"
  shows "current i d = [a]"
proof -
  have "distinct (map oa_OrderID as) \<Longrightarrow> find (\<lambda>r. oa_OrderID r = i) as = Some a \<Longrightarrow>
      filter (\<lambda>a. oa_OrderID a = i) as = [a]" for as
    by (induction as) (auto simp: filter_empty_conv split: if_splits, metis imageI)
  with assms show ?thesis by (simp add: one_advance_def current_def)
qed

lemma none_current: "find (\<lambda>r. oa_OrderID r = i) (db_allowances d) = None \<Longrightarrow> current i d = []"
  by (auto simp: find_None_iff current_def filter_empty_conv)

lemma filter_update_key:
  "(\<And>a. key (f a) = key a) \<Longrightarrow> filter (\<lambda>a. key a = i) (update_where (\<lambda>a. key a = j) f rows) =
     (if i = j then map f (filter (\<lambda>a. key a = i) rows) else filter (\<lambda>a. key a = i) rows)"
  by (induction rows) (auto simp: update_where_def)

lemma Allowances_Save_kept [op_rules]: "follows advances_kept (Allowances_Save E a0 reason u)"
proof (rule followsI)
  fix d r d' assume run: "Allowances_Save E a0 reason u d = (r, d')"
  let ?a = "stored_allowance a0"
  show "advances_kept d d'"
  proof (cases "d' = d")
    case False
    with run have new: "d' = (case find (\<lambda>r. oa_OrderID r = oa_OrderID ?a) (db_allowances d) of
        Some old \<Rightarrow> d\<lparr>db_allowance_history := db_allowance_history d @ [superseded_version E old reason u],
          db_allowances := update_where (\<lambda>r. oa_OrderID r = oa_OrderID ?a) (entered_again ?a) (db_allowances d)\<rparr>
      | None \<Rightarrow> d\<lparr>db_allowances := db_allowances d @ [?a]\<rparr>)"
      and why: "\<And>old. find (\<lambda>r. oa_OrderID r = oa_OrderID ?a) (db_allowances d) = Some old \<Longrightarrow>
        oa_FinalisedAt old \<noteq> None \<Longrightarrow> reason \<noteq> []"
      by (auto simp: Allowances_Save_def call_def fail_def Let_def split: if_splits option.splits)
    have key: "oa_OrderID (entered_again ?a x) = oa_OrderID x" for x by (simp add: entered_again_def)
    show ?thesis
    proof (cases "find (\<lambda>r. oa_OrderID r = oa_OrderID ?a) (db_allowances d)")
      case None
      then have fresh: "oa_OrderID ?a \<notin> oa_OrderID ` set (db_allowances d)" by (auto simp: find_None_iff)
      have cur: "current i d' = current i d @ (if i = oa_OrderID ?a then [?a] else [])" for i
        using new None by (simp add: current_def)
      have sup: "superseded i d' = superseded i d" for i using new None by (simp add: superseded_def)
      have "one_advance d \<Longrightarrow> one_advance d'" using new None fresh by (simp add: one_advance_def)
      then show ?thesis using none_current [OF None]
        by (auto simp: advances_kept_def versions_def committed_def cur sup)
    next
      case (Some old)
      note find = this
      have old: "oa_OrderID old = oa_OrderID ?a" using find_Some_iff_first [OF Some] by simp
      have d': "db_allowances d' = update_where (\<lambda>r. oa_OrderID r = oa_OrderID ?a) (entered_again ?a) (db_allowances d)"
        "db_allowance_history d' = db_allowance_history d @ [superseded_version E old reason u]"
        using new Some by simp_all
      show ?thesis
        unfolding advances_kept_def
      proof (intro impI conjI allI)
        assume one: "one_advance d"
        note cur = one_current [OF one Some]
        show "one_advance d'" using one map_update_where_key [of oa_OrderID "entered_again ?a", OF key]
          by (simp add: one_advance_def d')
        fix i
        have cur': "current i d' = (if i = oa_OrderID ?a then [entered_again ?a old] else current i d)"
          using cur filter_update_key [of oa_OrderID "entered_again ?a", OF key] by (simp add: current_def d')
        have sup': "superseded i d' = superseded i d @ (if i = oa_OrderID ?a then [superseded_version E old reason u] else [])"
          using old by (simp add: superseded_def d' superseded_version_def)
        show "\<exists>later. versions i d' = versions i d @ later"
          using cur cur' sup' by (auto simp: versions_def superseded_version_def)
        show "committed i d \<noteq> [] \<Longrightarrow> committed i d' = committed i d"
          using cur cur' by (auto simp: committed_def entered_again_def split: if_splits)
        show "\<exists>more. superseded i d' = superseded i d @ more \<and>
            (committed i d \<noteq> [] \<longrightarrow> (\<forall>h\<in>set more. ah_Reason h \<noteq> None))"
          using cur sup' why [OF find] by (auto simp: committed_def superseded_version_def nonempty_def split: if_splits)
      qed
    qed
  qed (simp add: advances.stays)
qed

lemma Allowances_Finalise_kept [op_rules]: "follows advances_kept (Allowances_Finalise E i0 u)"
proof (rule followsI)
  fix d r d' assume run: "Allowances_Finalise E i0 u d = (r, d')"
  let ?P = "\<lambda>a. oa_OrderID a = i0 \<and> oa_FinalisedAt a = None"
  let ?f = "\<lambda>a :: order_allowance. a\<lparr>oa_FinalisedAt := Some (now E), oa_FinalisedByUserID := Some u\<rparr>"
  show "advances_kept d d'"
  proof (cases "d' = d")
    case False
    with run have d': "d' = d\<lparr>db_allowances := update_where ?P ?f (db_allowances d)\<rparr>"
      by (auto simp: Allowances_Finalise_def call_def fail_def Let_def split: if_splits)
    have cur: "current i d' = map (\<lambda>a. if ?P a then ?f a else a) (current i d)" for i
    proof -
      have "filter (\<lambda>a. oa_OrderID a = i) (update_where ?P ?f as) =
          map (\<lambda>a. if ?P a then ?f a else a) (filter (\<lambda>a. oa_OrderID a = i) as)" for as
        by (induction as) (auto simp: update_where_def)
      then show ?thesis by (simp add: current_def d')
    qed
    have sup: "superseded i d' = superseded i d" for i by (simp add: superseded_def d')
    have vs: "versions i d' = versions i d" for i by (simp add: versions_def cur sup)
    show ?thesis
      unfolding advances_kept_def
    proof (intro impI conjI allI)
      assume one: "one_advance d"
      then show "one_advance d'" using map_update_where_key [of oa_OrderID ?f] by (simp add: one_advance_def d')
      fix i
      show "\<exists>later. versions i d' = versions i d @ later" using vs by simp
      show "\<exists>more. superseded i d' = superseded i d @ more \<and>
          (committed i d \<noteq> [] \<longrightarrow> (\<forall>h\<in>set more. ah_Reason h \<noteq> None))" using sup by simp
      show "committed i d' = committed i d" if c: "committed i d \<noteq> []"
      proof (cases "find (\<lambda>r. oa_OrderID r = i) (db_allowances d)")
        case None
        with c show ?thesis by (simp add: none_current committed_def)
      next
        case (Some a)
        from one_current [OF one this] c cur [of i] show ?thesis
          by (auto simp: committed_def split: if_splits)
      qed
    qed
  qed (simp add: advances.stays)
qed

lemmas advance_reads [op_rules] = readonly_evidence [THEN advances.follows_readonly]
  readonly_allowances [THEN advances.follows_readonly] readonly_reads [THEN advances.follows_readonly]
  advances.follow_rules

lemma advances_choice [op_rules]: "follows advances_kept m \<Longrightarrow> follows advances_kept (reword c e m)"
  unfolding reword_def by (intro op_rules)

lemma Allowance_kept [op_rules]:
  "follows advances_kept (Allowance_Save E actor i inp)" "follows advances_kept (Allowance_Finalise E actor i)"
  unfolding Allowance_Save_def Allowance_Finalise_def materialiseSnapshot_def by (intro op_rules)+

text \<open>Any requests about advances, and whatever else is served between them.\<close>

inductive advance_step :: "db \<Rightarrow> db \<Rightarrow> bool" where
  saved: "Allowance_Save E actor i inp d = (r, d') \<Longrightarrow> advance_step d d'"
| finalised: "Allowance_Finalise E actor i d = (r', d') \<Longrightarrow> advance_step d d'"
| beside: "advance_tables d' = advance_tables d \<Longrightarrow> advance_step d d'"

lemma advance_step_kept: "advance_step d d' \<Longrightarrow> advances_kept d d'"
proof (induction rule: advance_step.induct)
  case (beside d' d)
  then show ?case
    by (simp add: advance_tables_def advances_kept_def versions_def committed_def superseded_def current_def one_advance_def)
qed (auto intro: followsD [OF Allowance_kept(1)] followsD [OF Allowance_kept(2)])

lemma advance_steps_kept: "advance_step\<^sup>*\<^sup>* d d' \<Longrightarrow> advances_kept d d'"
  by (induction rule: rtranclp_induct) (auto intro: advances.stays advances.onward advance_step_kept)

section \<open>Every advance adds up\<close>

definition sums_up :: "version \<Rightarrow> bool" where
  "sums_up v \<longleftrightarrow> snd v = round_to 2 (sum_list (map al_Amount (fst v))) \<and> 0 \<le> snd v"

definition advances_add_up :: "db \<Rightarrow> bool" where
  "advances_add_up d \<longleftrightarrow> (\<forall>i. \<forall>v\<in>set (versions i d). sums_up v)"

lemma advances_add_up_rows:
  "advances_add_up d \<longleftrightarrow> (\<forall>a\<in>set (db_allowances d). sums_up (oa_Components a, oa_Total a)) \<and>
     (\<forall>h\<in>set (db_allowance_history d). sums_up (ah_Components h, ah_Total h))"
  by (auto simp: advances_add_up_def versions_def superseded_def current_def)

lemma Allowances_Save_adds_up:
  assumes "oa_Total a = sum_list (map al_Amount (oa_Components a))"
  shows "preserves advances_add_up (Allowances_Save E a reason u)"
proof -
  have "sums_up (oa_Components (stored_allowance a), oa_Total (stored_allowance a))"
    if "allowance_accepted (stored_allowance a) d" for d
    using that assms by (auto simp: sums_up_def stored_allowance_def allowance_accepted_def)
  then show ?thesis
    by (auto simp: preserves_def Allowances_Save_def call_def fail_def Let_def advances_add_up_rows
        superseded_version_def set_update_where entered_again_def split: option.split dest!: find_Some_iff_first)
qed

lemma Allowances_Finalise_adds_up [op_rules]: "preserves advances_add_up (Allowances_Finalise E i u)"
  by (auto simp: preserves_def Allowances_Finalise_def call_def fail_def Let_def advances_add_up_rows set_update_where)

lemmas adds_up_reads [op_rules] = readonly_evidence [THEN preserves_readonly, where P = advances_add_up]
  readonly_allowances [THEN preserves_readonly, where P = advances_add_up]

lemma Allowance_adds_up:
  "preserves advances_add_up (Allowance_Save E actor i inp)" "preserves advances_add_up (Allowance_Finalise E actor i)"
proof -
  have w: "preserves P m \<Longrightarrow> preserves P (reword c e m)" for P c e and m :: "(db, unit) op"
    unfolding reword_def by (intro op_rules)
  show "preserves advances_add_up (Allowance_Save E actor i inp)"
    unfolding Allowance_Save_def
    by (intro op_rules preserves_result w Allowances_Save_adds_up) (auto simp: add_lines_Inr entered_row_def)
  show "preserves advances_add_up (Allowance_Finalise E actor i)"
    unfolding Allowance_Finalise_def materialiseSnapshot_def
    by (intro op_rules w Allowances_Save_adds_up) (simp add: entered_row_def contract_line_def)
qed

lemma advance_steps_add_up:
  assumes "advance_step\<^sup>*\<^sup>* d d'" and "advances_add_up d"
  shows "advances_add_up d'"
  using assms
proof (induction rule: rtranclp_induct)
  case (step b c)
  note b = step.IH [OF step.prems]
  from step.hyps(2) show ?case
  proof (cases rule: advance_step.cases)
    case saved
    then show ?thesis by (rule preservesD [OF Allowance_adds_up(1) _ b])
  next
    case finalised
    then show ?thesis by (rule preservesD [OF Allowance_adds_up(2) _ b])
  next
    case beside
    with b show ?thesis by (simp add: advances_add_up_rows advance_tables_def)
  qed
qed simp

section \<open>Entering and committing an advance\<close>

text \<open>What the contract says, read off the store.\<close>

definition contract_allowance :: "env \<Rightarrow> order \<Rightarrow> db \<Rightarrow> allowance_snapshot option" where
  "contract_allowance E ord d =
     (case o_AgreementID ord of
        None \<Rightarrow> None
      | Some i \<Rightarrow>
          if \<not> agreements_wired E \<or> down E (Commerce AgreementsFindByIDForService) then None
          else Option.bind (find (\<lambda>a. ag_ID a = i) (db_agreements d)) (allowanceSnapshotOf E))"

lemma snapshotFor_eq: "snapshotFor E ord d = (Inr (contract_allowance E ord d), d)"
  by (auto simp: snapshotFor_def contract_allowance_def Agreements_FindByIDForService_def call_def query_def one_def
      op_defs split: option.split)

definition advance_of :: "uuid \<Rightarrow> db \<Rightarrow> order_allowance option" where
  "advance_of i d = find (\<lambda>a. oa_OrderID a = i) (db_allowances d)"

definition evidence_on :: "env \<Rightarrow> order \<Rightarrow> db \<Rightarrow> evidence" where
  "evidence_on E ord d = evidence_of (golonganForOrder E ord)
     (map (read_leg d) (filter (\<lambda>l. rt_OrderID l = o_ID ord) (db_routes d)))"

lemma andThen_run: "m s = (Inr x, s') \<Longrightarrow> andThen m f s = f x s'"
  by (simp add: andThen_def)

lemma andThen_from_result: "andThen (from_result (Inr x)) f = f x"
  by (rule ext) (simp add: andThen_def from_result_def)

lemma Allowance_Get_Inr:
  assumes "Allowance_Get E actor i d = (Inr v, d')"
  obtains ord where "ord \<in> set (db_orders d)" "o_ID ord = i" "InvolvesCompany ord (a_CompanyID actor)" "d' = d"
    "v = \<lparr>vw_Allowance = advance_of i d, vw_Evidence = evidence_on E ord d, vw_Snapshot = contract_allowance E ord d,
       vw_Editable = (contract_allowance E ord d = None \<and> (\<forall>a. advance_of i d = Some a \<longrightarrow> oa_FinalisedAt a = None))\<rparr>"
proof -
  from assms obtain ord where o: "Orders_FindByID E (a_CompanyID actor) i d = (Inr ord, d)"
    by (auto simp: Allowance_Get_def andThen_Inr dest: Orders_FindByID_Inr)
  note o' = Orders_FindByID_Inr [OF o]
  from assms o o' have v: "d' = d \<and> v = \<lparr>vw_Allowance = advance_of i d, vw_Evidence = evidence_on E ord d,
      vw_Snapshot = contract_allowance E ord d,
      vw_Editable = (contract_allowance E ord d = None \<and> (\<forall>a. advance_of i d = Some a \<longrightarrow> oa_FinalisedAt a = None))\<rparr>"
    by (cases "advance_of i d")
      (auto simp: Allowance_Get_def andThen_Inr evidence_Inr snapshotFor_eq Allowances_FindByOrder_def call_def query_def
        fail_def one_def advance_of_def evidence_on_def split: if_splits)
  with o' show ?thesis by (intro that) auto
qed

lemma find_kept_by_update:
  "(\<And>r. P r \<Longrightarrow> P (f r)) \<Longrightarrow> find P (update_where P f rows) = map_option f (find P rows)"
  by (induction rows) (auto simp: update_where_def)

lemma Allowances_Save_Inr:
  fixes a0 :: order_allowance
  defines "a \<equiv> stored_allowance a0"
  assumes "Allowances_Save E a0 reason u d = (Inr x, d')"
  shows "allowance_accepted a d \<and> advance_of (oa_OrderID a0) d' =
      Some (case advance_of (oa_OrderID a0) d of None \<Rightarrow> a | Some old \<Rightarrow> entered_again a old) \<and>
    (\<forall>old. advance_of (oa_OrderID a0) d = Some old \<and> oa_FinalisedAt old \<noteq> None \<longrightarrow> reason \<noteq> []) \<and>
    d' = d\<lparr>db_allowances := db_allowances d', db_allowance_history := db_allowance_history d'\<rparr>"
proof -
  have k: "oa_OrderID (stored_allowance a0) = oa_OrderID a0" "oa_OrderID (entered_again b r) = oa_OrderID r" for b r
    by (simp_all add: stored_allowance_def entered_again_def)
  have "find (\<lambda>r. oa_OrderID r = oa_OrderID a0) (update_where (\<lambda>r. oa_OrderID r = oa_OrderID a0) (entered_again a) rows) =
      map_option (entered_again a) (find (\<lambda>r. oa_OrderID r = oa_OrderID a0) rows)" for rows
    by (rule find_kept_by_update) (simp add: k)
  then show ?thesis
    using assms(2) unfolding a_def advance_of_def
    by (auto simp: Allowances_Save_def call_Inr Let_def k find_append split: option.splits if_splits)
qed

lemma Allowance_Save_Inr:
  assumes run: "Allowance_Save E actor i inp d = (Inr v, d')"
  obtains ord a where "ord \<in> set (db_orders d)" "o_ID ord = i" "InvolvesCompany ord (a_CompanyID actor)"
    "contract_allowance E ord d = None" "\<forall>c\<in>set (ai_Components inp). al_Code c \<noteq> [] \<and> 0 \<le> al_Amount c"
    "advance_of i d' = Some a" "oa_Components a = ai_Components inp"
    "oa_Total a = round_to 2 (sum_list (map al_Amount (ai_Components inp)))"
    "oa_HaulDistanceMeters a = en_HaulDistanceMeters (evidence_on E ord d)"
    "oa_ApproachDistanceMeters a = en_ApproachDistanceMeters (evidence_on E ord d)"
    "oa_TollEstimate a = Some (round_to 2 (en_TollEstimate (evidence_on E ord d)))"
    "oa_EnteredByUserID a = Some (a_UserID actor)" "oa_EnteredAt a = Some (now E)"
    "\<And>old. advance_of i d = Some old \<Longrightarrow> oa_FinalisedAt old \<noteq> None \<Longrightarrow> ai_Reason inp \<noteq> []"
    "\<And>old. advance_of i d = Some old \<Longrightarrow> oa_FinalisedAt a = oa_FinalisedAt old"
    "advance_of i d = None \<Longrightarrow> oa_FinalisedAt a = None" "vw_Allowance v = Some a"
    "d' = d\<lparr>db_allowances := db_allowances d', db_allowance_history := db_allowance_history d'\<rparr>"
proof -
  from run obtain ord where o: "Orders_FindByID E (a_CompanyID actor) i d = (Inr ord, d)"
    by (auto simp: Allowance_Save_def andThen_Inr dest: Orders_FindByID_Inr)
  note o' = Orders_FindByID_Inr [OF o]
  let ?tot = "sum_list (map al_Amount (ai_Components inp))" and ?ev = "evidence_on E ord d"
  let ?row = "(entered_row E actor i ?ev (ai_Components inp) ?tot)
    \<lparr>oa_CurrencyID := nonempty (ai_CurrencyID inp), oa_Note := nonempty (ai_Note inp)\<rparr>"
  have reads: "andThen (Orders_FindByID E (a_CompanyID actor) i) f d = f ord d"
    "andThen (snapshotFor E ord) g d = g (contract_allowance E ord d) d"
    for f :: "order \<Rightarrow> (db, allowance_view) op" and g :: "allowance_snapshot option \<Rightarrow> (db, allowance_view) op"
    by (simp_all add: andThen_def o snapshotFor_eq)
  note run1 = run [unfolded Allowance_Save_def reads]
  from run1 have c: "contract_allowance E ord d = None" by (cases "contract_allowance E ord d") (simp_all add: andThen_Inr)
  from run1 obtain tot where l: "add_lines 0 (ai_Components inp) = Inr tot"
    by (auto simp: andThen_Inr)
  then have lines: "\<forall>c\<in>set (ai_Components inp). al_Code c \<noteq> [] \<and> 0 \<le> al_Amount c" and tot: "tot = ?tot"
    by (simp_all add: add_lines_Inr)
  from run1 obtain d0 where "evidence E i ord d = (Inr d0, d)" by (auto simp: andThen_Inr c l evidence_Inr)
  then have ev: "evidence E i ord d = (Inr ?ev, d)" using o' by (simp add: evidence_Inr evidence_on_def)
  have look: "andThen (evidence E i ord) h d = h ?ev d" for h :: "evidence \<Rightarrow> (db, allowance_view) op"
    by (simp add: andThen_def ev)
  from run1 obtain d1 where s: "Allowances_Save E ?row (ai_Reason inp) (a_UserID actor) d = (Inr (), d1)"
    and g: "Allowance_Get E actor i d1 = (Inr v, d')"
  proof -
    from run1 have "andThen (reword ErrConflict (Err ErrValidation ''this advance is finalised; a change needs a reason'')
        (Allowances_Save E ?row (ai_Reason inp) (a_UserID actor))) (\<lambda>_. Allowance_Get E actor i) d = (Inr v, d')"
      by (simp add: c l tot andThen_from_result look)
    then show ?thesis unfolding andThen_Inr reword_Inr by (auto intro: that)
  qed
  have v: "vw_Allowance v = advance_of i d1" and d1: "d1 = d'"
    by (rule Allowance_Get_Inr [OF g]; simp)+
  have k: "oa_OrderID ?row = i" by (simp add: entered_row_def)
  note saved = Allowances_Save_Inr [OF s, unfolded k d1]
  let ?a = "case advance_of i d of None \<Rightarrow> stored_allowance ?row | Some old \<Rightarrow> entered_again (stored_allowance ?row) old"
  show ?thesis
  proof (rule that [of ord ?a])
    show "advance_of i d' = Some ?a" "vw_Allowance v = Some ?a" using saved v d1 by simp_all
    show "d' = d\<lparr>db_allowances := db_allowances d', db_allowance_history := db_allowance_history d'\<rparr>" using saved by blast
  qed (use o' c lines saved in \<open>auto simp: entered_row_def stored_allowance_def entered_again_def split: option.split\<close>)
qed

lemma Allowances_Finalise_Inr:
  assumes "Allowances_Finalise E i u d = (Inr x, d')" and one: "one_advance d"
  obtains a where "advance_of i d = Some a" "oa_FinalisedAt a = None"
    "advance_of i d' = Some (a\<lparr>oa_FinalisedAt := Some (now E), oa_FinalisedByUserID := Some u\<rparr>)"
    "d' = d\<lparr>db_allowances := db_allowances d'\<rparr>"
proof -
  let ?P = "\<lambda>a. oa_OrderID a = i \<and> oa_FinalisedAt a = None"
  let ?f = "\<lambda>a :: order_allowance. a\<lparr>oa_FinalisedAt := Some (now E), oa_FinalisedByUserID := Some u\<rparr>"
  from assms(1) have some: "\<exists>b\<in>set (db_allowances d). ?P b" and d': "d' = d\<lparr>db_allowances := update_where ?P ?f (db_allowances d)\<rparr>"
    by (auto simp: Allowances_Finalise_def call_Inr Let_def rows_affected_def filter_empty_conv split: if_splits)
  from some obtain a where a: "advance_of i d = Some a"
    by (cases "advance_of i d") (auto simp: advance_of_def find_None_iff)
  with some one_current [OF one] have open1: "oa_FinalisedAt a = None"
    by (fastforce simp: advance_of_def current_def filter_eq_Cons_iff dest: arg_cong [of _ _ set])
  have "find (\<lambda>a. oa_OrderID a = i) as = Some a \<Longrightarrow> find (\<lambda>a. oa_OrderID a = i) (update_where ?P ?f as) = Some (?f a)" for as
    using open1 by (induction as) (auto simp: update_where_def split: if_splits)
  with a d' have "advance_of i d' = Some (?f a)" by (simp add: advance_of_def)
  with a open1 d' show ?thesis by (intro that) simp_all
qed

text \<open>
  Committing an advance: the open one as it stands, or, where none was entered, what the contract says.
\<close>

lemma Allowance_Finalise_Inr:
  assumes run: "Allowance_Finalise E actor i d = (Inr v, d')" and one: "one_advance d"
  obtains ord a where "ord \<in> set (db_orders d)" "o_ID ord = i" "InvolvesCompany ord (a_CompanyID actor)"
    "advance_of i d' = Some a" "oa_FinalisedAt a = Some (now E)" "oa_FinalisedByUserID a = Some (a_UserID actor)"
    "\<And>old. advance_of i d = Some old \<Longrightarrow> oa_FinalisedAt old = None \<and> oa_Components a = oa_Components old \<and> oa_Total a = oa_Total old"
    "advance_of i d = None \<Longrightarrow> \<exists>s. contract_allowance E ord d = Some s \<and> oa_Components a = [contract_line s] \<and>
       oa_Total a = round_to 2 (as_Total s) \<and> 0 \<le> oa_Total a"
    "vw_Allowance v = Some a" "\<not> vw_Editable v"
proof -
  from run obtain ord where o: "Orders_FindByID E (a_CompanyID actor) i d = (Inr ord, d)"
    by (auto simp: Allowance_Finalise_def andThen_Inr dest: Orders_FindByID_Inr)
  note o' = Orders_FindByID_Inr [OF o]
  let ?first = "case fst (Allowances_FindByOrder E i d) of Inr _ \<Rightarrow> ok ()
     | Inl e \<Rightarrow> if err_class e = ErrNotFound
         then andThen (snapshotFor E ord) (\<lambda>snapshot. case snapshot of None \<Rightarrow> ok ()
           | Some s \<Rightarrow> materialiseSnapshot E actor i ord s) else fail e"
  have "snd (Allowances_FindByOrder E i d) = d" by (simp add: Allowances_FindByOrder_def call_def query_def fail_def)
  then have reads: "andThen (Orders_FindByID E (a_CompanyID actor) i) f d = f ord d"
    "andThen (attempt (Allowances_FindByOrder E i)) g d = g (fst (Allowances_FindByOrder E i d)) d"
    for f :: "order \<Rightarrow> (db, allowance_view) op" and g :: "order_allowance result \<Rightarrow> (db, allowance_view) op"
    by (simp_all add: andThen_def o attempt_def case_prod_beta)
  from run [unfolded Allowance_Finalise_def reads] obtain d1 d2 where
    m: "?first d = (Inr (), d1)" and f: "Allowances_Finalise E i (a_UserID actor) d1 = (Inr (), d2)"
    and g: "Allowance_Get E actor i d2 = (Inr v, d')"
    unfolding andThen_Inr reword_Inr by auto
  have kept: "one_advance d1 \<and> ((case advance_of i d of Some old \<Rightarrow> advance_of i d1 = Some old
      | None \<Rightarrow> \<exists>s a. contract_allowance E ord d = Some s \<and> advance_of i d1 = Some a \<and>
          oa_Components a = [contract_line s] \<and> oa_Total a = round_to 2 (as_Total s) \<and> 0 \<le> oa_Total a) \<or> advance_of i d1 = None)"
  proof (cases "advance_of i d")
    case (Some old)
    with m one show ?thesis
      by (auto simp: Allowances_FindByOrder_def call_def query_def fail_def one_def advance_of_def split: if_splits)
  next
    case None
    with m have w: "andThen (snapshotFor E ord) (\<lambda>snapshot. case snapshot of None \<Rightarrow> ok ()
           | Some s \<Rightarrow> materialiseSnapshot E actor i ord s) d = (Inr (), d1)"
      by (auto simp: Allowances_FindByOrder_def call_def query_def fail_def one_def advance_of_def split: if_splits)
    show ?thesis
    proof (cases "contract_allowance E ord d")
      case (Some s)
      let ?row = "\<lambda>ev. entered_row E actor i ev [contract_line s] (as_Total s)"
      from Some w obtain ev where sv: "Allowances_Save E (?row ev) [] (a_UserID actor) d = (Inr (), d1)"
        by (auto simp: andThen_Inr snapshotFor_eq materialiseSnapshot_def evidence_Inr)
      have k: "oa_OrderID (?row ev) = i" by (simp add: entered_row_def)
      from Allowances_Save_Inr [OF sv, unfolded k] None
      have "advance_of i d1 = Some (stored_allowance (?row ev))" "allowance_accepted (stored_allowance (?row ev)) d" by simp_all
      moreover have "one_advance d1"
        using followsD [OF Allowances_Save_kept sv] one by (simp add: advances_kept_def)
      ultimately show ?thesis using Some None
        by (auto simp: stored_allowance_def entered_row_def allowance_accepted_def)
    next
      case no: None
      with w have "d1 = d" by (auto simp: andThen_Inr snapshotFor_eq)
      with None one show ?thesis by simp
    qed
  qed
  then have one1: "one_advance d1" by blast
  obtain a where a: "advance_of i d1 = Some a" "oa_FinalisedAt a = None"
    "advance_of i d2 = Some (a\<lparr>oa_FinalisedAt := Some (now E), oa_FinalisedByUserID := Some (a_UserID actor)\<rparr>)"
    using Allowances_Finalise_Inr [OF f one1] by blast
  let ?a = "a\<lparr>oa_FinalisedAt := Some (now E), oa_FinalisedByUserID := Some (a_UserID actor)\<rparr>"
  obtain "d' = d2" "vw_Allowance v = Some ?a" "\<not> vw_Editable v"
    using g a(3) by (auto elim!: Allowance_Get_Inr)
  with a kept o' show ?thesis
    by (intro that [of ord ?a]) (auto split: option.splits)
qed

lemma Allowance_Finalise_again:
  assumes one: "one_advance d" and a: "advance_of i d = Some a" "oa_FinalisedAt a \<noteq> None"
  shows "isl (fst (Allowance_Finalise E actor i d)) \<and> snd (Allowance_Finalise E actor i d) = d"
proof -
  have all: "oa_FinalisedAt b \<noteq> None" if "b \<in> set (db_allowances d)" "oa_OrderID b = i" for b
  proof -
    from that have "b \<in> set (current i d)" by (simp add: current_def)
    with one_current [OF one a(1) [unfolded advance_of_def]] a(2) show ?thesis by simp
  qed
  then have "rows_affected (\<lambda>a. oa_OrderID a = i \<and> oa_FinalisedAt a = None) (db_allowances d) = 0"
    by (auto simp: rows_affected_def filter_empty_conv)
  then have "\<exists>e. Allowances_Finalise E i (a_UserID actor) d = (Inl e, d)"
    by (cases "down E (Dispatch AllowancesFinalise)") (simp_all add: Allowances_Finalise_def call_def fail_def)
  then obtain e where "Allowances_Finalise E i (a_UserID actor) d = (Inl e, d)" ..
  then obtain e' where r: "reword ErrConflict (Err ErrValidation ''there is no open advance to finalise'')
      (Allowances_Finalise E i (a_UserID actor)) d = (Inl e', d)"
    by (auto simp: reword_def andThen_def attempt_def fail_def)
  obtain x where o: "Orders_FindByID E (a_CompanyID actor) i d = (x, d)"
    by (metis prod.collapse readonlyD readonly_reads(1))
  show ?thesis
    using a(1) r by (cases x)
      (auto simp: Allowance_Finalise_def andThen_def o attempt_def Allowances_FindByOrder_def call_def query_def fail_def
        one_def advance_of_def ok_def)
qed

section \<open>Whatever plans roads\<close>

text \<open>Any requests that plan, read or evict roads, and whatever else is served between them.\<close>

inductive road_step :: "db \<Rightarrow> db \<Rightarrow> bool" where
  placed: "Orders_Place E actor inp d = (r1, d') \<Longrightarrow> road_step d d'"
| assigned: "AssignDriver E actor i drv trk d = (r2, d') \<Longrightarrow> road_step d d'"
| rerouted: "Reroute E actor entitled i leg d = (r3, d') \<Longrightarrow> road_step d d'"
| looked: "Routes E actor i d = (r4, d') \<Longrightarrow> road_step d d'"
| driven: "RouteForDriver E actor i d = (r5, d') \<Longrightarrow> road_step d d'"
| lanes: "RouteLanes E i d = (r6, d') \<Longrightarrow> road_step d d'"
| evicted: "EvictExpired E d = (r7, d') \<Longrightarrow> road_step d d'"
| elsewhere: "db_routes d' = db_routes d \<Longrightarrow> db_route_cache d' = db_route_cache d \<Longrightarrow>
    o_ID ` set (db_orders d) \<subseteq> o_ID ` set (db_orders d') \<Longrightarrow> road_step d d'"

lemma roads_lanes: "preserves roads_sound (RouteLanes E i)"
proof -
  have q: "preserves roads_sound (RatesNeedingRoute E i)" for i
    unfolding RatesNeedingRoute_def by (intro op_rules)
  have u: "preserves roads_sound (UpdateRate E i f)" for i f
    by (auto simp: preserves_def UpdateRate_def call_def fail_def Let_def roads_sound_def one_entry_def)
  have o: "preserves roads_sound (routeOne E r)" for r
    unfolding routeOne_def by (auto intro!: op_rules split: sum.split)
  have a: "preserves roads_sound (route_all E rates)" for rates
    by (induction rates) (auto intro!: op_rules o u)
  show ?thesis unfolding RouteLanes_def by (intro op_rules q a)
qed

lemmas roads_serve = roads_placed roads_plans(6-8) roads_lanes roads_evict

lemma road_step_sound:
  assumes "road_step d d'" and "roads_sound d"
  shows "roads_sound d'"
  using assms(1)
proof (cases rule: road_step.cases)
  case elsewhere
  with assms(2) show ?thesis by (intro roads_sound_same [of d' d]) simp_all
qed (use assms(2) in \<open>blast intro: roads_serve [THEN preservesD]\<close>)+

lemma road_steps_sound: "road_step\<^sup>*\<^sup>* d d' \<Longrightarrow> roads_sound d \<Longrightarrow> roads_sound d'"
  by (induction rule: rtranclp_induct) (auto intro: road_step_sound)

end
