(* ===== verification/Tracking.thy ===== *)
theory Tracking
  imports Dispatch Shipment
begin

text \<open>
  internal/services/tracking_service.go and internal/repository/tracking.go: the public link through
  which a customer follows one order, and what it shows; internal/services/geofence_watcher.go: the
  positions of the trucks on the road turned into crossings of the fences around the sites.
\<close>

section \<open>Links\<close>

definition Links_FindActiveByOrder :: "env \<Rightarrow> uuid \<Rightarrow> (db, tracking_link) op" where
  "Links_FindActiveByOrder E i = call E (Dispatch LinksFindActiveByOrder) (query (\<lambda>d.
     one (newest tk_CreatedAt (filter (\<lambda>l. tk_OrderID l = i \<and> tk_RevokedAt l = None) (db_tracking_links d)))))"

definition Links_FindByToken :: "env \<Rightarrow> string \<Rightarrow> (db, tracking_link) op" where
  "Links_FindByToken E token = call E (Dispatch LinksFindByToken) (query (\<lambda>d.
     one (find (\<lambda>l. tk_Token l = token \<and> tk_RevokedAt l = None) (db_tracking_links d))))"

text \<open>The token is the primary key.\<close>

definition Links_Create :: "env \<Rightarrow> tracking_link \<Rightarrow> (db, unit) op" where
  "Links_Create E l = call E (Dispatch LinksCreate) (\<lambda>d.
     if list_ex (\<lambda>r. tk_Token r = tk_Token l) (db_tracking_links d) \<or> \<not> list_ex (\<lambda>r. o_ID r = tk_OrderID l) (db_orders d)
     then (Inl (Err ErrStore ''order_tracking_links''), d)
     else (Inr (), d\<lparr>db_tracking_links := db_tracking_links d @ [l]\<rparr>))"

definition Links_Revoke :: "env \<Rightarrow> uuid \<Rightarrow> (db, unit) op" where
  "Links_Revoke E i = call E (Dispatch LinksRevoke) (exec (\<lambda>d. d\<lparr>db_tracking_links :=
     update_where (\<lambda>l. tk_OrderID l = i \<and> tk_RevokedAt l = None) (\<lambda>l. l\<lparr>tk_RevokedAt := Some (now E)\<rparr>) (db_tracking_links d)\<rparr>))"

definition new_link :: "env \<Rightarrow> actor \<Rightarrow> uuid \<Rightarrow> string \<Rightarrow> tracking_link" where
  "new_link E actor i token = \<lparr>tk_Token = token, tk_OrderID = i, tk_CompanyID = a_CompanyID actor,
     tk_CreatedBy = Some (a_UserID actor), tk_CreatedAt = now E, tk_RevokedAt = None\<rparr>"

definition Tracking_Link :: "env \<Rightarrow> actor \<Rightarrow> uuid \<Rightarrow> (db, tracking_link) op" where
  "Tracking_Link E actor orderID =
     andThen (Orders_FindByID E (a_CompanyID actor) orderID) (\<lambda>_.
     andThen (attempt (Links_FindActiveByOrder E orderID)) (\<lambda>r.
     case r of
       Inr existing \<Rightarrow> ok existing
     | Inl e \<Rightarrow>
         if err_class e \<noteq> ErrNotFound then fail e
         else case rand_token E of
           None \<Rightarrow> fail (Err ErrStore ''tracking: token'')
         | Some token \<Rightarrow>
             andThen (Links_Create E (new_link E actor orderID token)) (\<lambda>_. ok (new_link E actor orderID token))))"

definition Tracking_Revoke :: "env \<Rightarrow> actor \<Rightarrow> uuid \<Rightarrow> (db, unit) op" where
  "Tracking_Revoke E actor orderID =
     andThen (Orders_FindByID E (a_CompanyID actor) orderID) (\<lambda>_. Links_Revoke E orderID)"

section \<open>What a link shows\<close>

record tracking_stop =
  ts_Name :: string
  ts_City :: string
  ts_Lat :: rat
  ts_Lon :: rat

text \<open>A milestone; one of the order itself has the time of its last update, a column left out here.\<close>

record tracking_event =
  te_Status :: string
  te_Label :: string
  te_At :: "time option"

record tracking_snapshot =
  sn_OrderNumber :: string
  sn_ShipperName :: string
  sn_TransporterName :: string
  sn_Origin :: tracking_stop
  sn_Destination :: tracking_stop
  sn_OrderStatus :: string
  sn_ShipmentStatus :: string
  sn_StatusLabel :: string
  sn_Truck :: string
  sn_Driver :: string
  sn_PickupAt :: "time option"
  sn_DeliveryAt :: "time option"
  sn_Events :: "tracking_event list"
  sn_Position :: "truck_position option"
  sn_Route :: "rat list list"
  sn_DistanceMeters :: int
  sn_DurationSeconds :: int
  sn_UpdatedAt :: time

definition no_stop :: tracking_stop where
  "no_stop = \<lparr>ts_Name = [], ts_City = [], ts_Lat = 0, ts_Lon = 0\<rparr>"

definition tracked_stop :: "env \<Rightarrow> string option \<Rightarrow> tracking_stop" where
  "tracked_stop E site = (case Option.bind site (GetWarehouse E) of
     None \<Rightarrow> no_stop
   | Some w \<Rightarrow> \<lparr>ts_Name = w_Name w, ts_City = w_CityID w, ts_Lat = w_Latitude w, ts_Lon = w_Longitude w\<rparr>)"

text \<open>\<open>strings.Fields(name + " ")[0]\<close>; of a name without a word there is no first one.\<close>

definition first_name :: "string \<Rightarrow> string option" where
  "first_name s = nonempty (takeWhile (\<lambda>c. \<not> is_space c) (dropWhile is_space s))"

definition milestones :: "shipment \<Rightarrow> tracking_event list" where
  "milestones s = List.map_filter (\<lambda>(code, t).
       map_option (\<lambda>t. \<lparr>te_Status = code, te_Label = StatusLabel DomainShipment code, te_At = Some t\<rparr>) t)
     [(ShipmentAssigned, Some (sh_CreatedAt s)), (ShipmentToLoading, sh_StartedToLoadingAt s),
      (ShipmentAtLoading, sh_ArrivedLoadingAt s), (ShipmentLoading, sh_LoadingStartedAt s),
      (ShipmentLoaded, sh_LoadingFinishedAt s), (ShipmentToUnloading, sh_StartedToUnloadingAt s),
      (ShipmentAtUnloading, sh_ArrivedUnloadingAt s), (ShipmentUnloading, sh_UnloadingStartedAt s),
      (ShipmentUnloaded, sh_UnloadingFinishedAt s), (ShipmentFinished, sh_FinishedAt s)]"

text \<open>The labels and milestones, from the shipment where it is found.\<close>

definition label_and_events :: "order \<Rightarrow> shipment result \<Rightarrow> string \<times> tracking_event list" where
  "label_and_events ord r =
     (let ordered = StatusLabel DomainOrder (o_StatusCode ord);
          (label, evs) = (case r of
            Inr s \<Rightarrow> (if sh_StatusCode s \<noteq> [] \<and> sh_StatusCode s \<noteq> ShipmentAssigned
                       then StatusLabel DomainShipment (sh_StatusCode s) else ordered, milestones s)
          | Inl _ \<Rightarrow> (ordered, [\<lparr>te_Status = o_StatusCode ord, te_Label = ordered, te_At = None\<rparr>]))
      in (label, if o_StatusCode ord = OrderCompleted
        then evs @ [\<lparr>te_Status = OrderCompleted, te_Label = StatusLabel DomainOrder OrderCompleted, te_At = None\<rparr>]
        else evs))"

definition tracked_driver :: "env \<Rightarrow> order \<Rightarrow> string result" where
  "tracked_driver E ord = (case Option.bind (o_DriverID ord) (GetDriver E) of
     None \<Rightarrow> Inr []
   | Some drv \<Rightarrow> (case first_name (d_FullName drv) of
       None \<Rightarrow> Inl (Err ErrStore ''panic: index out of range'') | Some n \<Rightarrow> Inr n))"

text \<open>The truck's whereabouts, only while the load is moving.\<close>

definition tracked_position :: "env \<Rightarrow> order \<Rightarrow> (db, truck_position option) op" where
  "tracked_position E ord =
     (case o_TruckID ord of
        None \<Rightarrow> ok None
      | Some i \<Rightarrow> if dispatch_wired E \<and> (o_StatusCode ord = OrderAssigned \<or> o_StatusCode ord = OrderInTransit) then truckPosition E i else ok None)"

definition Snapshot :: "env \<Rightarrow> string \<Rightarrow> (db, tracking_snapshot) op" where
  "Snapshot E token =
     andThen (Links_FindByToken E (trim_space token)) (\<lambda>link.
     andThen (Orders_FindByIDForService E (tk_OrderID link)) (\<lambda>ord.
     andThen (from_result (if masterdata_wired E then tracked_driver E ord else Inr [])) (\<lambda>drv.
     andThen (attempt (Shipments_FindByOrder E (o_ID ord))) (\<lambda>ship.
     andThen (tracked_position E ord) (\<lambda>pos.
     andThen (attempt (Legs_FindLeg E (o_ID ord) LegHaul)) (\<lambda>leg.
       let road = (case leg of Inl _ \<Rightarrow> None | Inr l \<Rightarrow> pl_Cache l)
       in ok \<lparr>sn_OrderNumber = o_OrderNumber ord, sn_ShipperName = company_name E (o_ShipperCompanyID ord),
            sn_TransporterName = (case o_TransporterCompanyID ord of None \<Rightarrow> [] | Some c \<Rightarrow> company_name E c),
            sn_Origin = (if masterdata_wired E then tracked_stop E (o_OriginWarehouseID ord) else no_stop),
            sn_Destination = (if masterdata_wired E then tracked_stop E (o_DestinationWarehouseID ord) else no_stop),
            sn_OrderStatus = o_StatusCode ord,
            sn_ShipmentStatus = (case ship of Inl _ \<Rightarrow> [] | Inr s \<Rightarrow> sh_StatusCode s),
            sn_StatusLabel = fst (label_and_events ord ship),
            sn_Truck = (if masterdata_wired E then (case Option.bind (o_TruckID ord) (GetTruck E) of
              None \<Rightarrow> [] | Some t \<Rightarrow> t_PoliceNumber t) else []),
            sn_Driver = drv, sn_PickupAt = o_PickupAt ord, sn_DeliveryAt = o_DeliveryAt ord,
            sn_Events = snd (label_and_events ord ship), sn_Position = pos,
            sn_Route = (case road of None \<Rightarrow> [] | Some r \<Rightarrow> filter (\<lambda>p. length p = 2) (rc_Geometry r)),
            sn_DistanceMeters = (case road of None \<Rightarrow> 0 | Some r \<Rightarrow> rc_DistanceMeters r),
            sn_DurationSeconds = (case road of None \<Rightarrow> 0 | Some r \<Rightarrow> rc_DurationSeconds r),
            sn_UpdatedAt = now E\<rparr>))))))"

section \<open>Watching the fences\<close>

record active_shipment =
  av_ShipmentID :: uuid
  av_OrderID :: uuid
  av_TruckID :: string
  av_OriginWarehouseID :: "string option"
  av_DestinationWarehouseID :: "string option"

definition active_of :: "db \<Rightarrow> shipment \<Rightarrow> active_shipment option" where
  "active_of d s = (case (find (\<lambda>r. o_ID r = sh_OrderID s) (db_orders d), sh_TruckID s) of
     (Some ord, Some trk) \<Rightarrow>
       if sh_FinishedAt s = None \<and> sh_StatusCode s \<noteq> ShipmentFinished \<and> sh_StatusCode s \<noteq> ShipmentCancelled \<and> trk \<noteq> []
       then Some \<lparr>av_ShipmentID = sh_ID s, av_OrderID = sh_OrderID s, av_TruckID = trk,
         av_OriginWarehouseID = o_OriginWarehouseID ord, av_DestinationWarehouseID = o_DestinationWarehouseID ord\<rparr>
       else None
   | _ \<Rightarrow> None)"

definition ListActive :: "env \<Rightarrow> (db, active_shipment list) op" where
  "ListActive E = call E (Dispatch ShipmentsListActive) (query (\<lambda>d. Inr (List.map_filter (active_of d) (db_shipments d))))"

abbreviation staleFix :: time where "staleFix \<equiv> 600000000000"

text \<open>Which side of a fence each truck was on at the last tick.\<close>

type_synonym fences = "uuid \<times> string \<Rightarrow> bool option"

definition ends_of :: "active_shipment \<Rightarrow> string list" where
  "ends_of a = filter (\<lambda>i. i \<noteq> []) (List.map_filter (\<lambda>w. w) [av_OriginWarehouseID a, av_DestinationWarehouseID a])"

definition fencesFor :: "env \<Rightarrow> active_shipment \<Rightarrow> (db, string list) op" where
  "fencesFor E a =
     (if \<not> stops_wired E then ok (ends_of a)
      else andThen (attempt (Stops_ListByOrder E (av_OrderID a))) (\<lambda>r.
        ok (case r of
            Inl _ \<Rightarrow> ends_of a
          | Inr stops \<Rightarrow>
              (let ids = map st_WarehouseID (filter (\<lambda>s. st_FinishedAt s = None \<and> st_WarehouseID s \<noteq> []) stops)
               in if 2 < length stops \<and> ids \<noteq> [] then ids else ends_of a))))"

definition crossed :: "bool option \<Rightarrow> bool \<Rightarrow> bool" where
  "crossed known near = (case known of Some b \<Rightarrow> near \<noteq> b | None \<Rightarrow> near)"

text \<open>Where the site has no radius of its own it is 200 metres.\<close>

definition within_fence :: "env \<Rightarrow> live_fix \<Rightarrow> warehouse \<Rightarrow> bool" where
  "within_fence E p w \<longleftrightarrow> distance E (lf_Position p) (warehouse_pos w) \<le>
     (if w_GeofenceRadiusMeters w \<le> 0 then 200 else of_int (w_GeofenceRadiusMeters w))"

text \<open>One fence of one truck; a crossing that cannot be recorded is forgotten, so it is tried again.\<close>

definition watch_fence ::
  "env \<Rightarrow> uuid \<Rightarrow> live_fix \<Rightarrow> string \<Rightarrow> fences \<times> (uuid \<times> string) list \<Rightarrow> (db, fences \<times> (uuid \<times> string) list) op" where
  "watch_fence E ship p site st =
     (case GetWarehouse E site of
        None \<Rightarrow> ok st
      | Some w \<Rightarrow>
          if w_Latitude w = 0 \<and> w_Longitude w = 0 then ok st
          else
            (let (f, keep) = st; key = (ship, site); near = within_fence E p w
             in if \<not> crossed (f key) near then ok (f(key := Some near), key # keep)
                else andThen (attempt (ReportGeofenceEvent E ship site near (lf_Time p))) (\<lambda>r.
                  ok (case r of Inl _ \<Rightarrow> (f, key # keep) | Inr _ \<Rightarrow> (f(key := Some near), key # keep)))))"

fun watch_fences ::
  "env \<Rightarrow> uuid \<Rightarrow> live_fix \<Rightarrow> string list \<Rightarrow> fences \<times> (uuid \<times> string) list \<Rightarrow> (db, fences \<times> (uuid \<times> string) list) op" where
  "watch_fences E ship p [] st = ok st"
| "watch_fences E ship p (i # sites) st = andThen (watch_fence E ship p i st) (watch_fences E ship p sites)"

text \<open>A fix that counts: of a known truck with a device, somewhere, and not older than ten minutes.\<close>

definition usable_fix :: "env \<Rightarrow> (string \<times> live_fix) list \<Rightarrow> string \<Rightarrow> live_fix option" where
  "usable_fix E live truckID = (case GetTruck E truckID of
     None \<Rightarrow> None
   | Some t \<Rightarrow>
       if t_Imei t = [] then None
       else case map_of live (t_Imei t) of
         None \<Rightarrow> None
       | Some p \<Rightarrow>
           if pos_Latitude (lf_Position p) = 0 \<and> pos_Longitude (lf_Position p) = 0 \<or> staleFix < now E - lf_Time p
           then None else Some p)"

text \<open>
  The sites looked up before the positions are asked for: those of every shipment, except a shipment
  whose truck comes first in the list and is not resolved.
\<close>

fun surveyed :: "env \<Rightarrow> string list \<Rightarrow> active_shipment list \<Rightarrow> (db, string list) op" where
  "surveyed E seen [] = ok []"
| "surveyed E seen (a # as) =
     (if av_TruckID a \<notin> set seen \<and> GetTruck E (av_TruckID a) = None then surveyed E (av_TruckID a # seen) as
      else andThen (fencesFor E a) (\<lambda>sites.
           andThen (surveyed E (av_TruckID a # seen) as) (\<lambda>rest. ok (sites @ rest))))"

fun watch_all ::
  "env \<Rightarrow> (string \<times> live_fix) list \<Rightarrow> string list \<Rightarrow> active_shipment list \<Rightarrow> fences \<times> (uuid \<times> string) list \<Rightarrow>
     (db, fences \<times> (uuid \<times> string) list) op" where
  "watch_all E live looked [] st = ok st"
| "watch_all E live looked (a # as) st =
     (case usable_fix E live (av_TruckID a) of
        None \<Rightarrow> watch_all E live looked as st
      | Some p \<Rightarrow>
          andThen (fencesFor E a) (\<lambda>sites.
          andThen (watch_fences E (av_ShipmentID a) p (filter (\<lambda>i. i \<in> set looked) sites) st)
            (watch_all E live looked as)))"

definition forget :: "(uuid \<times> string) list \<Rightarrow> fences \<Rightarrow> fences" where
  "forget keep f k = (if k \<in> set keep then f k else None)"

text \<open>The devices asked about, one for each truck that is resolved and has one.\<close>

definition watched_devices :: "env \<Rightarrow> active_shipment list \<Rightarrow> string list" where
  "watched_devices E active = filter (\<lambda>i. i \<noteq> []) (List.map_filter (map_option t_Imei \<circ> GetTruck E) (rev (remdups (rev (map av_TruckID active)))))"

definition Tick :: "env \<Rightarrow> fences \<Rightarrow> (db, fences) op" where
  "Tick E f =
     andThen (attempt (ListActive E)) (\<lambda>r.
     case r of
       Inl _ \<Rightarrow> ok f
     | Inr active \<Rightarrow>
         if active = [] then ok (forget [] f)
         else andThen (surveyed E [] active) (\<lambda>looked.
           if watched_devices E active = [] then ok f
           else case Live E (watched_devices E active) of
             None \<Rightarrow> ok f
           | Some live \<Rightarrow> andThen (watch_all E live looked active (f, [])) (\<lambda>(f', keep). ok (forget keep f'))))"

section \<open>What becomes of a link\<close>

definition live_link :: "uuid \<Rightarrow> tracking_link \<Rightarrow> bool" where
  "live_link i l \<longleftrightarrow> tk_OrderID l = i \<and> tk_RevokedAt l = None"

text \<open>No token twice, and no order with two links that work.\<close>

definition links_sound :: "db \<Rightarrow> bool" where
  "links_sound d \<longleftrightarrow> distinct (map tk_Token (db_tracking_links d)) \<and>
     (\<forall>i. length (filter (live_link i) (db_tracking_links d)) \<le> 1)"

text \<open>A link is never lost, and nothing of it changes but that it is revoked, once.\<close>

definition same_or_revoked :: "tracking_link \<Rightarrow> tracking_link \<Rightarrow> bool" where
  "same_or_revoked l l' \<longleftrightarrow> l' = l \<or> tk_RevokedAt l = None \<and> (\<exists>t. l' = l\<lparr>tk_RevokedAt := Some t\<rparr>)"

definition links_stay :: "db \<Rightarrow> db \<Rightarrow> bool" where
  "links_stay d d' \<longleftrightarrow> (\<forall>l\<in>set (db_tracking_links d). \<exists>l'\<in>set (db_tracking_links d'). same_or_revoked l l')"

text \<open>Anyone asks for a link, revokes links or opens one; all else leaves the table alone.\<close>

inductive link_step :: "db \<Rightarrow> db \<Rightarrow> bool" where
  linked: "Tracking_Link E actor i d = (r1, d') \<Longrightarrow> link_step d d'"
| unlinked: "Tracking_Revoke E actor i d = (r2, d') \<Longrightarrow> link_step d d'"
| opened: "Snapshot E token d = (r3, d') \<Longrightarrow> link_step d d'"
| elsewhere: "db_tracking_links d' = db_tracking_links d \<Longrightarrow> link_step d d'"

lemma readonly_links [op_rules]:
  "readonly (Links_FindActiveByOrder E i)" "readonly (Links_FindByToken E token)"
  unfolding Links_FindActiveByOrder_def Links_FindByToken_def by (intro op_rules)+

lemma no_live_link: "newest t (filter P rows) = None \<longleftrightarrow> (\<forall>r\<in>set rows. \<not> P r)"
proof -
  have "newest t rs = None \<longleftrightarrow> rs = []" for rs :: "'a list"
    by (induction rs) (auto split: option.splits)
  then show ?thesis by (auto simp: filter_empty_conv)
qed

lemma readonly_Snapshot [op_rules]: "readonly (Snapshot E token)"
proof -
  have "readonly (tracked_position E ord)" for ord
    unfolding tracked_position_def by (auto intro!: op_rules split: option.split)
  then show ?thesis unfolding Snapshot_def Let_def by (intro op_rules)
qed

lemma Links_Create_run:
  assumes "Links_Create E l d = (r, d')"
  obtains (refused) "d' = d" "\<exists>e. r = Inl e"
    | (created) "r = Inr ()" "\<forall>k\<in>set (db_tracking_links d). tk_Token k \<noteq> tk_Token l"
        "d' = d\<lparr>db_tracking_links := db_tracking_links d @ [l]\<rparr>"
proof (cases "\<exists>e. r = Inl e")
  case True
  then show thesis by (intro refused) (use assms in \<open>auto simp: Links_Create_def call_def fail_def split: if_splits\<close>)
next
  case False
  then show thesis by (intro created) (use assms in \<open>auto simp: Links_Create_def call_def fail_def list_ex_iff split: if_splits\<close>)
qed

lemma kept_or_stamped:
  assumes "l \<in> set ls"
  shows "\<exists>l'\<in>set (update_where (live_link i) (\<lambda>l. l\<lparr>tk_RevokedAt := Some t\<rparr>) ls). same_or_revoked l l'"
proof (cases "live_link i l")
  case True
  with assms show ?thesis
    by (intro bexI [of _ "l\<lparr>tk_RevokedAt := Some t\<rparr>"]) (auto simp: update_where_def same_or_revoked_def live_link_def)
next
  case False
  with assms show ?thesis by (intro bexI [of _ l]) (auto simp: update_where_def same_or_revoked_def image_iff intro: bexI [of _ l])
qed

text \<open>The two outcomes of asking for a link: the one that works already, or a new one.\<close>

lemma Tracking_Link_run:
  assumes "Tracking_Link E actor i d = (r, d')"
  obtains (same) "d' = d" "\<And>l. r = Inr l \<Longrightarrow> l \<in> set (db_tracking_links d) \<and> live_link i l"
    | (issued) token where "rand_token E = Some token" "r = Inr (new_link E actor i token)"
        "\<forall>l\<in>set (db_tracking_links d). \<not> live_link i l \<and> tk_Token l \<noteq> token"
        "d' = d\<lparr>db_tracking_links := db_tracking_links d @ [new_link E actor i token]\<rparr>"
proof -
  obtain r1 d1 where o: "Orders_FindByID E (a_CompanyID actor) i d = (r1, d1)" by fastforce
  then have [simp]: "d1 = d" by (rule readonlyD [rotated]) (intro op_rules)
  show thesis
  proof (cases r1)
    case (Inl e)
    with assms o show thesis by (intro same) (auto simp: Tracking_Link_def andThen_def)
  next
    case (Inr ord)
    obtain r2 d2 where f: "Links_FindActiveByOrder E i d = (r2, d2)" by fastforce
    then have [simp]: "d2 = d" by (rule readonlyD [rotated]) (intro op_rules)
    show thesis
    proof (cases r2)
      case r2: (Inr l)
      with f have "l \<in> set (db_tracking_links d) \<and> live_link i l"
        by (auto simp: Links_FindActiveByOrder_def call_Inr live_link_def dest!: newest_SomeD)
      with assms o f Inr r2 show thesis
        by (intro same) (auto simp: Tracking_Link_def andThen_def attempt_def ok_def)
    next
      case r2: (Inl e)
      show thesis
      proof (cases "err_class e = ErrNotFound \<and> rand_token E \<noteq> None")
        case False
        with assms o f Inr r2 show thesis
          by (intro same) (auto simp: Tracking_Link_def andThen_def attempt_def fail_def split: option.splits if_splits)
      next
        case True
        with f r2 have none: "\<forall>l\<in>set (db_tracking_links d). \<not> live_link i l"
          by (auto simp: Links_FindActiveByOrder_def call_Inl one_def no_live_link live_link_def
              filter_empty_conv split: option.splits if_splits)
        from True obtain token where token: "rand_token E = Some token" by auto
        obtain r3 d3 where c: "Links_Create E (new_link E actor i token) d = (r3, d3)" by fastforce
        with assms o f Inr r2 True token have run: "d' = d3" "r = (case r3 of Inl e \<Rightarrow> Inl e | Inr _ \<Rightarrow> Inr (new_link E actor i token))"
          by (auto simp: Tracking_Link_def andThen_def attempt_def ok_def split: sum.splits)
        from c show thesis
        proof (rule Links_Create_run)
          assume "d3 = d" "\<exists>e. r3 = Inl e"
          with run show thesis by (intro same) auto
        next
          assume "r3 = Inr ()" "\<forall>l\<in>set (db_tracking_links d). tk_Token l \<noteq> tk_Token (new_link E actor i token)"
            "d3 = d\<lparr>db_tracking_links := db_tracking_links d @ [new_link E actor i token]\<rparr>"
          with run none token show thesis by (intro issued) (auto simp: new_link_def)
        qed
      qed
    qed
  qed
qed

lemma Tracking_Revoke_run:
  assumes "Tracking_Revoke E actor i d = (r, d')"
  obtains (refused) e where "d' = d" "r = Inl e"
    | (stamped) "r = Inr ()" "d' = d\<lparr>db_tracking_links :=
        update_where (live_link i) (\<lambda>l. l\<lparr>tk_RevokedAt := Some (now E)\<rparr>) (db_tracking_links d)\<rparr>"
proof -
  obtain r1 d1 where o: "Orders_FindByID E (a_CompanyID actor) i d = (r1, d1)" by fastforce
  then have [simp]: "d1 = d" by (rule readonlyD [rotated]) (intro op_rules)
  have [simp]: "(\<lambda>l. tk_OrderID l = i \<and> tk_RevokedAt l = None) = live_link i" by (auto simp: live_link_def)
  from assms o show thesis
    by (cases r1) (auto simp: Tracking_Revoke_def andThen_def Links_Revoke_def call_def exec_def fail_def
        split: if_splits intro: refused stamped)
qed

lemma links_sound_stamped:
  assumes "links_sound d"
  shows "links_sound (d\<lparr>db_tracking_links := update_where (live_link i) (\<lambda>l. l\<lparr>tk_RevokedAt := Some t\<rparr>) (db_tracking_links d)\<rparr>)"
proof -
  let ?f = "\<lambda>l. l\<lparr>tk_RevokedAt := Some t\<rparr>"
  have "length (filter (live_link j) (update_where (live_link i) ?f ls)) \<le> length (filter (live_link j) ls)" for j ls
    by (induction ls) (auto simp: live_link_def)
  with assms show ?thesis
    by (auto simp: links_sound_def map_update_where intro: order_trans)
qed

lemma links_sound_issued:
  assumes "links_sound d" "\<forall>l\<in>set (db_tracking_links d). \<not> live_link i l \<and> tk_Token l \<noteq> token"
  shows "links_sound (d\<lparr>db_tracking_links := db_tracking_links d @ [new_link E actor i token]\<rparr>)"
proof -
  have "filter (live_link i) (db_tracking_links d) = []" using assms(2) by (auto simp: filter_empty_conv)
  with assms show ?thesis by (auto simp: links_sound_def live_link_def new_link_def)
qed

lemma same_or_revoked_refl [simp]: "same_or_revoked l l"
  by (simp add: same_or_revoked_def)

lemma link_step_sound: "link_step d d' \<Longrightarrow> links_sound d \<Longrightarrow> links_sound d'"
proof (induction rule: link_step.induct)
  case (linked E actor i d r d')
  from linked(1) show ?case by (rule Tracking_Link_run) (use linked(2) links_sound_issued in auto)
next
  case (unlinked E actor i d r d')
  from unlinked(1) show ?case by (rule Tracking_Revoke_run) (use unlinked(2) links_sound_stamped in auto)
next
  case (opened E token d r d')
  then have "d' = d" by (auto dest: readonlyD [OF readonly_Snapshot])
  with opened show ?case by simp
qed (simp add: links_sound_def)

lemma link_step_stays: "link_step d d' \<Longrightarrow> links_stay d d'"
proof (induction rule: link_step.induct)
  case (linked E actor i d r d')
  then show ?case by (rule Tracking_Link_run) (auto simp: links_stay_def intro: same_or_revoked_refl)
next
  case (unlinked E actor i d r d')
  then show ?case
    by (elim Tracking_Revoke_run) (auto simp: links_stay_def kept_or_stamped intro: same_or_revoked_refl)
next
  case (opened E token d r d')
  then have "d' = d" by (auto dest: readonlyD [OF readonly_Snapshot])
  then show ?case by (auto simp: links_stay_def intro: same_or_revoked_refl)
qed (auto simp: links_stay_def intro: same_or_revoked_refl)

lemma links_stay_trans: "links_stay d e \<Longrightarrow> links_stay e f \<Longrightarrow> links_stay d f"
  unfolding links_stay_def same_or_revoked_def by (metis option.distinct(1) tracking_link.select_convs(6)
    tracking_link.surjective tracking_link.update_convs(6))

lemma link_steps_sound: "link_step\<^sup>*\<^sup>* d d' \<Longrightarrow> links_sound d \<Longrightarrow> links_sound d'"
  by (induction rule: rtranclp_induct) (auto intro: link_step_sound)

lemma link_steps_stay: "link_step\<^sup>*\<^sup>* d d' \<Longrightarrow> links_stay d d'"
  by (induction rule: rtranclp_induct)
    (auto simp: links_stay_def [of d d] intro: links_stay_trans link_step_stays same_or_revoked_refl)

text \<open>A revoked link is there for good, so its token is nobody else's.\<close>

lemma revoked_stays:
  assumes "link_step\<^sup>*\<^sup>* d d'" "l \<in> set (db_tracking_links d)" "tk_RevokedAt l \<noteq> None"
  shows "l \<in> set (db_tracking_links d')"
  using link_steps_stay [OF assms(1)] assms(2,3) by (auto simp: links_stay_def same_or_revoked_def)

lemma revoked_not_found:
  assumes "links_sound d" "l \<in> set (db_tracking_links d)" "tk_RevokedAt l \<noteq> None"
  shows "find (\<lambda>l'. tk_Token l' = tk_Token l \<and> tk_RevokedAt l' = None) (db_tracking_links d) = None"
proof -
  have "l' = l" if "l' \<in> set (db_tracking_links d)" "tk_Token l' = tk_Token l" for l'
    using assms(1,2) that by (auto simp: links_sound_def distinct_map dest: inj_onD)
  with assms(3) show ?thesis by (auto simp: find_None_iff)
qed

lemma Snapshot_unknown:
  assumes "find (\<lambda>l. tk_Token l = trim_space token \<and> tk_RevokedAt l = None) (db_tracking_links d) = None"
  shows "\<exists>e. Snapshot E token d = (Inl e, d) \<and> (\<not> down E (Dispatch LinksFindByToken) \<longrightarrow> err_class e = ErrNotFound)"
  using assms by (simp add: Snapshot_def Links_FindByToken_def andThen_def call_def query_def one_def fail_def)


text \<open>Who asks for the link of an order that has one is given the same.\<close>

lemma Tracking_Link_again:
  assumes "Tracking_Link E actor i d = (Inr l, d')"
  shows "l \<in> set (db_tracking_links d') \<and> live_link i l"
  using assms by (rule Tracking_Link_run) (auto simp: live_link_def new_link_def)

lemma live_link_unique:
  assumes "links_sound d" "l \<in> set (db_tracking_links d)" "live_link i l" "m \<in> set (db_tracking_links d)" "live_link i m"
  shows "l = m"
proof -
  have "length (filter (live_link i) (db_tracking_links d)) \<le> 1" using assms(1) by (simp add: links_sound_def)
  moreover have "{l, m} \<subseteq> set (filter (live_link i) (db_tracking_links d))" using assms(2-5) by simp
  ultimately show ?thesis by (cases "filter (live_link i) (db_tracking_links d)") auto
qed

text \<open>
  What a working link shows is its own order, and the truck only while the order is assigned or on
  the road.
\<close>

lemma Snapshot_Inr:
  assumes "Snapshot E token d = (Inr sn, d')"
  obtains l ord where "l \<in> set (db_tracking_links d)" "tk_Token l = trim_space token" "tk_RevokedAt l = None"
    "ord \<in> set (db_orders d)" "o_ID ord = tk_OrderID l" "sn_OrderNumber sn = o_OrderNumber ord"
    "sn_OrderStatus sn = o_StatusCode ord"
    "sn_Position sn \<noteq> None \<Longrightarrow> o_StatusCode ord = OrderAssigned \<or> o_StatusCode ord = OrderInTransit"
proof -
  obtain r1 d1 where 1: "Links_FindByToken E (trim_space token) d = (r1, d1)" by fastforce
  with assms obtain l where l: "r1 = Inr l" by (cases r1) (auto simp: Snapshot_def andThen_def)
  have [simp]: "d1 = d" using 1 by (rule readonlyD [rotated]) (intro op_rules)
  have "find (\<lambda>l. tk_Token l = trim_space token \<and> tk_RevokedAt l = None) (db_tracking_links d) = Some l"
    using 1 l by (simp add: Links_FindByToken_def call_Inr)
  then have found: "l \<in> set (db_tracking_links d)" "tk_Token l = trim_space token" "tk_RevokedAt l = None"
    by (auto simp: find_Some_iff)
  obtain r2 d2 where 2: "Orders_FindByIDForService E (tk_OrderID l) d = (r2, d2)" by fastforce
  with assms 1 l obtain ord where ord: "r2 = Inr ord" by (cases r2) (auto simp: Snapshot_def andThen_def)
  have [simp]: "d2 = d" using 2 by (rule readonlyD [rotated]) (intro op_rules)
  have "find (\<lambda>r. o_ID r = tk_OrderID l) (db_orders d) = Some ord"
    using 2 ord by (simp add: Orders_FindByIDForService_def call_Inr)
  then have order: "ord \<in> set (db_orders d)" "o_ID ord = tk_OrderID l" by (auto simp: find_Some_iff)
  obtain drv d3 ship d4 pos d5 leg d6 where rest:
      "tracked_position E ord d4 = (Inr pos, d5)" "sn_OrderNumber sn = o_OrderNumber ord"
      "sn_OrderStatus sn = o_StatusCode ord" "sn_Position sn = pos"
    using assms 1 l 2 ord unfolding Snapshot_def Let_def
    by (simp add: andThen_def [of "Links_FindByToken E (trim_space token)"]
        andThen_def [of "Orders_FindByIDForService E (tk_OrderID l)"]) (auto simp: andThen_Inr ok_def)
  have "pos \<noteq> None \<longrightarrow> o_StatusCode ord = OrderAssigned \<or> o_StatusCode ord = OrderInTransit"
    using rest(1) by (auto simp: tracked_position_def ok_def split: option.splits if_splits)
  with found order rest show thesis by (intro that [of l ord]) auto
qed

section \<open>What the watcher reports\<close>

lemma readonly_fencesFor [op_rules]: "readonly (fencesFor E a)"
  unfolding fencesFor_def by (intro op_rules)

lemma readonly_surveyed [op_rules]: "readonly (surveyed E seen as)"
  by (induction as arbitrary: seen) (auto intro!: op_rules)

lemma readonly_ListActive [op_rules]: "readonly (ListActive E)"
  unfolding ListActive_def by (intro op_rules)

text \<open>
  One fence: it is passed over without coordinates; nothing is reported while the truck stays on the
  side it was on; a crossing is reported, and remembered only where the report was taken.
\<close>

lemma watch_fence_run:
  fixes p :: live_fix and w :: warehouse
  assumes w: "GetWarehouse E site = Some w" and at: "w_Latitude w \<noteq> 0 \<or> w_Longitude w \<noteq> 0"
  defines "near \<equiv> within_fence E p w"
  shows "watch_fence E ship p site (f, keep) d =
    (if crossed (f (ship, site)) near then
       case ReportGeofenceEvent E ship site near (lf_Time p) d of
         (Inl _, d') \<Rightarrow> (Inr (f, (ship, site) # keep), d')
       | (Inr _, d') \<Rightarrow> (Inr (f((ship, site) := Some near), (ship, site) # keep), d')
     else (Inr (f((ship, site) := Some near), (ship, site) # keep), d))"
  using w at by (auto simp: watch_fence_def near_def Let_def andThen_def attempt_def ok_def split: prod.splits sum.splits)

text \<open>No fence of the shipment has been crossed since it was last looked at.\<close>

definition settled :: "env \<Rightarrow> (string \<times> live_fix) list \<Rightarrow> db \<Rightarrow> fences \<Rightarrow> active_shipment \<Rightarrow> bool" where
  "settled E live d f a \<longleftrightarrow> (\<forall>p sites. usable_fix E live (av_TruckID a) = Some p \<longrightarrow> fst (fencesFor E a d) = Inr sites \<longrightarrow>
     (\<forall>site\<in>set sites. \<forall>w. GetWarehouse E site = Some w \<longrightarrow> \<not> (w_Latitude w = 0 \<and> w_Longitude w = 0) \<longrightarrow>
       \<not> crossed (f (av_ShipmentID a, site)) (within_fence E p w)))"

lemma fencesFor_run: "\<exists>sites. fencesFor E a d = (Inr sites, d)"
proof -
  have "\<exists>sites. fst (fencesFor E a d) = Inr sites"
    by (auto simp: fencesFor_def andThen_def attempt_def ok_def Let_def split: prod.splits sum.splits)
  then show ?thesis using readonlyD [OF readonly_fencesFor] by (metis prod.collapse)
qed

lemma surveyed_run: "\<exists>sites. surveyed E seen as d = (Inr sites, d)"
proof (induction as arbitrary: seen)
  case (Cons a as)
  obtain sites where "fencesFor E a d = (Inr sites, d)" using fencesFor_run by blast
  moreover obtain rest where "surveyed E (av_TruckID a # seen) as d = (Inr rest, d)" using Cons.IH by blast
  ultimately show ?case by (simp add: andThen_def ok_def)
qed (simp add: ok_def)

text \<open>What a fence remembers changes only to the side a truck is on, and never back to nothing.\<close>

definition learnt :: "fences \<Rightarrow> fences \<Rightarrow> bool" where
  "learnt f f' \<longleftrightarrow> (\<forall>k. f' k = f k \<or> (\<exists>b. f' k = Some b \<and> \<not> crossed (f k) b))"

lemma learnt_refl [simp]: "learnt f f"
  by (simp add: learnt_def)

lemma learntD: "learnt f f' \<Longrightarrow> f' k = f k \<or> f k = None \<and> f' k = Some False"
  unfolding learnt_def crossed_def by (drule spec [of _ k], cases "f k") auto

lemma crossed_learnt: "learnt f f' \<Longrightarrow> \<not> crossed (f k) b \<Longrightarrow> \<not> crossed (f' k) b"
  using learntD [of f f' k] by (auto simp: crossed_def)

lemma learnt_trans:
  assumes "learnt f g" "learnt g h"
  shows "learnt f h"
  unfolding learnt_def
proof
  fix k
  show "h k = f k \<or> (\<exists>b. h k = Some b \<and> \<not> crossed (f k) b)"
    using learntD [OF assms(1), of k] learntD [OF assms(2), of k] by (auto simp: crossed_def)
qed

lemma quiet_fence:
  assumes "\<And>w. GetWarehouse E site = Some w \<Longrightarrow> \<not> (w_Latitude w = 0 \<and> w_Longitude w = 0) \<Longrightarrow>
    \<not> crossed (f (ship, site)) (within_fence E p w)"
  shows "\<exists>f' keep'. watch_fence E ship p site (f, keep) d = (Inr (f', keep'), d) \<and> learnt f f'"
  using assms by (auto simp: watch_fence_def ok_def Let_def learnt_def split: option.split)

lemma quiet_fences:
  assumes "\<forall>site\<in>set sites. \<forall>w. GetWarehouse E site = Some w \<longrightarrow> \<not> (w_Latitude w = 0 \<and> w_Longitude w = 0) \<longrightarrow>
    \<not> crossed (f (ship, site)) (within_fence E p w)"
  shows "\<exists>f' keep'. watch_fences E ship p sites (f, keep) d = (Inr (f', keep'), d) \<and> learnt f f'"
  using assms
proof (induction sites arbitrary: f keep)
  case (Cons site sites)
  obtain f1 keep1 where 1: "watch_fence E ship p site (f, keep) d = (Inr (f1, keep1), d)" "learnt f f1"
    using quiet_fence [of E site f ship p keep d] Cons.prems by auto
  obtain f2 keep2 where 2: "watch_fences E ship p sites (f1, keep1) d = (Inr (f2, keep2), d)" "learnt f1 f2"
    using Cons.IH [of f1 keep1] Cons.prems crossed_learnt [OF 1(2)] by auto
  with 1 show ?case by (auto simp: andThen_def intro: learnt_trans)
qed (simp add: ok_def)

lemma settled_learnt: "settled E live d f a \<Longrightarrow> learnt f f' \<Longrightarrow> settled E live d f' a"
  unfolding settled_def using crossed_learnt by blast

lemma quiet_journeys:
  assumes "\<forall>a\<in>set as. settled E live d f a"
  shows "\<exists>f' keep'. watch_all E live looked as (f, keep) d = (Inr (f', keep'), d) \<and> learnt f f'"
  using assms
proof (induction as arbitrary: f keep)
  case (Cons a as)
  show ?case
  proof (cases "usable_fix E live (av_TruckID a)")
    case None
    with Cons.IH [of f keep] Cons.prems show ?thesis by simp
  next
    case (Some p)
    obtain sites where s: "fencesFor E a d = (Inr sites, d)" using fencesFor_run by blast
    have "\<forall>site\<in>set (filter (\<lambda>i. i \<in> set looked) sites). \<forall>w. GetWarehouse E site = Some w \<longrightarrow>
        \<not> (w_Latitude w = 0 \<and> w_Longitude w = 0) \<longrightarrow> \<not> crossed (f (av_ShipmentID a, site)) (within_fence E p w)"
      using Cons.prems Some s by (auto simp: settled_def)
    from quiet_fences [OF this] obtain f1 keep1 where 1: "learnt f f1"
      "watch_fences E (av_ShipmentID a) p (filter (\<lambda>i. i \<in> set looked) sites) (f, keep) d = (Inr (f1, keep1), d)"
      by blast
    obtain f2 keep2 where "watch_all E live looked as (f1, keep1) d = (Inr (f2, keep2), d)" "learnt f1 f2"
      using Cons.IH [of f1 keep1] Cons.prems settled_learnt [OF _ 1(1)] by auto
    with 1 s Some show ?thesis by (auto simp: andThen_def intro: learnt_trans)
  qed
qed (simp add: ok_def)

lemma quiet_Tick:
  assumes "\<forall>a\<in>set (List.map_filter (active_of d) (db_shipments d)). \<forall>live.
    Live E (watched_devices E (List.map_filter (active_of d) (db_shipments d))) = Some live \<longrightarrow> settled E live d f a"
  shows "\<exists>f'. Tick E f d = (Inr f', d)"
proof -
  let ?as = "List.map_filter (active_of d) (db_shipments d)"
  obtain looked where l: "surveyed E [] ?as d = (Inr looked, d)" using surveyed_run by blast
  show ?thesis
  proof (cases "Live E (watched_devices E ?as)")
    case None
    with l show ?thesis
      by (auto simp: Tick_def ListActive_def call_def fail_def query_def andThen_def attempt_def ok_def)
  next
    case (Some live)
    obtain f' keep' where "watch_all E live looked ?as (f, []) d = (Inr (f', keep'), d)"
      using quiet_journeys assms Some by blast
    with l Some show ?thesis
      by (auto simp: Tick_def ListActive_def call_def fail_def query_def andThen_def attempt_def ok_def)
  qed
qed

text \<open>What is reported of one fence over a run of observations.\<close>

fun reported :: "bool option \<Rightarrow> bool list \<Rightarrow> bool list" where
  "reported known [] = []"
| "reported known (b # bs) = (if crossed known b then [b] else []) @ reported (Some b) bs"

lemma reported_known: "b # reported (Some b) obs = remdups_adj (b # obs)"
  by (induction obs arbitrary: b) (auto simp: crossed_def)

lemma reported_first: "False # reported None obs = remdups_adj (False # obs)"
proof (cases obs)
  case (Cons b bs)
  then show ?thesis using reported_known [of b bs] by (cases b) (auto simp: crossed_def)
qed simp

end
