(* ===== verification/Ledger.thy ===== *)
theory Ledger
  imports Handover FieldConfig
begin

text \<open>
  internal/handlers/ledger_handler.go, internal/repository/ledger.go, internal/models/ledger.go and
  migration 000009: a company's chart of accounts and the journal lines a person typed. The two
  tables are a store of their own; the handlers check a request, the table's unique key does the rest.
\<close>

section \<open>Rows\<close>

text \<open>The columns \<open>created_at\<close> of an account and \<open>updated_at\<close> of both tables are left out.\<close>

record ledger_account =
  la_ID :: uuid
  la_CompanyID :: uuid
  la_Kode :: string
  la_Nama :: string
  la_Tipe :: string
  la_IsSystem :: bool

text \<open>A date: year, month and day.\<close>

type_synonym date = "nat \<times> nat \<times> nat"

record ledger_entry =
  le_ID :: uuid
  le_CompanyID :: uuid
  le_Tanggal :: date
  le_Keterangan :: string
  le_AkunDebitKode :: string
  le_AkunKreditKode :: string
  le_Jumlah :: rat
  le_CreatedByUserID :: "uuid option"
  le_CreatedAt :: time

record ledger =
  lg_accounts :: "ledger_account list"
  lg_entries :: "ledger_entry list"
  lg_next :: uuid

definition LedgerAccountTypes :: "string list" where
  "LedgerAccountTypes = [''aset'', ''kewajiban'', ''modal'', ''pendapatan'', ''beban'']"

text \<open>Code, name and class of the accounts every company starts with.\<close>

definition SystemLedgerAccounts :: "(string \<times> string \<times> string) list" where
  "SystemLedgerAccounts =
     [(''1-1000'', ''Kas/Bank'', ''aset''),
      (''1-1100'', ''Piutang Usaha'', ''aset''),
      (''2-1000'', ''Hutang Usaha'', ''kewajiban''),
      (''3-1000'', ''Modal Pemilik'', ''modal''),
      (''4-1000'', ''Pendapatan Jasa Angkutan'', ''pendapatan''),
      (''4-9000'', ''Pendapatan Lain-lain'', ''pendapatan''),
      (''5-1000'', ''Beban Uang Sangu'', ''beban''),
      (''5-2000'', ''Beban Administrasi Bank'', ''beban''),
      (''5-9000'', ''Beban Operasional Lain'', ''beban'')]"

section \<open>The tables\<close>

datatype ledger_call = EnsureAccounts | ListsAccounts | FindsAccount | CreatesAccount | UpdatesAccount
  | DeletesAccount | ListsEntries | FindsEntry | CreatesEntry | UpdatesEntry | DeletesEntry

text \<open>The clock, the calls that fail, and where the database's collation puts a text.\<close>

record ledger_env =
  lx_now :: time
  lx_down :: "ledger_call \<Rightarrow> bool"
  lx_collate :: "string \<Rightarrow> int"

definition tabled :: "ledger_env \<Rightarrow> ledger_call \<Rightarrow> (ledger, 'a) op \<Rightarrow> (ledger, 'a) op" where
  "tabled E c m = (if lx_down E c then fail (Err ErrStore ''repository: ledger'') else m)"

definition looked :: "(ledger \<Rightarrow> 'a result) \<Rightarrow> (ledger, 'a) op" where
  "looked f s = (f s, s)"

text \<open>\<open>ON CONFLICT (company_id, kode) DO NOTHING\<close>, a row at a time.\<close>

definition seed_account :: "uuid \<Rightarrow> string \<times> string \<times> string \<Rightarrow> ledger \<Rightarrow> ledger" where
  "seed_account companyID a s =
     (case a of (kode, nama, tipe) \<Rightarrow>
        if list_ex (\<lambda>r. la_CompanyID r = companyID \<and> la_Kode r = kode) (lg_accounts s) then s
        else s\<lparr>lg_accounts := lg_accounts s @ [\<lparr>la_ID = lg_next s, la_CompanyID = companyID, la_Kode = kode,
                 la_Nama = nama, la_Tipe = tipe, la_IsSystem = True\<rparr>],
               lg_next := lg_next s + 1\<rparr>)"

definition Ledger_EnsureSystemAccounts :: "ledger_env \<Rightarrow> uuid \<Rightarrow> (ledger, unit) op" where
  "Ledger_EnsureSystemAccounts E companyID =
     tabled E EnsureAccounts (\<lambda>s. (Inr (), fold (seed_account companyID) SystemLedgerAccounts s))"

definition Ledger_ListAccounts :: "ledger_env \<Rightarrow> uuid \<Rightarrow> (ledger, ledger_account list) op" where
  "Ledger_ListAccounts E companyID = tabled E ListsAccounts (looked (\<lambda>s.
     Inr (sort_key (\<lambda>a. lx_collate E (la_Kode a)) (filter (\<lambda>a. la_CompanyID a = companyID) (lg_accounts s)))))"

definition Ledger_FindAccount :: "ledger_env \<Rightarrow> uuid \<Rightarrow> uuid \<Rightarrow> (ledger, ledger_account) op" where
  "Ledger_FindAccount E companyID i = tabled E FindsAccount (looked (\<lambda>s.
     one (find (\<lambda>a. la_CompanyID a = companyID \<and> la_ID a = i) (lg_accounts s))))"

text \<open>\<open>UNIQUE (company_id, kode)\<close>.\<close>

definition kode_taken :: "ledger_account \<Rightarrow> ledger \<Rightarrow> bool" where
  "kode_taken a s \<longleftrightarrow> list_ex (\<lambda>r. la_CompanyID r = la_CompanyID a \<and> la_Kode r = la_Kode a) (lg_accounts s)"

definition Ledger_CreateAccount :: "ledger_env \<Rightarrow> ledger_account \<Rightarrow> (ledger, ledger_account) op" where
  "Ledger_CreateAccount E a = tabled E CreatesAccount (\<lambda>s.
     if kode_taken a s then (Inl (Err ErrConflict ''repository: conflict''), s)
     else let row = a\<lparr>la_ID := lg_next s\<rparr>
          in (Inr row, s\<lparr>lg_accounts := lg_accounts s @ [row], lg_next := lg_next s + 1\<rparr>))"

text \<open>\<open>Save\<close>: every column of the row of that id, and an insert where there is none.\<close>

definition Ledger_UpdateAccount :: "ledger_env \<Rightarrow> ledger_account \<Rightarrow> (ledger, unit) op" where
  "Ledger_UpdateAccount E a = tabled E UpdatesAccount (\<lambda>s.
     if kode_taken a (s\<lparr>lg_accounts := filter (\<lambda>r. la_ID r \<noteq> la_ID a) (lg_accounts s)\<rparr>)
     then (Inl (Err ErrConflict ''repository: conflict''), s)
     else (Inr (), s\<lparr>lg_accounts :=
            if rows_affected (\<lambda>r. la_ID r = la_ID a) (lg_accounts s) = 0 then lg_accounts s @ [a]
            else update_where (\<lambda>r. la_ID r = la_ID a) (\<lambda>_. a) (lg_accounts s)\<rparr>))"

definition Ledger_DeleteAccount :: "ledger_env \<Rightarrow> uuid \<Rightarrow> uuid \<Rightarrow> (ledger, unit) op" where
  "Ledger_DeleteAccount E companyID i = tabled E DeletesAccount (\<lambda>s.
     let P = (\<lambda>a. la_CompanyID a = companyID \<and> la_ID a = i \<and> \<not> la_IsSystem a)
     in if rows_affected P (lg_accounts s) = 0 then (Inl (Err ErrNotFound ''repository: not found''), s)
        else (Inr (), s\<lparr>lg_accounts := filter (\<lambda>a. \<not> P a) (lg_accounts s)\<rparr>))"

definition date_key :: "date \<Rightarrow> int" where
  "date_key = (\<lambda>(y, m, d). int ((y * 12 + m) * 31 + d))"

definition Ledger_ListEntries :: "ledger_env \<Rightarrow> uuid \<Rightarrow> (ledger, ledger_entry list) op" where
  "Ledger_ListEntries E companyID = tabled E ListsEntries (looked (\<lambda>s.
     Inr (sort_key (\<lambda>e. - date_key (le_Tanggal e)) (sort_key (\<lambda>e. - le_CreatedAt e)
            (filter (\<lambda>e. le_CompanyID e = companyID) (lg_entries s))))))"

definition Ledger_FindEntry :: "ledger_env \<Rightarrow> uuid \<Rightarrow> uuid \<Rightarrow> (ledger, ledger_entry) op" where
  "Ledger_FindEntry E companyID i = tabled E FindsEntry (looked (\<lambda>s.
     one (find (\<lambda>e. le_CompanyID e = companyID \<and> le_ID e = i) (lg_entries s))))"

text \<open>\<open>NUMERIC(18,2)\<close>: two decimals are kept, and a number of more than sixteen digits is an error.\<close>

definition stored_entry :: "ledger_entry \<Rightarrow> ledger_entry" where
  "stored_entry e = e\<lparr>le_Jumlah := round_to 2 (le_Jumlah e)\<rparr>"

definition entry_fits :: "ledger_entry \<Rightarrow> bool" where
  "entry_fits e \<longleftrightarrow> numeric_fits 16 (le_Jumlah (stored_entry e))"

text \<open>The caller's row keeps the amount as it was asked for.\<close>

definition Ledger_CreateEntry :: "ledger_env \<Rightarrow> ledger_entry \<Rightarrow> (ledger, ledger_entry) op" where
  "Ledger_CreateEntry E e = tabled E CreatesEntry (\<lambda>s.
     if \<not> entry_fits e then (Inl (Err ErrStore ''numeric field overflow''), s)
     else let row = e\<lparr>le_ID := lg_next s, le_CreatedAt := lx_now E\<rparr>
          in (Inr row, s\<lparr>lg_entries := lg_entries s @ [stored_entry row], lg_next := lg_next s + 1\<rparr>))"

definition Ledger_UpdateEntry :: "ledger_env \<Rightarrow> ledger_entry \<Rightarrow> (ledger, unit) op" where
  "Ledger_UpdateEntry E e = tabled E UpdatesEntry (\<lambda>s.
     if \<not> entry_fits e then (Inl (Err ErrStore ''numeric field overflow''), s)
     else (Inr (), s\<lparr>lg_entries :=
            if rows_affected (\<lambda>r. le_ID r = le_ID e) (lg_entries s) = 0 then lg_entries s @ [stored_entry e]
            else update_where (\<lambda>r. le_ID r = le_ID e) (\<lambda>_. stored_entry e) (lg_entries s)\<rparr>))"

definition Ledger_DeleteEntry :: "ledger_env \<Rightarrow> uuid \<Rightarrow> uuid \<Rightarrow> (ledger, unit) op" where
  "Ledger_DeleteEntry E companyID i = tabled E DeletesEntry (\<lambda>s.
     let P = (\<lambda>e. le_CompanyID e = companyID \<and> le_ID e = i)
     in if rows_affected P (lg_entries s) = 0 then (Inl (Err ErrNotFound ''repository: not found''), s)
        else (Inr (), s\<lparr>lg_entries := filter (\<lambda>e. \<not> P e) (lg_entries s)\<rparr>))"

section \<open>The handlers\<close>

text \<open>
  What a handler is given: the caller or the refusal of \<open>callerActor\<close>, the id of the path where it
  is one, the body where it decodes. An answer with a status of its own is the error of that status:
  400 is \<open>ErrValidation\<close>, 409 is \<open>ErrConflict\<close>.
\<close>

record account_request =
  aq_Kode :: string
  aq_Nama :: string
  aq_Tipe :: string

definition account_validate :: "account_request \<Rightarrow> string" where
  "account_validate r =
     (if trim_space (aq_Kode r) = [] \<or> trim_space (aq_Nama r) = [] then ''kode and nama are required''
      else if aq_Tipe r \<notin> set LedgerAccountTypes then ''tipe must be one of '' @ join '', '' LedgerAccountTypes
      else [])"

definition path_id :: "uuid option \<Rightarrow> uuid result" where
  "path_id i = (case i of None \<Rightarrow> Inl (Err ErrValidation ''Invalid id'') | Some k \<Rightarrow> Inr k)"

definition bound :: "'a option \<Rightarrow> 'a result" where
  "bound b = (case b of None \<Rightarrow> Inl (Err ErrValidation ''body'') | Some x \<Rightarrow> Inr x)"

definition conflict_message :: "string \<Rightarrow> 'a result \<Rightarrow> 'a result" where
  "conflict_message msg r = (case r of
     Inr x \<Rightarrow> Inr x | Inl e \<Rightarrow> Inl (if err_class e = ErrConflict then Err ErrConflict msg else e))"

definition LedgerHandler_ListAccounts :: "ledger_env \<Rightarrow> actor result \<Rightarrow> (ledger, ledger_account list) op" where
  "LedgerHandler_ListAccounts E who =
     andThen (from_result who) (\<lambda>actor.
     andThen (Ledger_EnsureSystemAccounts E (a_CompanyID actor)) (\<lambda>_.
     Ledger_ListAccounts E (a_CompanyID actor)))"

definition LedgerHandler_CreateAccount ::
  "ledger_env \<Rightarrow> actor result \<Rightarrow> account_request option \<Rightarrow> (ledger, ledger_account) op" where
  "LedgerHandler_CreateAccount E who body =
     andThen (from_result who) (\<lambda>actor.
     andThen (from_result (bound body)) (\<lambda>req.
     andThen (refuse (account_validate req \<noteq> []) (Err ErrValidation (account_validate req))) (\<lambda>_.
     andThen (attempt (Ledger_CreateAccount E \<lparr>la_ID = 0, la_CompanyID = a_CompanyID actor,
         la_Kode = trim_space (aq_Kode req), la_Nama = trim_space (aq_Nama req), la_Tipe = aq_Tipe req,
         la_IsSystem = False\<rparr>)) (\<lambda>r.
     from_result (conflict_message ''Kode akun sudah dipakai'' r)))))"

definition edited_account :: "ledger_account \<Rightarrow> account_request \<Rightarrow> ledger_account" where
  "edited_account row req = row\<lparr>la_Kode := trim_space (aq_Kode req), la_Nama := trim_space (aq_Nama req), la_Tipe := aq_Tipe req\<rparr>"

definition LedgerHandler_UpdateAccount ::
  "ledger_env \<Rightarrow> actor result \<Rightarrow> uuid option \<Rightarrow> account_request option \<Rightarrow> (ledger, ledger_account) op" where
  "LedgerHandler_UpdateAccount E who i body =
     andThen (from_result who) (\<lambda>actor.
     andThen (from_result (path_id i)) (\<lambda>k.
     andThen (from_result (bound body)) (\<lambda>req.
     andThen (refuse (account_validate req \<noteq> []) (Err ErrValidation (account_validate req))) (\<lambda>_.
     andThen (Ledger_FindAccount E (a_CompanyID actor) k) (\<lambda>row.
     andThen (refuse (la_IsSystem row) (Err ErrConflict ''Akun sistem tidak dapat diubah'')) (\<lambda>_.
     andThen (attempt (Ledger_UpdateAccount E (edited_account row req))) (\<lambda>r.
     andThen (from_result (conflict_message ''Kode akun sudah dipakai'' r)) (\<lambda>_.
     ok (edited_account row req)))))))))"

definition LedgerHandler_DeleteAccount :: "ledger_env \<Rightarrow> actor result \<Rightarrow> uuid option \<Rightarrow> (ledger, unit) op" where
  "LedgerHandler_DeleteAccount E who i =
     andThen (from_result who) (\<lambda>actor.
     andThen (from_result (path_id i)) (\<lambda>k.
     andThen (Ledger_FindAccount E (a_CompanyID actor) k) (\<lambda>row.
     andThen (refuse (la_IsSystem row) (Err ErrConflict ''Akun sistem tidak dapat dihapus'')) (\<lambda>_.
     Ledger_DeleteAccount E (a_CompanyID actor) k))))"

text \<open>\<open>binding:"required"\<close> on the date and the two codes: a body without one of them does not bind.\<close>

record entry_request =
  eq_Tanggal :: string
  eq_Keterangan :: string
  eq_AkunDebitKode :: string
  eq_AkunKreditKode :: string
  eq_Jumlah :: rat

definition entry_bound :: "entry_request option \<Rightarrow> entry_request result" where
  "entry_bound b = (case bound b of Inl e \<Rightarrow> Inl e
     | Inr r \<Rightarrow> if eq_Tanggal r = [] \<or> eq_AkunDebitKode r = [] \<or> eq_AkunKreditKode r = []
              then Inl (Err ErrValidation ''required'') else Inr r)"

text \<open>\<open>time.Parse("2006-01-02", s)\<close>: four, two and two digits, a month, and a day that month has.\<close>

definition leap_year :: "nat \<Rightarrow> bool" where
  "leap_year y \<longleftrightarrow> y mod 4 = 0 \<and> (y mod 100 \<noteq> 0 \<or> y mod 400 = 0)"

definition days_in :: "nat \<Rightarrow> nat \<Rightarrow> nat" where
  "days_in m y = (if m = 2 then (if leap_year y then 29 else 28) else if m \<in> {4, 6, 9, 11} then 30 else 31)"

definition parse_date :: "string \<Rightarrow> date option" where
  "parse_date s =
     (let (y, m, d) = (take 4 s, take 2 (drop 5 s), take 2 (drop 8 s))
      in if length s = 10 \<and> s ! 4 = CHR ''-'' \<and> s ! 7 = CHR ''-'' \<and> list_all is_digit (y @ m @ d) \<and>
            1 \<le> undigits m \<and> undigits m \<le> 12 \<and> 1 \<le> undigits d \<and> undigits d \<le> days_in (undigits m) (undigits y)
         then Some (undigits y, undigits m, undigits d) else None)"

definition entry_parse :: "entry_request \<Rightarrow> date result" where
  "entry_parse r = (case parse_date (eq_Tanggal r) of
     None \<Rightarrow> Inl (Err ErrValidation ''tanggal must be YYYY-MM-DD'')
   | Some t \<Rightarrow>
       if eq_AkunDebitKode r = eq_AkunKreditKode r then Inl (Err ErrValidation ''akun debit dan kredit harus berbeda'')
       else if \<not> 0 < eq_Jumlah r then Inl (Err ErrValidation ''jumlah must be greater than zero'')
       else Inr t)"

definition LedgerHandler_ListEntries :: "ledger_env \<Rightarrow> actor result \<Rightarrow> (ledger, ledger_entry list) op" where
  "LedgerHandler_ListEntries E who = andThen (from_result who) (\<lambda>actor. Ledger_ListEntries E (a_CompanyID actor))"

definition LedgerHandler_CreateEntry ::
  "ledger_env \<Rightarrow> actor result \<Rightarrow> entry_request option \<Rightarrow> (ledger, ledger_entry) op" where
  "LedgerHandler_CreateEntry E who body =
     andThen (from_result who) (\<lambda>actor.
     andThen (from_result (entry_bound body)) (\<lambda>req.
     andThen (from_result (entry_parse req)) (\<lambda>tanggal.
     Ledger_CreateEntry E \<lparr>le_ID = 0, le_CompanyID = a_CompanyID actor, le_Tanggal = tanggal,
       le_Keterangan = trim_space (eq_Keterangan req), le_AkunDebitKode = eq_AkunDebitKode req,
       le_AkunKreditKode = eq_AkunKreditKode req, le_Jumlah = eq_Jumlah req,
       le_CreatedByUserID = Some (a_UserID actor), le_CreatedAt = 0\<rparr>)))"

definition edited_entry :: "ledger_entry \<Rightarrow> entry_request \<Rightarrow> date \<Rightarrow> ledger_entry" where
  "edited_entry row req tanggal = row\<lparr>le_Tanggal := tanggal, le_Keterangan := trim_space (eq_Keterangan req),
     le_AkunDebitKode := eq_AkunDebitKode req, le_AkunKreditKode := eq_AkunKreditKode req, le_Jumlah := eq_Jumlah req\<rparr>"

definition LedgerHandler_UpdateEntry ::
  "ledger_env \<Rightarrow> actor result \<Rightarrow> uuid option \<Rightarrow> entry_request option \<Rightarrow> (ledger, ledger_entry) op" where
  "LedgerHandler_UpdateEntry E who i body =
     andThen (from_result who) (\<lambda>actor.
     andThen (from_result (path_id i)) (\<lambda>k.
     andThen (from_result (entry_bound body)) (\<lambda>req.
     andThen (from_result (entry_parse req)) (\<lambda>tanggal.
     andThen (Ledger_FindEntry E (a_CompanyID actor) k) (\<lambda>row.
     andThen (Ledger_UpdateEntry E (edited_entry row req tanggal)) (\<lambda>_. ok (edited_entry row req tanggal)))))))"

definition LedgerHandler_DeleteEntry :: "ledger_env \<Rightarrow> actor result \<Rightarrow> uuid option \<Rightarrow> (ledger, unit) op" where
  "LedgerHandler_DeleteEntry E who i =
     andThen (from_result who) (\<lambda>actor.
     andThen (from_result (path_id i)) (\<lambda>k. Ledger_DeleteEntry E (a_CompanyID actor) k))"

section \<open>Steps\<close>

text \<open>A caller of a company makes one of the eight requests.\<close>

inductive ledger_step :: "uuid \<Rightarrow> ledger \<Rightarrow> ledger \<Rightarrow> bool" for c where
  "a_CompanyID actor = c \<Longrightarrow> LedgerHandler_ListAccounts E (Inr actor) s = (r1, s') \<Longrightarrow> ledger_step c s s'"
| "a_CompanyID actor = c \<Longrightarrow> LedgerHandler_CreateAccount E (Inr actor) b s = (r2, s') \<Longrightarrow> ledger_step c s s'"
| "a_CompanyID actor = c \<Longrightarrow> LedgerHandler_UpdateAccount E (Inr actor) i b s = (r3, s') \<Longrightarrow> ledger_step c s s'"
| "a_CompanyID actor = c \<Longrightarrow> LedgerHandler_DeleteAccount E (Inr actor) i s = (r4, s') \<Longrightarrow> ledger_step c s s'"
| "a_CompanyID actor = c \<Longrightarrow> LedgerHandler_ListEntries E (Inr actor) s = (r5, s') \<Longrightarrow> ledger_step c s s'"
| "a_CompanyID actor = c \<Longrightarrow> LedgerHandler_CreateEntry E (Inr actor) e s = (r6, s') \<Longrightarrow> ledger_step c s s'"
| "a_CompanyID actor = c \<Longrightarrow> LedgerHandler_UpdateEntry E (Inr actor) i e s = (r7, s') \<Longrightarrow> ledger_step c s s'"
| "a_CompanyID actor = c \<Longrightarrow> LedgerHandler_DeleteEntry E (Inr actor) i s = (r8, s') \<Longrightarrow> ledger_step c s s'"

text \<open>Any number of requests of any companies, one after another.\<close>

inductive ledger_steps :: "ledger \<Rightarrow> ledger \<Rightarrow> bool" where
  ledger_still: "ledger_steps s s"
| ledger_more: "ledger_steps s t \<Longrightarrow> ledger_step c t u \<Longrightarrow> ledger_steps s u"

definition no_ledger :: ledger where
  "no_ledger = \<lparr>lg_accounts = [], lg_entries = [], lg_next = 0\<rparr>"

section \<open>Well-formed books\<close>

definition proper_text :: "string \<Rightarrow> bool" where
  "proper_text t \<longleftrightarrow> t \<noteq> [] \<and> trim_space t = t"

definition account_ok :: "ledger_account \<Rightarrow> bool" where
  "account_ok a \<longleftrightarrow> proper_text (la_Kode a) \<and> proper_text (la_Nama a) \<and> la_Tipe a \<in> set LedgerAccountTypes \<and>
     (la_IsSystem a \<longrightarrow> (la_Kode a, la_Nama a, la_Tipe a) \<in> set SystemLedgerAccounts)"

definition valid_date :: "date \<Rightarrow> bool" where
  "valid_date = (\<lambda>(y, m, d). 1 \<le> m \<and> m \<le> 12 \<and> 1 \<le> d \<and> d \<le> days_in m y)"

definition entry_ok :: "ledger_entry \<Rightarrow> bool" where
  "entry_ok e \<longleftrightarrow> valid_date (le_Tanggal e) \<and> le_AkunDebitKode e \<noteq> [] \<and> le_AkunKreditKode e \<noteq> [] \<and>
     le_AkunDebitKode e \<noteq> le_AkunKreditKode e \<and> 0 \<le> le_Jumlah e \<and> cents (le_Jumlah e) \<and> numeric_fits 16 (le_Jumlah e)"

definition ledger_sound :: "ledger \<Rightarrow> bool" where
  "ledger_sound s \<longleftrightarrow>
     distinct (map la_ID (lg_accounts s)) \<and> distinct (map (\<lambda>a. (la_CompanyID a, la_Kode a)) (lg_accounts s)) \<and>
     distinct (map le_ID (lg_entries s)) \<and>
     (\<forall>a\<in>set (lg_accounts s). la_ID a < lg_next s \<and> account_ok a) \<and>
     (\<forall>e\<in>set (lg_entries s). le_ID e < lg_next s \<and> entry_ok e)"

text \<open>What a company's requests leave alone: other companies' rows, and every system account.\<close>

definition own_books :: "uuid \<Rightarrow> ledger \<Rightarrow> ledger \<Rightarrow> bool" where
  "own_books c s s' \<longleftrightarrow>
     filter (\<lambda>a. la_CompanyID a \<noteq> c) (lg_accounts s') = filter (\<lambda>a. la_CompanyID a \<noteq> c) (lg_accounts s) \<and>
     filter (\<lambda>e. le_CompanyID e \<noteq> c) (lg_entries s') = filter (\<lambda>e. le_CompanyID e \<noteq> c) (lg_entries s) \<and>
     (\<forall>a\<in>set (lg_accounts s). la_IsSystem a \<longrightarrow> a \<in> set (lg_accounts s'))"

definition books_kept :: "uuid \<Rightarrow> ledger \<Rightarrow> ledger \<Rightarrow> bool" where
  "books_kept c s s' \<longleftrightarrow> (ledger_sound s \<longrightarrow> ledger_sound s' \<and> own_books c s s')"

interpretation books: store_order "books_kept c" for c
  by unfold_locales (auto simp: books_kept_def own_books_def)

lemma trim_space_again [simp]: "trim_space (trim_space s) = trim_space s"
proof -
  let ?a = "dropWhile is_space s" and ?t = "trim_space s"
  have drop_same: "dropWhile P (dropWhile P xs) = dropWhile P xs" for P and xs :: string
    by (induction xs) simp_all
  have "?t = [] \<or> \<not> is_space (hd ?t)"
  proof (cases "?t = []")
    case False
    have ne: "?a \<noteq> []"
    proof
      assume "?a = []"
      then have "?t = []" unfolding trim_space_def by (metis dropWhile.simps(1) rev.simps(1))
      with False show False ..
    qed
    have "\<exists>ys. ?a = ?t @ ys"
      unfolding trim_space_def by (metis takeWhile_dropWhile_id rev_append rev_rev_ident)
    with False have "hd ?t = hd ?a" by auto
    with hd_dropWhile [OF ne] show ?thesis by simp
  qed simp
  then have "dropWhile is_space ?t = ?t" by (cases ?t) auto
  then show ?thesis by (simp add: trim_space_def [of "trim_space s"]) (simp add: trim_space_def drop_same)
qed

lemma account_validated:
  assumes "account_validate req = []"
  shows "proper_text (trim_space (aq_Kode req))" "proper_text (trim_space (aq_Nama req))"
    "aq_Tipe req \<in> set LedgerAccountTypes"
  using assms by (auto simp: account_validate_def proper_text_def split: if_splits)

lemma system_accounts_ok:
  assumes "(kode, nama, tipe) \<in> set SystemLedgerAccounts"
  shows "account_ok \<lparr>la_ID = i, la_CompanyID = c, la_Kode = kode, la_Nama = nama, la_Tipe = tipe, la_IsSystem = True\<rparr>"
proof -
  have "list_all (\<lambda>(k, n, t). proper_text k \<and> proper_text n \<and> t \<in> set LedgerAccountTypes) SystemLedgerAccounts"
    by code_simp
  with assms show ?thesis by (force simp: account_ok_def list_all_iff)
qed

lemma parsed_date: "parse_date s = Some t \<Longrightarrow> valid_date t"
  by (auto simp: parse_date_def valid_date_def split: if_splits)

lemma positive_rounds: "0 < x \<Longrightarrow> 0 \<le> round_to 2 x"
  by (simp add: round_to_def Let_def)

lemma books_kept_append:
  assumes "la_CompanyID a = c" "account_ok a" "\<not> kode_taken a s" "la_ID a = lg_next s"
  shows "books_kept c s (s\<lparr>lg_accounts := lg_accounts s @ [a], lg_next := lg_next s + 1\<rparr>)"
  using assms by (auto simp: books_kept_def ledger_sound_def own_books_def kode_taken_def list_ex_iff less_Suc_eq)

lemma books_kept_seed: "p \<in> set SystemLedgerAccounts \<Longrightarrow> books_kept c s (seed_account c p s)"
  using books_kept_append [of "\<lparr>la_ID = lg_next s, la_CompanyID = c, la_Kode = fst p, la_Nama = fst (snd p),
      la_Tipe = snd (snd p), la_IsSystem = True\<rparr>" c s] system_accounts_ok [of "fst p" "fst (snd p)" "snd (snd p)"]
  by (cases p) (auto simp: seed_account_def kode_taken_def books.stays)

lemma books_kept_seeds: "set ps \<subseteq> set SystemLedgerAccounts \<Longrightarrow> books_kept c s (fold (seed_account c) ps s)"
proof (induction ps arbitrary: s)
  case (Cons p ps)
  then have "books_kept c s (seed_account c p s)" by (simp add: books_kept_seed)
  with Cons show ?case by (auto intro: books.onward)
qed (simp add: books.stays)

lemma books_tabled: "leads (books_kept c) m s \<Longrightarrow> leads (books_kept c) (tabled E k m) s"
  by (simp add: tabled_def leads_def fail_def books.stays)

lemma seeds_kept: "leads (books_kept c) (Ledger_EnsureSystemAccounts E c) s"
  unfolding Ledger_EnsureSystemAccounts_def
  by (rule books_tabled) (simp add: leads_def books_kept_seeds)

lemma CreateAccount_kept:
  assumes "la_CompanyID a = c" "account_ok (a\<lparr>la_ID := lg_next s\<rparr>)"
  shows "leads (books_kept c) (Ledger_CreateAccount E a) s"
  unfolding Ledger_CreateAccount_def
  by (rule books_tabled)
     (use books_kept_append [of "a\<lparr>la_ID := lg_next s\<rparr>" c s] assms in
        \<open>auto simp: leads_def books.stays kode_taken_def Let_def\<close>)

text \<open>Replacing one row by another of the same key.\<close>

lemma same_key: "distinct (map key rows) \<Longrightarrow> x \<in> set rows \<Longrightarrow> y \<in> set rows \<Longrightarrow> key x = key y \<Longrightarrow> x = y"
  by (auto simp: distinct_map dest: inj_onD)

lemma replace_row:
  assumes "distinct (map key rows)" "r \<in> set rows" "key r = key a"
  shows "distinct (map key (update_where (\<lambda>x. key x = key a) (\<lambda>_. a) rows))"
    and "set (update_where (\<lambda>x. key x = key a) (\<lambda>_. a) rows) = insert a (set rows - {r})"
proof -
  have "map key (update_where (\<lambda>x. key x = key a) (\<lambda>_. a) rows) = map key rows"
    by (rule map_update_where) simp
  with assms(1) show "distinct (map key (update_where (\<lambda>x. key x = key a) (\<lambda>_. a) rows))" by simp
  have hit: "key x = key a \<longleftrightarrow> x = r" if "x \<in> set rows" for x
    using same_key [OF assms(1) that assms(2)] assms(3) by auto
  have "set (update_where (\<lambda>x. key x = key a) (\<lambda>_. a) rows) = (\<lambda>x. if x = r then a else x) ` set rows"
    by (simp add: update_where_def hit cong: image_cong)
  with assms(2) show "set (update_where (\<lambda>x. key x = key a) (\<lambda>_. a) rows) = insert a (set rows - {r})" by auto
qed

lemma filter_replace:
  assumes "\<And>x. x \<in> set rows \<Longrightarrow> key x = key a \<Longrightarrow> \<not> P x" "\<not> P a"
  shows "filter P (update_where (\<lambda>x. key x = key a) (\<lambda>_. a) rows) = filter P rows"
  using assms by (induction rows) auto

lemma distinct_replace:
  assumes "distinct (map key rows)" "distinct (map f rows)" "r \<in> set rows" "key r = key a"
    "\<And>x. x \<in> set rows \<Longrightarrow> key x \<noteq> key a \<Longrightarrow> f x \<noteq> f a"
  shows "distinct (map f (update_where (\<lambda>x. key x = key a) (\<lambda>_. a) rows))"
  using assms
proof (induction rows)
  case (Cons x rows)
  show ?case
  proof (cases "key x = key a")
    case True
    then have u: "update_where (\<lambda>x. key x = key a) (\<lambda>_. a) rows = rows"
      using Cons.prems(1) by (intro update_where_none) (auto simp: image_iff)
    have "\<forall>y\<in>set rows. f y \<noteq> f a" using Cons.prems(1,5) True by (metis distinct.simps(2) image_eqI list.set_intros(2) list.simps(9) set_map)
    with True u Cons.prems(2) show ?thesis by auto
  next
    case False
    with Cons.prems have r: "r \<in> set rows" by auto
    have "distinct (map f (update_where (\<lambda>x. key x = key a) (\<lambda>_. a) rows))"
      using Cons r by auto
    moreover have "f x \<notin> f ` set (update_where (\<lambda>x. key x = key a) (\<lambda>_. a) rows)"
      using Cons.prems(2,5) False by (fastforce simp: update_where_def)
    ultimately show ?thesis using False by simp
  qed
qed simp

lemma UpdateAccount_kept:
  assumes "row \<in> set (lg_accounts s)" "la_ID row = la_ID a" "la_CompanyID row = c" "la_CompanyID a = c"
    and "\<not> la_IsSystem row" "\<not> la_IsSystem a" "account_ok a"
  shows "leads (books_kept c) (Ledger_UpdateAccount E a) s"
  unfolding Ledger_UpdateAccount_def
proof (rule books_tabled, unfold leads_def books_kept_def, intro impI)
  let ?rows = "lg_accounts s" and ?new = "update_where (\<lambda>r. la_ID r = la_ID a) (\<lambda>_. a) (lg_accounts s)"
  let ?m = "\<lambda>s. if kode_taken a (s\<lparr>lg_accounts := filter (\<lambda>r. la_ID r \<noteq> la_ID a) (lg_accounts s)\<rparr>)
     then (Inl (Err ErrConflict ''repository: conflict''), s)
     else (Inr (), s\<lparr>lg_accounts :=
            if rows_affected (\<lambda>r. la_ID r = la_ID a) (lg_accounts s) = 0 then lg_accounts s @ [a]
            else update_where (\<lambda>r. la_ID r = la_ID a) (\<lambda>_. a) (lg_accounts s)\<rparr>)"
  assume s: "ledger_sound s"
  have ids: "distinct (map la_ID ?rows)" and keys: "distinct (map (\<lambda>a. (la_CompanyID a, la_Kode a)) ?rows)"
    using s by (simp_all add: ledger_sound_def)
  note new = replace_row [OF ids assms(1,2)]
  have unique: "x = row" if "x \<in> set ?rows" "la_ID x = la_ID a" for x
    using same_key [OF ids that(1) assms(1)] that(2) assms(2) by simp
  show "ledger_sound (snd (?m s)) \<and> own_books c s (snd (?m s))"
  proof (cases "kode_taken a (s\<lparr>lg_accounts := filter (\<lambda>r. la_ID r \<noteq> la_ID a) (lg_accounts s)\<rparr>)")
    case True
    then show ?thesis using s by (simp add: own_books_def)
  next
    case False
    have "distinct (map (\<lambda>a. (la_CompanyID a, la_Kode a)) ?new)"
      by (rule distinct_replace [OF ids keys assms(1,2)]) (use False in \<open>auto simp: kode_taken_def list_ex_iff\<close>)
    moreover have "filter (\<lambda>r. la_CompanyID r \<noteq> c) ?new = filter (\<lambda>r. la_CompanyID r \<noteq> c) ?rows"
      by (rule filter_replace) (metis unique assms(3), simp add: assms(4))
    moreover have "rows_affected (\<lambda>r. la_ID r = la_ID a) ?rows \<noteq> 0" using assms(1,2) by auto
    moreover have "la_ID a < lg_next s" using s assms(1,2) by (metis ledger_sound_def)
    moreover have "\<forall>x\<in>set ?new. la_ID x < lg_next s \<and> account_ok x"
      using s assms(7) calculation(4) unfolding new(2) ledger_sound_def by blast
    moreover have "\<forall>x\<in>set ?rows. la_IsSystem x \<longrightarrow> x \<in> set ?new" using assms(5) unfolding new(2) by blast
    ultimately show ?thesis using False s new(1) by (simp add: ledger_sound_def own_books_def) blast
  qed
qed

lemma DeleteAccount_kept: "leads (books_kept c) (Ledger_DeleteAccount E c i) s"
  unfolding Ledger_DeleteAccount_def
  by (rule books_tabled)
     (auto simp: leads_def books_kept_def ledger_sound_def own_books_def Let_def distinct_map inj_on_def intro: filter_cong)

lemma CreateEntry_kept:
  assumes "le_CompanyID e = c" "entry_ok (stored_entry e) \<or> \<not> entry_fits e"
  shows "leads (books_kept c) (Ledger_CreateEntry E e) s"
  unfolding Ledger_CreateEntry_def
  by (rule books_tabled)
     (use assms in \<open>auto simp: leads_def books_kept_def ledger_sound_def own_books_def Let_def stored_entry_def
        entry_ok_def less_Suc_eq\<close>)

lemma UpdateEntry_kept:
  assumes "row \<in> set (lg_entries s)" "le_ID row = le_ID e" "le_CompanyID row = c" "le_CompanyID e = c"
    and "entry_ok (stored_entry e) \<or> \<not> entry_fits e"
  shows "leads (books_kept c) (Ledger_UpdateEntry E e) s"
  unfolding Ledger_UpdateEntry_def
proof (rule books_tabled, unfold leads_def books_kept_def, intro impI)
  let ?rows = "lg_entries s" and ?new = "update_where (\<lambda>r. le_ID r = le_ID e) (\<lambda>_. stored_entry e) (lg_entries s)"
  let ?m = "\<lambda>s. if \<not> entry_fits e then (Inl (Err ErrStore ''numeric field overflow''), s)
     else (Inr (), s\<lparr>lg_entries :=
            if rows_affected (\<lambda>r. le_ID r = le_ID e) (lg_entries s) = 0 then lg_entries s @ [stored_entry e]
            else update_where (\<lambda>r. le_ID r = le_ID e) (\<lambda>_. stored_entry e) (lg_entries s)\<rparr>)"
  assume s: "ledger_sound s"
  have ids: "distinct (map le_ID ?rows)" using s by (simp add: ledger_sound_def)
  have e: "le_ID (stored_entry e) = le_ID e" "le_CompanyID (stored_entry e) = c"
    using assms(4) by (simp_all add: stored_entry_def)
  note new = replace_row [OF ids assms(1), of "stored_entry e", unfolded e(1), OF assms(2)]
  have unique: "x = row" if "x \<in> set ?rows" "le_ID x = le_ID e" for x
    using same_key [OF ids that(1) assms(1)] that(2) assms(2) by simp
  show "ledger_sound (snd (?m s)) \<and> own_books c s (snd (?m s))"
  proof (cases "entry_fits e")
    case False
    then show ?thesis using s by (simp add: own_books_def)
  next
    case True
    have "filter (\<lambda>r. le_CompanyID r \<noteq> c) ?new = filter (\<lambda>r. le_CompanyID r \<noteq> c) ?rows"
      using filter_replace [of ?rows le_ID "stored_entry e" "\<lambda>r. le_CompanyID r \<noteq> c", unfolded e]
      by (metis unique assms(3))
    moreover have "rows_affected (\<lambda>r. le_ID r = le_ID e) ?rows \<noteq> 0" using assms(1,2) by auto
    moreover have "le_ID e < lg_next s" using s assms(1,2) by (metis ledger_sound_def)
    moreover have "\<forall>x\<in>set ?new. le_ID x < lg_next s \<and> entry_ok x"
      using s assms(5) True calculation(3) e(1) unfolding new(2) ledger_sound_def by (metis (no_types, lifting) DiffE insertE)
    ultimately show ?thesis using True s new(1) by (simp add: ledger_sound_def own_books_def) blast
  qed
qed

lemma DeleteEntry_kept: "leads (books_kept c) (Ledger_DeleteEntry E c i) s"
  unfolding Ledger_DeleteEntry_def
  by (rule books_tabled)
     (auto simp: leads_def books_kept_def ledger_sound_def own_books_def Let_def distinct_map inj_on_def intro: filter_cong)

lemma readonly_ledger [op_rules]:
  "readonly (Ledger_ListAccounts E c)" "readonly (Ledger_FindAccount E c i)"
  "readonly (Ledger_ListEntries E c)" "readonly (Ledger_FindEntry E c i)"
  by (auto simp: Ledger_ListAccounts_def Ledger_FindAccount_def Ledger_ListEntries_def Ledger_FindEntry_def
    tabled_def looked_def fail_def readonly_def keeps_def)

lemma FindAccount_Inr:
  "Ledger_FindAccount E c i s = (Inr a, s') \<Longrightarrow> s' = s \<and> a \<in> set (lg_accounts s) \<and> la_CompanyID a = c \<and> la_ID a = i"
  by (auto simp: Ledger_FindAccount_def tabled_def looked_def split: if_splits dest: find_Some_iff_first)

lemma FindEntry_Inr:
  "Ledger_FindEntry E c i s = (Inr e, s') \<Longrightarrow> s' = s \<and> e \<in> set (lg_entries s) \<and> le_CompanyID e = c \<and> le_ID e = i"
  by (auto simp: Ledger_FindEntry_def tabled_def looked_def split: if_splits dest: find_Some_iff_first)

lemma entry_bound_Inr:
  "entry_bound b = Inr req \<Longrightarrow> eq_Tanggal req \<noteq> [] \<and> eq_AkunDebitKode req \<noteq> [] \<and> eq_AkunKreditKode req \<noteq> []"
  by (auto simp: entry_bound_def split: sum.splits if_splits)

lemma entry_parse_Inr:
  "entry_parse req = Inr t \<longleftrightarrow>
     parse_date (eq_Tanggal req) = Some t \<and> eq_AkunDebitKode req \<noteq> eq_AkunKreditKode req \<and> 0 < eq_Jumlah req"
  by (auto simp: entry_parse_def split: option.splits)

lemma parsed_entry_ok:
  assumes "entry_bound b = Inr req" "entry_parse req = Inr t"
    and "le_Tanggal e = t" "le_AkunDebitKode e = eq_AkunDebitKode req" "le_AkunKreditKode e = eq_AkunKreditKode req"
      "le_Jumlah e = eq_Jumlah req"
  shows "entry_ok (stored_entry e) \<or> \<not> entry_fits e"
  using assms entry_bound_Inr [OF assms(1)]
  by (auto simp: entry_parse_Inr entry_ok_def stored_entry_def entry_fits_def positive_rounds dest: parsed_date)

lemma edited_entry_ok:
  assumes "entry_bound b = Inr req" "entry_parse req = Inr t" "entry_fits (edited_entry row req t)"
  shows "entry_ok (stored_entry (edited_entry row req t))"
  using parsed_entry_ok [OF assms(1,2), of "edited_entry row req t"] assms(3) by (simp add: edited_entry_def)

lemma edited_entry_keys [simp]:
  "le_ID (edited_entry row req t) = le_ID row" "le_CompanyID (edited_entry row req t) = le_CompanyID row"
  by (simp_all add: edited_entry_def)

lemma leads_bind:
  assumes "leads (books_kept c) m s" "\<And>x s1. m s = (Inr x, s1) \<Longrightarrow> leads (books_kept c) (g x) s1"
  shows "leads (books_kept c) (andThen m g) s"
  using assms by (cases "m s"; cases "fst (m s)") (auto simp: leads_def andThen_def intro: books.onward)

lemma leads_attempt: "leads (books_kept c) m s \<Longrightarrow> leads (books_kept c) (attempt m) s"
  by (auto simp: leads_def attempt_def split: prod.splits)

lemma leads_still: "readonly m \<Longrightarrow> leads (books_kept c) m s"
  by (intro books.leads_follows books.follows_readonly)

lemmas leads_rules = leads_bind leads_attempt leads_still [OF readonly_from_result] leads_still [OF readonly_refuse]
  leads_still [OF readonly_ok] readonly_ledger [THEN leads_still] seeds_kept DeleteAccount_kept DeleteEntry_kept

lemma ledger_handlers_kept:
  assumes c: "a_CompanyID actor = c"
  shows "leads (books_kept c) (LedgerHandler_ListAccounts E (Inr actor)) s"
    and "leads (books_kept c) (LedgerHandler_CreateAccount E (Inr actor) b) s"
    and "leads (books_kept c) (LedgerHandler_UpdateAccount E (Inr actor) i b) s"
    and "leads (books_kept c) (LedgerHandler_DeleteAccount E (Inr actor) i) s"
    and "leads (books_kept c) (LedgerHandler_ListEntries E (Inr actor)) s"
    and "leads (books_kept c) (LedgerHandler_CreateEntry E (Inr actor) e) s"
    and "leads (books_kept c) (LedgerHandler_UpdateEntry E (Inr actor) i e) s"
    and "leads (books_kept c) (LedgerHandler_DeleteEntry E (Inr actor) i) s"
  unfolding LedgerHandler_ListAccounts_def LedgerHandler_CreateAccount_def LedgerHandler_UpdateAccount_def
    LedgerHandler_DeleteAccount_def LedgerHandler_ListEntries_def LedgerHandler_CreateEntry_def
    LedgerHandler_UpdateEntry_def LedgerHandler_DeleteEntry_def
  subgoal using c by (auto intro!: leads_rules)
  subgoal by (intro leads_rules CreateAccount_kept) (use c account_validated in \<open>auto simp: account_ok_def\<close>)
  subgoal
    by (intro leads_rules, rule UpdateAccount_kept)
       (use c account_validated in \<open>auto simp: account_ok_def edited_account_def dest!: FindAccount_Inr\<close>)
  subgoal using c by (auto intro!: leads_rules)
  subgoal using c by (auto intro!: leads_rules)
  subgoal
    by (intro leads_rules, simp only: from_result_eq, elim conjE)
       (rule CreateEntry_kept, (use c in simp), rule parsed_entry_ok, assumption, assumption, simp_all)
  subgoal
    by (intro leads_rules, rule UpdateEntry_kept)
       (use c in \<open>auto dest!: FindEntry_Inr dest: edited_entry_ok\<close>)
  subgoal using c by (auto intro!: leads_rules)
  done

lemma ledger_step_kept: "ledger_step c s s' \<Longrightarrow> books_kept c s s'"
  by (induction rule: ledger_step.induct) (metis ledger_handlers_kept leads_def snd_conv)+

lemma ledger_steps_sound: "ledger_steps s s' \<Longrightarrow> ledger_sound s \<Longrightarrow> ledger_sound s'"
  by (induction rule: ledger_steps.induct) (auto dest: ledger_step_kept simp: books_kept_def)

lemma no_ledger_sound: "ledger_sound no_ledger"
  by (simp add: ledger_sound_def no_ledger_def)

section \<open>The chart of a company\<close>

text \<open>Seeding only adds system accounts of the company, for the codes it does not have.\<close>

definition has_kode :: "uuid \<Rightarrow> ledger \<Rightarrow> string \<Rightarrow> bool" where
  "has_kode c s kode \<longleftrightarrow> (\<exists>a\<in>set (lg_accounts s). la_CompanyID a = c \<and> la_Kode a = kode)"

lemma seed_account_alt:
  "seed_account c (kode, nama, tipe) s =
     (if has_kode c s kode then s
      else s\<lparr>lg_accounts := lg_accounts s @ [\<lparr>la_ID = lg_next s, la_CompanyID = c, la_Kode = kode, la_Nama = nama,
             la_Tipe = tipe, la_IsSystem = True\<rparr>], lg_next := lg_next s + 1\<rparr>)"
  by (simp add: seed_account_def has_kode_def list_ex_iff)

lemma seeds_keep: "set (lg_accounts s) \<subseteq> set (lg_accounts (fold (seed_account c) ps s))"
proof (induction ps arbitrary: s)
  case (Cons p ps)
  have "set (lg_accounts s) \<subseteq> set (lg_accounts (seed_account c p s))"
    by (cases p) (auto simp: seed_account_alt)
  with Cons [of "seed_account c p s"] show ?case by simp
qed simp

lemma seeds_add:
  "a \<in> set (lg_accounts (fold (seed_account c) ps s)) \<Longrightarrow>
     a \<in> set (lg_accounts s) \<or>
     la_CompanyID a = c \<and> la_IsSystem a \<and> (la_Kode a, la_Nama a, la_Tipe a) \<in> set ps \<and> \<not> has_kode c s (la_Kode a)"
proof (induction ps arbitrary: s)
  case (Cons p ps)
  obtain k n t where p: "p = (k, n, t)" by (cases p)
  have grows: "has_kode c s x \<Longrightarrow> has_kode c (seed_account c p s) x" for x
    by (auto simp: p seed_account_alt has_kode_def)
  from Cons.IH [of "seed_account c p s"] Cons.prems show ?case
    using grows by (auto simp: p seed_account_alt split: if_splits)
qed simp

lemma seeds_have: "p \<in> set ps \<Longrightarrow> has_kode c (fold (seed_account c) ps s) (fst p)"
proof (induction ps arbitrary: s)
  case (Cons q ps)
  show ?case
  proof (cases "p = q")
    case True
    have "has_kode c (seed_account c q s) (fst q)" by (cases q) (auto simp: seed_account_alt has_kode_def)
    with True seeds_keep [of "seed_account c q s" c ps] show ?thesis by (auto simp: has_kode_def)
  qed (use Cons in simp)
qed simp

lemma seeds_done: "(\<forall>p\<in>set ps. has_kode c s (fst p)) \<Longrightarrow> fold (seed_account c) ps s = s"
  by (induction ps) (auto simp: seed_account_alt)

lemma ListAccounts_Inr:
  "LedgerHandler_ListAccounts E who s = (Inr rows, s') \<longleftrightarrow>
     (\<exists>actor. who = Inr actor \<and> \<not> lx_down E EnsureAccounts \<and> \<not> lx_down E ListsAccounts \<and>
        s' = fold (seed_account (a_CompanyID actor)) SystemLedgerAccounts s \<and>
        rows = sort_key (\<lambda>a. lx_collate E (la_Kode a)) (filter (\<lambda>a. la_CompanyID a = a_CompanyID actor) (lg_accounts s')))"
  by (auto simp: LedgerHandler_ListAccounts_def andThen_Inr Ledger_EnsureSystemAccounts_def Ledger_ListAccounts_def
    tabled_def looked_def)

lemma CreateEntry_Inr:
  "LedgerHandler_CreateEntry E who body s = (Inr row, s') \<longleftrightarrow>
     (\<exists>actor req tanggal. who = Inr actor \<and> entry_bound body = Inr req \<and> entry_parse req = Inr tanggal \<and>
        \<not> lx_down E CreatesEntry \<and>
        row = \<lparr>le_ID = lg_next s, le_CompanyID = a_CompanyID actor, le_Tanggal = tanggal,
          le_Keterangan = trim_space (eq_Keterangan req), le_AkunDebitKode = eq_AkunDebitKode req,
          le_AkunKreditKode = eq_AkunKreditKode req, le_Jumlah = eq_Jumlah req,
          le_CreatedByUserID = Some (a_UserID actor), le_CreatedAt = lx_now E\<rparr> \<and>
        entry_fits row \<and> s' = s\<lparr>lg_entries := lg_entries s @ [stored_entry row], lg_next := lg_next s + 1\<rparr>)"
  by (auto simp: LedgerHandler_CreateEntry_def andThen_Inr Ledger_CreateEntry_def tabled_def Let_def entry_fits_def
    stored_entry_def)

lemma round_zero: "0 < x \<Longrightarrow> round_to 2 x = 0 \<longleftrightarrow> x < 1 / 200"
  by (auto simp: round_to_def Let_def floor_eq_iff)

end
