(* ===== verification/Query.thy ===== *)
theory Query
  imports Billing Handover
begin

text \<open>
  internal/platform/query, internal/platform/safeconv, internal/repository/query.go and the paged
  lists of internal/repository/repository.go: what of a client's page, filters, sorts and search
  reaches the database, and which rows come back. JSON decoding and the database's comparisons are
  parameters; the arithmetic of pages is that of a 64-bit \<open>int\<close>.
\<close>

section \<open>Bounded conversions\<close>

type_synonym int64 = "64 word"
type_synonym int32 = "32 word"

abbreviation (input) MaxInt32 :: int where "MaxInt32 \<equiv> 2147483647"
abbreviation (input) MinInt32 :: int where "MinInt32 \<equiv> - 2147483648"

definition Int32 :: "int64 \<Rightarrow> int32" where
  "Int32 v = (if MaxInt32 < sint v then word_of_int MaxInt32
     else if sint v < MinInt32 then word_of_int MinInt32 else word_of_int (sint v))"

definition NonNegativeInt32 :: "int64 \<Rightarrow> int32" where
  "NonNegativeInt32 v = (if sint v < 0 then 0 else Int32 v)"

text \<open>\<open>strconv.Atoi\<close>: the value, and whether there was an error; out of range is the nearest bound.\<close>

definition unsigned_digits :: "string \<Rightarrow> bool \<times> string" where
  "unsigned_digits s = (case s of [] \<Rightarrow> (False, []) | c # r \<Rightarrow>
     if c = CHR ''-'' then (True, r) else if c = CHR ''+'' then (False, r) else (False, s))"

definition Atoi :: "string \<Rightarrow> int64 \<times> bool" where
  "Atoi s =
     (let (neg, ds) = unsigned_digits s; n = int (undigits ds)
      in if ds = [] \<or> \<not> list_all is_digit ds then (0, True)
         else if neg then (if 2 ^ 63 < n then (word_of_int (- (2 ^ 63)), True) else (word_of_int (- n), False))
         else if 2 ^ 63 \<le> n then (word_of_int (2 ^ 63 - 1), True)
         else (word_of_int n, False))"

section \<open>Parameters of a list\<close>

datatype operator = OpEq | OpNeq | OpLike | OpIn | OpGt | OpGte | OpLt | OpLte | OpBetween | OpUnknown

record filter_clause =
  fc_Field :: string
  fc_Value :: string
  fc_Operator :: operator
  fc_Values :: "string list"

record params =
  p_Err :: "error option"
  p_Page :: int64
  p_PageSize :: int64
  p_Filters :: "filter_clause list"
  p_Sorts :: "(string \<times> bool) list"
  p_Search :: string

abbreviation MaxPageSize :: int where "MaxPageSize \<equiv> 200"
abbreviation DefaultPageSize :: int where "DefaultPageSize \<equiv> 20"

definition Params_Offset :: "params \<Rightarrow> int64" where
  "Params_Offset p = (if sint (p_Page p) < 1 then 0 else p_Page p * p_PageSize p)"

text \<open>Go's division and remainder truncate; for a count and a size they are those of the integers.\<close>

definition TotalPages :: "params \<Rightarrow> int64 \<Rightarrow> int64" where
  "TotalPages p tally =
     (if sint (p_PageSize p) \<le> 0 then 0
      else let pages = word_of_int (sgn (sint tally) * (\<bar>sint tally\<bar> div sint (p_PageSize p)))
           in if sgn (sint tally) * (\<bar>sint tally\<bar> mod sint (p_PageSize p)) \<noteq> 0 then pages + 1 else pages)"

section \<open>The allowlist\<close>

type_synonym field_set = "(string \<times> string) list"

definition FieldSet_Resolve :: "field_set \<Rightarrow> string \<Rightarrow> string option" where
  "FieldSet_Resolve f name = map_of f name"

definition orderFieldSet :: field_set where
  "orderFieldSet =
     [(''orderNumber'', ''order_number''), (''statusCode'', ''status_code''), (''orderKind'', ''order_kind''),
      (''pickupAt'', ''pickup_at''), (''deliveryAt'', ''delivery_at''), (''createdAt'', ''created_at''),
      (''price'', ''price''), (''referenceNumber'', ''reference_number''), (''customerId'', ''customer_id''),
      (''truckId'', ''truck_id''), (''agreementId'', ''agreement_id'')]"

definition agreementFieldSet :: field_set where
  "agreementFieldSet =
     [(''agreementNumber'', ''agreement_number''), (''statusCode'', ''status_code''), (''verified'', ''verified''),
      (''validFrom'', ''valid_from''), (''validUntil'', ''valid_until''), (''createdAt'', ''created_at'')]"

definition invoiceFieldSet :: field_set where
  "invoiceFieldSet =
     [(''invoiceNumber'', ''invoice_number''), (''statusCode'', ''status_code''), (''issuedAt'', ''issued_at''),
      (''dueAt'', ''due_at''), (''paidAt'', ''paid_at''), (''total'', ''total''), (''createdAt'', ''created_at'')]"

section \<open>Filters and sorts of a request\<close>

text \<open>An item of the list as the client sent it; the value may be absent.\<close>

record raw_filter =
  rf_ID :: string
  rf_Value :: "json option"
  rf_Operator :: string
  rf_Type :: string

text \<open>\<open>encoding/json\<close> on the two lists, and \<open>strconv.FormatFloat(f, 'f', -1, 64)\<close>.\<close>

record decoder =
  jd_filters :: "string \<Rightarrow> raw_filter list option"
  jd_sorts :: "string \<Rightarrow> (string \<times> bool) list option"
  jd_float :: "rat \<Rightarrow> string"

definition scalar_text :: "decoder \<Rightarrow> json \<Rightarrow> string option" where
  "scalar_text J v = (case v of JStr s \<Rightarrow> Some s | JNum r \<Rightarrow> Some (jd_float J r)
     | JBool b \<Rightarrow> Some (if b then ''true'' else ''false'') | _ \<Rightarrow> None)"

text \<open>\<open>UnmarshalJSON\<close>: a scalar or an array; of an array what is no scalar is skipped.\<close>

definition filter_value :: "decoder \<Rightarrow> json option \<Rightarrow> string list option" where
  "filter_value J v = (case v of
     None \<Rightarrow> Some []
   | Some JNull \<Rightarrow> Some []
   | Some (JArr items) \<Rightarrow> Some (List.map_filter (scalar_text J) items)
   | Some (JObj _) \<Rightarrow> None
   | Some x \<Rightarrow> map_option (\<lambda>s. [s]) (scalar_text J x))"

definition value_scalar :: "string list \<Rightarrow> string" where
  "value_scalar vs = (case vs of [] \<Rightarrow> [] | v # _ \<Rightarrow> v)"

fun split_commas :: "string \<Rightarrow> string list" where
  "split_commas [] = [[]]"
| "split_commas (c # cs) =
     (if c = CHR '','' then [] # split_commas cs
      else case split_commas cs of [] \<Rightarrow> [[c]] | p # ps \<Rightarrow> (c # p) # ps)"

definition value_list :: "string list \<Rightarrow> string list" where
  "value_list vs = (case vs of
     [v] \<Rightarrow> if CHR '','' \<in> set v then filter (\<lambda>t. t \<noteq> []) (map trim_space (split_commas v)) else vs
   | _ \<Rightarrow> vs)"

text \<open>
  \<open>strings.ToLower\<close>, for comparison with ASCII: U+212A and U+0130, spelled in UTF-8, become k and i.
\<close>

fun to_lower :: "string \<Rightarrow> string" where
  "to_lower [] = []"
| "to_lower (c # cs) =
     (if c = CHR 0xC4 \<and> take 1 cs = [CHR 0xB0] then CHR ''i'' # to_lower (drop 1 cs)
      else if c = CHR 0xE2 \<and> take 2 cs = [CHR 0x84, CHR 0xAA] then CHR ''k'' # to_lower (drop 2 cs)
      else lower_char c # to_lower cs)"

definition normaliseOperator :: "string \<Rightarrow> operator" where
  "normaliseOperator s =
     (let l = to_lower s
      in if l \<in> {''neq'', ''ne'', ''!=''} then OpNeq
         else if l \<in> {''like'', ''contains''} then OpLike
         else if l = ''in'' then OpIn
         else if l \<in> {''gt'', ''>''} then OpGt
         else if l \<in> {''gte'', ''>=''} then OpGte
         else if l \<in> {''lt'', ''<''} then OpLt
         else if l \<in> {''lte'', ''<=''} then OpLte
         else if l = ''between'' then OpBetween
         else if l \<in> {''regex'', ''match''} then OpLike
         else if l \<in> {[], ''eq'', ''equal'', ''equals'', ''='', ''=='', ''is''} then OpEq
         else OpUnknown)"

definition firstNonEmpty :: "string list \<Rightarrow> string" where
  "firstNonEmpty vs = (case find (\<lambda>v. v \<noteq> []) vs of None \<Rightarrow> [] | Some v \<Rightarrow> v)"

definition parse_filter :: "field_set \<Rightarrow> raw_filter \<times> string list \<Rightarrow> filter_clause result" where
  "parse_filter allowed = (\<lambda>(it, vs).
     case FieldSet_Resolve allowed (rf_ID it) of
       None \<Rightarrow> Inl (Err ErrValidation ''query: cannot be filtered on'')
     | Some col \<Rightarrow>
         (let operator = normaliseOperator (firstNonEmpty [rf_Operator it, rf_Type it])
          in if operator = OpUnknown then Inl (Err ErrValidation ''query: is not a filter operator'')
             else if operator = OpIn \<and> value_list vs = [] then Inl (Err ErrValidation ''query: an `in` filter needs at least one value'')
             else Inr \<lparr>fc_Field = col, fc_Value = value_scalar vs, fc_Operator = operator, fc_Values = value_list vs\<rparr>))"

fun all_results :: "('a \<Rightarrow> 'b result) \<Rightarrow> 'a list \<Rightarrow> 'b list result" where
  "all_results f [] = Inr []"
| "all_results f (x # xs) = (case f x of Inl e \<Rightarrow> Inl e
     | Inr y \<Rightarrow> (case all_results f xs of Inl e \<Rightarrow> Inl e | Inr ys \<Rightarrow> Inr (y # ys)))"

text \<open>The values are decoded with the list: one that is an object fails it.\<close>

definition parseFilters :: "decoder \<Rightarrow> string \<Rightarrow> field_set \<Rightarrow> filter_clause list result" where
  "parseFilters J raw allowed =
     (if raw = [] then Inr []
      else case Option.bind (jd_filters J raw) (\<lambda>items. those (map (\<lambda>it. map_option (Pair it) (filter_value J (rf_Value it))) items)) of
        None \<Rightarrow> Inl (Err ErrValidation ''query: `filtered` is not a valid filter list'')
      | Some items \<Rightarrow> all_results (parse_filter allowed) items)"

definition parse_sort :: "field_set \<Rightarrow> string \<times> bool \<Rightarrow> (string \<times> bool) result" where
  "parse_sort allowed = (\<lambda>(name, descending). case FieldSet_Resolve allowed name of
     None \<Rightarrow> Inl (Err ErrValidation ''query: cannot be sorted on'') | Some col \<Rightarrow> Inr (col, descending))"

definition parseSorts :: "decoder \<Rightarrow> string \<Rightarrow> field_set \<Rightarrow> (string \<times> bool) list result" where
  "parseSorts J raw allowed =
     (if raw = [] then Inr []
      else case jd_sorts J raw of
        None \<Rightarrow> Inl (Err ErrValidation ''query: `sorted` is not a valid sort list'')
      | Some items \<Rightarrow> all_results (parse_sort allowed) items)"

record list_request =
  lr_page :: string
  lr_pageSize :: string
  lr_filtered :: string
  lr_sorted :: string
  lr_search :: string

definition parsed_page :: "string \<Rightarrow> int64" where
  "parsed_page s = (let page = fst (Atoi s) in if sint page < 0 then 0 else page)"

definition parsed_size :: "string \<Rightarrow> int64" where
  "parsed_size s =
     (let (sz, err) = Atoi s; sz = (if err \<or> sint sz \<le> 0 then word_of_int DefaultPageSize else sz)
      in if MaxPageSize < sint sz then word_of_int MaxPageSize else sz)"

definition Query_Parse :: "decoder \<Rightarrow> list_request \<Rightarrow> field_set \<Rightarrow> params" where
  "Query_Parse J r allowed =
     (let p = \<lparr>p_Err = None, p_Page = parsed_page (lr_page r), p_PageSize = parsed_size (lr_pageSize r),
            p_Filters = [], p_Sorts = [], p_Search = trim_space (lr_search r)\<rparr>
      in case parseFilters J (lr_filtered r) allowed of
           Inl e \<Rightarrow> p\<lparr>p_Err := Some e\<rparr>
         | Inr filters \<Rightarrow> (case parseSorts J (lr_sorted r) allowed of
             Inl e \<Rightarrow> p\<lparr>p_Err := Some e\<rparr>
           | Inr sorts \<Rightarrow> p\<lparr>p_Filters := filters, p_Sorts := sorts\<rparr>))"

text \<open>A gRPC query: the page and size, filters with the operator's number, sorts, search.\<close>

record proto_query =
  pq_Page :: "(int32 \<times> int32) option"
  pq_Filtered :: "(string \<times> string \<times> int32) list"
  pq_Sorted :: "(string \<times> bool) list"
  pq_Search :: string

definition operatorFromProto :: "int32 \<Rightarrow> operator" where
  "operatorFromProto n = (if n = 2 then OpNeq else if n = 3 then OpLike else if n = 4 then OpIn else if n = 5 then OpGt
     else if n = 6 then OpGte else if n = 7 then OpLt else if n = 8 then OpLte else if n = 9 then OpBetween else OpEq)"

definition FromProto :: "proto_query option \<Rightarrow> field_set \<Rightarrow> params" where
  "FromProto q allowed =
     (let p = \<lparr>p_Err = None, p_Page = 0, p_PageSize = word_of_int DefaultPageSize, p_Filters = [], p_Sorts = [], p_Search = []\<rparr>
      in case q of None \<Rightarrow> p
         | Some q \<Rightarrow> p\<lparr>
             p_Page := (case pq_Page q of None \<Rightarrow> 0 | Some (n, _) \<Rightarrow> if sint n < 0 then 0 else word_of_int (sint n)),
             p_PageSize := (case pq_Page q of None \<Rightarrow> word_of_int DefaultPageSize
               | Some (_, sz) \<Rightarrow> if 0 < sint sz then word_of_int (min (sint sz) MaxPageSize) else word_of_int DefaultPageSize),
             p_Filters := List.map_filter (\<lambda>(name, v, n). map_option (\<lambda>col.
               \<lparr>fc_Field = col, fc_Value = v, fc_Operator = operatorFromProto n, fc_Values = []\<rparr>) (FieldSet_Resolve allowed name)) (pq_Filtered q),
             p_Sorts := List.map_filter (\<lambda>(name, descending). map_option (\<lambda>col. (col, descending)) (FieldSet_Resolve allowed name)) (pq_Sorted q),
             p_Search := trim_space (pq_Search q)\<rparr>)"

record page_info =
  pi_Page :: int32
  pi_PageSize :: int32
  pi_TotalRows :: int64
  pi_TotalPages :: int32

definition PageInfo :: "params \<Rightarrow> int64 \<Rightarrow> page_info" where
  "PageInfo p tally = \<lparr>pi_Page = NonNegativeInt32 (p_Page p), pi_PageSize = NonNegativeInt32 (p_PageSize p),
     pi_TotalRows = tally, pi_TotalPages = NonNegativeInt32 (TotalPages p tally)\<rparr>"

section \<open>From parameters to SQL\<close>

datatype sql_cond = SqlEq string string | SqlNeq string string | SqlILike string string | SqlIn string "string list"
  | SqlGt string string | SqlGte string string | SqlLt string string | SqlLte string string
  | SqlBetween string string string

fun quote_inner :: "string \<Rightarrow> string" where
  "quote_inner [] = []"
| "quote_inner (c # cs) = (if c = CHR 0x22 then [c, c] else [c]) @ quote_inner cs"

definition quoteIdent :: "string \<Rightarrow> string" where
  "quoteIdent s = CHR 0x22 # quote_inner s @ [CHR 0x22]"

text \<open>A BETWEEN whose value is not two bounds with a comma is left out.\<close>

definition filter_cond :: "filter_clause \<Rightarrow> sql_cond option" where
  "filter_cond f =
     (let col = quoteIdent (fc_Field f); v = fc_Value f
      in case fc_Operator f of
           OpNeq \<Rightarrow> Some (SqlNeq col v)
         | OpLike \<Rightarrow> Some (SqlILike col (''%'' @ v @ ''%''))
         | OpIn \<Rightarrow> Some (SqlIn col (fc_Values f))
         | OpGt \<Rightarrow> Some (SqlGt col v) | OpGte \<Rightarrow> Some (SqlGte col v)
         | OpLt \<Rightarrow> Some (SqlLt col v) | OpLte \<Rightarrow> Some (SqlLte col v)
         | OpBetween \<Rightarrow> if CHR '','' \<in> set v
             then Some (SqlBetween col (takeWhile (\<lambda>c. c \<noteq> CHR '','') v) (drop 1 (dropWhile (\<lambda>c. c \<noteq> CHR '','') v))) else None
         | _ \<Rightarrow> Some (SqlEq col v))"

definition applyFilters :: "params \<Rightarrow> sql_cond list" where
  "applyFilters p = List.map_filter filter_cond (p_Filters p)"

definition applySorts :: "params \<Rightarrow> string \<Rightarrow> string list" where
  "applySorts p fallback =
     (if p_Sorts p = [] then [fallback]
      else map (\<lambda>(col, descending). quoteIdent col @ (if descending then '' DESC'' else '' ASC'')) (p_Sorts p))"

text \<open>
  The database: which conditions it can evaluate at all, which hold of a row, where an ORDER BY item
  places a row, and the two statements that may fail. Rows an order does not tell apart keep the
  order of the table; the database promises nothing of them.
\<close>

record 'r sql =
  sql_casts :: "sql_cond \<Rightarrow> bool"
  sql_holds :: "sql_cond \<Rightarrow> 'r \<Rightarrow> bool"
  sql_rank :: "string \<Rightarrow> 'r \<Rightarrow> int"
  sql_count_down :: bool
  sql_list_down :: bool

definition order_by :: "'r sql \<Rightarrow> string list \<Rightarrow> 'r list \<Rightarrow> 'r list" where
  "order_by Q items rows = fold (\<lambda>i. sort_key (sql_rank Q i)) (rev items) rows"

text \<open>An OFFSET that is not positive is not written.\<close>

definition page_rows :: "params \<Rightarrow> 'r list \<Rightarrow> 'r list" where
  "page_rows p rows = take (nat (sint (p_PageSize p))) (drop (nat (sint (Params_Offset p))) rows)"

definition listed ::
  "'r sql \<Rightarrow> ('r \<Rightarrow> bool) \<Rightarrow> sql_cond list \<Rightarrow> sql_cond list \<Rightarrow> string \<Rightarrow> params \<Rightarrow> 'r list \<Rightarrow> ('r list \<times> int64) result" where
  "listed Q scope conds search fallback p table =
     (if sql_count_down Q \<or> \<not> list_all (sql_casts Q) (conds @ search) then Inl (Err ErrStore ''repository: count'')
      else let rows = filter (\<lambda>r. scope r \<and> list_all (\<lambda>c. sql_holds Q c r) conds \<and>
               (search = [] \<or> list_ex (\<lambda>c. sql_holds Q c r) search)) table
           in if sql_list_down Q then Inl (Err ErrStore ''repository: list'')
              else Inr (page_rows p (order_by Q (applySorts p fallback) rows), word_of_int (int (length rows))))"

definition Orders_List :: "order sql \<Rightarrow> uuid \<Rightarrow> params \<Rightarrow> (db, order list \<times> int64) op" where
  "Orders_List Q companyID p = query (\<lambda>d.
     listed Q (\<lambda>r. o_ShipperCompanyID r = companyID \<or> o_TransporterCompanyID r = Some companyID) (applyFilters p)
       (if p_Search p = [] then []
        else [SqlILike ''order_number'' (''%'' @ p_Search p @ ''%''), SqlILike ''reference_number'' (''%'' @ p_Search p @ ''%'')])
       ''created_at DESC'' p (db_orders d))"

definition Orders_ListForDriver :: "order sql \<Rightarrow> uuid \<Rightarrow> params \<Rightarrow> (db, order list \<times> int64) op" where
  "Orders_ListForDriver Q driverID p = query (\<lambda>d.
     listed Q (\<lambda>r. o_DriverUserID r = Some driverID) (applyFilters p) [] ''pickup_at ASC NULLS LAST'' p (db_orders d))"

definition Agreements_List :: "agreement sql \<Rightarrow> uuid \<Rightarrow> params \<Rightarrow> (db, agreement list \<times> int64) op" where
  "Agreements_List Q companyID p = query (\<lambda>d.
     listed Q (\<lambda>a. ag_ShipperCompanyID a = companyID \<or> ag_TransporterCompanyID a = companyID) (applyFilters p) []
       ''created_at DESC'' p (db_agreements d))"

definition Invoices_List :: "invoice sql \<Rightarrow> uuid \<Rightarrow> params \<Rightarrow> (db, invoice list \<times> int64) op" where
  "Invoices_List Q companyID p = query (\<lambda>d.
     listed Q (\<lambda>v. iv_ShipperCompanyID v = companyID \<or> iv_TransporterCompanyID v = companyID) (applyFilters p) []
       ''created_at DESC'' p (db_invoices d))"

section \<open>The lists of the API\<close>

text \<open>The names added to the rows for display are left out.\<close>

definition OrderService_List :: "order sql \<Rightarrow> actor \<Rightarrow> params \<Rightarrow> (db, order list \<times> int64) op" where
  "OrderService_List Q actor p =
     (if a_Role actor = RoleDriver then Orders_ListForDriver Q (a_UserID actor) p else Orders_List Q (a_CompanyID actor) p)"

record meta =
  me_Page :: int64
  me_Limit :: int64
  me_TotalRows :: int64
  me_TotalPages :: int64

definition list_meta :: "params \<Rightarrow> int64 \<Rightarrow> meta" where
  "list_meta p tally = \<lparr>me_Page = p_Page p, me_Limit = p_PageSize p, me_TotalRows = tally, me_TotalPages = TotalPages p tally\<rparr>"

definition paginated ::
  "actor result \<Rightarrow> params \<Rightarrow> (actor \<Rightarrow> params \<Rightarrow> (db, 'r list \<times> int64) op) \<Rightarrow> (db, 'r list \<times> meta) op" where
  "paginated who p lister =
     andThen (from_result who) (\<lambda>actor.
     andThen (from_result (case p_Err p of Some e \<Rightarrow> Inl e | None \<Rightarrow> Inr ())) (\<lambda>_.
     andThen (lister actor p) (\<lambda>(rows, tally). ok (rows, list_meta p tally))))"

definition OrderHandler_List :: "decoder \<Rightarrow> order sql \<Rightarrow> actor result \<Rightarrow> list_request \<Rightarrow> (db, order list \<times> meta) op" where
  "OrderHandler_List J Q who r = paginated who (Query_Parse J r orderFieldSet) (OrderService_List Q)"

definition BillingHandler_ListAgreements ::
  "decoder \<Rightarrow> agreement sql \<Rightarrow> actor result \<Rightarrow> list_request \<Rightarrow> (db, agreement list \<times> meta) op" where
  "BillingHandler_ListAgreements J Q who r =
     paginated who (Query_Parse J r agreementFieldSet) (\<lambda>actor. Agreements_List Q (a_CompanyID actor))"

definition BillingHandler_ListInvoices ::
  "decoder \<Rightarrow> invoice sql \<Rightarrow> actor result \<Rightarrow> list_request \<Rightarrow> (db, invoice list \<times> meta) op" where
  "BillingHandler_ListInvoices J Q who r =
     paginated who (Query_Parse J r invoiceFieldSet) (\<lambda>actor. Invoices_List Q (a_CompanyID actor))"

text \<open>The gRPC list: the company of the request, which must be an id.\<close>

definition Server_ListOrders ::
  "order sql \<Rightarrow> uuid option \<Rightarrow> proto_query option \<Rightarrow> (db, order list \<times> page_info) op" where
  "Server_ListOrders Q company q =
     (case company of
        None \<Rightarrow> fail (Err ErrValidation ''company_id is required and must be a UUID'')
      | Some companyID \<Rightarrow>
          (let p = FromProto q orderFieldSet
           in andThen (Orders_List Q companyID p) (\<lambda>(rows, tally). ok (rows, PageInfo p tally))))"

section \<open>Facts\<close>

text \<open>Every column a client can name is one of these.\<close>

definition allowed_columns :: "field_set \<Rightarrow> string set" where
  "allowed_columns allowed = snd ` set allowed"

definition confined :: "field_set \<Rightarrow> params \<Rightarrow> bool" where
  "confined allowed p \<longleftrightarrow>
     0 \<le> sint (p_Page p) \<and> 1 \<le> sint (p_PageSize p) \<and> sint (p_PageSize p) \<le> MaxPageSize \<and>
     (\<forall>f\<in>set (p_Filters p). fc_Field f \<in> allowed_columns allowed) \<and>
     (\<forall>s\<in>set (p_Sorts p). fst s \<in> allowed_columns allowed)"

lemma sint_small: "- (2 ^ 63) \<le> n \<Longrightarrow> n < 2 ^ 63 \<Longrightarrow> sint (word_of_int n :: int64) = n"
  by (simp add: sint_sbintrunc' signed_take_bit_int_eq_self)

lemma sint_small32: "- (2 ^ 31) \<le> n \<Longrightarrow> n < 2 ^ 31 \<Longrightarrow> sint (word_of_int n :: int32) = n"
  by (simp add: sint_sbintrunc' signed_take_bit_int_eq_self)

lemma Resolve_allowed: "FieldSet_Resolve allowed name = Some col \<Longrightarrow> col \<in> allowed_columns allowed"
  by (force simp: FieldSet_Resolve_def allowed_columns_def dest: map_of_SomeD)

lemma all_results_member: "all_results f xs = Inr ys \<Longrightarrow> y \<in> set ys \<Longrightarrow> \<exists>x\<in>set xs. f x = Inr y"
  by (induction xs arbitrary: ys) (auto split: sum.splits)

lemma parse_filter_Inr:
  "parse_filter allowed it = Inr f \<Longrightarrow>
     fc_Field f \<in> allowed_columns allowed \<and> fc_Operator f \<noteq> OpUnknown \<and> (fc_Operator f = OpIn \<longrightarrow> fc_Values f \<noteq> [])"
  by (auto simp: parse_filter_def Let_def split: prod.splits option.splits if_splits dest: Resolve_allowed)

lemma parseFilters_member:
  assumes "parseFilters J raw allowed = Inr fs" "f \<in> set fs"
  shows "fc_Field f \<in> allowed_columns allowed \<and> fc_Operator f \<noteq> OpUnknown \<and> (fc_Operator f = OpIn \<longrightarrow> fc_Values f \<noteq> [])"
  using assms by (auto simp: parseFilters_def split: if_splits option.splits dest!: all_results_member dest: parse_filter_Inr)

lemma parse_sort_Inr: "parse_sort allowed y = Inr x \<Longrightarrow> fst x \<in> allowed_columns allowed"
  by (cases y) (auto simp: parse_sort_def split: option.splits intro: Resolve_allowed)

lemma parseSorts_member:
  "parseSorts J raw allowed = Inr ss \<Longrightarrow> x \<in> set ss \<Longrightarrow> fst x \<in> allowed_columns allowed"
  unfolding parseSorts_def
  by (auto simp del: prod.collapse split: if_splits option.splits dest!: all_results_member parse_sort_Inr)

lemma parsed_page_bounds: "0 \<le> sint (parsed_page s)"
  by (simp add: parsed_page_def Let_def)

lemma parsed_size_bounds: "1 \<le> sint (parsed_size s)" "sint (parsed_size s) \<le> MaxPageSize"
  by (auto simp: parsed_size_def Let_def sint_small split: prod.splits)

lemma Parse_confined: "confined allowed (Query_Parse J r allowed)"
  unfolding confined_def Query_Parse_def Let_def
  by (auto simp: parsed_page_bounds parsed_size_bounds split: sum.splits dest: parseFilters_member parseSorts_member)

lemma FromProto_confined: "confined allowed (FromProto q allowed)"
proof (cases q)
  case None
  then show ?thesis by (simp add: FromProto_def confined_def Let_def sint_small)
next
  case (Some q)
  have small: "sint (n :: int32) < 2147483648" for n using sint_lt [of n] by simp
  have "sint (word_of_int (sint n) :: int64) = sint (n :: int32)" if "0 \<le> sint n" for n
    using small [of n] that by (intro sint_small) simp_all
  then show ?thesis
    using Some
    by (auto simp: FromProto_def confined_def Let_def sint_small map_filter_def split: option.splits prod.splits if_splits
      dest: Resolve_allowed)
qed

text \<open>A quoted identifier reads back as the identifier: nothing in it ends it early.\<close>

fun read_ident :: "string \<Rightarrow> (string \<times> string) option" where
  "read_ident [] = None"
| "read_ident (c # cs) =
     (if c \<noteq> CHR 0x22 then map_option (\<lambda>(s, r). (c # s, r)) (read_ident cs)
      else if take 1 cs = [CHR 0x22] then map_option (\<lambda>(s, r). (c # s, r)) (read_ident (drop 1 cs))
      else Some ([], cs))"

lemma read_quoted:
  "take 1 rest \<noteq> [CHR 0x22] \<Longrightarrow> read_ident (quote_inner s @ CHR 0x22 # rest) = Some (s, rest)"
  by (induction s) auto

section \<open>Pages\<close>

lemma Params_Offset_small:
  assumes "0 \<le> sint (p_Page p)" "0 \<le> sint (p_PageSize p)" "sint (p_Page p) * sint (p_PageSize p) < 2 ^ 63"
  shows "sint (Params_Offset p) = sint (p_Page p) * sint (p_PageSize p)"
proof (cases "sint (p_Page p) < 1")
  case True
  with assms have "sint (p_Page p) = 0" by simp
  with True show ?thesis by (simp add: Params_Offset_def)
next
  case False
  have "p_Page p * p_PageSize p = word_of_int (sint (p_Page p) * sint (p_PageSize p))"
    by (simp add: wi_hom_mult [symmetric])
  moreover have "sint (word_of_int (sint (p_Page p) * sint (p_PageSize p)) :: int64) = sint (p_Page p) * sint (p_PageSize p)"
    using assms by (intro sint_small) (auto intro: order_trans [OF _ mult_nonneg_nonneg])
  ultimately show ?thesis using False by (simp only: Params_Offset_def if_False)
qed

lemma quotient_pages:
  fixes t s q r :: int
  assumes "t = q * s + r" "0 \<le> r" "r < s"
  shows "t \<le> (if r = 0 then q else q + 1) * s" "(if r = 0 then q else q + 1) * s < t + s"
  using assms by (auto simp: distrib_right)

text \<open>There are as many pages as it takes: the last one has a row.\<close>

lemma TotalPages_enough:
  assumes "1 \<le> sint (p_PageSize p)" "0 \<le> sint n" "sint n < 2 ^ 62"
  shows "0 \<le> sint (TotalPages p n)" "sint n \<le> sint (TotalPages p n) * sint (p_PageSize p)"
    "sint (TotalPages p n) * sint (p_PageSize p) < sint n + sint (p_PageSize p)"
proof -
  let ?t = "sint n" and ?s = "sint (p_PageSize p)"
  let ?q = "?t div ?s" and ?r = "?t mod ?s"
  have q: "0 \<le> ?q" using assms by (simp add: pos_imp_zdiv_nonneg_iff)
  have "?q \<le> ?t" using assms by (metis div_by_1 zdiv_mono2 zero_less_one)
  then have big: "?q < 2 ^ 62" using assms(3) by simp
  have r: "0 \<le> ?r" "?r < ?s" using assms(1) by simp_all
  have t: "?t = ?q * ?s + ?r" by simp
  have sgn: "sgn ?t * (\<bar>?t\<bar> div ?s) = ?q" "sgn ?t * (\<bar>?t\<bar> mod ?s) = ?r"
    using assms(2) by (cases "?t = 0"; simp)+
  have "TotalPages p n = word_of_int (if ?r = 0 then ?q else ?q + 1)"
    using assms(1) unfolding TotalPages_def Let_def sgn by simp
  then have k: "sint (TotalPages p n) = (if ?r = 0 then ?q else ?q + 1)"
    using q big by (simp add: sint_small)
  show "0 \<le> sint (TotalPages p n)" using q by (simp add: k)
  show "?t \<le> sint (TotalPages p n) * ?s" "sint (TotalPages p n) * ?s < ?t + ?s"
    unfolding k by (rule quotient_pages [OF t r])+
qed

lemma pages_of_rows: "concat (map (\<lambda>i. take s (drop (i * s) rows)) [0..<k]) = take (k * s) rows"
proof (induction k)
  case (Suc k)
  have "take (Suc k * s) rows = take (k * s) rows @ take s (drop (k * s) rows)"
    using take_add [of "k * s" s rows] by (simp add: add.commute)
  with Suc show ?case by simp
qed simp

lemma pages_cover_rows:
  assumes "1 \<le> sint (p_PageSize p)" "sint (p_PageSize p) \<le> MaxPageSize" "length rows < 2 ^ 62"
  shows "concat (map (\<lambda>i. page_rows (p\<lparr>p_Page := word_of_int (int i)\<rparr>) rows)
      [0..<nat (sint (TotalPages p (word_of_int (int (length rows)))))]) = rows"
proof -
  let ?n = "word_of_int (int (length rows)) :: int64" and ?s = "nat (sint (p_PageSize p))"
  let ?k = "nat (sint (TotalPages p ?n))"
  have small: "int (length rows) < 2 ^ 62" using assms(3) by simp
  then have n: "sint ?n = int (length rows)" by (intro sint_small) simp_all
  have e: "0 \<le> sint (TotalPages p ?n)" "int (length rows) \<le> sint (TotalPages p ?n) * sint (p_PageSize p)"
      "sint (TotalPages p ?n) * sint (p_PageSize p) < int (length rows) + sint (p_PageSize p)"
    using TotalPages_enough [OF assms(1), of ?n] small unfolding n by (simp_all del: of_int_of_nat_eq)
  have s: "int ?s = sint (p_PageSize p)" using assms(1) by simp
  have "page_rows (p\<lparr>p_Page := word_of_int (int i)\<rparr>) rows = take ?s (drop (i * ?s) rows)" if "i < ?k" for i
  proof -
    let ?p = "p\<lparr>p_Page := word_of_int (int i)\<rparr>"
    have "int i * sint (p_PageSize p) \<le> sint (TotalPages p ?n) * sint (p_PageSize p)"
      using that assms(1) by (intro mult_right_mono) simp_all
    with e(3) small assms(2) have m: "int i * sint (p_PageSize p) < 2 ^ 63" by simp
    moreover have "int i * 1 \<le> int i * sint (p_PageSize p)" using assms(1) by (intro mult_left_mono) simp_all
    ultimately have i: "sint (word_of_int (int i) :: int64) = int i" by (intro sint_small) simp_all
    have "sint (Params_Offset ?p) = int i * sint (p_PageSize p)"
      using Params_Offset_small [of ?p] i m assms(1) by simp
    then have "nat (sint (Params_Offset ?p)) = i * ?s" by (simp add: nat_mult_distrib)
    then show ?thesis by (simp add: page_rows_def)
  qed
  then have "map (\<lambda>i. page_rows (p\<lparr>p_Page := word_of_int (int i)\<rparr>) rows) [0..<?k] = map (\<lambda>i. take ?s (drop (i * ?s) rows)) [0..<?k]"
    by (intro map_cong) simp_all
  then show ?thesis unfolding pages_of_rows
  proof (simp only: pages_of_rows)
    have "int (length rows) \<le> int (?k * ?s)" using e(1,2) s by simp
    then have "length rows \<le> ?k * ?s" by (simp only: of_nat_le_iff)
    then show "take (?k * ?s) rows = rows" by simp
  qed
qed

section \<open>What a list answers\<close>

lemma sorted_by_all:
  "set (fold (\<lambda>i. sort_key (f i)) items rows) = set rows \<and> length (fold (\<lambda>i. sort_key (f i)) items rows) = length rows"
  by (induction items arbitrary: rows) auto

lemma order_by_rows [simp]: "set (order_by Q items rows) = set rows" "length (order_by Q items rows) = length rows"
  by (simp_all add: order_by_def sorted_by_all)

lemma listed_Inr:
  assumes "listed Q scope conds search fallback p table = Inr (rows, tally)"
  shows "set rows \<subseteq> set (filter (\<lambda>r. scope r \<and> list_all (\<lambda>c. sql_holds Q c r) conds \<and>
            (search = [] \<or> list_ex (\<lambda>c. sql_holds Q c r) search)) table)"
    and "tally = word_of_int (int (length (filter (\<lambda>r. scope r \<and> list_all (\<lambda>c. sql_holds Q c r) conds \<and>
            (search = [] \<or> list_ex (\<lambda>c. sql_holds Q c r) search)) table)))"
    and "length rows \<le> nat (sint (p_PageSize p))"
  using assms by (auto simp: listed_def Let_def page_rows_def split: if_splits dest!: in_set_takeD in_set_dropD)

lemma Orders_List_Inr:
  assumes "Orders_List Q c p d = (Inr (rows, tally), d')"
  shows "d' = d" "length rows \<le> nat (sint (p_PageSize p))"
    "r \<in> set rows \<Longrightarrow> r \<in> set (db_orders d) \<and> (o_ShipperCompanyID r = c \<or> o_TransporterCompanyID r = Some c) \<and>
       (\<forall>q\<in>set (applyFilters p). sql_holds Q q r)"
  using assms listed_Inr [of Q] by (fastforce simp: Orders_List_def list_all_iff)+

lemma Orders_ListForDriver_Inr:
  assumes "Orders_ListForDriver Q u p d = (Inr (rows, tally), d')"
  shows "d' = d" "length rows \<le> nat (sint (p_PageSize p))"
    "r \<in> set rows \<Longrightarrow> r \<in> set (db_orders d) \<and> o_DriverUserID r = Some u \<and> (\<forall>q\<in>set (applyFilters p). sql_holds Q q r)"
  using assms listed_Inr [of Q] by (fastforce simp: Orders_ListForDriver_def list_all_iff)+

lemma paginated_Inr:
  "paginated who p lister d = (Inr (rows, m), d') \<longleftrightarrow>
     (\<exists>actor tally. who = Inr actor \<and> p_Err p = None \<and> lister actor p d = (Inr (rows, tally), d') \<and> m = list_meta p tally)"
  by (auto simp: paginated_def andThen_Inr split: option.splits prod.splits)

text \<open>A condition is dropped only where a range has no comma.\<close>

lemma filter_cond_None: "filter_cond f = None \<longleftrightarrow> fc_Operator f = OpBetween \<and> CHR '','' \<notin> set (fc_Value f)"
  by (auto simp: filter_cond_def Let_def split: operator.splits)

lemma applyFilters_each:
  "f \<in> set (p_Filters p) \<Longrightarrow> filter_cond f = Some q \<Longrightarrow> q \<in> set (applyFilters p)"
  by (force simp: applyFilters_def map_filter_def)

lemma Parse_search: "p_Search (Query_Parse J r allowed) = trim_space (lr_search r)"
  by (simp add: Query_Parse_def Let_def split: sum.split)

lemma Parse_refused:
  "p_Err (Query_Parse J r allowed) = Some e \<Longrightarrow>
     p_Filters (Query_Parse J r allowed) = [] \<and> p_Sorts (Query_Parse J r allowed) = []"
  by (auto simp: Query_Parse_def Let_def split: sum.splits)

end
