(* ===== verification/Revocation.thy ===== *)
theory Revocation
  imports Entities
begin

text \<open>
  internal/platform/revocation: the list of ended sessions and cutoffs that every service keeps, the
  durable copy in Redis it is refreshed from, and the loop that keeps the two in step. Times are
  nanoseconds.
\<close>

section \<open>The list\<close>

abbreviation KindSession :: string where "KindSession \<equiv> ''session''"
abbreviation KindUser :: string where "KindUser \<equiv> ''user''"
abbreviation KindCompany :: string where "KindCompany \<equiv> ''company''"

record revocation =
  ev_Kind :: string
  ev_ID :: string
  ev_At :: time

record revocation_list =
  rl_sessions :: "string \<rightharpoonup> time"
  rl_users :: "string \<rightharpoonup> time"
  rl_companies :: "string \<rightharpoonup> time"
  rl_degraded :: bool

definition NewList :: revocation_list where
  "NewList = \<lparr>rl_sessions = Map.empty, rl_users = Map.empty, rl_companies = Map.empty, rl_degraded = False\<rparr>"

text \<open>What a token says of itself.\<close>

record token =
  to_SessionID :: string
  to_UserID :: string
  to_CompanyID :: string
  to_IssuedAt :: time

definition before_cutoff :: "(string \<rightharpoonup> time) \<Rightarrow> string \<Rightarrow> time \<Rightarrow> bool" where
  "before_cutoff cuts i issued \<longleftrightarrow> i \<noteq> [] \<and> (case cuts i of None \<Rightarrow> False | Some c \<Rightarrow> issued < c)"

definition Revoked :: "revocation_list \<Rightarrow> token \<Rightarrow> bool" where
  "Revoked l t \<longleftrightarrow>
     (if to_SessionID t \<noteq> [] \<and> rl_sessions l (to_SessionID t) \<noteq> None then True
      else if before_cutoff (rl_users l) (to_UserID t) (to_IssuedAt t) then True
      else before_cutoff (rl_companies l) (to_CompanyID t) (to_IssuedAt t))"

text \<open>The later of two cutoffs stays.\<close>

definition later_cutoff :: "(string \<rightharpoonup> time) \<Rightarrow> string \<Rightarrow> time \<Rightarrow> (string \<rightharpoonup> time)" where
  "later_cutoff cuts i t = (case cuts i of None \<Rightarrow> cuts(i \<mapsto> t) | Some c \<Rightarrow> if c < t then cuts(i \<mapsto> t) else cuts)"

definition List_Apply :: "revocation \<Rightarrow> revocation_list \<Rightarrow> revocation_list" where
  "List_Apply e l =
     (if ev_Kind e = KindSession then l\<lparr>rl_sessions := (rl_sessions l)(ev_ID e \<mapsto> ev_At e)\<rparr>
      else if ev_Kind e = KindUser then l\<lparr>rl_users := later_cutoff (rl_users l) (ev_ID e) (ev_At e)\<rparr>
      else if ev_Kind e = KindCompany then l\<lparr>rl_companies := later_cutoff (rl_companies l) (ev_ID e) (ev_At e)\<rparr>
      else l)"

definition List_Replace :: "revocation list \<Rightarrow> revocation_list \<Rightarrow> revocation_list" where
  "List_Replace events l =
     (let fresh = fold List_Apply events NewList
      in l\<lparr>rl_sessions := rl_sessions fresh, rl_users := rl_users fresh, rl_companies := rl_companies fresh, rl_degraded := False\<rparr>)"

definition younger :: "time \<Rightarrow> (string \<rightharpoonup> time) \<Rightarrow> (string \<rightharpoonup> time)" where
  "younger cutoff m = (\<lambda>i. case m i of None \<Rightarrow> None | Some t \<Rightarrow> if t < cutoff then None else Some t)"

definition List_Prune :: "time \<Rightarrow> time \<Rightarrow> revocation_list \<Rightarrow> revocation_list" where
  "List_Prune t maxTokenLife l =
     (let cutoff = t - maxTokenLife
      in l\<lparr>rl_sessions := younger cutoff (rl_sessions l), rl_users := younger cutoff (rl_users l),
           rl_companies := younger cutoff (rl_companies l)\<rparr>)"

definition List_MarkDegraded :: "revocation_list \<Rightarrow> revocation_list" where
  "List_MarkDegraded l = l\<lparr>rl_degraded := True\<rparr>"

section \<open>The durable copy\<close>

text \<open>
  Redis: under each key a payload and when it expires. A payload is the encoded event, and one that
  does not decode, or is incomplete, is ignored; \<open>json\<close> gives the event of a payload back.
\<close>

definition revocation_key :: "revocation \<Rightarrow> string" where
  "revocation_key e = ''revoked:'' @ ev_Kind e @ '':'' @ ev_ID e"

type_synonym redis = "(string \<times> revocation \<times> time) list"

definition redis_set :: "string \<Rightarrow> revocation \<Rightarrow> time \<Rightarrow> redis \<Rightarrow> redis" where
  "redis_set k e expires r = (k, e, expires) # filter (\<lambda>x. fst x \<noteq> k) r"

text \<open>An event without a time has the time it was read at; the zero time is 0.\<close>

definition Decode :: "time \<Rightarrow> revocation \<Rightarrow> revocation option" where
  "Decode t e = (if ev_Kind e = [] \<or> ev_ID e = [] then None
     else Some (if ev_At e = 0 then e\<lparr>ev_At := t\<rparr> else e))"

text \<open>The keys that have not expired.\<close>

definition Store_All :: "time \<Rightarrow> redis \<Rightarrow> revocation list" where
  "Store_All t r = List.map_filter (\<lambda>(k, e, expires). if t < expires then Decode t e else None) r"

text \<open>
  The service: the clock, the durable copy, the announcements under way to it, and its list.
\<close>

record watcher =
  wt_now :: time
  wt_store :: redis
  wt_channel :: "revocation list"
  wt_list :: revocation_list

definition NewStore :: "time \<Rightarrow> time" where
  "NewStore maxTokenLife = (if maxTokenLife \<le> 0 then 7200000000000 else maxTokenLife)"

text \<open>
  \<open>Publish\<close>: the durable write may fail, then nothing happens; the announcement may reach this
  service or not.
\<close>

definition published :: "time \<Rightarrow> revocation \<Rightarrow> revocation" where
  "published t e = (if ev_At e = 0 then e\<lparr>ev_At := t\<rparr> else e)"

definition Store_Publish :: "time \<Rightarrow> bool \<Rightarrow> bool \<Rightarrow> revocation \<Rightarrow> watcher \<Rightarrow> watcher" where
  "Store_Publish maxTokenLife recorded announced e w =
     (let e = published (wt_now w) e
      in if \<not> recorded then w
         else w\<lparr>wt_store := redis_set (revocation_key e) e (wt_now w + maxTokenLife) (wt_store w),
                wt_channel := (if announced then wt_channel w @ [e] else wt_channel w)\<rparr>)"

definition Store_resync :: "bool \<Rightarrow> watcher \<Rightarrow> watcher" where
  "Store_resync reachable w =
     (if reachable then w\<lparr>wt_list := List_Replace (Store_All (wt_now w) (wt_store w)) (wt_list w)\<rparr>
      else w\<lparr>wt_list := List_MarkDegraded (wt_list w)\<rparr>)"

text \<open>The cases of the loop of \<open>Watch\<close>.\<close>

definition watch_message :: "watcher \<Rightarrow> watcher" where
  "watch_message w = (case wt_channel w of [] \<Rightarrow> w
     | e # es \<Rightarrow> (case Decode (wt_now w) e of
         None \<Rightarrow> w\<lparr>wt_channel := es\<rparr>
       | Some e \<Rightarrow> w\<lparr>wt_channel := es, wt_list := List_Apply e (wt_list w)\<rparr>))"

text \<open>The subscription dropped: what was under way is lost.\<close>

definition watch_closed :: "bool \<Rightarrow> watcher \<Rightarrow> watcher" where
  "watch_closed reachable w =
     Store_resync reachable (w\<lparr>wt_channel := [], wt_list := List_MarkDegraded (wt_list w)\<rparr>)"

definition watch_prune :: "time \<Rightarrow> watcher \<Rightarrow> watcher" where
  "watch_prune maxTokenLife w = w\<lparr>wt_list := List_Prune (wt_now w) maxTokenLife (wt_list w)\<rparr>"

text \<open>
  What happens, one thing after another. An event is published of the past or the present, with a
  kind and an id, and not before the cutoff already announced for the same kind and id.
\<close>

definition orderly :: "revocation \<Rightarrow> watcher \<Rightarrow> bool" where
  "orderly e w \<longleftrightarrow> ev_Kind e \<in> {KindSession, KindUser, KindCompany} \<and> ev_ID e \<noteq> [] \<and> 0 < ev_At e \<and> ev_At e \<le> wt_now w \<and>
     (\<forall>x\<in>set (wt_store w). fst x = revocation_key e \<longrightarrow> ev_At (fst (snd x)) \<le> ev_At e)"

inductive watch_step :: "time \<Rightarrow> watcher \<Rightarrow> watcher \<Rightarrow> bool" for life where
  announces: "orderly e w \<Longrightarrow> watch_step life w (Store_Publish life r a e w)"
| hears: "watch_step life w (watch_message w)"
| resyncs: "watch_step life w (Store_resync reachable w)"
| reconnects: "watch_step life w (watch_closed reachable w)"
| prunes: "watch_step life w (watch_prune life w)"
| waits: "wt_now w \<le> t \<Longrightarrow> watch_step life w (w\<lparr>wt_now := t\<rparr>)"

inductive watch_steps :: "time \<Rightarrow> watcher \<Rightarrow> watcher \<Rightarrow> bool" for life where
  watch_start: "watch_steps life w w"
| watch_more: "watch_steps life w v \<Longrightarrow> watch_step life v u \<Longrightarrow> watch_steps life w u"

definition starting :: "time \<Rightarrow> watcher" where
  "starting t = \<lparr>wt_now = t, wt_store = [], wt_channel = [], wt_list = NewList\<rparr>"

section \<open>What the list means\<close>

text \<open>An event covers a token: the specification of \<open>Revoked\<close>.\<close>

definition covers :: "revocation \<Rightarrow> token \<Rightarrow> bool" where
  "covers e t \<longleftrightarrow> ev_ID e \<noteq> [] \<and>
     (ev_Kind e = KindSession \<and> ev_ID e = to_SessionID t \<or>
      ev_Kind e = KindUser \<and> ev_ID e = to_UserID t \<and> to_IssuedAt t < ev_At e \<or>
      ev_Kind e = KindCompany \<and> ev_ID e = to_CompanyID t \<and> to_IssuedAt t < ev_At e)"

lemma before_later [simp]:
  "before_cutoff (later_cutoff cuts i c) k issued \<longleftrightarrow> before_cutoff cuts k issued \<or> (k = i \<and> i \<noteq> [] \<and> issued < c)"
  by (auto simp: before_cutoff_def later_cutoff_def split: option.splits)

lemma Revoked_Apply: "Revoked (List_Apply e l) t \<longleftrightarrow> Revoked l t \<or> covers e t"
  by (auto simp: Revoked_def List_Apply_def covers_def)

lemma Revoked_fold: "Revoked (fold List_Apply es l) t \<longleftrightarrow> Revoked l t \<or> (\<exists>e\<in>set es. covers e t)"
  by (induction es arbitrary: l) (auto simp: Revoked_Apply)

lemma Revoked_New [simp]: "\<not> Revoked NewList t"
  by (simp add: Revoked_def NewList_def before_cutoff_def)

lemma Revoked_Replace: "Revoked (List_Replace es l) t \<longleftrightarrow> (\<exists>e\<in>set es. covers e t)"
proof -
  have "Revoked (List_Replace es l) t = Revoked (fold List_Apply es NewList) t"
    by (simp add: Revoked_def List_Replace_def Let_def)
  then show ?thesis by (simp add: Revoked_fold)
qed

lemma Revoked_degraded [simp]: "Revoked (List_MarkDegraded l) t = Revoked l t"
  by (simp add: Revoked_def List_MarkDegraded_def)

section \<open>What is revoked stays revoked\<close>

abbreviation revocation_kinds :: "string set" where
  "revocation_kinds \<equiv> {KindSession, KindUser, KindCompany}"

definition rl_entry :: "revocation_list \<Rightarrow> string \<Rightarrow> string \<Rightarrow> time option" where
  "rl_entry l kind i = (if kind = KindSession then rl_sessions l i else if kind = KindUser then rl_users l i
     else if kind = KindCompany then rl_companies l i else None)"

definition about :: "string \<Rightarrow> string \<Rightarrow> revocation \<Rightarrow> bool" where
  "about kind i e \<longleftrightarrow> ev_Kind e = kind \<and> ev_ID e = i"

lemma key_about:
  "ev_Kind e \<in> revocation_kinds \<Longrightarrow> ev_Kind e' \<in> revocation_kinds \<Longrightarrow>
     revocation_key e = revocation_key e' \<longleftrightarrow> about (ev_Kind e') (ev_ID e') e"
  by (auto simp: revocation_key_def about_def)

lemma entry_Apply:
  assumes "rl_entry (List_Apply e l) kind i = Some c"
  shows "rl_entry l kind i = Some c \<or> about kind i e \<and> c = ev_At e"
  using assms by (auto simp: rl_entry_def List_Apply_def later_cutoff_def about_def split: if_splits option.splits)

lemma entry_Apply_at:
  assumes "about kind i e" "kind \<in> revocation_kinds"
  shows "\<exists>c. rl_entry (List_Apply e l) kind i = Some c \<and> (kind \<noteq> KindSession \<longrightarrow> rl_entry l kind i = Some c0 \<longrightarrow> c0 \<le> c)"
  using assms by (auto simp: rl_entry_def List_Apply_def later_cutoff_def about_def split: option.splits)

lemma entry_Apply_other: "\<not> about kind i e \<Longrightarrow> rl_entry (List_Apply e l) kind i = rl_entry l kind i"
  by (auto simp: rl_entry_def List_Apply_def later_cutoff_def about_def split: option.splits)

lemma entry_fold:
  "rl_entry (fold List_Apply es l) kind i = Some c \<Longrightarrow>
     rl_entry l kind i = Some c \<or> (\<exists>e\<in>set es. about kind i e \<and> c = ev_At e)"
  by (induction es arbitrary: l) (auto dest: entry_Apply)

lemma entry_fold_at:
  assumes "kind \<in> revocation_kinds" and "rl_entry l kind i \<noteq> None \<or> (\<exists>e\<in>set es. about kind i e)"
  shows "rl_entry (fold List_Apply es l) kind i \<noteq> None"
  using assms(2)
proof (induction es arbitrary: l)
  case (Cons e es)
  have "rl_entry (List_Apply e l) kind i \<noteq> None \<or> (\<exists>e\<in>set es. about kind i e)"
  proof (cases "about kind i e")
    case True
    from entry_Apply_at [OF this assms(1), of l] show ?thesis by auto
  qed (use Cons.prems in \<open>auto simp: entry_Apply_other\<close>)
  with Cons.IH show ?case by simp
qed simp

lemma entry_New [simp]: "rl_entry NewList kind i = None"
  by (simp add: rl_entry_def NewList_def)

lemma entry_Replace: "rl_entry (List_Replace es l) = rl_entry (fold List_Apply es NewList)"
  by (intro ext) (simp add: rl_entry_def List_Replace_def Let_def)

lemma entry_degraded [simp]: "rl_entry (List_MarkDegraded l) = rl_entry l"
  by (intro ext) (simp add: rl_entry_def List_MarkDegraded_def)

lemma entry_Prune:
  "rl_entry (List_Prune t life l) kind i = Some c \<longleftrightarrow> rl_entry l kind i = Some c \<and> t - life \<le> c"
proof -
  have "younger (t - life) m i = Some c \<longleftrightarrow> m i = Some c \<and> t - life \<le> c" for m
    by (cases "m i") (auto simp: younger_def)
  then show ?thesis by (simp add: rl_entry_def List_Prune_def Let_def)
qed

text \<open>The durable copy has something as late as every entry and every announcement.\<close>

definition recorded :: "watcher \<Rightarrow> revocation \<Rightarrow> bool" where
  "recorded w e \<longleftrightarrow> (\<exists>e' x. (revocation_key e, e', x) \<in> set (wt_store w) \<and> ev_At e \<le> ev_At e')"

definition proper_event :: "revocation \<Rightarrow> bool" where
  "proper_event e \<longleftrightarrow> ev_Kind e \<in> revocation_kinds \<and> ev_ID e \<noteq> [] \<and> 0 < ev_At e"

definition watch_sound :: "time \<Rightarrow> watcher \<Rightarrow> bool" where
  "watch_sound life w \<longleftrightarrow> distinct (map fst (wt_store w)) \<and>
     (\<forall>(k, e, x)\<in>set (wt_store w). k = revocation_key e \<and> proper_event e \<and> ev_At e + life \<le> x) \<and>
     (\<forall>e\<in>set (wt_channel w). proper_event e \<and> recorded w e) \<and>
     (\<forall>kind i c. rl_entry (wt_list w) kind i = Some c \<longrightarrow>
        (\<exists>e. proper_event e \<and> about kind i e \<and> ev_At e = c \<and> recorded w e))"

lemma Decode_proper: "proper_event e \<Longrightarrow> Decode t e = Some e"
  by (auto simp: Decode_def proper_event_def)

lemma sound_stored:
  "watch_sound life w \<Longrightarrow> (k, e, x) \<in> set (wt_store w) \<Longrightarrow> k = revocation_key e \<and> proper_event e \<and> ev_At e + life \<le> x"
  unfolding watch_sound_def by blast

lemma sound_entry:
  "watch_sound life w \<Longrightarrow> rl_entry (wt_list w) kind i = Some c \<Longrightarrow>
     \<exists>e. proper_event e \<and> about kind i e \<and> ev_At e = c \<and> recorded w e"
  unfolding watch_sound_def by blast

lemma All_sound:
  assumes "watch_sound life w"
  shows "set (Store_All t (wt_store w)) = {e. \<exists>k x. (k, e, x) \<in> set (wt_store w) \<and> t < x}"
proof -
  have member: "e \<in> set (List.map_filter f xs) \<longleftrightarrow> (\<exists>x\<in>set xs. f x = Some e)" for f :: "string \<times> revocation \<times> time \<Rightarrow> revocation option" and xs e
    by (force simp: map_filter_def)
  have read: "(case y of (k, e, expires) \<Rightarrow> if t < expires then Decode t e else None) =
      (if t < snd (snd y) then Some (fst (snd y)) else None)" if "y \<in> set (wt_store w)" for y
    using sound_stored [OF assms, of "fst y" "fst (snd y)" "snd (snd y)"] Decode_proper [of "fst (snd y)" t] that
    by (simp add: split_def)
  have "(\<exists>y\<in>set (wt_store w). (case y of (k, e, expires) \<Rightarrow> if t < expires then Decode t e else None) = Some e) \<longleftrightarrow>
      (\<exists>y\<in>set (wt_store w). t < snd (snd y) \<and> fst (snd y) = e)" for e
    using read by (intro bex_cong) auto
  then show ?thesis by (force simp: Store_All_def member)
qed

lemma stored_recorded:
  "watch_sound life w \<Longrightarrow> (k, e, x) \<in> set (wt_store w) \<Longrightarrow> proper_event e \<and> recorded w e"
  unfolding watch_sound_def recorded_def by fastforce

lemma recorded_publish:
  assumes "watch_sound life w" "proper_event e" "recorded w e" "orderly e' w"
  shows "recorded (Store_Publish life r a e' w) e"
proof -
  have p: "published (wt_now w) e' = e'" using assms(4) by (simp add: orderly_def published_def)
  obtain f x where f: "(revocation_key e, f, x) \<in> set (wt_store w)" "ev_At e \<le> ev_At f"
    using assms(3) by (auto simp: recorded_def)
  show ?thesis
  proof (cases "revocation_key e = revocation_key e'")
    case True
    with assms(4) f have "ev_At e \<le> ev_At e'" by (force simp: orderly_def)
    with True f show ?thesis by (auto simp: recorded_def Store_Publish_def redis_set_def p Let_def)
  next
    case False
    with f show ?thesis by (auto simp: recorded_def Store_Publish_def redis_set_def p Let_def)
  qed
qed

lemma recorded_same: "wt_store w' = wt_store w \<Longrightarrow> recorded w' = recorded w"
  by (intro ext) (simp add: recorded_def)

lemma sound_publish:
  assumes "watch_sound life w" "orderly e w"
  shows "watch_sound life (Store_Publish life r a e w)"
proof (cases r)
  case False
  with assms(1) show ?thesis by (simp add: Store_Publish_def Let_def)
next
  case True
  have p: "published (wt_now w) e = e" using assms(2) by (simp add: orderly_def published_def)
  have e: "proper_event e" "ev_At e \<le> wt_now w" using assms(2) by (auto simp: orderly_def proper_event_def)
  have own: "recorded (Store_Publish life r a e w) e"
    using True by (auto simp: recorded_def Store_Publish_def redis_set_def p Let_def)
  let ?w = "Store_Publish life r a e w"
  have w: "wt_store ?w = redis_set (revocation_key e) e (wt_now w + life) (wt_store w)" "wt_list ?w = wt_list w"
      "set (wt_channel ?w) \<subseteq> insert e (set (wt_channel w))"
    using True by (auto simp: Store_Publish_def Let_def p)
  have keep: "recorded ?w g" if "proper_event g" "recorded w g" for g
    using assms that by (intro recorded_publish)
  show ?thesis
    unfolding watch_sound_def
  proof (intro conjI)
    show "distinct (map fst (wt_store ?w))"
      using assms(1) by (auto simp: w watch_sound_def redis_set_def distinct_map inj_on_def)
    show "\<forall>(k, e, x)\<in>set (wt_store ?w). k = revocation_key e \<and> proper_event e \<and> ev_At e + life \<le> x"
      using assms(1) e by (auto simp: w watch_sound_def redis_set_def)
    show "\<forall>e\<in>set (wt_channel ?w). proper_event e \<and> recorded ?w e"
      using assms(1) e(1) own w(3) keep unfolding watch_sound_def by blast
    show "\<forall>kind i c. rl_entry (wt_list ?w) kind i = Some c \<longrightarrow>
        (\<exists>e. proper_event e \<and> about kind i e \<and> ev_At e = c \<and> recorded ?w e)"
      using assms(1) keep unfolding w(2) watch_sound_def by blast
  qed
qed

lemma sound_list:
  assumes "watch_sound life w" "wt_store w' = wt_store w" "set (wt_channel w') \<subseteq> set (wt_channel w)"
    and "\<And>kind i c. rl_entry (wt_list w') kind i = Some c \<Longrightarrow>
      rl_entry (wt_list w) kind i = Some c \<or> (\<exists>e. about kind i e \<and> ev_At e = c \<and> proper_event e \<and> recorded w e)"
  shows "watch_sound life w'"
proof -
  have r: "recorded w' = recorded w" using assms(2) by (rule recorded_same)
  show ?thesis
    unfolding watch_sound_def r assms(2)
  proof (intro conjI allI impI)
    fix kind i c assume "rl_entry (wt_list w') kind i = Some c"
    from assms(4) [OF this] show "\<exists>e. proper_event e \<and> about kind i e \<and> ev_At e = c \<and> recorded w e"
      using assms(1) unfolding watch_sound_def by blast
  qed (use assms(1,3) in \<open>auto simp: watch_sound_def\<close>)
qed

lemma sound_resync:
  assumes s: "watch_sound life w"
  shows "watch_sound life (Store_resync reachable w)"
proof (rule sound_list [OF s])
  fix kind i c assume entry: "rl_entry (wt_list (Store_resync reachable w)) kind i = Some c"
  show "rl_entry (wt_list w) kind i = Some c \<or> (\<exists>e. about kind i e \<and> ev_At e = c \<and> proper_event e \<and> recorded w e)"
  proof (cases reachable)
    case True
    with entry have "rl_entry (fold List_Apply (Store_All (wt_now w) (wt_store w)) NewList) kind i = Some c"
      by (simp add: Store_resync_def entry_Replace)
    from entry_fold [OF this] obtain e k x where "about kind i e" "c = ev_At e" "(k, e, x) \<in> set (wt_store w)"
      by (auto simp: All_sound [OF s])
    then show ?thesis using stored_recorded [OF s] by blast
  qed (use entry in \<open>simp add: Store_resync_def\<close>)
qed (simp_all add: Store_resync_def)

lemma sound_closed: "watch_sound life w \<Longrightarrow> watch_sound life (watch_closed reachable w)"
  unfolding watch_closed_def by (rule sound_resync, erule sound_list) simp_all

lemma sound_message: "watch_sound life w \<Longrightarrow> watch_sound life (watch_message w)"
proof (cases "wt_channel w")
  case (Cons e es)
  assume s: "watch_sound life w"
  with Cons have e: "proper_event e" "recorded w e" by (auto simp: watch_sound_def)
  then have m: "watch_message w = w\<lparr>wt_channel := es, wt_list := List_Apply e (wt_list w)\<rparr>"
    by (simp add: watch_message_def Cons Decode_proper)
  from s show ?thesis unfolding m
    by (rule sound_list) (use Cons e in \<open>auto dest!: entry_Apply\<close>)
qed (simp add: watch_message_def)

lemma sound_step: "watch_step life w w' \<Longrightarrow> watch_sound life w \<Longrightarrow> watch_sound life w'"
proof (induction rule: watch_step.induct)
  case (prunes w)
  then show ?case by (elim sound_list) (simp_all add: watch_prune_def entry_Prune)
next
  case (waits w t)
  then show ?case by (elim sound_list) simp_all
qed (simp_all add: sound_publish sound_message sound_resync sound_closed)

lemma sound_starting: "watch_sound life (starting t)"
  by (simp add: watch_sound_def starting_def)

lemma sound_steps: "watch_steps life w w' \<Longrightarrow> watch_sound life w \<Longrightarrow> watch_sound life w'"
  by (induction rule: watch_steps.induct) (auto intro: sound_step)

lemma later_step: "watch_step life w w' \<Longrightarrow> wt_now w \<le> wt_now w'"
  by (induction rule: watch_step.induct)
     (auto simp: Store_Publish_def watch_message_def Store_resync_def watch_closed_def watch_prune_def Let_def
       split: list.split option.split)

lemma later_steps: "watch_steps life w w' \<Longrightarrow> wt_now w \<le> wt_now w'"
  by (induction rule: watch_steps.induct) (auto dest: later_step)

text \<open>An entry at or after \<open>b\<close>, and for a session no announcement from before it.\<close>

definition entry_in_force :: "string \<Rightarrow> string \<Rightarrow> time \<Rightarrow> watcher \<Rightarrow> bool" where
  "entry_in_force kind i b w \<longleftrightarrow> kind \<in> revocation_kinds \<and> (\<exists>c. rl_entry (wt_list w) kind i = Some c \<and> b \<le> c) \<and>
     (kind = KindSession \<longrightarrow> (\<forall>e\<in>set (wt_channel w). about kind i e \<longrightarrow> b \<le> ev_At e))"

lemma entry_in_force_resync:
  assumes s: "watch_sound life w" and f: "entry_in_force kind i b w" and live: "wt_now w < b + life"
  shows "entry_in_force kind i b (Store_resync reachable w)"
proof (cases reachable)
  case True
  obtain c where c: "rl_entry (wt_list w) kind i = Some c" "b \<le> c" using f by (auto simp: entry_in_force_def)
  from sound_entry [OF s c(1)] obtain e where e: "proper_event e" "about kind i e" "ev_At e = c" "recorded w e" by blast
  then obtain e' x where e': "(revocation_key e, e', x) \<in> set (wt_store w)" "c \<le> ev_At e'"
    by (auto simp: recorded_def)
  have stored: "k = revocation_key g \<and> proper_event g \<and> ev_At g + life \<le> y" if "(k, g, y) \<in> set (wt_store w)" for k g y
    using sound_stored [OF s that] .
  have key: "revocation_key g = revocation_key e \<longleftrightarrow> about kind i g" if "proper_event g" for g
    using key_about [of g e] that e(1,2) by (simp add: proper_event_def about_def)
  have one: "g = e'" if "(k, g, y) \<in> set (wt_store w)" "about kind i g" for k g y
  proof -
    have "k = revocation_key e" using stored [OF that(1)] key that(2) by simp
    with that(1) e'(1) s show ?thesis by (auto simp: watch_sound_def dest: eq_key_imp_eq_value)
  qed
  have "about kind i e'" using stored [OF e'(1)] key [of e'] by simp
  moreover have "wt_now w < x" using stored [OF e'(1)] e'(2) c(2) live by linarith
  then have "e' \<in> set (Store_All (wt_now w) (wt_store w))" using e'(1) by (auto simp: All_sound [OF s])
  ultimately have "rl_entry (fold List_Apply (Store_All (wt_now w) (wt_store w)) NewList) kind i \<noteq> None"
    using f by (intro entry_fold_at) (auto simp: entry_in_force_def)
  then obtain c' where c': "rl_entry (fold List_Apply (Store_All (wt_now w) (wt_store w)) NewList) kind i = Some c'" by auto
  from entry_fold [OF this] have "c' = ev_At e'" using one by (auto simp: All_sound [OF s])
  with c' e'(2) c(2) f True show ?thesis by (simp add: entry_in_force_def Store_resync_def entry_Replace)
qed (use f in \<open>simp add: entry_in_force_def Store_resync_def\<close>)

lemma entry_in_force_step:
  assumes "watch_step life w w'" and "watch_sound life w" "entry_in_force kind i b w" "wt_now w' < b + life"
  shows "entry_in_force kind i b w'"
  using assms
proof (induction rule: watch_step.induct)
  case (announces e w r a)
  have p: "published (wt_now w) e = e" using announces(1) by (simp add: orderly_def published_def)
  obtain c where c: "rl_entry (wt_list w) kind i = Some c" "b \<le> c" using announces by (auto simp: entry_in_force_def)
  from sound_entry [OF announces(2) c(1)]
  obtain g where g: "proper_event g" "about kind i g" "ev_At g = c" "recorded w g" by blast
  have "b \<le> ev_At e" if "about kind i e"
  proof -
    have "revocation_key g = revocation_key e" using that g(2) by (simp add: about_def revocation_key_def)
    with g c(2) announces(1) show ?thesis by (force simp: recorded_def orderly_def)
  qed
  with announces(3) show ?case by (auto simp: entry_in_force_def Store_Publish_def p Let_def)
next
  case (hears w)
  show ?case
  proof (cases "wt_channel w")
    case (Cons e es)
    then have e: "proper_event e" using hears(1) by (auto simp: watch_sound_def)
    have m: "watch_message w = w\<lparr>wt_channel := es, wt_list := List_Apply e (wt_list w)\<rparr>"
      by (simp add: watch_message_def Cons Decode_proper [OF e])
    obtain c where c: "rl_entry (wt_list w) kind i = Some c" "b \<le> c" using hears by (auto simp: entry_in_force_def)
    show ?thesis
    proof (cases "about kind i e")
      case True
      have k: "kind \<in> revocation_kinds" using hears(2) by (simp add: entry_in_force_def)
      from entry_Apply_at [OF True k, of "wt_list w" c] obtain c'
        where c': "rl_entry (List_Apply e (wt_list w)) kind i = Some c'" "kind \<noteq> KindSession \<longrightarrow> c \<le> c'" using c by auto
      have "b \<le> c'"
        using c c' hears(2) True entry_Apply [OF c'(1)] Cons by (cases "kind = KindSession") (auto simp: entry_in_force_def)
      with c'(1) hears(2) Cons show ?thesis unfolding m by (auto simp: entry_in_force_def)
    qed (use hears(2) Cons in \<open>auto simp: entry_in_force_def m entry_Apply_other\<close>)
  qed (use hears in \<open>simp add: watch_message_def\<close>)
next
  case (resyncs w reachable)
  then show ?case by (intro entry_in_force_resync) (auto simp: Store_resync_def split: if_splits)
next
  case (reconnects w reachable)
  let ?w = "w\<lparr>wt_channel := [], wt_list := List_MarkDegraded (wt_list w)\<rparr>"
  have "watch_sound life ?w" using reconnects(1) by (rule sound_list) simp_all
  moreover have "entry_in_force kind i b ?w" using reconnects(2) by (simp add: entry_in_force_def)
  ultimately show ?case
    using reconnects(3) unfolding watch_closed_def by (intro entry_in_force_resync) (auto simp: Store_resync_def split: if_splits)
next
  case (prunes w)
  then show ?case by (auto simp: entry_in_force_def watch_prune_def entry_Prune)
next
  case (waits w t)
  then show ?case by (simp add: entry_in_force_def)
qed

lemma entry_in_force_steps:
  assumes "watch_steps life w w'" "watch_sound life w" "entry_in_force kind i b w" "wt_now w' < b + life"
  shows "entry_in_force kind i b w'"
  using assms
proof (induction rule: watch_steps.induct)
  case (watch_more w v u)
  have "wt_now v < b + life" using later_step [OF watch_more(2)] watch_more.prems(3) by simp
  with watch_more show ?case by (metis entry_in_force_step sound_steps)
qed simp

lemma Revoked_entry_in_force:
  "Revoked (wt_list w) t \<longleftrightarrow>
     to_SessionID t \<noteq> [] \<and> rl_entry (wt_list w) KindSession (to_SessionID t) \<noteq> None \<or>
     to_UserID t \<noteq> [] \<and> (\<exists>c. rl_entry (wt_list w) KindUser (to_UserID t) = Some c \<and> to_IssuedAt t + 1 \<le> c) \<or>
     to_CompanyID t \<noteq> [] \<and> (\<exists>c. rl_entry (wt_list w) KindCompany (to_CompanyID t) = Some c \<and> to_IssuedAt t + 1 \<le> c)"
  by (auto simp: Revoked_def rl_entry_def before_cutoff_def split: option.splits)

text \<open>What this service knows or is about to hear of the end of the token's session is from after the token was issued.\<close>

definition ended_since :: "watcher \<Rightarrow> token \<Rightarrow> bool" where
  "ended_since w t \<longleftrightarrow>
     (\<forall>c. rl_sessions (wt_list w) (to_SessionID t) = Some c \<longrightarrow> to_IssuedAt t \<le> c) \<and>
     (\<forall>e\<in>set (wt_channel w). about KindSession (to_SessionID t) e \<longrightarrow> to_IssuedAt t \<le> ev_At e)"

lemma revoked_stays_revoked:
  assumes "watch_sound life w" "watch_steps life w w'" "Revoked (wt_list w) t" "wt_now w' < to_IssuedAt t + life"
    and "ended_since w t"
  shows "Revoked (wt_list w') t"
proof -
  note go = entry_in_force_steps [OF assms(2,1)]
  have entry: "rl_entry (wt_list w) KindSession i = rl_sessions (wt_list w) i" for i by (simp add: rl_entry_def)
  from assms(3) consider (session) "to_SessionID t \<noteq> []" "entry_in_force KindSession (to_SessionID t) (to_IssuedAt t) w"
    | (user) "to_UserID t \<noteq> []" "entry_in_force KindUser (to_UserID t) (to_IssuedAt t + 1) w"
    | (company) "to_CompanyID t \<noteq> []" "entry_in_force KindCompany (to_CompanyID t) (to_IssuedAt t + 1) w"
    using assms(5) by (auto simp: Revoked_entry_in_force entry_in_force_def ended_since_def entry)
  then show ?thesis
  proof cases
    case session
    from go [OF session(2) assms(4)] session(1) show ?thesis by (auto simp: Revoked_entry_in_force entry_in_force_def)
  next
    case user
    from go [OF user(2)] assms(4) user(1) show ?thesis by (auto simp: Revoked_entry_in_force entry_in_force_def)
  next
    case company
    from go [OF company(2)] assms(4) company(1) show ?thesis by (auto simp: Revoked_entry_in_force entry_in_force_def)
  qed
qed

text \<open>A full reading puts every event that is kept into the list.\<close>

lemma resynced:
  assumes "watch_sound life w"
  shows "Revoked (wt_list (Store_resync True w)) t \<longleftrightarrow>
    (\<exists>k e x. (k, e, x) \<in> set (wt_store w) \<and> wt_now w < x \<and> covers e t)"
  by (auto simp: Store_resync_def Revoked_Replace All_sound [OF assms])

end
