(* ===== verification/Access.thy ===== *)
theory Access
  imports Query Revocation
begin

text \<open>
  internal/platform/authctx, internal/routes/routes.go and the shared helpers of
  internal/handlers/handlers.go: the permission catalogues and the entitlements that gate them, who
  holds a permission, the guards of the routes, and the actor a request acts as. Verifying a token's
  signature and parsing an id are parameters.
\<close>

section \<open>Products, permissions and features\<close>

abbreviation ProductTMS :: string where "ProductTMS \<equiv> ''tms''"
abbreviation ProductFMS :: string where "ProductFMS \<equiv> ''fms''"
abbreviation ProductShared :: string where "ProductShared \<equiv> ''shared''"

record permission_spec =
  ps_Key :: string
  ps_Feature :: string
  ps_Group :: string
  ps_Label :: string

definition spec :: "string \<Rightarrow> string \<Rightarrow> string \<Rightarrow> string \<Rightarrow> permission_spec" where
  "spec key feature_name grp label = \<lparr>ps_Key = key, ps_Feature = feature_name, ps_Group = grp, ps_Label = label\<rparr>"

text \<open>A catalogue, keyed by \<open>ps_Key\<close>.\<close>

type_synonym catalog = "permission_spec list"

definition tmsCatalog :: catalog where
  "tmsCatalog =
     [spec ''order.read'' ''order'' ''Orders'' ''View orders'',
      spec ''order.create'' ''order'' ''Orders'' ''Create orders'',
      spec ''order.update'' ''order'' ''Orders'' ''Edit draft orders'',
      spec ''order.cancel'' ''order'' ''Orders'' ''Cancel orders'',
      spec ''order.approve'' ''order'' ''Orders'' ''Approve or reject orders'',
      spec ''order.assignDriver'' ''order'' ''Orders'' ''Assign a driver and truck'',
      spec ''order.readyToPlan'' ''order'' ''Orders'' ''Mark ready to plan'',
      spec ''order.requestDriver'' ''order'' ''Orders'' ''Request a driver (3PL)'',
      spec ''order.allowance.read'' ''order'' ''Driver allowance'' ''View driver allowance'',
      spec ''order.allowance.write'' ''order'' ''Driver allowance'' ''Set driver allowance'',
      spec ''order.allowance.finalise'' ''order'' ''Driver allowance'' ''Finalise driver allowance'',
      spec ''dispatch.read'' ''dispatch'' ''Dispatch'' ''View candidate trucks and routes'',
      spec ''dispatch.assign'' ''dispatch'' ''Dispatch'' ''Assign a truck to an order'',
      spec ''dispatch.reroute'' ''dispatch'' ''Dispatch'' ''Re-plan a route on demand'',
      spec ''config.fields.read'' ''configuration'' ''Administration'' ''View form configuration'',
      spec ''config.fields.write'' ''configuration'' ''Administration'' ''Change which fields are required'',
      spec ''agreement.read'' ''agreement'' ''Agreements'' ''View agreements'',
      spec ''agreement.create'' ''agreement'' ''Agreements'' ''Create agreements'',
      spec ''agreement.update'' ''agreement'' ''Agreements'' ''Edit agreements'',
      spec ''agreement.approve'' ''agreement'' ''Agreements'' ''Approve, reject or verify'',
      spec ''agreement.cancel'' ''agreement'' ''Agreements'' ''Cancel agreements'',
      spec ''agreement.revise'' ''agreement'' ''Agreements'' ''Renew or amend an agreement'',
      spec ''agreement.approveRevision'' ''agreement'' ''Agreements'' ''Approve or reject an amendment'',
      spec ''agreement.priceHistory'' ''agreement'' ''Agreements'' ''View price history'',
      spec ''invoice.read'' ''invoice'' ''Invoicing'' ''View invoices'',
      spec ''invoice.create'' ''invoice'' ''Invoicing'' ''Create invoices'',
      spec ''invoice.update'' ''invoice'' ''Invoicing'' ''Change invoice status'',
      spec ''invoice.approve'' ''invoice'' ''Invoicing'' ''Verify and settle'',
      spec ''invoice.export'' ''invoice'' ''Invoicing'' ''Export invoices'',
      spec ''shipment.read'' ''shipment'' ''Shipments'' ''View shipments'',
      spec ''shipment.update'' ''shipment'' ''Shipments'' ''Advance a shipment'',
      spec ''shipment.verifyLoading'' ''shipment'' ''Shipments'' ''Approve loading'',
      spec ''shipment.verifyUnloading'' ''shipment'' ''Shipments'' ''Approve unloading'',
      spec ''truck.read'' ''truck'' ''Fleet'' ''View trucks'',
      spec ''truck.create'' ''truck'' ''Fleet'' ''Add trucks'',
      spec ''truck.update'' ''truck'' ''Fleet'' ''Edit trucks'',
      spec ''truck.delete'' ''truck'' ''Fleet'' ''Remove trucks'',
      spec ''truck.addDriver'' ''truck'' ''Fleet'' ''Pair a driver'',
      spec ''truck.deleteDriver'' ''truck'' ''Fleet'' ''Unpair a driver'',
      spec ''warehouse.read'' ''warehouse'' ''Locations'' ''View warehouses'',
      spec ''warehouse.create'' ''warehouse'' ''Locations'' ''Add warehouses'',
      spec ''warehouse.update'' ''warehouse'' ''Locations'' ''Edit warehouses'',
      spec ''warehouse.delete'' ''warehouse'' ''Locations'' ''Remove warehouses'',
      spec ''customer.read'' ''customer'' ''Customers'' ''View customers'',
      spec ''customer.create'' ''customer'' ''Customers'' ''Add customers'',
      spec ''customer.update'' ''customer'' ''Customers'' ''Edit customers'',
      spec ''customer.delete'' ''customer'' ''Customers'' ''Remove customers'',
      spec ''dashboard.read'' ''dashboard'' ''Dashboard'' ''View dashboard'',
      spec ''dashboard.export'' ''dashboard'' ''Dashboard'' ''Export dashboard data'',
      spec ''notification.read'' ''notification'' ''Notifications'' ''View notifications'',
      spec ''notification.update'' ''notification'' ''Notifications'' ''Manage notification settings'',
      spec ''masterData.read'' ''masterData'' ''Master Data'' ''View reference data'',
      spec ''masterData.create'' ''masterData'' ''Master Data'' ''Add reference data'',
      spec ''masterData.update'' ''masterData'' ''Master Data'' ''Edit reference data'',
      spec ''masterData.delete'' ''masterData'' ''Master Data'' ''Remove reference data'',
      spec ''collaboration.read'' ''collaboration'' ''Administration'' ''View members'',
      spec ''collaboration.inviteMember'' ''collaboration'' ''Administration'' ''Invite members'',
      spec ''collaboration.manageMember'' ''collaboration'' ''Administration'' ''Manage member permissions'',
      spec ''collaboration.removeMember'' ''collaboration'' ''Administration'' ''Remove members'',
      spec ''accounting.read'' ''accounting'' ''Accounting'' ''View accounting'',
      spec ''accounting.create'' ''accounting'' ''Accounting'' ''Create entries'',
      spec ''accounting.approve'' ''accounting'' ''Accounting'' ''Approve entries'',
      spec ''accounting.export'' ''accounting'' ''Accounting'' ''Export accounting data'',
      spec ''telemetry.read'' ''telemetry'' ''Telemetry'' ''View vehicle positions'',
      spec ''telemetry.export'' ''telemetry'' ''Telemetry'' ''Export telemetry'']"

definition fmsCatalog :: catalog where
  "fmsCatalog =
     [spec ''dashboard.view'' ''dashboard'' ''Dashboard'' ''View dashboard'',
      spec ''dashboard.ai'' ''ai_dashboard'' ''Dashboard'' ''AI dashboard'',
      spec ''live.view'' ''live'' ''Live Tracking'' ''View live tracking'',
      spec ''live.history'' ''live'' ''Live Tracking'' ''View trip history'',
      spec ''fuel.view'' ''live'' ''Fuel'' ''View fuel & cost'',
      spec ''fuel.price_calc'' ''live'' ''Fuel'' ''Fuel price calculation'',
      spec ''geofence.view'' ''geofence'' ''Geofence'' ''View geofences'',
      spec ''geofence.manage'' ''geofence'' ''Geofence'' ''Manage geofences'',
      spec ''controltower.view'' ''controltower'' ''Control Tower'' ''View control tower'',
      spec ''notifications.view'' ''notifications'' ''Notifications'' ''View notifications'',
      spec ''notifications.manage'' ''notifications'' ''Notifications'' ''Manage notification rules'',
      spec ''reports.view'' ''reports'' ''Reporting'' ''View reports'',
      spec ''reports.custom'' ''custom_report'' ''Reporting'' ''Custom report builder'',
      spec ''reports.ai'' ''ai_reporting'' ''Reporting'' ''AI reporting'',
      spec ''camera.view'' ''camera'' ''Camera'' ''View cameras (TrackVision)'',
      spec ''share_link.view'' ''share_link'' ''Share Link'' ''View share links'',
      spec ''share_link.create'' ''generate_link'' ''Share Link'' ''Generate share link'',
      spec ''maintenance.view'' ''maintenance'' ''Fleet Management'' ''View maintenance'',
      spec ''maintenance.manage'' ''maintenance'' ''Fleet Management'' ''Manage maintenance'',
      spec ''hangars.view'' ''hangars'' ''Fleet Management'' ''View workshops'',
      spec ''hangars.manage'' ''hangars'' ''Fleet Management'' ''Manage workshops'',
      spec ''license.view'' ''license'' ''Fleet Management'' ''View licenses'',
      spec ''license.manage'' ''license'' ''Fleet Management'' ''Manage licenses'',
      spec ''vehicles.view'' ''vehicle'' ''Master Data'' ''View vehicles'',
      spec ''vehicles.edit'' ''vehicle'' ''Master Data'' ''Add / edit vehicles'',
      spec ''drivers.view'' ''driver'' ''Master Data'' ''View drivers'',
      spec ''drivers.edit'' ''driver'' ''Master Data'' ''Add / edit drivers'',
      spec ''rfid.manage'' ''rfid'' ''Master Data'' ''Manage RFID'',
      spec ''dashcams.manage'' ''camera'' ''Master Data'' ''Manage dashcams'',
      spec ''users.manage'' ''administration'' ''Administration'' ''Manage users'',
      spec ''roles.manage'' ''administration'' ''Administration'' ''Manage roles'']"

definition CatalogFor :: "string \<Rightarrow> catalog" where
  "CatalogFor product = (if product = ProductTMS then tmsCatalog else if product = ProductFMS then fmsCatalog else [])"

text \<open>The gating feature, where the key is known.\<close>

definition FeatureFor :: "string \<Rightarrow> string \<Rightarrow> string option" where
  "FeatureFor product key = map_option ps_Feature (find (\<lambda>s. ps_Key s = key) (CatalogFor product))"

text \<open>The order of the result is that of a map, so any.\<close>

definition FeaturesFor :: "string \<Rightarrow> string list" where
  "FeaturesFor product = remdups (filter (\<lambda>f. f \<noteq> []) (map ps_Feature (CatalogFor product)))"

definition IsKnownPermission :: "string \<Rightarrow> string \<Rightarrow> bool" where
  "IsKnownPermission product key \<longleftrightarrow> list_ex (\<lambda>s. ps_Key s = key) (CatalogFor product)"

definition DefaultTMSFeatures :: "string list" where
  "DefaultTMSFeatures = [''order'', ''agreement'', ''invoice'', ''shipment'', ''truck'', ''warehouse'', ''customer'', ''dashboard'', ''notification'', ''dispatch'', ''configuration'', ''collaboration'', ''masterData'']"

record sellable =
  sf_Name :: string
  sf_Owner :: string
  sf_Description :: string
  sf_Parent :: string
  sf_Roadmap :: bool

definition feature :: "string \<Rightarrow> string \<Rightarrow> string \<Rightarrow> string \<Rightarrow> bool \<Rightarrow> sellable" where
  "feature name owner description parent roadmap =
     \<lparr>sf_Name = name, sf_Owner = owner, sf_Description = description, sf_Parent = parent, sf_Roadmap = roadmap\<rparr>"

definition tmsFeatures :: "sellable list" where
  "tmsFeatures =
     [feature ''order'' ProductTMS ''Place, approve and track orders'' [] False,
      feature ''agreement'' ProductTMS ''Rate agreements between shipper and transporter'' [] False,
      feature ''invoice'' ProductTMS ''Billing and settlement'' [] False,
      feature ''shipment'' ProductTMS ''Loading, transit and unloading'' [] False,
      feature ''truck'' ProductTMS ''Fleet register and driver pairing'' [] False,
      feature ''warehouse'' ProductTMS ''Warehouse register and geofencing'' [] False,
      feature ''customer'' ProductTMS (''The company'' @ [CHR 0x27] @ ''s own customer register'') [] False,
      feature ''dashboard'' ProductTMS ''Operational dashboards and summaries'' [] False,
      feature ''notification'' ProductTMS ''In-app, email and WhatsApp notifications'' [] False,
      feature ''dispatch'' ProductTMS ''Planner assignment: candidate trucks and planned routes'' [] False,
      feature ''routing.advanced'' ProductTMS ''Re-plan routes on demand after assignment'' [] False,
      feature ''configuration'' ProductTMS (''Configuring which fields the company'' @ [CHR 0x27] @ ''s own forms require'') [] False,
      feature ''collaboration'' ProductTMS ''Managing your own members and roles'' [] False,
      feature ''masterData'' ProductTMS ''Shared reference data: truck types, cargo types, regions'' [] False]"

definition sharedFeatures :: "sellable list" where
  "sharedFeatures =
     [feature ''vehicle'' ProductFMS (''The vehicle register '' @ [CHR 0xE2, CHR 0x80, CHR 0x94] @ '' the core of the fleet system'') [] False,
      feature ''driver'' ProductFMS ''The driver register'' [] False,
      feature ''administration'' ProductFMS ''Managing your own users and roles'' [] False,
      feature ''accounting'' ProductShared ''The separately sold accounting service'' [] False,
      feature ''telemetry'' ProductShared ''The separately sold telemetry service, by tier'' [] False]"

text \<open>fms-features.json: key, label, parent, and whether it is a stub.\<close>

definition fmsRegistry :: "(string \<times> string \<times> string \<times> bool) list" where
  "fmsRegistry =
     [(''dashboard'', ''Dashboard'', '''', False),
      (''ai_dashboard'', ''AI Dashboard'', ''dashboard'', False),
      (''live'', ''Live View'', '''', False),
      (''geofence'', ''Geofence'', ''live'', False),
      (''controltower'', ''Control Tower'', '''', False),
      (''notifications'', ''Notifications'', '''', False),
      (''share_link'', ''Share Link'', '''', False),
      (''generate_link'', ''Generate Link'', ''share_link'', False),
      (''reports'', ''Reporting'', '''', False),
      (''custom_report'', ''Custom Report'', ''reports'', False),
      (''ai_reporting'', ''AI Reporting'', ''reports'', False),
      (''camera'', ''Camera (TrackVision)'', '''', False),
      (''fleet_management'', ''Fleet Management'', '''', False),
      (''maintenance'', ''Maintenance'', ''fleet_management'', False),
      (''hangars'', ''Workshops'', ''fleet_management'', False),
      (''license'', ''License'', ''fleet_management'', False),
      (''master_data'', ''Master Data'', '''', False),
      (''dashcams'', ''Dashcam'', ''master_data'', False),
      (''rfid'', ''RFID'', ''master_data'', False),
      (''users'', ''Users'', ''master_data'', False),
      (''scorecard'', ''Driver Performance'', '''', False),
      (''marketplace'', ''Marketplace'', '''', False),
      (''sales'', ''Sales & Orders'', '''', True),
      (''orders'', ''Orders'', ''sales'', True),
      (''invoices'', ''Invoices'', ''sales'', True),
      (''quotations'', ''Quotations'', ''sales'', True),
      (''procurement'', ''Procurement'', '''', True),
      (''purchase-orders'', ''Purchase Orders'', ''procurement'', True),
      (''purchase-invoices'', ''Purchase Invoices'', ''procurement'', True),
      (''purchase-quotes'', ''Purchase Quotes'', ''procurement'', True),
      (''expenses'', ''Expenses'', ''procurement'', True),
      (''inventory'', ''Inventory & Products'', '''', True),
      (''products'', ''Products'', ''inventory'', True),
      (''stock'', ''Inventory'', ''inventory'', True),
      (''warehouses'', ''Warehouses'', ''inventory'', True),
      (''fixed-assets'', ''Fixed Assets'', ''inventory'', True),
      (''finance'', ''Finance'', '''', True),
      (''cash-bank'', ''Cash & Bank'', ''finance'', True),
      (''chart-of-accounts'', ''Chart of Accounts'', ''finance'', True),
      (''cost-centers'', ''Cost Centers'', ''finance'', True),
      (''journal'', ''Journal Entries'', ''finance'', True),
      (''payroll'', ''Payroll'', ''finance'', True),
      (''commerce'', ''Commerce & CRM'', '''', True),
      (''pos'', ''Point of Sale'', ''commerce'', True),
      (''distribution'', ''Distribution'', ''commerce'', True),
      (''crm'', ''CRM'', ''commerce'', True),
      (''contacts'', ''Contacts'', ''commerce'', True)]"

definition decodeFMSRegistry :: "bool \<Rightarrow> sellable list" where
  "decodeFMSRegistry liveOnly =
     List.map_filter (\<lambda>(key, label, parent, dev). if liveOnly \<and> dev then None else Some (feature key ProductFMS label parent dev)) fmsRegistry"

text \<open>Of a name declared twice the later one stays; only the names are asked for.\<close>

definition featureRegistry :: "string \<Rightarrow> sellable list option" where
  "featureRegistry product =
     (if product = ProductTMS then Some (tmsFeatures @ sharedFeatures)
      else if product = ProductFMS then Some (decodeFMSRegistry True @ sharedFeatures)
      else if product = ProductShared then Some sharedFeatures else None)"

definition IsSellableFeature :: "string \<Rightarrow> string \<Rightarrow> bool" where
  "IsSellableFeature product name \<longleftrightarrow>
     (case featureRegistry product of None \<Rightarrow> False | Some fs \<Rightarrow> list_ex (\<lambda>f. sf_Name f = name) fs)"

definition IsKnownProduct :: "string \<Rightarrow> bool" where
  "IsKnownProduct product \<longleftrightarrow> featureRegistry product \<noteq> None"

section \<open>The principal\<close>

record product_access =
  pa_Role :: string
  pa_Permissions :: "string list"
  pa_Features :: "string list"
  pa_GrantsAll :: bool

record principal =
  pr_UserID :: string
  pr_CompanyID :: string
  pr_IsPlatformStaff :: bool
  pr_Access :: "string \<rightharpoonup> product_access"
  pr_SingleDevice :: bool
  pr_TokenID :: string

definition HasPermission :: "principal \<Rightarrow> string \<Rightarrow> string \<Rightarrow> bool" where
  "HasPermission p product key =
     (if pr_IsPlatformStaff p then True
      else case pr_Access p product of None \<Rightarrow> False
      | Some access \<Rightarrow>
          if \<not> pa_GrantsAll access \<and> key \<notin> set (pa_Permissions access) then False
          else case FeatureFor product key of None \<Rightarrow> False
               | Some f \<Rightarrow> if f = [] then True else f \<in> set (pa_Features access))"

definition HasProduct :: "principal \<Rightarrow> string \<Rightarrow> bool" where
  "HasProduct p product \<longleftrightarrow> pr_IsPlatformStaff p \<or> pr_Access p product \<noteq> None"

definition RoleIn :: "principal \<Rightarrow> string \<Rightarrow> string" where
  "RoleIn p product = (case pr_Access p product of None \<Rightarrow> [] | Some a \<Rightarrow> pa_Role a)"

definition CompanyHasFeature :: "principal \<Rightarrow> string \<Rightarrow> string \<Rightarrow> bool" where
  "CompanyHasFeature p product f \<longleftrightarrow> pr_IsPlatformStaff p \<or>
     (case pr_Access p product of None \<Rightarrow> False | Some a \<Rightarrow> f \<in> set (pa_Features a))"

definition GrantableFrom :: "string \<Rightarrow> string list \<Rightarrow> permission_spec list" where
  "GrantableFrom product held = filter (\<lambda>s. ps_Feature s = [] \<or> ps_Feature s \<in> set held) (CatalogFor product)"

definition GrantablePermissions :: "principal \<Rightarrow> string \<Rightarrow> permission_spec list" where
  "GrantablePermissions p product =
     (if pr_IsPlatformStaff p then GrantableFrom product (FeaturesFor product)
      else case pr_Access p product of None \<Rightarrow> [] | Some a \<Rightarrow> GrantableFrom product (pa_Features a))"

text \<open>This service is one product, the TMS.\<close>

definition HasModule :: "principal \<Rightarrow> string \<Rightarrow> string \<Rightarrow> bool" where
  "HasModule p module_name action = HasPermission p ProductTMS (module_name @ ''.'' @ action)"

definition principal_role :: "principal \<Rightarrow> string" where
  "principal_role p = RoleIn p ProductTMS"

definition HasRole :: "principal \<Rightarrow> string list \<Rightarrow> bool" where
  "HasRole p roles =
     (if pr_IsPlatformStaff p then True
      else let role = RoleIn p ProductTMS in if role = [] then False else role \<in> set roles)"

section \<open>Guards\<close>

text \<open>How a request is turned away: 400, 401, 403 or 500.\<close>

datatype refusal = BadRequest string | Unauthorized string | Forbidden string | Malformed string

type_synonym 'a outcome = "refusal + 'a"

definition str_cut :: "string \<Rightarrow> (string \<times> string) option" where
  "str_cut s = (if CHR ''.'' \<in> set s
     then Some (takeWhile (\<lambda>c. c \<noteq> CHR ''.'') s, drop 1 (dropWhile (\<lambda>c. c \<noteq> CHR ''.'') s)) else None)"

definition RequireModule :: "string \<Rightarrow> principal option \<Rightarrow> unit outcome" where
  "RequireModule permission caller = (case str_cut permission of
     None \<Rightarrow> Inl (Malformed ''malformed permission'')
   | Some (module_name, action) \<Rightarrow> (case caller of
       None \<Rightarrow> Inl (Unauthorized ''No token provided.'')
     | Some p \<Rightarrow> if HasModule p module_name action then Inr () else Inl (Forbidden ''Access Denied'')))"

definition RequireRole :: "string list \<Rightarrow> principal option \<Rightarrow> unit outcome" where
  "RequireRole roles caller = (case caller of
     None \<Rightarrow> Inl (Unauthorized ''No token provided.'')
   | Some p \<Rightarrow> if HasRole p roles then Inr () else Inl (Forbidden ''Access Denied''))"

definition RequirePlatformStaff :: "principal option \<Rightarrow> unit outcome" where
  "RequirePlatformStaff caller = (case caller of
     None \<Rightarrow> Inl (Unauthorized ''No token provided.'')
   | Some p \<Rightarrow> if pr_IsPlatformStaff p then Inr () else Inl (Forbidden ''This action is restricted to Karlo staff.''))"

text \<open>A request: two headers that matter to authentication, the query's token, and the others.\<close>

record http_request =
  rq_Authorization :: string
  rq_TokenQuery :: string
  rq_ActingFor :: string
  rq_StatusBypass :: string

definition ExtractToken :: "http_request \<Rightarrow> string" where
  "ExtractToken r =
     (if rq_Authorization r \<noteq> []
      then if take 7 (rq_Authorization r) = ''Bearer '' then trim_space (drop 7 (rq_Authorization r)) else trim_space (rq_Authorization r)
      else rq_TokenQuery r)"

text \<open>
  \<open>VerifyWithIssuedAt\<close>: the claims of a token whose RS256 signature, issuer and expiry check out, if
  they name a user; the time of issue is the zero time where the token does not say.
\<close>

record authenticator =
  au_claims :: "string \<Rightarrow> (principal \<times> time option) option"
  au_remote :: "(string \<Rightarrow> principal option) option"
  au_revocations :: "revocation_list option"

definition VerifyWithIssuedAt :: "authenticator \<Rightarrow> string \<Rightarrow> (principal \<times> time) option" where
  "VerifyWithIssuedAt A tok = (case au_claims A tok of
     None \<Rightarrow> None
   | Some (p, issued) \<Rightarrow> if pr_UserID p = [] then None else Some (p, the_default 0 issued))"

definition token_of :: "principal \<Rightarrow> time \<Rightarrow> token" where
  "token_of p issued = \<lparr>to_SessionID = pr_TokenID p, to_UserID = pr_UserID p, to_CompanyID = pr_CompanyID p, to_IssuedAt = issued\<rparr>"

definition ask_remote :: "authenticator \<Rightarrow> string \<Rightarrow> principal outcome" where
  "ask_remote A tok = (case au_remote A of
     None \<Rightarrow> Inl (Unauthorized ''Silahkan untuk login ulang'')
   | Some validate \<Rightarrow> (case validate tok of
       None \<Rightarrow> Inl (Unauthorized ''Sesi Anda berakhir karena akun ini masuk di perangkat lain.'') | Some p \<Rightarrow> Inr p))"

definition RequireAuthWithRevocations :: "authenticator \<Rightarrow> http_request \<Rightarrow> principal outcome" where
  "RequireAuthWithRevocations A r =
     (let tok = ExtractToken r
      in if tok = [] then Inl (Unauthorized ''No token provided.'')
         else case VerifyWithIssuedAt A tok of
                Some (p, issued) \<Rightarrow>
                  if \<not> pr_SingleDevice p
                  then if (case au_revocations A of None \<Rightarrow> False | Some l \<Rightarrow> Revoked l (token_of p issued))
                       then Inl (Unauthorized ''Akses Anda telah berubah.'') else Inr p
                  else ask_remote A tok
              | None \<Rightarrow> ask_remote A tok)"

section \<open>Routes\<close>

text \<open>The routes behind authentication: method, path, and the permission that guards it where one does.\<close>

definition api_routes :: "(string \<times> string \<times> string option) list" where
  "api_routes =
     [(''POST'', ''/api/v1/routing/route'', Some ''order.read''),
      (''GET'', ''/api/v1/routing/geocode'', Some ''warehouse.read''),
      (''GET'', ''/api/v1/orders'', Some ''order.read''),
      (''GET'', ''/api/v1/orders/summary'', Some ''dashboard.read''),
      (''POST'', ''/api/v1/orders'', Some ''order.create''),
      (''GET'', ''/api/v1/orders/:id'', Some ''order.read''),
      (''PUT'', ''/api/v1/orders/:id'', Some ''order.update''),
      (''PATCH'', ''/api/v1/orders/:id/detail'', Some ''order.update''),
      (''PUT'', ''/api/v1/orders/:id/geofencing'', Some ''order.update''),
      (''PUT'', ''/api/v1/orders/:id/stop-sequence'', Some ''order.update''),
      (''GET'', ''/api/v1/orders/:id/history'', Some ''order.read''),
      (''GET'', ''/api/v1/orders/:id/transitions'', Some ''order.read''),
      (''PUT'', ''/api/v1/orders/:id/status'', None),
      (''PUT'', ''/api/v1/orders/:id/assign'', Some ''order.assignDriver''),
      (''GET'', ''/api/v1/orders/:id/shipment'', Some ''order.read''),
      (''POST'', ''/api/v1/orders/:id/tracking-link'', Some ''order.read''),
      (''DELETE'', ''/api/v1/orders/:id/tracking-link'', Some ''order.update''),
      (''POST'', ''/api/v1/uploads/presign'', None),
      (''POST'', ''/api/v1/uploads/download-url'', None),
      (''GET'', ''/api/v1/orders/:id/candidates'', Some ''dispatch.read''),
      (''GET'', ''/api/v1/fleet/driver-activity'', Some ''dispatch.read''),
      (''GET'', ''/api/v1/fleet/live'', Some ''dispatch.read''),
      (''GET'', ''/api/v1/orders/:id/routes'', Some ''dispatch.read''),
      (''POST'', ''/api/v1/orders/:id/reroute'', Some ''dispatch.reroute''),
      (''GET'', ''/api/v1/orders/allowances'', Some ''order.allowance.read''),
      (''GET'', ''/api/v1/orders/:id/allowance'', Some ''order.allowance.read''),
      (''PUT'', ''/api/v1/orders/:id/allowance'', Some ''order.allowance.write''),
      (''POST'', ''/api/v1/orders/:id/allowance/finalise'', Some ''order.allowance.finalise''),
      (''GET'', ''/api/v1/orders/:id/allowance/history'', Some ''order.allowance.read''),
      (''PUT'', ''/api/v1/shipments/:id/status'', None),
      (''GET'', ''/api/v1/shipments/:id/transitions'', None),
      (''POST'', ''/api/v1/shipments/:id/documents'', None),
      (''GET'', ''/api/v1/shipments/:id/documents'', None),
      (''POST'', ''/api/v1/shipments/:id/handover'', None),
      (''POST'', ''/api/v1/shipments/:id/handover/verify'', None),
      (''GET'', ''/api/v1/shipments/:id/route'', None),
      (''PUT'', ''/api/v1/shipments/:id/stops/:stopId/arrive'', None),
      (''PUT'', ''/api/v1/shipments/:id/stops/:stopId/start'', None),
      (''PUT'', ''/api/v1/shipments/:id/stops/:stopId/cargo-check'', None),
      (''POST'', ''/api/v1/shipments/:id/accept'', None),
      (''PUT'', ''/api/v1/shipments/:id/cargo-check'', None),
      (''POST'', ''/api/v1/shipments/:id/pod'', None),
      (''GET'', ''/api/v1/shipments/:id/pod'', None),
      (''PUT'', ''/api/v1/shipments/:id/pod/:podId/review'', None),
      (''GET'', ''/api/v1/shipments/field/inbox'', None),
      (''POST'', ''/api/v1/shipments/field/open'', None),
      (''POST'', ''/api/v1/telemetry/mobile'', None),
      (''GET'', ''/api/v1/ledger/accounts'', Some ''invoice.read''),
      (''POST'', ''/api/v1/ledger/accounts'', Some ''invoice.create''),
      (''PUT'', ''/api/v1/ledger/accounts/:id'', Some ''invoice.create''),
      (''DELETE'', ''/api/v1/ledger/accounts/:id'', Some ''invoice.create''),
      (''GET'', ''/api/v1/ledger/entries'', Some ''invoice.read''),
      (''POST'', ''/api/v1/ledger/entries'', Some ''invoice.create''),
      (''PUT'', ''/api/v1/ledger/entries/:id'', Some ''invoice.create''),
      (''DELETE'', ''/api/v1/ledger/entries/:id'', Some ''invoice.create''),
      (''GET'', ''/api/v1/agreements'', Some ''agreement.read''),
      (''POST'', ''/api/v1/agreements'', Some ''agreement.create''),
      (''GET'', ''/api/v1/agreements/pending-approval'', Some ''agreement.approveRevision''),
      (''GET'', ''/api/v1/agreements/:id'', Some ''agreement.read''),
      (''POST'', ''/api/v1/agreements/:id/revisions'', Some ''agreement.revise''),
      (''PUT'', ''/api/v1/agreements/:id/revisions/decision'', Some ''agreement.approveRevision''),
      (''GET'', ''/api/v1/agreements/:id/versions'', Some ''agreement.read''),
      (''GET'', ''/api/v1/agreements/:id/price-history'', Some ''agreement.priceHistory''),
      (''PUT'', ''/api/v1/agreements/:id/decision'', Some ''agreement.approve''),
      (''PUT'', ''/api/v1/agreements/:id/verify'', Some ''agreement.approve''),
      (''GET'', ''/api/v1/config/fields/:entity'', Some ''config.fields.read''),
      (''PUT'', ''/api/v1/config/fields/:entity'', Some ''config.fields.write''),
      (''GET'', ''/api/v1/invoices'', Some ''invoice.read''),
      (''POST'', ''/api/v1/invoices'', Some ''invoice.create''),
      (''GET'', ''/api/v1/invoices/:id'', Some ''invoice.read''),
      (''PUT'', ''/api/v1/invoices/:id/status'', Some ''invoice.update'')]"

text \<open>The routes in front of it.\<close>

definition public_routes :: "(string \<times> string) list" where
  "public_routes =
     [(''GET'', ''/api/v1/orders/track/:token''),
      (''POST'', ''/api/v1/shipments/field/lookup''),
      (''POST'', ''/api/v1/shipments/field/verify''),
      (''GET'', ''/api/v1/shipments/field/session/:token''),
      (''POST'', ''/api/v1/shipments/field/session/:token/audit''),
      (''POST'', ''/api/v1/shipments/field/session/:token/finalize'')]"

definition guarded :: "authenticator \<Rightarrow> string option \<Rightarrow> http_request \<Rightarrow> principal outcome" where
  "guarded A guard r = (case RequireAuthWithRevocations A r of
     Inl e \<Rightarrow> Inl e
   | Inr p \<Rightarrow> (case guard of
       None \<Rightarrow> Inr p
     | Some permission \<Rightarrow> (case RequireModule permission (Some p) of Inl e \<Rightarrow> Inl e | Inr _ \<Rightarrow> Inr p)))"

section \<open>The actor\<close>

text \<open>\<open>uuid.Parse\<close>, and whether the testing header is enabled.\<close>

record actor_env =
  ae_uuid :: "string \<Rightarrow> uuid option"
  ae_bypass_enabled :: bool

definition statusBypassRequested :: "actor_env \<Rightarrow> http_request \<Rightarrow> string \<Rightarrow> bool \<Rightarrow> bool" where
  "statusBypassRequested V r rawRole platformStaff =
     (if \<not> ae_bypass_enabled V \<or> rq_StatusBypass r \<noteq> ''1'' then False
      else if platformStaff then True
      else to_lower (trim_space rawRole) \<in> {''admin'', ''administrator'', ''superadmin''})"

definition callerActor :: "actor_env \<Rightarrow> principal option \<Rightarrow> http_request \<Rightarrow> actor outcome" where
  "callerActor V caller r = (case caller of
     None \<Rightarrow> Inl (Unauthorized ''No token provided.'')
   | Some p \<Rightarrow> (case ae_uuid V (pr_UserID p) of
       None \<Rightarrow> Inl (Unauthorized ''Invalid principal'')
     | Some userID \<Rightarrow> (case ae_uuid V (pr_CompanyID p) of
         None \<Rightarrow> Inl (Forbidden ''This account is not attached to a company'')
       | Some companyID \<Rightarrow>
           (let actor = \<lparr>a_UserID = userID, a_CompanyID = companyID,
                  a_Role = (if pr_IsPlatformStaff p then RoleAdmin else NormaliseRole (principal_role p)),
                  a_PlatformStaff = pr_IsPlatformStaff p, a_ActingFor = False,
                  a_StatusBypass = statusBypassRequested V r (principal_role p) (pr_IsPlatformStaff p)\<rparr>;
                target = trim_space (rq_ActingFor r)
            in if target = [] then Inr actor
               else if \<not> a_PlatformStaff actor then Inl (Forbidden ''Only Karlo staff may act on another company's behalf.'')
               else case ae_uuid V target of
                 None \<Rightarrow> Inl (BadRequest ''Invalid X-Acting-For header'')
               | Some onBehalfOf \<Rightarrow>
                   if onBehalfOf \<noteq> companyID then Inr (actor\<lparr>a_CompanyID := onBehalfOf, a_ActingFor := True\<rparr>) else Inr actor))))"

definition optionalActor :: "actor_env \<Rightarrow> principal option \<Rightarrow> actor option" where
  "optionalActor V caller = (case caller of
     None \<Rightarrow> None
   | Some p \<Rightarrow> (case ae_uuid V (pr_UserID p) of
       None \<Rightarrow> None
     | Some userID \<Rightarrow> Some \<lparr>a_UserID = userID, a_CompanyID = the_default 0 (ae_uuid V (pr_CompanyID p)),
         a_Role = NormaliseRole (principal_role p), a_PlatformStaff = False, a_ActingFor = False, a_StatusBypass = False\<rparr>))"

definition callerMayReach :: "principal option \<Rightarrow> string \<Rightarrow> bool" where
  "callerMayReach caller status =
     (let (key, known) = PermissionForOrderStatus status
      in if \<not> known then False
         else case caller of None \<Rightarrow> False
              | Some p \<Rightarrow> (case str_cut key of None \<Rightarrow> False | Some (module_name, action) \<Rightarrow> HasModule p module_name action))"

definition allowStatusChange :: "principal option \<Rightarrow> string \<Rightarrow> (string \<Rightarrow> string \<times> bool) \<Rightarrow> unit outcome" where
  "allowStatusChange caller to lookup =
     (let (key, known) = lookup to
      in if \<not> known then Inl (BadRequest (''Unknown status: '' @ to))
         else case caller of None \<Rightarrow> Inl (Unauthorized ''No token provided.'')
              | Some p \<Rightarrow> (case str_cut key of None \<Rightarrow> Inl (Forbidden ''Access Denied'')
                  | Some (module_name, action) \<Rightarrow> if HasModule p module_name action then Inr () else Inl (Forbidden ''Access Denied'')))"

text \<open>The status an error of the services is answered with.\<close>

definition writeError :: "error \<Rightarrow> nat \<times> string" where
  "writeError e = (case err_class e of
     ErrNotFound \<Rightarrow> (404, ''Not found'')
   | ErrForbidden \<Rightarrow> (403, err_msg e)
   | ErrTransition \<Rightarrow> (409, err_msg e) | ErrConflict \<Rightarrow> (409, err_msg e)
   | ErrValidation \<Rightarrow> (400, err_msg e)
   | ErrNotEntitled \<Rightarrow> (402, err_msg e)
   | _ \<Rightarrow> (500, ''Request failed''))"

section \<open>gRPC\<close>

definition isHealthCheck :: "string \<Rightarrow> bool" where
  "isHealthCheck m \<longleftrightarrow> m = ''/grpc.health.v1.Health/Check'' \<or> m = ''/grpc.health.v1.Health/Watch''"

definition stripBearer :: "string \<Rightarrow> string" where
  "stripBearer s = (if 7 < length s \<and> (take 7 s = ''Bearer '' \<or> take 7 s = ''bearer '') then drop 7 s else s)"

text \<open>The metadata: the service tokens and the user tokens; absent, the call is refused.\<close>

definition UnaryServerInterceptor ::
  "authenticator option \<Rightarrow> string list \<Rightarrow> string \<Rightarrow> (string list \<times> string list) option \<Rightarrow> principal option outcome" where
  "UnaryServerInterceptor V acceptedServiceTokens full_method metadata =
     (let accepted = filter (\<lambda>t. t \<noteq> []) acceptedServiceTokens
      in if isHealthCheck full_method then Inr None
         else case metadata of
           None \<Rightarrow> Inl (Unauthorized ''missing metadata'')
         | Some (services, users) \<Rightarrow>
             if accepted \<noteq> [] \<and> \<not> list_ex (\<lambda>g. g \<in> set accepted) services then Inl (Unauthorized ''invalid service token'')
             else Inr (case (users, V) of
                 (u # _, Some A) \<Rightarrow> map_option fst (VerifyWithIssuedAt A (stripBearer u))
               | _ \<Rightarrow> None))"

section \<open>Facts\<close>

lemma cut_joined: "str_cut s = Some (m, a) \<Longrightarrow> m @ ''.'' @ a = s"
proof -
  assume c: "str_cut s = Some (m, a)"
  then have d: "CHR ''.'' \<in> set s" by (auto simp: str_cut_def split: if_splits)
  then have ne: "dropWhile (\<lambda>c. c \<noteq> CHR ''.'') s \<noteq> []" by auto
  have "hd (dropWhile (\<lambda>c. c \<noteq> CHR ''.'') s) = CHR ''.''" using hd_dropWhile [OF ne] by simp
  then have "dropWhile (\<lambda>c. c \<noteq> CHR ''.'') s = CHR ''.'' # drop 1 (dropWhile (\<lambda>c. c \<noteq> CHR ''.'') s)"
    using ne by (metis drop0 drop_Suc hd_Cons_tl One_nat_def)
  with c d show ?thesis
    unfolding str_cut_def by (metis (no_types, lifting) append_Cons append_Nil option.inject prod.inject takeWhile_dropWhile_id)
qed

lemma cut_dotted: "str_cut s \<noteq> None \<longleftrightarrow> CHR ''.'' \<in> set s"
  by (simp add: str_cut_def)

lemma HasModule_cut: "str_cut key = Some (m, a) \<Longrightarrow> HasModule p m a = HasPermission p ProductTMS key"
  by (drule cut_joined) (simp add: HasModule_def)

lemma RequireModule_Inr:
  "RequireModule key (Some p) = Inr () \<longleftrightarrow> CHR ''.'' \<in> set key \<and> HasPermission p ProductTMS key"
  using cut_dotted [of key]
  by (auto simp: RequireModule_def HasModule_cut split: option.splits if_splits)

lemma find_key: "distinct (map ps_Key cs) \<Longrightarrow> find (\<lambda>s. ps_Key s = key) cs = Some x \<longleftrightarrow> x \<in> set cs \<and> ps_Key x = key"
  by (rule find_id_iff)

lemma catalog_keys: "distinct (map ps_Key tmsCatalog)" "distinct (map ps_Key fmsCatalog)"
  by code_simp+

lemma CatalogFor_keys: "distinct (map ps_Key (CatalogFor product))"
  by (simp add: CatalogFor_def catalog_keys)

lemma FeatureFor_Some:
  "FeatureFor product key = Some f \<longleftrightarrow> (\<exists>s\<in>set (CatalogFor product). ps_Key s = key \<and> ps_Feature s = f)"
  using find_key [OF CatalogFor_keys, of key product] by (auto simp: FeatureFor_def)

text \<open>What an administrator may grant is what a permission can be held for.\<close>

lemma HasPermission_grantable:
  assumes "\<not> pr_IsPlatformStaff p"
  shows "HasPermission p product key \<longleftrightarrow>
    (\<exists>access. pr_Access p product = Some access \<and> (pa_GrantsAll access \<or> key \<in> set (pa_Permissions access)) \<and>
       (\<exists>s\<in>set (GrantablePermissions p product). ps_Key s = key))"
proof (cases "pr_Access p product")
  case (Some access)
  have "(case FeatureFor product key of None \<Rightarrow> False | Some f \<Rightarrow> if f = [] then True else f \<in> set (pa_Features access)) \<longleftrightarrow>
      (\<exists>s\<in>set (GrantableFrom product (pa_Features access)). ps_Key s = key)"
  proof (cases "FeatureFor product key")
    case None
    then have "\<forall>s\<in>set (CatalogFor product). ps_Key s \<noteq> key" using FeatureFor_Some [of product key] by auto
    with None show ?thesis by (auto simp: GrantableFrom_def)
  next
    case (Some f)
    then have "ps_Feature s = f" if "s \<in> set (CatalogFor product)" "ps_Key s = key" for s
      using FeatureFor_Some [of product key "ps_Feature s"] that by auto
    moreover obtain s where "s \<in> set (CatalogFor product)" "ps_Key s = key" using Some FeatureFor_Some [of product key] by auto
    ultimately show ?thesis using Some by (auto simp: GrantableFrom_def)
  qed
  with Some assms show ?thesis by (simp add: HasPermission_def GrantablePermissions_def)
qed (use assms in \<open>simp add: HasPermission_def\<close>)

text \<open>Every guard and every status names a catalogued permission whose feature a new company has.\<close>

definition sold_by_default :: "string \<Rightarrow> bool" where
  "sold_by_default key \<longleftrightarrow> CHR ''.'' \<in> set key \<and>
     (case FeatureFor ProductTMS key of None \<Rightarrow> False | Some f \<Rightarrow> f \<in> set DefaultTMSFeatures)"

lemma guards_sold: "list_all (\<lambda>(m, path, guard). case guard of None \<Rightarrow> True | Some key \<Rightarrow> sold_by_default key) api_routes"
  by code_simp

lemma statuses_sold:
  "list_all (\<lambda>(status, key). sold_by_default key) orderStatusPermission"
  "list_all (\<lambda>(status, key). sold_by_default key) shipmentStatusPermission"
  by code_simp+

text \<open>Every feature a permission of the catalogues is gated by can be sold.\<close>

lemma features_sellable:
  "list_all (\<lambda>s. IsSellableFeature ProductTMS (ps_Feature s)) tmsCatalog"
  "list_all (\<lambda>s. IsSellableFeature ProductFMS (ps_Feature s)) fmsCatalog"
  by code_simp+

definition new_administrator :: "string \<Rightarrow> string \<Rightarrow> principal \<Rightarrow> bool" where
  "new_administrator user company p \<longleftrightarrow> pr_UserID p = user \<and> pr_CompanyID p = company \<and> \<not> pr_IsPlatformStaff p \<and>
     (\<exists>a. pr_Access p ProductTMS = Some a \<and> pa_GrantsAll a \<and> set DefaultTMSFeatures \<subseteq> set (pa_Features a))"

lemma administrator_holds: "new_administrator u c p \<Longrightarrow> sold_by_default key \<Longrightarrow> HasPermission p ProductTMS key"
  by (auto simp: new_administrator_def sold_by_default_def HasPermission_def split: option.splits)

text \<open>Without access to the product nothing guarded is reached.\<close>

lemma no_access_no_permission: "\<not> pr_IsPlatformStaff p \<Longrightarrow> pr_Access p product = None \<Longrightarrow> \<not> HasPermission p product key"
  by (simp add: HasPermission_def)

lemma RequireAuth_Inr:
  "RequireAuthWithRevocations A r = Inr p \<Longrightarrow>
     (\<exists>issued. VerifyWithIssuedAt A (ExtractToken r) = Some (p, issued) \<and> \<not> pr_SingleDevice p \<and>
        (\<forall>l. au_revocations A = Some l \<longrightarrow> \<not> Revoked l (token_of p issued))) \<or>
     (\<exists>validate. au_remote A = Some validate \<and> validate (ExtractToken r) = Some p)"
  by (auto simp: RequireAuthWithRevocations_def ask_remote_def Let_def split: if_splits option.splits)

lemma callerActor_Inr:
  assumes "callerActor V caller r = Inr actor"
  shows "\<exists>p userID own. caller = Some p \<and> ae_uuid V (pr_UserID p) = Some userID \<and> ae_uuid V (pr_CompanyID p) = Some own \<and>
       a_UserID actor = userID \<and> a_PlatformStaff actor = pr_IsPlatformStaff p \<and>
       (a_CompanyID actor = own \<and> \<not> a_ActingFor actor \<or>
        pr_IsPlatformStaff p \<and> a_ActingFor actor \<and> a_CompanyID actor \<noteq> own \<and>
        ae_uuid V (trim_space (rq_ActingFor r)) = Some (a_CompanyID actor)) \<and>
       a_Role actor = (if pr_IsPlatformStaff p then RoleAdmin else NormaliseRole (principal_role p)) \<and>
       a_StatusBypass actor = statusBypassRequested V r (principal_role p) (pr_IsPlatformStaff p)"
proof -
  obtain p where p: "caller = Some p" using assms by (cases caller) (simp_all add: callerActor_def)
  obtain u where u: "ae_uuid V (pr_UserID p) = Some u" using assms p by (cases "ae_uuid V (pr_UserID p)") (simp_all add: callerActor_def)
  obtain c where c: "ae_uuid V (pr_CompanyID p) = Some c"
    using assms p u by (cases "ae_uuid V (pr_CompanyID p)") (simp_all add: callerActor_def)
  let ?a = "\<lparr>a_UserID = u, a_CompanyID = c, a_Role = (if pr_IsPlatformStaff p then RoleAdmin else NormaliseRole (principal_role p)),
     a_PlatformStaff = pr_IsPlatformStaff p, a_ActingFor = False,
     a_StatusBypass = statusBypassRequested V r (principal_role p) (pr_IsPlatformStaff p)\<rparr>"
  have "actor = ?a \<or> pr_IsPlatformStaff p \<and> (\<exists>b. ae_uuid V (trim_space (rq_ActingFor r)) = Some b \<and> b \<noteq> c \<and>
      actor = ?a\<lparr>a_CompanyID := b, a_ActingFor := True\<rparr>)"
    using assms unfolding callerActor_def p u c Let_def option.case
    by (simp split: if_split_asm option.split_asm)
  then show ?thesis using p u c by (elim disjE conjE exE) simp_all
qed

end
