(* ===== verification/Spec2Isabelle.thy ===== *)
theory Spec2Isabelle
  imports Prelude Status Entities Repository Codes Runs FieldConfig Agreements Journey Orders Shipment
    Visits Pod Handover StatusHistory Service Sample Routing Dispatch Contracts Billing Allowance Tracking
    Ledger Query Revocation Access
begin

text \<open>
  The delivery core of the business service (\<^verbatim>\<open>src/internal\<close>): a shipper books an order, a
  transporter approves it and gives it a driver, the driver drives the shipment through the stops of
  the journey, proofs of delivery are submitted and reviewed, and the receiving side confirms the
  handover with a one-time code. This root theory imports the others and states the properties.

  \<^bold>\<open>Which theory models what.\<close>

  \<^item> \<open>Prelude\<close>: operations as functions from a store to a result and a store; a Go function that
    returns an error is an operation whose result is \<open>Inl\<close> an error (the sentinel it wraps and the
    message). \<open>andThen\<close> is the sequencing with early return, \<open>attempt\<close> hands an error to the code,
    \<open>refuse\<close> is a guard. Rules for reasoning about them are collected in \<open>op_rules\<close>: what an operation
    \<open>keeps\<close>, \<open>preserves\<close>, \<open>follows\<close>, and the operations that are \<open>readonly\<close> or \<open>clean\<close> (change
    nothing where they answer an error). Strings are lists of characters, JSON documents a datatype.
  \<^item> \<open>Status\<close> (\<^verbatim>\<open>status/status.go\<close>): the two state machines as tables of transitions with roles,
    labels, permissions, the linear chain of shipment statuses. The locale \<open>status_machine\<close> holds what is true
    of a table whose moves raise a rank.
  \<^item> \<open>Entities\<close> (\<^verbatim>\<open>models\<close>): the rows of the tables as records with their columns, the store \<open>db\<close> (a
    list of rows per table and the supply of ids), and \<open>env\<close>: the clock, the configuration, which
    collaborators are wired in, the answers of other services (master data, users, routing, hashing,
    randomness) and which repository call fails. Every operation takes the \<open>env\<close> it runs in, so that
    nothing is assumed of these answers except where a theorem says so.
  \<^item> \<open>Repository\<close>, \<open>Codes\<close> (\<^verbatim>\<open>repository/{repository,stops,pod,allowance}.go\<close>): the SQL of
    the repositories over the lists of rows: creation, compare-and-set of a status with its history
    entry, column updates, submissions, codes, with the partial unique indexes of the migrations. The
    locale \<open>cas_table\<close> is the contract of a compare-and-set; both status writers are instances.
  \<^item> \<open>Runs\<close>: what the services rely on and keep: unique ids, journeys in order, statuses that follow
    the machines, records that stay. Its lemmas lift these from the repository calls to operations.
  \<^item> \<open>FieldConfig\<close> (\<^verbatim>\<open>fieldconfig\<close>, \<^verbatim>\<open>services/fieldconfig_service.go\<close>): the catalogue of the forms, what a
    company's overrides make of it, validation of a submitted form and the writing of settings.
  \<^item> \<open>Agreements\<close> (\<^verbatim>\<open>models.go\<close>, \<^verbatim>\<open>repository.go\<close>): when an agreement may price an order and which of
    its lines does.
  \<^item> \<open>Journey\<close> (\<^verbatim>\<open>services/{order_flow,order_stops}.go\<close>): the visit order of an order, the stop rows
    derived from it, and the rebuilding of the stored stops.
  \<^item> \<open>Orders\<close> (\<^verbatim>\<open>services/order_service.go\<close>): create (validation, numbering, pricing, items),
    transition, driver assignment, drafts and detail patches.
  \<^item> \<open>Shipment\<close>, \<open>Visits\<close>, \<open>Pod\<close>, \<open>Handover\<close> (\<^verbatim>\<open>services/{shipment_service,stop_visit,pod_service,
    handover_service,field_service}.go\<close>): advancing a shipment with its gates and the order in step,
    visits of stops, proofs of delivery, handover codes and the page of the receiving side.
  \<^item> \<open>StatusHistory\<close>, \<open>Service\<close>: the status history as a path of the machine, and the service as a whole:
    \<open>serve\<close> dispatches a \<open>request\<close> to its operation, \<open>step\<close> is one request of any caller in any
    environment, or a change beside the modelled tables, and \<open>reachable\<close> the stores that result.
  \<^item> \<open>Routing\<close> (\<^verbatim>\<open>routing/cache.go\<close>, \<^verbatim>\<open>repository/dispatch.go\<close>): the cache of planned roads, keyed by the
    content of a request. Its lemma \<open>asked_once\<close>: a road that was computed answers every request whose
    points agree to five decimals until it expires.
  \<^item> \<open>Contracts\<close> (\<^verbatim>\<open>services/{billing_service,agreement_version_service,agreement_routing}.go\<close>,
    \<^verbatim>\<open>repository/agreement_version.go\<close>): agreements as lineages of versions: making, deciding, verifying,
    expiring and revising them, and the routing of their lanes. \<open>contracted\<close> holds the stores that any
    \<open>deal\<close>s lead to.
  \<^item> \<open>Billing\<close> (\<^verbatim>\<open>services/billing_service.go\<close>, \<^verbatim>\<open>models.go\<close>, \<^verbatim>\<open>repository.go\<close>): invoices over delivered
    orders and their machine; \<open>booked_bills\<close> are the stores that billing leads to.
  \<^item> \<open>Dispatch\<close> (\<^verbatim>\<open>services/dispatch_service.go\<close>, \<^verbatim>\<open>repository/dispatch.go\<close>): where the trucks are (the
    device's answer, else the last drop), the candidates for an order, and the planned roads of an
    order: \<open>PlanHaul\<close> when it is placed, \<open>PlanApproach\<close> when it gets a truck, \<open>Reroute\<close>, \<open>Routes\<close>.
  \<^item> \<open>Allowance\<close> (\<^verbatim>\<open>services/allowance_{service,snapshot}.go\<close>, \<^verbatim>\<open>repository/allowance.go\<close>): the driver's
    advance: the evidence of the roads, entering, committing, history. \<open>advance_step\<close> and \<open>road_step\<close>
    are the requests about advances and roads with anything else in between.
  \<^item> \<open>Tracking\<close> (\<^verbatim>\<open>services/{tracking_service,geofence_watcher}.go\<close>, \<^verbatim>\<open>repository/tracking.go\<close>): the public
    link of an order and what it shows (\<open>link_step\<close>); one tick of the geofence watcher, whose memory of
    the sides of the fences is threaded through the tick.
  \<^item> \<open>Ledger\<close> (\<^verbatim>\<open>handlers/ledger_handler.go\<close>, \<^verbatim>\<open>repository/ledger.go\<close>): the chart of accounts and the
    manual journal of a company, a store of their own; \<open>ledger_step\<close> is one request of one company.
  \<^item> \<open>Query\<close> (\<^verbatim>\<open>platform/query\<close>, \<^verbatim>\<open>platform/safeconv\<close>, \<^verbatim>\<open>repository/query.go\<close> and the \<open>List\<close> functions of
    \<^verbatim>\<open>repository.go\<close>): the parameters of a list, from HTTP (\<open>Query_Parse\<close>) and gRPC (\<open>FromProto\<close>), the
    statement they become and the page it answers. Which rows satisfy a condition and how a column
    orders them is a parameter, the record \<open>sql\<close>; so is the decoding of JSON, the record \<open>decoder\<close>.
  \<^item> \<open>Revocation\<close> (\<^verbatim>\<open>platform/revocation\<close>): the list of revoked tokens a service holds, the durable copy
    with its expiry and the announcements; \<open>watch_step\<close> is one thing that happens to them. \<open>covers\<close> is the
    specification of what an event refuses.
  \<^item> \<open>Access\<close> (\<^verbatim>\<open>platform/authctx\<close>, \<^verbatim>\<open>routes/routes.go\<close>, the shared helpers of \<^verbatim>\<open>handlers/handlers.go\<close>):
    the permission catalogues and what may be sold, who holds a permission, the routes with their
    guards, the actor a request acts as, the answers to errors, the interceptor of the gRPC server.
  \<^item> \<open>Sample\<close>: concrete rows on which the properties are run. Its journey runs without dispatch wired in.

  \<^bold>\<open>What the lemmas show.\<close> \<open>op_rules\<close> carry each invariant through every operation by its structure;
  each operation has a lemma (named after it with \<open>_Inr\<close>) that says what is true when it answers no
  error, and rules that say which tables it can touch. The properties below are these facts for the
  machines (C7), the store (C1), the service as a whole (C2,
  C3, C4, C5, C6), orders
  (C8, C9, C10), forms (C11), journeys
  (C12, C13, C14), shipments (C15,
  C16), proofs of delivery (C17), the handover (C18,
  C19), contracts (C20), invoices (C21, C22),
  dispatch (C23, C24, C25), advances (C26,
  C27, C28), tracking (C29, C30), the ledger
  (C31, C32, C33, C34), lists (C35,
  C36, C37), revocation (C38) and access (C39,
  C40).
  The other theorems below are further facts about the same operations.

  \<^bold>\<open>Bounds.\<close> The walk of a shipment has the twelve steps of the loop in \<^verbatim>\<open>walkShipmentTo\<close>, which is the
  length of the chain (C16). A journey has at most 200 stops, \<^verbatim>\<open>maxStopsPerOrder\<close>, so numbers
  fit the 16-bit column (C13). Pages, sizes and offsets of a list are 64-bit words, over gRPC
  32-bit ones, with their wrap-around (C36). All other recursion is structural. Requests are handled one at a
  time; what may interleave between reading a status and writing it is covered by the compare-and-set
  (C1).

  \<^bold>\<open>Representation.\<close> Ids are natural numbers handed out in sequence; times are nanoseconds as
  integers; amounts are rationals, rounded to the scale of their column where an invoice is stored;
  \<^verbatim>\<open>smallint\<close> columns are 16-bit words; Jakarta is UTC+7 the whole year. Latitudes, longitudes and
  distances are rationals. A repository call fails when the \<open>env\<close> says so and then
  writes nothing (each runs in one statement or one transaction).

  \<^bold>\<open>Not modelled.\<close> Decoding the bodies of the requests other than those of the ledger and of the lists, and
  writing their responses; the other methods of the gRPC server; generated code and start-up; clients
  of other services and the signature of a token (their answers are parameters); the decoration of
  rows for display and the summary of the dashboard; Parquet export and object storage; the cache
  beside Redis, logging and migrations; ratings (rows without rules). Rows that the ORDER BY of a list
  does not tell apart keep the order of the table, of which the database promises nothing.
\<close>

section \<open>The machines\<close>

text \<open>
  A shipment's life only goes forward: a run of permitted steps of the shipment machine, each
  taken by whatever role, has at most twelve steps, never comes back to a status it has left, and
  never enters the two approval states of the superseded flow.
\<close>

theorem shipment_life_forward:
  assumes "(moves shipmentTransitions ^^ n) from to"
  shows "n \<le> 12 \<and> (0 < n \<longrightarrow> to \<noteq> from \<and> to \<noteq> ShipmentLoadingApproved \<and> to \<noteq> ShipmentUnloadingApproved)"
proof (cases n)
  case (Suc m)
  with assms obtain mid where "(moves shipmentTransitions ^^ m) from mid" "moves shipmentTransitions mid to"
    by auto
  moreover have "shipment_rank from + n \<le> shipment_rank to"
    using assms by (rule shipment_machine.run_length)
  moreover have "shipment_rank to \<le> 12"
    using chain_index_le [of to] by (auto simp: shipment_rank_def)
  ultimately show ?thesis using Suc by (auto dest: shipment_move_target)
qed simp

theorem shipment_life_forward_witness:
  "ShipmentToLoading \<noteq> ShipmentAssigned \<and> (1::nat) \<le> 12"
proof -
  have "(moves shipmentTransitions ^^ 1) ShipmentAssigned ShipmentToLoading"
    by (auto intro!: move [where role = RoleDriver] simp: canTransition_def shipmentTransitions_def)
  from shipment_life_forward [OF this] show ?thesis by simp
qed

text \<open>
  C7. The next states offered to a caller are exactly the moves the machine would permit that
  caller, every one of them has a permission to hold and is a state of the machine itself, and none
  is offered out of a final state; for orders and for shipments.
\<close>

theorem offered_moves:
  "(to \<in> set (NextOrderStates from role) \<longleftrightarrow> CanTransitionOrder from to role = None) \<and>
   (to \<in> set (NextShipmentStates from role) \<longleftrightarrow> CanTransitionShipment from to role = None) \<and>
   (CanTransitionOrder from to role = None \<longrightarrow>
      snd (PermissionForOrderStatus to) \<and> to \<in> set (map fst orderTransitions) \<and> \<not> IsOrderFinal from) \<and>
   (CanTransitionShipment from to role = None \<longrightarrow>
      snd (PermissionForShipmentStatus to) \<and> to \<in> set (map fst shipmentTransitions))"
proof -
  have "\<not> IsOrderFinal from" if "CanTransitionOrder from to role = None"
    using that by (auto simp: IsOrderFinal_def CanTransitionOrder_def canTransition_def split: option.splits)
  then show ?thesis
    using order_machine.move_guarded [OF move] order_machine.move_known [OF move]
      shipment_machine.move_guarded [OF move] shipment_machine.move_known [OF move]
    unfolding NextOrderStates_def NextShipmentStates_def next_states_iff CanTransitionOrder_def
      CanTransitionShipment_def by blast
qed

theorem offered_moves_witness:
  "PermissionForOrderStatus OrderApproved = (''order.approve'', True) \<and>
   OrderApproved \<in> set (NextOrderStates OrderSubmitted RoleManager) \<and>
   snd (PermissionForOrderStatus OrderApproved) \<and> snd (PermissionForShipmentStatus ShipmentAtLoading)"
proof -
  have o: "CanTransitionOrder OrderSubmitted OrderApproved RoleManager = None"
    and s: "CanTransitionShipment ShipmentToLoading ShipmentAtLoading RoleDriver = None"
    by code_simp+
  have "PermissionForOrderStatus OrderApproved = (''order.approve'', True)" by code_simp
  with offered_moves [of OrderApproved OrderSubmitted RoleManager]
    offered_moves [of ShipmentAtLoading ShipmentToLoading RoleDriver] o s
  show ?thesis by blast
qed

section \<open>The store\<close>

text \<open>
  C1. Of any number of callers that read an order in the same status and all try to move it on
  (two managers approving, a cancellation racing an assignment), exactly one succeeds, in whatever
  order their writes reach the database.
\<close>

theorem one_winner:
  fixes order_moves :: "status_change list"
  assumes up: "\<not> down E OrdersApplyStatus" and row: "(k, st) \<in> set (order_view d)"
    and some: "order_moves \<noteq> []"
    and rivals: "\<forall>c\<in>set order_moves. sc_OrderID c = k \<and> sc_From c = st \<and> sc_To c \<noteq> st \<and> tame_order_change c"
  shows "winners (Orders_ApplyStatus E) order_moves d = 1"
  using order_cas.exactly_one_winner [OF up row some] rivals by simp

theorem one_winner_witness:
  "winners (Orders_ApplyStatus calm)
     [\<lparr>sc_OrderID = 1, sc_From = OrderSubmitted, sc_To = OrderApproved, sc_Actor = Some 21,
       sc_Source = SourceUser, sc_Note = None, sc_Fields = (\<lambda>r. r)\<rparr>,
      \<lparr>sc_OrderID = 1, sc_From = OrderSubmitted, sc_To = OrderCancelled, sc_Actor = Some 11,
       sc_Source = SourceUser, sc_Note = None, sc_Fields = (\<lambda>r. r)\<rparr>]
     (sample_db OrderSubmitted ShipmentAssigned) = 1"
  by (rule one_winner [where k = 1 and st = OrderSubmitted])
     (simp_all add: calm_def order_view_def tame_order_change_def sample_defs)

section \<open>The service as a whole\<close>


text \<open>
  C3. Whatever requests were served, the status history of every order is a path through the order
  machine: its first entry opens the order, each entry starts where the one before it ended, every one
  is a permitted move, and the last one is the status the order has. No entry is about an order that
  does not exist.
\<close>

theorem history_explains_status:
  assumes "reachable d"
  shows "(\<forall>ord\<in>set (db_orders d). follows_path None (trail (o_ID ord) d) (Some (o_StatusCode ord))) \<and>
    he_OrderID ` set (db_history d) \<subseteq> o_ID ` set (db_orders d)"
  using reachable_sound [OF assms] by (auto simp: sound_def audited_def)

theorem history_explains_status_witness:
  "follows_path None (trail 1 (serve_all booked empty_db)) (Some OrderAssigned)"
proof -
  have "map (\<lambda>r. (o_ID r, o_StatusCode r)) (db_orders (serve_all booked empty_db)) = [(1, OrderAssigned)]"
    by code_simp
  then show ?thesis using history_explains_status [OF booked_reachable] by (auto simp: map_eq_Cons_conv)
qed

text \<open>
  C4. Whatever requests were served, in every journey nobody has arrived at a stop while an earlier
  one was neither reached nor finished.
\<close>

theorem journeys_stay_in_order:
  assumes "reachable d"
  shows "in_order (stops_of i d)"
  using reachable_sound [OF assms] by (simp add: sound_def journeys_in_order_def)

theorem journeys_stay_in_order_witness:
  "in_order (stops_of 1 (serve_all booked empty_db)) \<and> length (stops_of 1 (serve_all booked empty_db)) = 2"
proof -
  have "length (stops_of 1 (serve_all booked empty_db)) = 2" by code_simp
  with journeys_stay_in_order [OF booked_reachable, of 1] show ?thesis by simp
qed

text \<open>
  C5. Whatever requests were served, no two rows of a table share an id and a visit has at most one
  live handover code, so the code that is looked up for the visit is the only one that could be
  confirmed; and a lookup that works finds it.
\<close>

theorem one_live_code:
  assumes "reachable d" and "h \<in> set (db_handovers d)" and "live_for i stage stop h"
  shows "(\<forall>h'\<in>set (db_handovers d). live_for i stage stop h' \<longrightarrow> h' = h) \<and>
    (\<not> down E HandoversFindLive \<longrightarrow> Handovers_FindLive E i stage stop d = (Inr h, d))"
proof -
  have one: "one_live d" using reachable_sound [OF assms(1)] by (simp add: sound_def)
  have all: "h' = h" if "h' \<in> set (db_handovers d)" "live_for i stage stop h'" for h'
    using live_unique [OF one that(1) assms(2) that(2) assms(3)] .
  have "find (live_for i stage stop) (db_handovers d) \<noteq> None"
    using assms(2,3) by (auto simp: find_None_iff)
  then have "find (live_for i stage stop) (db_handovers d) = Some h"
    using all by (auto dest: find_Some_iff_first)
  with all show ?thesis by (simp add: Handovers_FindLive_def call_def query_def one_def)
qed

definition at_the_gate :: db where
  "at_the_gate = serve_all (booked @ loaded_up @ take 2 unloaded) empty_db"

lemma at_the_gate_reachable: "reachable at_the_gate"
  unfolding at_the_gate_def
  by (rule steps_reachable [OF serve_all_steps])
     (auto simp: booked_def loaded_up_def unloaded_def intro: reachable.empty)

theorem one_live_code_witness:
  "\<exists>h. Handovers_FindLive calm 4 ''unloading'' (Some 3) at_the_gate = (Inr h, at_the_gate)"
proof -
  have "list_ex (live_for 4 ''unloading'' (Some 3)) (db_handovers at_the_gate)" by code_simp
  then obtain h where "h \<in> set (db_handovers at_the_gate)" "live_for 4 ''unloading'' (Some 3) h"
    by (auto simp: list_ex_iff)
  from one_live_code [OF at_the_gate_reachable this, of calm] show ?thesis by (auto simp: calm_def)
qed

text \<open>
  C6. Statuses only ever move along the machines: whatever is served from a reachable store on, an
  order and a shipment stay in the store, each where a run of permitted moves leads; a shipment that
  was finished or cancelled and an order that was completed, cancelled or rejected stay so.
\<close>

theorem statuses_follow_machines:
  assumes "reachable d" and "step\<^sup>*\<^sup>* d d'"
  shows "((i, s) \<in> set (shipment_view d) \<longrightarrow>
      (\<exists>s'. (i, s') \<in> set (shipment_view d') \<and> (moves shipmentTransitions)\<^sup>*\<^sup>* s s' \<and>
        (s = ShipmentFinished \<or> s = ShipmentCancelled \<longrightarrow> s' = s))) \<and>
    ((k, t) \<in> set (order_view d) \<longrightarrow>
      (\<exists>t'. (k, t') \<in> set (order_view d') \<and> (moves orderTransitions)\<^sup>*\<^sup>* t t' \<and>
        (t = OrderCompleted \<or> t = OrderCancelled \<or> t = OrderRejected \<longrightarrow> t' = t)))"
proof -
  have f: "map_of shipmentTransitions ShipmentFinished = Some []" "map_of shipmentTransitions ShipmentCancelled = Some []"
    "map_of orderTransitions OrderCompleted = Some []" "map_of orderTransitions OrderCancelled = Some []"
    "map_of orderTransitions OrderRejected = Some []" by code_simp+
  from steps_follow [OF assms(2)] have runs: "rows_run (moves shipmentTransitions) (shipment_view d) (shipment_view d')"
    "rows_run (moves orderTransitions) (order_view d) (order_view d')"
    by (simp_all add: shipments_run_def orders_run_def)
  have "s' = s" if "(moves shipmentTransitions)\<^sup>*\<^sup>* s s'" "s = ShipmentFinished \<or> s = ShipmentCancelled" for s'
    using that shipment_machine.final_stays [OF f(1)] shipment_machine.final_stays [OF f(2)] by auto
  moreover have "t' = t" if "(moves orderTransitions)\<^sup>*\<^sup>* t t'"
    "t = OrderCompleted \<or> t = OrderCancelled \<or> t = OrderRejected" for t'
    using that order_machine.final_stays [OF f(3)] order_machine.final_stays [OF f(4)]
      order_machine.final_stays [OF f(5)] by auto
  ultimately show ?thesis
    using rows_run_status [OF runs(1), of i s] rows_run_status [OF runs(2), of k t] by blast
qed

theorem statuses_follow_machines_witness:
  "\<exists>s'. (4, s') \<in> set (shipment_view (serve_all loaded_up (serve_all booked empty_db))) \<and>
     (moves shipmentTransitions)\<^sup>*\<^sup>* ShipmentAssigned s'"
proof -
  have "(4, ShipmentAssigned) \<in> set (shipment_view (serve_all booked empty_db))" by code_simp
  moreover have "step\<^sup>*\<^sup>* (serve_all booked empty_db) (serve_all loaded_up (serve_all booked empty_db))"
    by (rule serve_all_steps) (auto simp: loaded_up_def)
  ultimately show ?thesis using statuses_follow_machines [OF booked_reachable] by blast
qed

text \<open>
  What is on record stays on record: whatever is served from a reachable store on, a proof of
  delivery that was approved or rejected, a handover that was confirmed, an arrival and a start at a
  stop that were reported stay as they were recorded, time included.
\<close>

theorem records_stay:
  assumes "reachable d" and "step\<^sup>*\<^sup>* d d'"
  shows "decided_pods d \<subseteq> decided_pods d' \<and> confirmed_codes d \<subseteq> confirmed_codes d' \<and>
    arrivals d \<subseteq> arrivals d' \<and> starts d \<subseteq> starts d'"
  using steps_follow [OF assms(2)] reachable_keyed [OF assms(1)] by (simp add: records_kept_def)

theorem records_stay_witness:
  "let d = serve_all (booked @ loaded_up) empty_db
   in (5, PodApproved) \<in> decided_pods (serve_all unloaded d) \<and> (2, 1000) \<in> arrivals (serve_all unloaded d)"
proof -
  let ?d = "serve_all (booked @ loaded_up) empty_db"
  have "reachable ?d" by (rule steps_reachable [OF serve_all_steps])
    (auto simp: booked_def loaded_up_def intro: reachable.empty)
  moreover have "step\<^sup>*\<^sup>* ?d (serve_all unloaded ?d)"
    by (rule serve_all_steps) (auto simp: unloaded_def)
  moreover have "(5, PodApproved) \<in> set (pod_view ?d)" by code_simp
  then have "(5, PodApproved) \<in> decided_pods ?d" by (simp add: decided_pods_def)
  moreover have "list_ex (\<lambda>s. st_ID s = 2 \<and> st_ArrivedAt s = Some 1000) (db_stops ?d)" by code_simp
  then have "(2, 1000) \<in> arrivals ?d" by (auto simp: arrivals_def list_ex_iff)
  ultimately show ?thesis using records_stay [of ?d "serve_all unloaded ?d"] by (auto simp: Let_def)
qed
section \<open>Orders\<close>

text \<open>
  C8. An order that was placed passed the checks: two different sites unless it is an empty run, a
  loading time that has not passed by more than a minute and is not after the delivery or before the
  expiry, every field its company requires and none that it hides. It is stored under a number no
  order had, owned by the shipper (or by the customer a transporter enters it for), and it starts as
  a draft, submitted, or approved where the transporter entered it.
\<close>

theorem placed_order:
  assumes "Orders_Place E actor inp d = (Inr ord, d')"
  shows "(ci_OrderKind inp \<noteq> OrderKindEmpty \<longrightarrow> ci_OriginWarehouseID inp \<noteq> [] \<and>
      ci_DestinationWarehouseID inp \<noteq> [] \<and> ci_OriginWarehouseID inp \<noteq> ci_DestinationWarehouseID inp) \<and>
    (\<forall>p. ci_PickupAt inp = Some p \<longrightarrow> now E - 60000000000 \<le> p \<and>
      (\<forall>t. ci_DeliveryAt inp = Some t \<longrightarrow> p \<le> t) \<and> (\<forall>t. ci_ExpiresAt inp = Some t \<longrightarrow> t \<le> p)) \<and>
    (fields_wired E \<longrightarrow> (\<exists>cfg. FieldConfig_For E (a_CompanyID actor) EntityOrder d = (Inr cfg, d) \<and>
      Config_Validate cfg (ci_Present inp) = None)) \<and>
    db_orders d' = db_orders d @ [ord] \<and> o_OrderNumber ord \<notin> o_OrderNumber ` set (db_orders d) \<and>
    o_ShipperCompanyID ord = (case ci_CustomerCompanyID inp of Some c \<Rightarrow> c | None \<Rightarrow> a_CompanyID actor) \<and>
    o_StatusCode ord = (if ci_CustomerCompanyID inp \<noteq> None then OrderApproved
      else if ci_SubmitImmediately inp then OrderSubmitted else OrderDraft)"
  using Orders_Place_Inr [OF assms] validateCreate_Inr [OF Orders_Place_Inr(1) [OF assms]] by blast

theorem placed_order_witness:
  "\<exists>ord d'. Orders_Place road_env sample_shipper booking empty_db = (Inr ord, d') \<and>
     db_orders d' = [ord] \<and> o_ShipperCompanyID ord = 10 \<and> o_StatusCode ord = OrderSubmitted"
proof -
  have "\<exists>ord d'. Orders_Place road_env sample_shipper booking empty_db = (Inr ord, d')"
    by (rule answered) code_simp
  then obtain ord d' where run: "Orders_Place road_env sample_shipper booking empty_db = (Inr ord, d')" by blast
  from placed_order [OF run] show ?thesis
    using run by (auto simp: booking_def sample_shipper_def empty_db_def)
qed





text \<open>
  C10. Numbers are never issued twice: of any number of reservations one after another the order
  numbers are all different, and the sequence value can be read back from the number's digits.
\<close>

theorem numbers_never_repeat:
  assumes "reserve E n d = (Inr numbers, d')" and "0 \<le> db_sequences d (''order'', year_text E)"
  shows "distinct numbers \<and> length numbers = n \<and>
    map (\<lambda>s. undigits (drop (length (''ORD-'' @ year_text E @ ''-'')) s)) numbers =
      map (\<lambda>k. nat (db_sequences d (''order'', year_text E)) + k) [1..<n + 1]"
  using order_numbers_distinct [OF assms] reserve_numbers [OF assms] by (simp add: comp_def)

theorem numbers_never_repeat_witness:
  "\<exists>numbers d'. reserve calm 3 empty_db = (Inr numbers, d') \<and> distinct numbers \<and> length numbers = 3"
proof -
  have "\<exists>numbers d'. reserve calm 3 empty_db = (Inr numbers, d')" by (rule answered) code_simp
  then obtain numbers d' where run: "reserve calm 3 empty_db = (Inr numbers, d')" by blast
  with numbers_never_repeat [OF run] show ?thesis by (auto simp: empty_db_def)
qed

text \<open>
  An order only moves by a permitted move: the caller's company is a party of the order, the
  machine permits the caller's role the move from the status the order has, approving, rejecting and
  planning is the transporter's and submitting the shipper's (or an administrator's). The order that
  was in that status is then in the other one, no other order moved, and the move is on record with
  who made it.
\<close>

theorem order_moves:
  assumes "Orders_Transition E actor i to note d = (Inr ord', d')"
  shows "\<exists>ord\<in>set (db_orders d). o_ID ord = i \<and> InvolvesCompany ord (a_CompanyID actor) \<and>
    CanTransitionOrder (o_StatusCode ord) to (machineRole actor (Some ord)) = None \<and>
    (to = OrderApproved \<or> to = OrderRejected \<or> to = OrderReadyToPlan \<longrightarrow>
       o_TransporterCompanyID ord = Some (a_CompanyID actor) \<or> is_admin actor) \<and>
    (to = OrderSubmitted \<longrightarrow> o_ShipperCompanyID ord = a_CompanyID actor \<or> is_admin actor) \<and>
    ord' = ord\<lparr>o_StatusCode := to\<rparr> \<and>
    order_view d' = map (\<lambda>(k, st). (k, if k = i \<and> st = o_StatusCode ord then to else st)) (order_view d) \<and>
    db_history d' = db_history d @ [\<lparr>he_OrderID = i, he_FromStatusCode = Some (o_StatusCode ord),
      he_ToStatusCode = to, he_ChangedByUserID = Some (a_UserID actor), he_Source = SourceUser,
      he_Note = nonempty note\<rparr>]"
proof -
  from Orders_Transition_Inr [OF assms] obtain ord where ord: "ord \<in> set (db_orders d)" "o_ID ord = i"
    "InvolvesCompany ord (a_CompanyID actor)"
    "CanTransitionOrder (o_StatusCode ord) to (machineRole actor (Some ord)) = None"
    "assertTransitionAuthority ord actor to = Inr ()" "ord' = ord\<lparr>o_StatusCode := to\<rparr>"
    "order_view d' = map (\<lambda>(k, st). (k, if k = i \<and> st = o_StatusCode ord then to else st)) (order_view d)"
    "db_history d' = db_history d @ [\<lparr>he_OrderID = i, he_FromStatusCode = Some (o_StatusCode ord),
      he_ToStatusCode = to, he_ChangedByUserID = Some (a_UserID actor), he_Source = SourceUser,
      he_Note = nonempty note\<rparr>]" by blast
  from ord(5) have "(to = OrderApproved \<or> to = OrderRejected \<or> to = OrderReadyToPlan \<longrightarrow>
       o_TransporterCompanyID ord = Some (a_CompanyID actor) \<or> is_admin actor)"
    "(to = OrderSubmitted \<longrightarrow> o_ShipperCompanyID ord = a_CompanyID actor \<or> is_admin actor)"
    by (auto simp: assertTransitionAuthority_def Let_def split: if_splits)
  with ord show ?thesis by blast
qed

theorem order_moves_witness:
  "\<exists>ord' d'. Orders_Transition sample_env sample_planner 1 OrderApproved [] (sample_db OrderSubmitted ShipmentAssigned) =
      (Inr ord', d') \<and> order_view d' = [(1, OrderApproved)] \<and> length (db_history d') = 1"
proof -
  have "\<exists>ord' d'. Orders_Transition sample_env sample_planner 1 OrderApproved []
      (sample_db OrderSubmitted ShipmentAssigned) = (Inr ord', d')" by (rule answered) code_simp
  then obtain ord' d' where run: "Orders_Transition sample_env sample_planner 1 OrderApproved []
      (sample_db OrderSubmitted ShipmentAssigned) = (Inr ord', d')" by blast
  from order_moves [OF run] run show ?thesis
    by (auto simp: sample_db_def sample_order_def order_view_def empty_db_def)
qed

text \<open>
  A driver is only given an order by its transporter (or an administrator), out of a status the
  machine lets it be assigned from, an active driver who is paired with the truck; then the order is
  assigned and it has a new shipment for that driver and the driver's login, at the start of its life.
\<close>

theorem driver_assigned:
  assumes "AssignDriver E actor i driverID truckID d = (Inr ord', d')"
  shows "\<exists>ord\<in>set (db_orders d). \<exists>drv. o_ID ord = i \<and> InvolvesCompany ord (a_CompanyID actor) \<and>
    (o_TransporterCompanyID ord = Some (a_CompanyID actor) \<or> is_admin actor) \<and>
    CanTransitionOrder (o_StatusCode ord) OrderAssigned (machineRole actor (Some ord)) = None \<and>
    GetDriver E driverID = Some drv \<and> (d_Status drv = [] \<or> d_Status drv = ''active'') \<and>
    DriverIsPairedWithTruck E driverID truckID = Some True \<and>
    order_view d' = map (\<lambda>(k, st). (k, if k = i \<and> st = o_StatusCode ord then OrderAssigned else st)) (order_view d) \<and>
    (\<exists>ship. db_shipments d' = db_shipments d @ [ship] \<and> sh_OrderID ship = i \<and>
       sh_DriverID ship = Some driverID \<and> sh_DriverUserID ship = driver_login E drv \<and>
       sh_StatusCode ship = ShipmentAssigned)"
  using assms by (rule AssignDriver_Inr)

theorem driver_assigned_witness:
  "\<exists>ord' d' ship. AssignDriver road_env sample_planner 1 ''D1'' ''T1''
      (sample_db OrderApproved ShipmentAssigned\<lparr>db_shipments := []\<rparr>) = (Inr ord', d') \<and>
     db_shipments d' = [ship] \<and> sh_DriverID ship = Some ''D1'' \<and> sh_StatusCode ship = ShipmentAssigned"
proof -
  let ?d = "sample_db OrderApproved ShipmentAssigned\<lparr>db_shipments := []\<rparr>"
  have "\<exists>ord' d'. AssignDriver road_env sample_planner 1 ''D1'' ''T1'' ?d = (Inr ord', d')"
    by (rule answered) code_simp
  then obtain ord' d' where run: "AssignDriver road_env sample_planner 1 ''D1'' ''T1'' ?d = (Inr ord', d')" by blast
  from driver_assigned [OF run] run show ?thesis by auto
qed

section \<open>Configured forms\<close>

text \<open>
  Writing a company's settings and reading the form back gives what was asked for: afterwards
  every field demands the last setting given for it, and every other field what it demanded before.
\<close>

theorem settings_read_back:
  assumes "FieldConfig_Update E actor e settings d = (Inr cfg, d')" and "decisions_unique d"
    and "FieldConfig_For E (a_CompanyID actor) e d = (Inr old, d)"
  shows "RequirementOf cfg k = requested settings k (RequirementOf old k)"
  using assms by (rule FieldConfig_Update_Inr)

theorem settings_read_back_witness:
  "\<exists>cfg d'. FieldConfig_Update calm sample_shipper EntityOrder
      [\<lparr>fs_Key = ''notes'', fs_Requirement = Required, fs_LabelOverride = None\<rparr>] empty_db = (Inr cfg, d') \<and>
     RequirementOf cfg ''notes'' = Required \<and> RequirementOf cfg ''externalId'' = Hidden"
proof -
  let ?s = "[\<lparr>fs_Key = ''notes'', fs_Requirement = Required, fs_LabelOverride = None\<rparr>] :: field_setting list"
  have "\<exists>cfg d'. FieldConfig_Update calm sample_shipper EntityOrder ?s empty_db = (Inr cfg, d')"
    by (rule answered) code_simp
  then obtain cfg d' where run: "FieldConfig_Update calm sample_shipper EntityOrder ?s empty_db = (Inr cfg, d')" by blast
  have old: "FieldConfig_For calm (a_CompanyID sample_shipper) EntityOrder empty_db =
      (Inr (Resolve EntityOrder []), empty_db)"
    by (simp add: FieldConfig_For_def Catalog_def Overrides_def andThen_def call_def query_def ok_def calm_def empty_db_def)
  have "decisions_unique empty_db" by (simp add: decisions_unique_def empty_db_def)
  note result = settings_read_back [OF run this old]
  have "RequirementOf (Resolve EntityOrder []) ''externalId'' = Hidden" by code_simp
  with result [of "''notes''"] result [of "''externalId''"] run show ?thesis by (auto simp: requested_def)
qed

text \<open>
  C11. A submitted form is accepted exactly when every field the company demands is there and no
  field it hides is; and a field the catalogue locks is demanded whatever the company stored.
\<close>

theorem form_judged:
  "(Config_Validate (Resolve e ovs) present = None \<longleftrightarrow>
      (\<forall>k f. map_of (catalog e) k = Some f \<longrightarrow>
        (RequirementOf (Resolve e ovs) k = Required \<longrightarrow> present k) \<and>
        (RequirementOf (Resolve e ovs) k = Hidden \<longrightarrow> \<not> present k))) \<and>
   (map_of (catalog e) k = Some f \<longrightarrow> fd_Locked f \<longrightarrow> RequirementOf (Resolve e ovs) k = Required)"
proof
  let ?c = "Resolve e ovs"
  have d: "distinct (map fst (cfg_Fields ?c))" using catalog_distinct by simp
  have eq: "(map_of (catalog e) k = None) = (map_of (cfg_Fields ?c) k = None)" for k
    by (rule Resolve_undeclared)
  show "Config_Validate ?c present = None \<longleftrightarrow> (\<forall>k f. map_of (catalog e) k = Some f \<longrightarrow>
      (RequirementOf ?c k = Required \<longrightarrow> present k) \<and> (RequirementOf ?c k = Hidden \<longrightarrow> \<not> present k))"
    unfolding Config_Validate_None [OF d]
  proof (intro iffI allI impI)
    fix k f assume "\<forall>k r. map_of (cfg_Fields ?c) k = Some r \<longrightarrow>
        (rs_Requirement r = Required \<longrightarrow> present k) \<and> (rs_Requirement r = Hidden \<longrightarrow> \<not> present k)"
      and "map_of (catalog e) k = Some f"
    then show "(RequirementOf ?c k = Required \<longrightarrow> present k) \<and> (RequirementOf ?c k = Hidden \<longrightarrow> \<not> present k)"
      using eq [of k] by (cases "map_of (cfg_Fields ?c) k") (auto simp: RequirementOf_def)
  next
    fix k r assume a: "\<forall>k f. map_of (catalog e) k = Some f \<longrightarrow>
        (RequirementOf ?c k = Required \<longrightarrow> present k) \<and> (RequirementOf ?c k = Hidden \<longrightarrow> \<not> present k)"
      and r: "map_of (cfg_Fields ?c) k = Some r"
    then obtain f where "map_of (catalog e) k = Some f" using eq [of k] by (cases "map_of (catalog e) k") auto
    with a r show "(rs_Requirement r = Required \<longrightarrow> present k) \<and> (rs_Requirement r = Hidden \<longrightarrow> \<not> present k)"
      by (auto simp: RequirementOf_def)
  qed
  show "map_of (catalog e) k = Some f \<longrightarrow> fd_Locked f \<longrightarrow> RequirementOf ?c k = Required"
    using RequirementOf_Resolve by simp
qed

theorem form_judged_witness:
  "RequirementOf (Resolve EntityOrder [\<lparr>ov_Entity = EntityOrder, ov_Key = ''originWarehouseId'',
     ov_Requirement = Hidden, ov_LabelOverride = []\<rparr>]) ''originWarehouseId'' = Required"
proof -
  have "map_option fd_Locked (map_of (catalog EntityOrder) ''originWarehouseId'') = Some True" by code_simp
  then obtain f where "map_of (catalog EntityOrder) ''originWarehouseId'' = Some f" "fd_Locked f" by auto
  with form_judged [of EntityOrder _ _ "''originWarehouseId''" f] show ?thesis by blast
qed
section \<open>Journeys\<close>

text \<open>
  C12. A visit order is accepted exactly when it is one: it names every loading and every unloading
  point of the order once and no point that the order lacks, and a truckload is loaded before it is
  unloaded. The order the stops are derived from is always such a one, whatever was stored.
\<close>

theorem visit_order_accepted:
  assumes "proper seq"
  shows "(validateSequence seq loads unloads = None \<longleftrightarrow> good_visit seq loads unloads) \<and>
    good_visit (visitOrder ord loads unloads) loads unloads"
  using validateSequence_None [OF assms] visitOrder_good by simp

theorem visit_order_accepted_witness:
  "good_visit [load_ref 1, load_ref 0, unload_ref 0, unload_ref 1] 2 2 \<and>
   \<not> good_visit [load_ref 0, unload_ref 1, load_ref 1, unload_ref 0] 2 2"
proof -
  have 1: "proper [load_ref 1, load_ref 0, unload_ref 0, unload_ref 1]"
    "proper [load_ref 0, unload_ref 1, load_ref 1, unload_ref 0]" by (simp_all add: proper_def)
  have "validateSequence [load_ref 1, load_ref 0, unload_ref 0, unload_ref 1] 2 2 = None" by code_simp
  moreover have "validateSequence [load_ref 0, unload_ref 1, load_ref 1, unload_ref 0] 2 2 \<noteq> None" by code_simp
  ultimately show ?thesis
    using visit_order_accepted [OF 1(1), of 2 2 "sample_order OrderDraft"]
      visit_order_accepted [OF 1(2), of 2 2 "sample_order OrderDraft"] by simp
qed



text \<open>
  Choosing a visit order round-trips: where it was accepted, the order's visit order read back is
  the one that was sent, and the stops on record are the stops derived from it.
\<close>

theorem chosen_order_reads_back:
  assumes "SetStopSequence E actor i (map entry_of rs) d = (Inr ord', d')"
    and "proper rs" and "rs \<noteq> []" and "stops_wired E"
  shows "visitOrder ord' (length (warehouseList (o_Detail ord') ''loadingPoints''))
      (length (warehouseList (o_Detail ord') ''unloadingPoints'')) = rs \<and>
    (stopsForOrder ord' \<noteq> [] \<longrightarrow> sameJourney (stops_of (o_ID ord') d') (stopsForOrder ord'))"
  using SetStopSequence_visits [OF assms] by blast

definition two_loads :: db where
  "two_loads = sample_db OrderApproved ShipmentAssigned\<lparr>db_orders := [sample_order OrderApproved
     \<lparr>o_Detail := (\<lambda>_. None)(''loadingPoints'' \<mapsto> JArr [JStr ''W1'', JStr ''W3''],
        ''unloadingPoints'' \<mapsto> JArr [JStr ''W2'', JStr ''W4''])\<rparr>]\<rparr>"

theorem chosen_order_reads_back_witness:
  "\<exists>ord' d'. SetStopSequence sample_env sample_planner 1
      (map entry_of [load_ref 1, load_ref 0, unload_ref 0, unload_ref 1]) two_loads = (Inr ord', d') \<and>
     visitOrder ord' (length (warehouseList (o_Detail ord') ''loadingPoints''))
       (length (warehouseList (o_Detail ord') ''unloadingPoints'')) =
       [load_ref 1, load_ref 0, unload_ref 0, unload_ref 1]"
proof -
  let ?rs = "[load_ref 1, load_ref 0, unload_ref 0, unload_ref 1]"
  have "\<exists>ord' d'. SetStopSequence sample_env sample_planner 1 (map entry_of ?rs) two_loads = (Inr ord', d')"
    by (rule answered) code_simp
  then obtain ord' d' where run:
    "SetStopSequence sample_env sample_planner 1 (map entry_of ?rs) two_loads = (Inr ord', d')" by blast
  have "proper ?rs" by (simp add: proper_def)
  moreover have "stops_wired sample_env" by (simp add: sample_env_def calm_def)
  ultimately show ?thesis using chosen_order_reads_back [OF run] run by auto
qed

text \<open>
  The register of journeys, seen from outside: for each order the points of its journey in the order
  of their visits. To plan a journey anew replaces the points of one order.
\<close>

definition point_of :: "order_stop \<Rightarrow> int16 \<times> string \<times> int16 \<times> string" where
  "point_of s = (st_Seq s, st_Kind s, st_ShipmentNo s, st_WarehouseID s)"

definition journeys :: "db \<Rightarrow> uuid \<Rightarrow> (int16 \<times> string \<times> int16 \<times> string) list" where
  "journeys d = (\<lambda>i. map point_of (stops_of i d))"

text \<open>
  C14. Rebuilding the stops refines planning a journey anew: where \<open>SyncStops\<close> answers no error, the
  order's points are those of its stops as derived and no other journey changed; where it refuses, no
  journey changed.
\<close>

theorem sync_plans_journey:
  assumes "SyncStops E ord d = (r, d')" and "stops_wired E" and "stopsForOrder ord \<noteq> []"
  shows "journeys d' = (if isl r then journeys d
    else (journeys d)(o_ID ord := map point_of (stopsForOrder ord)))"
proof (cases r)
  case (Inl e)
  with assms(1) have "d' = d" by (auto dest: cleanD [OF clean_SyncStops])
  with Inl show ?thesis by simp
next
  case (Inr u)
  with assms(1) have "SyncStops E ord d = (Inr (), d')" by simp
  from SyncStops_result [OF this assms(2,3)]
  have "list_all2 same_point (stops_of (o_ID ord) d') (stopsForOrder ord)" by (simp add: sameJourney_iff)
  then have "map point_of (stops_of (o_ID ord) d') = map point_of (stopsForOrder ord)"
    by (induction rule: list_all2_induct) (auto simp: same_point_def point_of_def)
  moreover have "stops_of j d' = stops_of j d" if "j \<noteq> o_ID ord" for j
    using SyncStops_others [OF assms(1) that] .
  ultimately show ?thesis using Inr by (auto simp: journeys_def)
qed

theorem sync_plans_journey_witness:
  "\<exists>d'. snd (SyncStops sample_env (sample_order OrderDraft) empty_db) = d' \<and>
     journeys d' 1 = [(1, StopLoad, 1, ''W1''), (2, StopUnload, 1, ''W2'')] \<and> journeys d' 2 = []"
proof -
  let ?o = "sample_order OrderDraft"
  have "\<not> isl (fst (SyncStops sample_env ?o empty_db))" by code_simp
  then obtain d' where run: "SyncStops sample_env ?o empty_db = (Inr (), d')"
    by (metis answered unit_eq)
  have "map point_of (stopsForOrder ?o) = [(1, StopLoad, 1, ''W1''), (2, StopUnload, 1, ''W2'')]" by code_simp
  moreover from this have "stopsForOrder ?o \<noteq> []" by auto
  moreover have "stops_wired sample_env" "o_ID ?o = 1" by (simp_all add: sample_env_def calm_def sample_order_def)
  ultimately have "journeys d' = (journeys empty_db)(1 := [(1, StopLoad, 1, ''W1''), (2, StopUnload, 1, ''W2'')])"
    using sync_plans_journey [OF run] by simp
  moreover have "journeys empty_db 2 = []" by (simp add: journeys_def stops_of_def empty_db_def)
  ultimately show ?thesis using run by simp
qed

section \<open>Shipments\<close>

text \<open>
  A shipment is only advanced by someone who may: the order is one of the caller's company, a
  driver only moves the shipment that is theirs, and the machine permits the caller's role the move
  from the status the shipment has.
\<close>

theorem advance_authorised:
  assumes "Advance E actor inp d = (Inr ship', d')"
  shows "\<exists>ship ord. ship \<in> set (db_shipments d) \<and> sh_ID ship = ai_ShipmentID inp \<and>
    ord \<in> set (db_orders d) \<and> o_ID ord = sh_OrderID ship \<and>
    InvolvesCompany ord (a_CompanyID actor) \<and>
    (a_Role actor = RoleDriver \<and> \<not> a_StatusBypass actor \<longrightarrow> sh_DriverUserID ship = Some (a_UserID actor)) \<and>
    CanTransitionShipment (sh_StatusCode ship) (ai_To inp) (machineRole actor (Some ord)) = None \<and>
    ship' = ship\<lparr>sh_StatusCode := ai_To inp\<rparr>"
  using assms by (rule Advance_authorised)

theorem advance_authorised_witness:
  "\<exists>ship d. Advance sample_env sample_driver setting_out (sample_db OrderAssigned ShipmentAssigned) = (Inr ship, d) \<and>
     sh_StatusCode ship = ShipmentToLoading"
proof -
  from sets_out obtain ship d where run:
    "Advance sample_env sample_driver setting_out (sample_db OrderAssigned ShipmentAssigned) = (Inr ship, d)" by blast
  from advance_authorised [OF run] run show ?thesis by (auto simp: setting_out_def)
qed

text \<open>
  The order keeps step with its shipment: when a shipment sets out its order is in transit, and
  when it is finished its order is completed, and then that is the only status the order has.
\<close>

theorem order_keeps_step:
  assumes run: "Advance E actor inp d = (Inr ship', d')" and keyed: "well_keyed d"
    and target: "order_target (ai_To inp) = Some target"
  shows "(sh_OrderID ship', s) \<in> set (order_view d') \<longleftrightarrow> s = target"
proof -
  from run obtain ship ord where
    f: "find (\<lambda>r. o_ID r = sh_OrderID ship \<and> (o_ShipperCompanyID r = a_CompanyID actor \<or>
       o_TransporterCompanyID r = Some (a_CompanyID actor))) (db_orders d) = Some ord"
    and a: "advance E actor ship ord inp (machineRole actor (Some ord)) d = (Inr ship', d')"
    by (rule Advance_Inr) blast
  from a have "ship' = ship\<lparr>sh_StatusCode := ai_To inp\<rparr>" by (rule advance_Inr)
  moreover have "ord \<in> set (db_orders d)" "o_ID ord = sh_OrderID ship" using find_Some_iff_first [OF f] by auto
  moreover have "distinct (map o_ID (db_orders d))" using keyed by (simp add: well_keyed_def)
  ultimately show ?thesis using advance_order_in_step [OF a target] by simp
qed

theorem order_keeps_step_witness:
  "\<exists>ship d. Advance sample_env sample_driver setting_out (sample_db OrderAssigned ShipmentAssigned) = (Inr ship, d) \<and>
     (sh_OrderID ship, OrderInTransit) \<in> set (order_view d) \<and> (sh_OrderID ship, OrderAssigned) \<notin> set (order_view d)"
proof -
  from sets_out obtain ship d where run:
    "Advance sample_env sample_driver setting_out (sample_db OrderAssigned ShipmentAssigned) = (Inr ship, d)" by blast
  have t: "order_target (ai_To setting_out) = Some OrderInTransit" by code_simp
  from order_keeps_step [OF run sample_keyed t] run show ?thesis by auto
qed

text \<open>
  Where an order enforces its geofence, a driver only starts loading or unloading with a position
  inside the fence of the site being worked (where master data knows the site), and an arrival is only
  recorded with a position inside the fence of the order's own site.
\<close>

theorem work_is_on_site:
  assumes run: "Advance E actor inp d = (Inr ship', d')" and up: "stops_wired E" "\<not> down E StopsListByOrder"
  shows "(a_Role actor = RoleDriver \<and> \<not> a_StatusBypass actor \<and> ai_To inp \<in> {ShipmentLoading, ShipmentUnloading} \<longrightarrow>
      (\<exists>ord\<in>set (db_orders d). o_ID ord = sh_OrderID ship' \<and>
        (geofencingEnforced ord \<and> worked_site d ord (ai_To inp) \<noteq> [] \<longrightarrow>
          (\<exists>p. ai_Position inp = Some p \<and>
            (\<forall>w. GetWarehouse E (worked_site d ord (ai_To inp)) = Some w \<longrightarrow> inside E p w))))) \<and>
    (ai_To inp \<in> {ShipmentAtLoading, ShipmentAtUnloading} \<longrightarrow>
      (\<exists>ord\<in>set (db_orders d). o_ID ord = sh_OrderID ship' \<and>
        (fenceEnforcedFor actor ord \<longrightarrow> (\<exists>p. ai_Position inp = Some p \<and>
          (\<forall>w. GetWarehouse E (or_empty (if ai_To inp = ShipmentAtLoading then o_OriginWarehouseID ord
                 else o_DestinationWarehouseID ord)) = Some w \<and>
               or_empty (if ai_To inp = ShipmentAtLoading then o_OriginWarehouseID ord
                 else o_DestinationWarehouseID ord) \<noteq> [] \<longrightarrow> inside E p w)))))"
  using Advance_starts_on_site [OF run _ _ _ up] Advance_arrives_inside [OF run] by blast

definition arriving :: "string \<Rightarrow> advance_input" where
  "arriving to = \<lparr>ai_ShipmentID = 2, ai_To = to, ai_Position = Some sample_position, ai_Note = []\<rparr>"

theorem work_is_on_site_witness:
  "\<exists>ship d p. Advance sample_env sample_driver (arriving ShipmentLoading)
      (sample_db OrderInTransit ShipmentAtLoading) = (Inr ship, d) \<and>
     ai_Position (arriving ShipmentLoading) = Some p \<and> inside sample_env p sample_site"
proof -
  let ?d0 = "sample_db OrderInTransit ShipmentAtLoading"
  have "\<exists>ship d. Advance sample_env sample_driver (arriving ShipmentLoading) ?d0 = (Inr ship, d)"
    by (rule answered) code_simp
  then obtain ship d where run: "Advance sample_env sample_driver (arriving ShipmentLoading) ?d0 = (Inr ship, d)" by blast
  have e: "stops_wired sample_env" "\<not> down sample_env StopsListByOrder" "GetWarehouse sample_env w = Some sample_site" for w
    by (simp_all add: sample_env_def calm_def)
  have g: "geofencingEnforced (sample_order OrderInTransit)"
    "worked_site ?d0 (sample_order OrderInTransit) ShipmentLoading \<noteq> []" by code_simp+
  have o: "db_orders ?d0 = [sample_order OrderInTransit]" by (simp add: sample_db_def)
  have "a_Role sample_driver = RoleDriver" "\<not> a_StatusBypass sample_driver" by (simp_all add: sample_driver_def)
  with work_is_on_site [OF run e(1,2)] g o e(3) run show ?thesis by (auto simp: arriving_def)
qed

text \<open>
  A driver only starts the unloading after the receiving side's code was confirmed: where the
  register of codes is wired in, a driver's step to unloading finds a confirmed code of the shipment.
\<close>

theorem unloading_needs_code:
  assumes run: "Advance E actor inp d = (Inr ship', d')" and "ai_To inp = ShipmentUnloading"
    and "a_Role actor = RoleDriver" and "\<not> a_StatusBypass actor" and "handovers_wired E"
  shows "\<exists>h\<in>set (db_handovers d). hv_ShipmentID h = sh_ID ship' \<and> hv_Stage h = ''unloading'' \<and>
    hv_StopID h = None \<and> hv_VerifiedAt h \<noteq> None"
proof -
  from run obtain ship ord where
    v: "ai_To inp = ShipmentUnloading \<Longrightarrow> \<not> a_StatusBypass actor \<Longrightarrow> a_Role actor = RoleDriver \<Longrightarrow>
       handovers_wired E \<Longrightarrow> fst (IsVerified d (sh_ID ship) ''unloading'' None)"
    and a: "advance E actor ship ord inp (machineRole actor (Some ord)) d = (Inr ship', d')"
    by (rule Advance_Inr) blast
  from a have "ship' = ship\<lparr>sh_StatusCode := ai_To inp\<rparr>" by (rule advance_Inr)
  with v [OF assms(2,4,3,5)] show ?thesis by (auto simp: IsVerified_iff)
qed

theorem unloading_needs_code_witness:
  "\<exists>ship d. Advance sample_env sample_driver (arriving ShipmentUnloading)
      (sample_db OrderInTransit ShipmentAtUnloading\<lparr>db_handovers := [sample_code (Some 950) None]\<rparr>) = (Inr ship, d) \<and>
     sh_ID ship = 2"
proof -
  let ?d0 = "sample_db OrderInTransit ShipmentAtUnloading\<lparr>db_handovers := [sample_code (Some 950) None]\<rparr>"
  have "\<exists>ship d. Advance sample_env sample_driver (arriving ShipmentUnloading) ?d0 = (Inr ship, d)"
    by (rule answered) code_simp
  then obtain ship d where run: "Advance sample_env sample_driver (arriving ShipmentUnloading) ?d0 = (Inr ship, d)" by blast
  have "\<exists>h\<in>set (db_handovers ?d0). hv_ShipmentID h = sh_ID ship \<and> hv_Stage h = ''unloading'' \<and>
      hv_StopID h = None \<and> hv_VerifiedAt h \<noteq> None"
    by (rule unloading_needs_code [OF run])
      (simp_all add: arriving_def sample_driver_def sample_env_def calm_def)
  with run show ?thesis by (auto simp: sample_code_def)
qed

text \<open>
  C15. When an advance answers an error and yet the store changed, it is the one case there is: the
  shipment has moved and the order could not follow. Orders are untouched, no other shipment moved,
  and the step was one that the order has to follow.
\<close>

theorem failed_advance:
  assumes "Advance E actor inp d = (Inl e, d')" and "d' \<noteq> d"
  shows "order_target (ai_To inp) \<noteq> None \<and> db_orders d' = db_orders d \<and>
    (\<exists>from. (ai_ShipmentID inp, from) \<in> set (shipment_view d) \<and>
      shipment_view d' = map (\<lambda>(k, st). (k, if k = ai_ShipmentID inp \<and> st = from
        then ai_To inp else st)) (shipment_view d))"
  using assms by (rule Advance_failed)

theorem failed_advance_witness:
  "\<exists>e d. Advance sample_env sample_driver setting_out (sample_db OrderDraft ShipmentAssigned) = (Inl e, d) \<and>
     shipment_view d = [(2, ShipmentToLoading)] \<and> order_view d = [(1, OrderDraft)]"
proof -
  let ?d0 = "sample_db OrderDraft ShipmentAssigned"
  obtain r d where run: "Advance sample_env sample_driver setting_out ?d0 = (r, d)" by fastforce
  have "isl (fst (Advance sample_env sample_driver setting_out ?d0)) \<and>
      shipment_view (snd (Advance sample_env sample_driver setting_out ?d0)) = [(2, ShipmentToLoading)]" by code_simp
  with run have r: "isl r" "shipment_view d = [(2, ShipmentToLoading)]" by simp_all
  then obtain e where e: "r = Inl e" by (cases r) auto
  have v: "shipment_view ?d0 = [(2, ShipmentAssigned)]" "order_view ?d0 = [(1, OrderDraft)]" by code_simp+
  with r have "d \<noteq> ?d0" by auto
  with failed_advance [OF run [unfolded e]] have "db_orders d = db_orders ?d0" by blast
  with v r run e show ?thesis by (auto simp: order_view_def)
qed

section \<open>Visits\<close>

text \<open>
  C16. The walk of a shipment to a status ends there: where no step was refused, the twelve steps of
  the loop are enough to bring it to the status or past it, and it never goes back.
\<close>

theorem walk_arrives:
  assumes "walkShipmentTo E actor ship ord to role pos d = (Inr ship', d')"
    and "0 \<le> shipmentChainIndex (sh_StatusCode ship)" and "0 \<le> shipmentChainIndex to" and "on_the_flow to"
  shows "ShipmentStatusAtOrPast (sh_StatusCode ship') to \<and>
    shipmentChainIndex (sh_StatusCode ship) \<le> shipmentChainIndex (sh_StatusCode ship')"
  using walkShipmentTo_arrives [OF assms] walkShipmentTo_forward [OF assms(1,2)] by simp

theorem walk_arrives_witness:
  "\<exists>ship d. walkShipmentTo sample_env sample_driver (sample_shipment ShipmentAssigned) (sample_order OrderAssigned)
      ShipmentLoading RoleDriver (Some sample_position) (sample_db OrderAssigned ShipmentAssigned) = (Inr ship, d) \<and>
     ShipmentStatusAtOrPast (sh_StatusCode ship) ShipmentLoading"
proof -
  have "\<exists>ship d. walkShipmentTo sample_env sample_driver (sample_shipment ShipmentAssigned) (sample_order OrderAssigned)
      ShipmentLoading RoleDriver (Some sample_position) (sample_db OrderAssigned ShipmentAssigned) = (Inr ship, d)"
    by (rule answered) code_simp
  then obtain ship d where run: "walkShipmentTo sample_env sample_driver (sample_shipment ShipmentAssigned)
      (sample_order OrderAssigned) ShipmentLoading RoleDriver (Some sample_position)
      (sample_db OrderAssigned ShipmentAssigned) = (Inr ship, d)" by blast
  have "0 \<le> shipmentChainIndex (sh_StatusCode (sample_shipment ShipmentAssigned))"
    "0 \<le> shipmentChainIndex ShipmentLoading" "on_the_flow ShipmentLoading" by code_simp+
  with walk_arrives [OF run] run show ?thesis by blast
qed

section \<open>Proofs of delivery\<close>

text \<open>
  A proof of delivery is only accepted of a party of the order (a driver: of the shipment's own
  driver) with at least one photo, each of a known kind and with a file; the stage is being worked at,
  by the shipment's status or by the record of the stop, the cargo check it waits for was made, and
  the stage of the stop has no approved proof yet. It replaces what was waiting for review for that
  stage and itself waits for review.
\<close>

theorem proof_accepted:
  assumes "Submit E actor i inp d = (Inr pod, d')"
  shows "\<exists>ship ord. load E actor i d = (Inr (ship, ord), d) \<and> assertActorMayAdvance actor ship ord = Inr () \<and>
    si_Stage inp \<in> {''loading'', ''unloading''} \<and> si_Photos inp \<noteq> [] \<and>
    (\<forall>(t, u)\<in>set (si_Photos inp). t \<in> set podDocTypes \<and> trim_space u \<noteq> []) \<and>
    (ready_by_shipment E ship (si_Stage inp) \<or>
      (\<exists>s\<in>set (stops_of (o_ID ord) d). pd_StopID pod = Some (st_ID s) \<and> ready_by_stop E s (si_Stage inp))) \<and>
    \<not> (\<exists>p\<in>set (db_pods d). pd_ShipmentID p = i \<and> pd_Stage p = si_Stage inp \<and> pd_Status p = PodApproved \<and>
       (pd_StopID pod = None \<or> pd_StopID p = pd_StopID pod)) \<and>
    db_pods d' = filter (\<lambda>p. \<not> (pd_ShipmentID p = i \<and> pd_Stage p = si_Stage inp \<and>
      pd_Status p = PodSubmitted)) (db_pods d) @ [pod] \<and>
    pd_Status pod = PodSubmitted \<and> pd_SubmittedByUserID pod = Some (a_UserID actor)"
proof (rule Submit_Inr [OF assms])
  fix ship ord stop
  assume 1: "load E actor i d = (Inr (ship, ord), d)" "assertActorMayAdvance actor ship ord = Inr ()"
    and 2: "si_Stage inp \<in> {''loading'', ''unloading''}" "si_Photos inp \<noteq> []" "check_photos (si_Photos inp) = None"
    and 3: "ready_by_shipment E ship (si_Stage inp) \<or>
      (\<exists>s. stop = Some s \<and> s \<in> set (stops_of (o_ID ord) d) \<and> pd_StopID pod = Some (st_ID s) \<and>
        ready_by_stop E s (si_Stage inp))"
    and 4: "\<not> (\<exists>p\<in>set (db_pods d). pd_ShipmentID p = i \<and> pd_Stage p = si_Stage inp \<and> pd_Status p = PodApproved \<and>
        (pd_StopID pod = None \<or> pd_StopID p = pd_StopID pod))"
    and 5: "db_pods d' = filter (\<lambda>p. \<not> (pd_ShipmentID p = i \<and> pd_Stage p = si_Stage inp \<and>
        pd_Status p = PodSubmitted)) (db_pods d) @ [pod]" "pd_Status pod = PodSubmitted"
      "pd_SubmittedByUserID pod = Some (a_UserID actor)"
  from 3 have 3: "ready_by_shipment E ship (si_Stage inp) \<or>
      (\<exists>s\<in>set (stops_of (o_ID ord) d). pd_StopID pod = Some (st_ID s) \<and> ready_by_stop E s (si_Stage inp))"
    by blast
  from 1 2(1,2) 2(3) [unfolded check_photos_None] 3 4 5 show ?thesis by (intro exI conjI)
qed

text \<open>The driver has loaded and checked the cargo; the papers are sent; and so on to the second stop.\<close>

definition at_papers :: db where
  "at_papers = serve_all (booked @ take 4 loaded_up) empty_db"

definition at_review :: db where
  "at_review = serve_all (booked @ take 5 loaded_up) empty_db"

definition at_code :: db where
  "at_code = serve_all (booked @ loaded_up @ take 1 unloaded) empty_db"

definition code_sent :: db where
  "code_sent = serve_all (booked @ loaded_up @ take 2 unloaded) empty_db"

theorem proof_accepted_witness:
  "\<exists>pod d'. Submit road_env sample_driver 4 (papers ''loading'' ''s2'') at_papers = (Inr pod, d') \<and>
     pd_Status pod = PodSubmitted \<and> db_pods at_papers = [] \<and> db_pods d' = [pod]"
proof -
  have "\<exists>pod d'. Submit road_env sample_driver 4 (papers ''loading'' ''s2'') at_papers = (Inr pod, d')"
    by (rule answered) code_simp
  then obtain pod d' where run: "Submit road_env sample_driver 4 (papers ''loading'' ''s2'') at_papers = (Inr pod, d')" by blast
  have "db_pods at_papers = []" by code_simp
  with proof_accepted [OF run] run show ?thesis by auto
qed

text \<open>
  A proof of delivery is decided once and not by a driver: it was waiting for review, the
  reviewer's company is a party of the order, a rejection gives a reason, and afterwards exactly that
  proof has the decision.
\<close>

theorem decided_once:
  assumes "Review E actor i podID inp d = (Inr pod', d')"
  shows "(podID, PodSubmitted) \<in> set (pod_view d) \<and>
    pod_view d' = map (\<lambda>(k, st). (k, if k = podID \<and> st = PodSubmitted
      then (if ri_Approved inp then PodApproved else PodRejected) else st)) (pod_view d) \<and>
    (\<exists>ord\<in>set (db_orders d). InvolvesCompany ord (a_CompanyID actor)) \<and>
    (a_Role actor = RoleDriver \<longrightarrow> a_StatusBypass actor) \<and>
    (\<not> ri_Approved inp \<longrightarrow> trim_space (ri_Reason inp) \<noteq> [])"
  using Review_decides [OF assms] Review_by_others [OF assms] by blast

theorem decided_once_witness:
  "\<exists>pod' d'. Review road_env sample_shipper 4 5 approval at_review = (Inr pod', d') \<and> pod_view d' = [(5, PodApproved)]"
proof -
  have "\<exists>pod' d'. Review road_env sample_shipper 4 5 approval at_review = (Inr pod', d')" by (rule answered) code_simp
  then obtain pod' d' where run: "Review road_env sample_shipper 4 5 approval at_review = (Inr pod', d')" by blast
  have "pod_view at_review = [(5, PodSubmitted)]" by code_simp
  with decided_once [OF run] run show ?thesis by (auto simp: approval_def)
qed

text \<open>
  C17. What an approval does to the shipment depends on the visits that are still open: while another
  visit of the stage is open, the approval closes its own stop and neither the shipment nor the order
  moves; where none is, the shipment is past the stage afterwards.
\<close>

theorem approval_effect:
  assumes run: "Review E actor i podID inp d = (Inr pod', d')" and yes: "ri_Approved inp"
    and pod: "find (\<lambda>p. pd_ID p = podID) (db_pods d) = Some pod" and stop: "pd_StopID pod = Some stopID"
    and ship: "find (\<lambda>r. sh_ID r = i) (db_shipments d) = Some ship" "0 \<le> shipmentChainIndex (sh_StatusCode ship)"
    and keyed: "well_keyed d" and up: "stops_wired E" "\<not> down E StopsListByOrder"
  shows "if open_beside d ship (pd_Stage pod) (Some stopID) \<noteq> []
    then db_shipments d' = db_shipments d \<and> db_orders d' = db_orders d \<and>
      db_stops d' = update_where (\<lambda>s. st_ID s = stopID)
        (\<lambda>s. s\<lparr>st_FinishedAt := Some (now E), st_PodID := Some podID\<rparr>) (db_stops d)
    else \<exists>s. (i, s) \<in> set (shipment_view d') \<and> ShipmentStatusAtOrPast s (stage_end (pd_Stage pod))"
proof (cases "open_beside d ship (pd_Stage pod) (Some stopID) = []")
  case True
  have "distinct (map sh_ID (db_shipments d))" using keyed by (simp add: well_keyed_def)
  with True stop show ?thesis using Review_last_visit [OF run yes pod ship] by simp
next
  case False
  have "\<exists>s\<in>set (stops_of (o_ID ord) d). st_Kind s = kind_of_stage (pd_Stage pod) \<and>
      st_FinishedAt s = None \<and> st_ID s \<noteq> stopID" if "load E actor i d = (Inr (ship', ord), d)" for ship' ord
    using False load_Inr [OF that] ship(1) by (auto simp: open_beside_def filter_empty_conv)
  with False Review_journey_continues [OF run yes pod stop up] show ?thesis by simp
qed

theorem approval_effect_witness:
  "\<exists>pod' d' s. Review road_env sample_shipper 4 5 approval at_review = (Inr pod', d') \<and>
     (4, s) \<in> set (shipment_view d') \<and> ShipmentStatusAtOrPast s ShipmentToUnloading"
proof -
  have "\<exists>pod' d'. Review road_env sample_shipper 4 5 approval at_review = (Inr pod', d')" by (rule answered) code_simp
  then obtain pod' d' where run: "Review road_env sample_shipper 4 5 approval at_review = (Inr pod', d')" by blast
  have "map_option (\<lambda>p. (pd_StopID p, pd_Stage p)) (find (\<lambda>p. pd_ID p = 5) (db_pods at_review)) = Some (Some 2, ''loading'')"
    "map_option (\<lambda>r. (0 \<le> shipmentChainIndex (sh_StatusCode r), open_beside at_review r ''loading'' (Some 2) = []))
       (find (\<lambda>r. sh_ID r = 4) (db_shipments at_review)) = Some (True, True)" by code_simp+
  then obtain pod ship where pod: "find (\<lambda>p. pd_ID p = 5) (db_pods at_review) = Some pod" "pd_StopID pod = Some 2"
    "pd_Stage pod = ''loading''" and ship: "find (\<lambda>r. sh_ID r = 4) (db_shipments at_review) = Some ship"
    "0 \<le> shipmentChainIndex (sh_StatusCode ship)" "open_beside at_review ship ''loading'' (Some 2) = []" by auto
  have k: "well_keyed at_review" unfolding at_review_def
    by (rule reachable_keyed [OF steps_reachable [OF serve_all_steps]])
       (auto simp: booked_def loaded_up_def intro: reachable.empty)
  have "ri_Approved approval" "stops_wired road_env" "\<not> down road_env StopsListByOrder"
    by (simp_all add: approval_def road_env_def sample_env_def calm_def)
  with approval_effect [OF run _ pod(1,2) ship(1,2) k] ship(3) pod(3) run show ?thesis
    by (auto simp: stage_end_def)
qed

section \<open>The handover and the receiving side's page\<close>

text \<open>
  A handover code is only issued to the shipment's own driver, for the whole delivery or for a
  stop that exists. It is six digits, only its hash is stored, it starts unconfirmed with no attempts
  and expires after its lifetime, and it takes the place of the code that was live for the visit.
\<close>

theorem code_issued:
  assumes "Handover_Issue E actor i sid nm ph d = (Inr res, d')"
  shows "(\<exists>ship\<in>set (db_shipments d). sh_ID ship = i \<and> sh_DriverUserID ship = Some (a_UserID actor)) \<and>
    stop_exists d sid \<and> (\<exists>n. rand_code E = Some n \<and> is_Code res = zero_padded 6 n) \<and>
    hv_ShipmentID (is_Handover res) = i \<and> hv_Stage (is_Handover res) = ''unloading'' \<and>
    hv_StopID (is_Handover res) = sid \<and> hv_CodeHash (is_Handover res) = sha256 E (is_Code res) \<and>
    hv_VerifiedAt (is_Handover res) = None \<and> hv_FieldVerifiedAt (is_Handover res) = None \<and>
    hv_Attempts (is_Handover res) = 0 \<and> hv_ExpiresAt (is_Handover res) = now E + handoverCodeTTL \<and>
    db_handovers d' = filter (\<lambda>h. \<not> live_for i ''unloading'' sid h) (db_handovers d) @ [is_Handover res]"
  using assms by (rule Handover_Issue_Inr)

theorem code_issued_witness:
  "\<exists>res d'. Handover_Issue road_env sample_driver 4 (Some 3) ''Budi'' ''081234567890'' at_code = (Inr res, d') \<and>
     db_handovers at_code = [] \<and> db_handovers d' = [is_Handover res] \<and> hv_Attempts (is_Handover res) = 0"
proof -
  have "\<exists>res d'. Handover_Issue road_env sample_driver 4 (Some 3) ''Budi'' ''081234567890'' at_code = (Inr res, d')"
    by (rule answered) code_simp
  then obtain res d' where run:
    "Handover_Issue road_env sample_driver 4 (Some 3) ''Budi'' ''081234567890'' at_code = (Inr res, d')" by blast
  have "db_handovers at_code = []" by code_simp
  with code_issued [OF run] run show ?thesis by auto
qed



text \<open>
  C19. A code cannot be guessed at for long: after as many wrong codes as it has attempts left, one
  request after another, no code is accepted any more, not even the right one.
\<close>

theorem guessing_burns_code:
  assumes "guessable E actor i sid h d"
    and "calls_up E [ShipmentsFindByID, HandoversFindLive, HandoversRecordAttempt]"
    and "\<forall>v\<in>set vs. vf_StopID v = sid \<and> \<not> code_matches E (trim_space (vf_Code v)) h"
    and "sint (hv_MaxAttempts h) \<le> sint (hv_Attempts h) + int (length vs)" and "vf_StopID inp = sid"
  shows "Handover_Verify E actor i inp (guesses E actor i vs d) = (Inl too_many, guesses E actor i vs d)"
  using assms by (rule guesses_burn)

text \<open>The driver of the shipment, the state of its live code, and how many codes there are.\<close>

definition at_the_door :: "db \<Rightarrow> uuid option option \<times> (bool \<times> int16 \<times> int16 \<times> bool) option \<times> nat" where
  "at_the_door d =
     (map_option (\<lambda>s. sh_DriverUserID s) (find (\<lambda>r. sh_ID r = 4) (db_shipments d)),
      map_option (\<lambda>h. (now road_env \<le> hv_ExpiresAt h, hv_Attempts h, hv_MaxAttempts h,
        code_matches road_env (trim_space ''999999'') h))
      (find (live_for 4 ''unloading'' (Some 3)) (db_handovers d)),
      length (db_handovers d))"

theorem guessing_burns_code_witness:
  "fst (Handover_Verify road_env sample_driver 4 right_code
     (guesses road_env sample_driver 4 (replicate 5 (right_code\<lparr>vf_Code := ''999999''\<rparr>)) code_sent)) = Inl too_many"
proof -
  have "at_the_door code_sent = (Some (Some 31), Some (True, 0, 5, False), 1)" by code_simp
  then have "map_option (\<lambda>s. sh_DriverUserID s) (find (\<lambda>r. sh_ID r = 4) (db_shipments code_sent)) = Some (Some 31)"
    "map_option (\<lambda>h. (now road_env \<le> hv_ExpiresAt h, hv_Attempts h, hv_MaxAttempts h,
        code_matches road_env (trim_space ''999999'') h))
      (find (live_for 4 ''unloading'' (Some 3)) (db_handovers code_sent)) = Some (True, 0, 5, False)"
    "length (db_handovers code_sent) = 1" by (simp_all only: at_the_door_def prod.inject)
  then obtain ship h where s: "find (\<lambda>r. sh_ID r = 4) (db_shipments code_sent) = Some ship" "sh_DriverUserID ship = Some 31"
    and h: "find (live_for 4 ''unloading'' (Some 3)) (db_handovers code_sent) = Some h" "now road_env \<le> hv_ExpiresAt h"
      "hv_Attempts h = 0" "hv_MaxAttempts h = 5" "\<not> code_matches road_env (trim_space ''999999'') h"
    and l: "length (db_handovers code_sent) = 1" by auto
  from l have "distinct (map hv_ID (db_handovers code_sent))" by (auto simp: length_Suc_conv)
  with s h have "guessable road_env sample_driver 4 (Some 3) h code_sent"
    by (simp add: guessable_def sample_driver_def)
  moreover have "calls_up road_env [ShipmentsFindByID, HandoversFindLive, HandoversRecordAttempt]"
    by (simp add: calls_up_def road_env_def sample_env_def calm_def)
  ultimately show ?thesis
    using guessing_burns_code [of road_env sample_driver 4 "Some 3" h code_sent
        "replicate 5 (right_code\<lparr>vf_Code := ''999999''\<rparr>)" right_code] h
    by (simp add: right_code_def)
qed
text \<open>
  The receiving side's page is only opened with the order's own number and the code that was
  issued for its delivery: the driver has confirmed it, it was sent within the window, attempts are
  left, and it is the code itself that was typed, no other one. The answer is the token of that code's
  link, and from then on the link is signed in.
\<close>

theorem page_opened:
  assumes "FieldSignIn E number code u d = (Inr token, d')"
  shows "\<exists>h\<in>set (db_handovers d). hv_Stage h = ''unloading'' \<and> hv_StopID h = None \<and> hv_VerifiedAt h \<noteq> None \<and>
    now E - hv_SentAt h \<le> fieldCodeWindow \<and> sint (hv_FieldAttempts h) < sint (hv_MaxAttempts h) \<and>
    hv_CodeHash h = sha256 E (trim_space code) \<and> hv_FieldToken h = Some token \<and> token \<noteq> [] \<and>
    (\<exists>ord\<in>set (db_orders d). o_OrderNumber ord = to_upper (trim_space number) \<and>
      (\<exists>ship\<in>set (db_shipments d). sh_ID ship = hv_ShipmentID h \<and> sh_OrderID ship = o_ID ord)) \<and>
    (\<exists>h'\<in>set (db_handovers d'). hv_ID h' = hv_ID h \<and> hv_FieldVerifiedAt h' = Some (now E) \<and> hv_FieldToken h' = Some token)"
  using assms by (rule FieldSignIn_Inr)

definition plain_env :: env where
  "plain_env = road_env\<lparr>sha256 := (\<lambda>s. ''#'' @ s)\<rparr>"

definition awaiting_page :: db where
  "awaiting_page = sample_db OrderInTransit ShipmentAtUnloading
     \<lparr>db_handovers := [(sample_code (Some 950) None)\<lparr>hv_CodeHash := ''#000042''\<rparr>]\<rparr>"

definition counted :: db where
  "counted = sample_db OrderInTransit ShipmentUnloading
     \<lparr>db_handovers := [(sample_code (Some 950) None)\<lparr>hv_FieldVerifiedAt := Some 960\<rparr>],
      db_shipments := [(sample_shipment ShipmentUnloading)\<lparr>sh_UnloadingCargoCheckedAt := Some 970\<rparr>]\<rparr>"

theorem page_opened_witness:
  "\<exists>d'. FieldSignIn plain_env '' ord-2025-000001'' ''000042'' None awaiting_page = (Inr ''tok'', d') \<and>
     (\<exists>h\<in>set (db_handovers d'). hv_FieldVerifiedAt h = Some 1000) \<and>
     isl (fst (FieldSignIn plain_env ''ORD-2025-000001'' ''000000'' None awaiting_page))"
proof -
  have t: "fst (FieldSignIn plain_env '' ord-2025-000001'' ''000042'' None awaiting_page) = Inr ''tok''"
    and no: "isl (fst (FieldSignIn plain_env ''ORD-2025-000001'' ''000000'' None awaiting_page))" by code_simp+
  from t obtain d' where run: "FieldSignIn plain_env '' ord-2025-000001'' ''000042'' None awaiting_page = (Inr ''tok'', d')"
    by (metis prod.collapse)
  have "now plain_env = 1000" by (simp add: plain_env_def road_env_def sample_env_def calm_def)
  with page_opened [OF run] run no show ?thesis by auto
qed

text \<open>
  Once the receiving side has closed its count it stays closed: no audit through the same link
  changes anything any more, and to close it again changes nothing.
\<close>

theorem count_stays_closed:
  assumes "FinalizeField E token picName note d = (Inr v, d1)"
  shows "snd (RecordFieldAudit E2 token inp d1) = d1 \<and>
    (\<forall>v2 d2. FinalizeField E2 token p2 n2 d1 = (Inr v2, d2) \<longrightarrow> d2 = d1)"
  using finalized_closed [OF assms] finalized_again [OF assms] by blast

theorem count_stays_closed_witness:
  "\<exists>v d1. FinalizeField road_env ''tok'' ''Budi'' ''kurang dua'' counted = (Inr v, d1) \<and>
     map sh_ManifestFinalizedAt (db_shipments d1) = [Some 1000] \<and>
     snd (RecordFieldAudit road_env ''tok'' \<lparr>fa_Matches = True, fa_Note = [], fa_PICName = [],
         fa_WeightKg = None, fa_VolumeM3 = None, fa_Quantity = None\<rparr> d1) = d1"
proof -
  let ?r = "FinalizeField road_env ''tok'' ''Budi'' ''kurang dua'' counted"
  have "\<exists>v d1. ?r = (Inr v, d1)" by (rule answered) code_simp
  then obtain v d1 where run: "?r = (Inr v, d1)" by blast
  have "map sh_ManifestFinalizedAt (db_shipments (snd ?r)) = [Some 1000]" by code_simp
  with count_stays_closed [OF run] run show ?thesis by simp
qed
section \<open>Contracts\<close>

definition contract_env :: env where
  "contract_env = sample_env\<lparr>dispatch_wired := False, now := 5 * day\<rparr>"

definition contract_terms :: agreement_input where
  "contract_terms = \<lparr>ga_TransporterCompanyID = 20, ga_CustomerCompanyID = None, ga_ValidFrom = 0, ga_ValidUntil = 10 * day,
     ga_PaymentTypeID = [], ga_CurrencyID = ''IDR'', ga_Detail = (\<lambda>_. None),
     ga_Rates = [\<lparr>ri_CustomerCompanyID = None, ri_OriginWarehouseID = [], ri_DestinationWarehouseID = [],
       ri_OriginCityID = ''C1'', ri_DestinationCityID = ''C2'', ri_OriginDistrictID = [], ri_DestinationDistrictID = [],
       ri_TruckTypeID = [], ri_PricingTypeID = [], ri_Price = 750, ri_MinQuantity = None, ri_LeadTimeHours = None\<rparr>],
     ga_Customers = [], ga_Present = (\<lambda>_. True)\<rparr>"

definition new_terms :: "string \<Rightarrow> revise_input" where
  "new_terms kind = \<lparr>rv_Kind = kind, rv_Note = [], rv_ValidFrom = None, rv_ValidUntil = Some (20 * day),
     rv_PaymentTypeID = [], rv_CurrencyID = [], rv_Detail = None, rv_Rates = [], rv_Present = (\<lambda>_. None)\<rparr>"

definition sample_manager :: actor where
  "sample_manager = sample_planner\<lparr>a_UserID := 22, a_Role := RoleManager\<rparr>"

text \<open>The shipper makes a contract, the transporter takes it on and asks for new terms.\<close>

definition agreed :: db where
  "agreed = snd (strike contract_env (DecideDeal sample_planner 1 True)
     (snd (strike contract_env (MakeDeal sample_shipper contract_terms) empty_db)))"

definition asked :: db where
  "asked = snd (strike contract_env (ReviseDeal sample_planner 1 (new_terms RevisionUpdate)) agreed)"

lemma contracted_next: "contracted d \<Longrightarrow> contracted (snd (strike E q d))"
  by (metis struck prod.collapse)

lemma contracted_asked: "contracted asked" "contracted agreed"
  unfolding asked_def agreed_def
  by (intro contracted_next nothing_signed; simp add: empty_db_def)+

text \<open>
  C20. Whatever companies make, decide, verify, revise, approve, reject and let expire, the versions
  of a contract are numbered without repetition from one, at most one revision of a contract waits
  for approval, and at most one version beyond the first is in force.
\<close>

theorem versions_stay_sound:
  assumes "contracted d"
  shows "distinct (map (\<lambda>a. (ag_RootAgreementID a, ag_Version a)) (db_agreements d)) \<and>
    (\<forall>a\<in>set (db_agreements d). 1 \<le> ag_Version a \<and> (is_pending a \<longrightarrow> 1 < ag_Version a \<and> ag_SupersededAt a = None)) \<and>
    length (filter (\<lambda>a. in_lineage rootID a \<and> is_pending a) (db_agreements d)) \<le> 1 \<and>
    length (filter (\<lambda>a. in_lineage rootID a \<and> is_live a \<and> 1 < ag_Version a) (db_agreements d)) \<le> 1"
  using contracted_sound [OF assms]
  by (simp add: lineage_sound_def list_all_iff row_sound_def pending_in_def [abs_def] in_force_def [abs_def])

theorem versions_stay_sound_witness:
  "map ag_Version (db_agreements asked) = [1, 2] \<and>
   length (filter (\<lambda>a. in_lineage 1 a \<and> is_pending a) (db_agreements asked)) = 1"
proof -
  have "map ag_Version (db_agreements asked) = [1, 2]" "0 < length (filter (\<lambda>a. in_lineage 1 a \<and> is_pending a) (db_agreements asked))"
    by code_simp+
  with versions_stay_sound [OF contracted_asked(1), of 1] show ?thesis by linarith
qed

text \<open>
  A revision is approved by its transporter, by somebody else than who asked for it, while it
  waits; from then on it is the only version of its contract in force, and no other contract changed.
\<close>

theorem approval_switches:
  assumes "lineage_sound d" and "ApproveRevision E actor i note d = (Inr x, d')"
  shows "\<exists>a\<in>set (db_agreements d). ag_ID a = i \<and> is_pending a \<and> ag_TransporterCompanyID a = a_CompanyID actor \<and>
    ag_RequestedByUserID a \<noteq> Some (a_UserID actor) \<and>
    live_in (ag_RootAgreementID a) d' = [approved_columns E (a_UserID actor) note a] \<and>
    filter (\<lambda>b. \<not> in_lineage (ag_RootAgreementID a) b) (db_agreements d') =
      filter (\<lambda>b. \<not> in_lineage (ag_RootAgreementID a) b) (db_agreements d)"
  using assms
proof (rule ApproveRevision_Inr)
  fix a assume a: "a \<in> set (db_agreements d)" "ag_ID a = i" "is_pending a" "ag_SupersededAt a = None"
    "ag_TransporterCompanyID a = a_CompanyID actor" "ag_RequestedByUserID a \<noteq> Some (a_UserID actor)"
    and d': "db_agreements d' = map (approving E (a_UserID actor) note a) (db_agreements d)"
  have "live_in (ag_RootAgreementID a) d' = [approved_columns E (a_UserID actor) note a]"
    unfolding d' using assms(1) a(1,3,4) by (intro approving_live) (simp_all add: lineage_sound_def)
  with a d' approving_others [OF assms(1) a(1)] show ?thesis by auto
qed

theorem approval_switches_witness:
  "\<exists>x d'. ApproveRevision contract_env sample_manager 3 ''ok'' asked = (Inr x, d') \<and> map ag_ID (live_in 1 d') = [3] \<and>
     isl (fst (ApproveRevision contract_env sample_planner 3 ''ok'' asked))"
proof -
  let ?r = "ApproveRevision contract_env sample_manager 3 ''ok'' asked"
  have "\<exists>x d'. ?r = (Inr x, d')" by (rule answered) code_simp
  then obtain x d' where run: "?r = (Inr x, d')" by blast
  have no: "isl (fst (ApproveRevision contract_env sample_planner 3 ''ok'' asked))" by code_simp
  have "\<forall>a\<in>set (db_agreements asked). ag_RootAgreementID a = 1" by code_simp
  with approval_switches [OF contracted_sound [OF contracted_asked(1)] run] run no show ?thesis by force
qed

text \<open>
  Only the transporter revises a contract, never from a rejected or cancelled version nor while
  another revision waits, and the revision is the next version of the same contract between the same
  companies. A renewal names a later end of the term (stored as a date) and is the only version in force from then on; an update
  waits for approval and what was in force stays in force.
\<close>

theorem revision_controls:
  assumes d: "lineage_sound d" and run: "Revise E actor i inp d = (Inr x, d')"
  shows "\<exists>p\<in>set (db_agreements d). \<exists>new\<in>set (db_agreements d').
    ag_ID p = i \<and> ag_TransporterCompanyID p = a_CompanyID actor \<and>
    ag_StatusCode p \<notin> {AgreementRejected, AgreementCancelled} \<and>
    (\<forall>a\<in>set (db_agreements d). in_lineage (ag_RootAgreementID p) a \<longrightarrow> \<not> is_pending a \<and> ag_Version a < ag_Version new) \<and>
    ag_RootAgreementID new = ag_RootAgreementID p \<and> ag_SupersedesAgreementID new = Some i \<and> ag_Rates new \<noteq> [] \<and>
    ag_ShipperCompanyID new = ag_ShipperCompanyID p \<and> ag_TransporterCompanyID new = ag_TransporterCompanyID p \<and>
    (if rv_Kind inp = RevisionRenewal
     then (\<exists>t. rv_ValidUntil inp = Some t \<and> ag_ValidUntil p < t \<and> ag_ValidUntil new = utc_day t * day) \<and>
       live_in (ag_RootAgreementID p) d' = [new]
     else is_pending new \<and> live_in (ag_RootAgreementID p) d' = live_in (ag_RootAgreementID p) d)"
  using assms by (rule revised)

theorem revision_controls_witness:
  "(\<exists>x d'. Revise contract_env sample_planner 1 (new_terms RevisionRenewal) agreed = (Inr x, d') \<and> length (live_in 1 d') = 1) \<and>
   isl (fst (Revise contract_env sample_planner 1 (new_terms RevisionRenewal) asked))"
proof -
  let ?r = "Revise contract_env sample_planner 1 (new_terms RevisionRenewal) agreed"
  have "\<exists>x d'. ?r = (Inr x, d')" by (rule answered) code_simp
  then obtain x d' where run: "?r = (Inr x, d')" by blast
  have no: "isl (fst (Revise contract_env sample_planner 1 (new_terms RevisionRenewal) asked))" by code_simp
  have "\<forall>a\<in>set (db_agreements agreed). ag_RootAgreementID a = 1" by code_simp
  with revision_controls [OF contracted_sound [OF contracted_asked(2)] run] run no show ?thesis
    by (auto simp: new_terms_def)
qed

text \<open>
  What the operations do not keep: a first version still waiting for the transporter can be decided
  after a renewal of it took effect, and then two versions of one contract are in force.
\<close>

definition renewed_early :: db where
  "renewed_early = snd (strike contract_env (DecideDeal sample_planner 1 True)
     (snd (strike contract_env (ReviseDeal sample_planner 1 (new_terms RevisionRenewal))
     (snd (strike contract_env (MakeDeal sample_shipper contract_terms) empty_db)))))"

lemma two_versions_in_force: "contracted renewed_early \<and> map ag_Version (live_in 1 renewed_early) = [1, 2]"
proof
  show "contracted renewed_early"
    unfolding renewed_early_def by (intro contracted_next nothing_signed) (simp_all add: empty_db_def)
  show "map ag_Version (live_in 1 renewed_early) = [1, 2]" by code_simp
qed
section \<open>Invoices\<close>

definition carried :: "uuid \<Rightarrow> order" where
  "carried i = (sample_order OrderCompleted)\<lparr>o_ID := i, o_Price := Some 1000\<rparr>"

definition billing_env :: env where
  "billing_env = sample_env\<lparr>CompanySettings := (\<lambda>_. Some (1 / 10, 0))\<rparr>"

definition bill_of :: "uuid list \<Rightarrow> invoice_input" where
  "bill_of ids = \<lparr>bi_ShipperCompanyID = 10, bi_OrderIDs = ids, bi_CurrencyID = ''IDR'', bi_Adjustment = - 5,
     bi_Notes = [], bi_DueAt = None\<rparr>"

definition unbilled :: db where
  "unbilled = empty_db\<lparr>db_orders := [carried 1, carried 2, carried 3]\<rparr>"

definition billed_once :: db where
  "billed_once = snd (CreateInvoice billing_env sample_planner (bill_of [2, 1]) unbilled)"

lemma booked_once: "booked_bills billed_once"
proof -
  have "booked_bills unbilled" by (rule no_bills) (simp add: unbilled_def empty_db_def)
  then show ?thesis unfolding billed_once_def by (rule made) (rule prod.collapse [symmetric])
qed

text \<open>
  C21. Whatever bills are made and moved, whatever else happens in between, no order is on two bills
  that are not cancelled, nor twice on one of them; numbers and ids of bills are unique and every bill
  is in one of the states of the machine.
\<close>

theorem billed_once_only:
  assumes "booked_bills d"
  shows "distinct (concat (map (\<lambda>v. map il_OrderID (iv_Lines v)) (filter (\<lambda>v. iv_StatusCode v \<noteq> InvoiceCancelled) (db_invoices d)))) \<and>
    distinct (map iv_ID (db_invoices d)) \<and> distinct (map iv_InvoiceNumber (db_invoices d)) \<and>
    (\<forall>v\<in>set (db_invoices d). iv_StatusCode v \<in> set (map fst invoiceTransitions))"
  using booked_sound [OF assms]
  by (simp add: books_sound_def billed_orders_def live_invoice_def [abs_def] list_all_iff)

theorem billed_once_only_witness:
  "map (\<lambda>v. map il_OrderID (iv_Lines v)) (db_invoices billed_once) = [[1, 2]] \<and>
   distinct (map iv_InvoiceNumber (db_invoices billed_once)) \<and>
   isl (fst (CreateInvoice billing_env sample_planner (bill_of [2, 3]) billed_once))"
proof -
  have "map (\<lambda>v. map il_OrderID (iv_Lines v)) (db_invoices billed_once) = [[1, 2]]"
    "isl (fst (CreateInvoice billing_env sample_planner (bill_of [2, 3]) billed_once))" by code_simp+
  moreover have "distinct (map iv_InvoiceNumber (db_invoices billed_once))"
    using billed_once_only [OF booked_once] by (elim conjE)
  ultimately show ?thesis by (intro conjI)
qed



text \<open>
  A bill moves only along its machine and only by a party of it: the transporter issues and
  submits, the shipper verifies and pays, platform staff of a party may do both; a paid or a cancelled
  bill never moves again; the move changes that bill alone, and nothing of it but its status and a
  time stamp.
\<close>

theorem bill_moves:
  assumes "booked_bills d" and "TransitionInvoice E actor i to d = (Inr (), d')"
  shows "\<exists>v\<in>set (db_invoices d). iv_ID v = i \<and>
    (\<exists>next. map_of invoiceTransitions (iv_StatusCode v) = Some next \<and> to \<in> set next) \<and>
    iv_StatusCode v \<notin> {InvoicePaid, InvoiceCancelled} \<and>
    (iv_ShipperCompanyID v = a_CompanyID actor \<or> iv_TransporterCompanyID v = a_CompanyID actor) \<and>
    (to \<in> {InvoiceIssued, InvoiceSubmitted} \<and> \<not> is_admin actor \<longrightarrow> iv_TransporterCompanyID v = a_CompanyID actor) \<and>
    (to \<in> {InvoiceVerified, InvoicePaid} \<and> \<not> is_admin actor \<longrightarrow> iv_ShipperCompanyID v = a_CompanyID actor) \<and>
    db_invoices d' = map (\<lambda>w. if w = v then (bill_stamped E to v)\<lparr>iv_StatusCode := to\<rparr> else w) (db_invoices d)"
proof -
  from bill_moved [OF booked_sound [OF assms(1)] assms(2)] obtain v where v: "v \<in> set (db_invoices d)" "iv_ID v = i"
    "invoice_move (iv_StatusCode v) to = None" "invoice_side actor v to = None"
    "iv_ShipperCompanyID v = a_CompanyID actor \<or> iv_TransporterCompanyID v = a_CompanyID actor"
    "db_invoices d' = map (\<lambda>w. if w = v then (bill_stamped E to v)\<lparr>iv_StatusCode := to\<rparr> else w) (db_invoices d)" by blast
  moreover have "\<exists>next. map_of invoiceTransitions (iv_StatusCode v) = Some next \<and> to \<in> set next"
    using v(3) by (auto simp: invoice_move_def split: option.splits if_splits)
  ultimately show ?thesis using invoice_move_known [OF v(3)]
    by (intro bexI [of _ v]) (auto simp: invoice_side_def split: if_splits)
qed

theorem bill_moves_witness:
  "(\<exists>d'. TransitionInvoice billing_env sample_planner 1 InvoiceIssued billed_once = (Inr (), d') \<and>
     map iv_IssuedAt (db_invoices d') = [Some 1000]) \<and>
   isl (fst (TransitionInvoice billing_env sample_planner 1 InvoicePaid billed_once))"
proof -
  let ?r = "TransitionInvoice billing_env sample_planner 1 InvoiceIssued billed_once"
  have "\<exists>x d'. ?r = (Inr x, d')" by (rule answered) code_simp
  then obtain d' where run: "?r = (Inr (), d')" by auto
  have "map iv_ID (db_invoices billed_once) = [1]" "now billing_env = 1000"
    "isl (fst (TransitionInvoice billing_env sample_planner 1 InvoicePaid billed_once))" by code_simp+
  with bill_moves [OF booked_once run] run show ?thesis by (auto simp: bill_stamped_def)
qed

section \<open>Dispatch\<close>

definition tracked_truck :: "string \<Rightarrow> string \<Rightarrow> truck" where
  "tracked_truck i imei = \<lparr>t_TruckTypeID = ''engkel'', t_Imei = imei, t_PoliceNumber = i, t_ID = i, t_CompanyID = ''20'',
     t_DriverIds = [''D1''], t_Status = ''active'', t_IsAvailable = True\<rparr>"

definition gate_site :: warehouse where
  "gate_site = sample_site\<lparr>w_Latitude := 1\<rparr>"

definition fleet_fix :: live_fix where
  "fleet_fix = \<lparr>lf_Position = \<lparr>pos_Latitude = 1, pos_Longitude = 1\<rparr>, lf_Time = 990, lf_Kecamatan = [], lf_City = []\<rparr>"

definition fleet_env :: env where
  "fleet_env = sample_env\<lparr>GetWarehouse := (\<lambda>_. Some gate_site), GetTruck := (\<lambda>i. Some (tracked_truck i ''imei-2'')),
     telemetry_configured := True, Live := (\<lambda>_. Some [(''imei-2'', fleet_fix)]),
     ListAvailableTrucks := (\<lambda>_. Some [tracked_truck ''T8'' [], tracked_truck ''T9'' ''imei-2'']), rand_token := Some ''tok''\<rparr>"

text \<open>
  C24. The trucks offered for an order are all the trucks the caller's company has free, for an order
  it is a party of, each with its position, and stably sorted: positions known before unknown, then
  nearest first in a straight line to the loading point, then live before remembered. A position is the
  device's where it answers, and else the site of the truck's last finished job.
\<close>

theorem trucks_ranked:
  assumes "Candidates E actor i d = (Inr cs, d')"
  shows "d' = d \<and> (\<exists>ord\<in>set (db_orders d). \<exists>site origin trucks.
    o_ID ord = i \<and> InvolvesCompany ord (a_CompanyID actor) \<and> o_OriginWarehouseID ord = Some site \<and>
    warehousePoint E site = Inr origin \<and> ListAvailableTrucks E (a_CompanyID actor) = Some trucks \<and>
    cs = sort_key (\<lambda>c. (\<not> ca_PositionKnown c, ca_StraightLineMeters c, ca_PositionSource c \<noteq> SourceLive))
      (map (candidate_of E origin (best_position E trucks d)) trucks) \<and>
    (\<forall>t p. best_position E trucks d t = Some p \<longrightarrow>
       tp_Source p = SourceLive \<and> live_positions E trucks t = Some p \<or>
       tp_Source p = SourceLastDrop \<and> live_positions E trucks t = None \<and> last_drop t d = Some p))"
  using assms
proof (rule Candidates_Inr)
  fix ord site origin trucks
  assume o: "ord \<in> set (db_orders d)" "o_ID ord = i" "InvolvesCompany ord (a_CompanyID actor)"
    "o_OriginWarehouseID ord = Some site" "warehousePoint E site = Inr origin"
    "ListAvailableTrucks E (a_CompanyID actor) = Some trucks"
    and cs: "cs = sort_key rank (map (candidate_of E origin (best_position E trucks d)) trucks)" and "d' = d"
  have "rank = (\<lambda>c. (\<not> ca_PositionKnown c, ca_StraightLineMeters c, ca_PositionSource c \<noteq> SourceLive))"
    by (simp add: rank_def fun_eq_iff)
  note cs' = cs [unfolded this]
  show ?thesis
    by (rule conjI [OF \<open>d' = d\<close>], rule bexI [OF _ o(1)], intro exI conjI)
      (rule o cs' allI impI best_position_source | assumption)+
qed

text \<open>The truck that was seen comes first, the one nobody has seen last.\<close>

theorem trucks_ranked_witness:
  "\<exists>cs. Candidates fleet_env sample_planner 1 (sample_db OrderApproved ShipmentAssigned) =
     (Inr cs, sample_db OrderApproved ShipmentAssigned) \<and> map ca_TruckID cs = [''T9'', ''T8'']"
proof -
  let ?m = "Candidates fleet_env sample_planner 1" and ?d = "sample_db OrderApproved ShipmentAssigned"
  have "\<exists>cs d. ?m ?d = (Inr cs, d)" by (rule answered) code_simp
  then obtain cs d where run: "?m ?d = (Inr cs, d)" by blast
  have "map ca_TruckID (projr (fst (?m ?d))) = [''T9'', ''T8'']" by code_simp
  with trucks_ranked [OF run] run show ?thesis by auto
qed


text \<open>An order on a road that is kept, beside one that has expired.\<close>

definition road_row :: "string \<Rightarrow> time \<Rightarrow> route_cache_entry" where
  "road_row key t = \<lparr>rc_CacheKey = key, rc_Profile = ''truck'', rc_AvoidTolls = False, rc_Points = [],
     rc_DistanceMeters = 12000, rc_DurationSeconds = 900, rc_Geometry = [], rc_TollSegments = [], rc_Toll = None,
     rc_HasToll = True, rc_TollDistanceMeters = 9000, rc_ExpiresAt = t\<rparr>"

definition road_leg :: "string \<Rightarrow> order_route" where
  "road_leg key = \<lparr>rt_OrderID = 1, rt_Leg = LegHaul, rt_CacheKey = key, rt_From = sample_position, rt_To = sample_position,
     rt_ReroutedAt = None, rt_ReroutedByUserID = None\<rparr>"

definition road_db :: db where
  "road_db = (sample_db OrderAssigned ShipmentAssigned)\<lparr>db_route_cache := [road_row ''a'' 5000, road_row ''b'' 10],
     db_routes := [road_leg ''a'']\<rparr>"


text \<open>
  C25. The haul of an order with stops is planned through every stop in visit order, under the key of
  exactly those points; it is found again as that leg, its road is in the cache, and the other legs
  are untouched.
\<close>

theorem haul_visits_stops:
  assumes "roads_sound d" and "PlanHaul E ord d = (Inr x, d')"
    and "o_OriginWarehouseID ord \<noteq> None" and "o_DestinationWarehouseID ord \<noteq> None"
    and "stops_wired E" and "\<not> down E StopsListByOrder" and "2 \<le> length (stops_of (o_ID ord) d)"
  shows "\<exists>ps. warehousePoints E (map st_WarehouseID (stops_of (o_ID ord) d)) = Inr ps \<and>
    find (\<lambda>l. rt_OrderID l = o_ID ord \<and> rt_Leg l = LegHaul) (db_routes d') =
      Some (planned_as E (o_ID ord) LegHaul ps uuid_Nil) \<and>
    rt_CacheKey (planned_as E (o_ID ord) LegHaul ps uuid_Nil) = CacheKey E ps ''truck'' False \<and>
    CacheKey E ps ''truck'' False \<in> rc_CacheKey ` set (db_route_cache d') \<and>
    filter (\<lambda>l. leg_key l \<noteq> (o_ID ord, LegHaul)) (db_routes d') = filter (\<lambda>l. leg_key l \<noteq> (o_ID ord, LegHaul)) (db_routes d)"
proof -
  from PlanHaul_through_stops [OF assms(2-7)] obtain ps where
    p: "warehousePoints E (map st_WarehouseID (stops_of (o_ID ord) d)) = Inr ps"
      "planned_as E (o_ID ord) LegHaul ps uuid_Nil \<in> set (db_routes d')"
      "other_legs (o_ID ord) LegHaul d' = other_legs (o_ID ord) LegHaul d"
      "\<exists>r\<in>set (db_route_cache d'). rc_CacheKey r = CacheKey E ps ''truck'' False" .
  from roads_plans(4) assms(2,1) have "roads_sound d'" by (rule preservesD)
  then have "find (\<lambda>l. rt_OrderID l = o_ID ord \<and> rt_Leg l = LegHaul) (db_routes d') =
      Some (planned_as E (o_ID ord) LegHaul ps uuid_Nil)" using p(2) by (rule find_planned)
  moreover have "CacheKey E ps ''truck'' False \<in> rc_CacheKey ` set (db_route_cache d')" using p(4) by (metis imageI)
  moreover have "rt_CacheKey (planned_as E (o_ID ord) LegHaul ps uuid_Nil) = CacheKey E ps ''truck'' False"
    by (simp add: planned_as_def)
  ultimately show ?thesis using p(1,3) unfolding other_legs_def by blast
qed

text \<open>Both sites of the sample order lie at the gate; the road between them is in the cache.\<close>

definition gate :: position where
  "gate = \<lparr>pos_Latitude = 1, pos_Longitude = 0\<rparr>"

definition planning_db :: db where
  "planning_db = (sample_db OrderApproved ShipmentAssigned)
     \<lparr>db_route_cache := [road_row (CacheKey fleet_env [gate, gate] ''truck'' False) 5000]\<rparr>"

lemmas planning_defs = planning_db_def fleet_env_def sample_env_def calm_def

lemma planning_sound: "roads_sound planning_db"
  by (simp add: roads_sound_def one_entry_def planning_db_def sample_db_def empty_db_def)

lemma planning_point: "warehousePoint fleet_env i = Inr gate"
  by (simp add: warehousePoint_def fleet_env_def gate_site_def gate_def sample_site_def)

lemma gate_fits: "point_fits (stored_point gate)"
  by code_simp

lemma planning_runs:
  "\<exists>d'. planLegVia fleet_env 1 LegHaul [gate, gate] u planning_db = (Inr (), d')"
proof -
  have "\<exists>res. Cache_Route fleet_env [gate, gate] ''truck'' False planning_db = (Inr res, planning_db) \<and>
      rr_Key res = CacheKey fleet_env [gate, gate] ''truck'' False"
    by (simp add: Cache_Route_def Let_def Cache_Lookup_def call_def query_def andThen_def attempt_def ok_def
        planning_defs road_row_def entryFromRow_def priceIfMissing_def from_entry_def)
  then show ?thesis using gate_fits
    by (auto simp: planLegVia_def andThen_def Legs_Upsert_def call_def Let_def leg_accepted_def stored_leg_def
        planning_defs road_row_def sample_defs)
qed

theorem haul_visits_stops_witness:
  "\<exists>d'. PlanHaul fleet_env (sample_order OrderApproved) planning_db = (Inr (), d') \<and>
     find (\<lambda>l. rt_OrderID l = 1 \<and> rt_Leg l = LegHaul) (db_routes d') =
       Some (planned_as fleet_env 1 LegHaul [gate, gate] uuid_Nil)"
proof -
  have stops: "stops_of 1 planning_db = [sample_stop 3 1 StopLoad ''W1'', sample_stop 4 2 StopUnload ''W2'']"
    by (simp add: stops_of_def planning_db_def sample_defs blank_stop_def)
  have wired: "stops_wired fleet_env" "\<not> down fleet_env StopsListByOrder" by (simp_all add: fleet_env_def sample_env_def calm_def)
  have points: "warehousePoints fleet_env (map st_WarehouseID (stops_of 1 planning_db)) = Inr [gate, gate]"
    unfolding stops by (simp add: planning_point)
  have o1: "o_ID (sample_order st) = 1" "o_OriginWarehouseID (sample_order st) = Some ''W1''"
    "o_DestinationWarehouseID (sample_order st) = Some ''W2''" for st by (simp_all add: sample_order_def)
  obtain d' where "planLegVia fleet_env 1 LegHaul [gate, gate] uuid_Nil planning_db = (Inr (), d')"
    using planning_runs by blast
  then have run: "PlanHaul fleet_env (sample_order OrderApproved) planning_db = (Inr (), d')"
    using points by (simp add: PlanHaul_def o1 haul_sites_def wired Stops_ListByOrder_def call_def query_def stops andThen_def
        attempt_def ok_def from_result_def planning_point)
  have "2 \<le> length (stops_of 1 planning_db)" unfolding stops by simp
  with haul_visits_stops [OF planning_sound run] run points show ?thesis by (auto simp: o1 wired)
qed

text \<open>
  A road is only re-planned for a company that bought it, on the word of a party of the order, and only
  that leg changes: what is answered is the leg as it was planned now, between two points, stamped
  with who asked, and its road; nothing but the roads changed. Without the entitlement nothing happens.
\<close>

theorem reroute_paid:
  assumes "roads_sound d" and "Reroute E actor entitled i leg d = (r, d')"
  shows "(\<not> entitled \<longrightarrow> d' = d \<and> (\<exists>msg. r = Inl (Err ErrNotEntitled msg))) \<and>
    (\<forall>res. r = Inr res \<longrightarrow> (leg = LegHaul \<or> leg = LegApproach) \<and> but_roads d' = but_roads d \<and>
       (\<exists>ord\<in>set (db_orders d). o_ID ord = i \<and> InvolvesCompany ord (a_CompanyID actor)) \<and>
       (\<exists>a b. pl_Route res = planned_as E i leg [a, b] (a_UserID actor) \<and> pl_Cache res \<noteq> None) \<and>
       other_legs i leg d' = other_legs i leg d)"
proof (intro conjI impI allI)
  show "d' = d" "\<exists>msg. r = Inl (Err ErrNotEntitled msg)" if "\<not> entitled"
    using that assms(2) by (auto simp: Reroute_unpaid fail_def)
next
  fix res assume "r = Inr res"
  with assms(2) have run: "Reroute E actor entitled i leg d = (Inr res, d')" by simp
  from Reroute_Inr [OF run] assms(1) obtain ord a b where g: "leg = LegHaul \<or> leg = LegApproach" "ord \<in> set (db_orders d)"
    "o_ID ord = i" "InvolvesCompany ord (a_CompanyID actor)" "but_roads d' = but_roads d" "other_legs i leg d' = other_legs i leg d"
    "pl_Route res = planned_as E i leg [a, b] (a_UserID actor) \<and> pl_Cache res \<noteq> None" by metis
  then show "leg = LegHaul \<or> leg = LegApproach" "but_roads d' = but_roads d" "other_legs i leg d' = other_legs i leg d"
    "\<exists>ord\<in>set (db_orders d). o_ID ord = i \<and> InvolvesCompany ord (a_CompanyID actor)"
    "\<exists>a b. pl_Route res = planned_as E i leg [a, b] (a_UserID actor) \<and> pl_Cache res \<noteq> None" by blast+
qed

theorem reroute_paid_witness:
  "(\<exists>res d'. Reroute fleet_env sample_planner True 1 LegHaul planning_db = (Inr res, d') \<and> pl_Cache res \<noteq> None) \<and>
   snd (Reroute fleet_env sample_planner False 1 LegHaul planning_db) = planning_db"
proof -
  obtain d' where p: "planLegVia fleet_env 1 LegHaul [gate, gate] 21 planning_db = (Inr (), d')"
    using planning_runs by blast
  from planLegVia_Inr [OF this] have planned: "planned_as fleet_env 1 LegHaul [gate, gate] 21 \<in> set (db_routes d')" by simp
  have "roads_sound d'" using roads_plans(3) p planning_sound by (rule preservesD)
  note found = find_planned [OF this planned]
  have "\<exists>res. Reroute fleet_env sample_planner True 1 LegHaul planning_db = (Inr res, d')"
  proof -
    have "Orders_FindByID fleet_env 20 1 planning_db = (Inr (sample_order OrderApproved), planning_db)"
      by (simp add: Orders_FindByID_def call_def query_def planning_defs sample_defs InvolvesCompany_def)
    moreover have "replanHaul fleet_env (sample_order OrderApproved) 21 planning_db = (Inr (), d')"
      using p by (simp add: replanHaul_def sample_order_def planning_point from_result_def andThen_def ok_def planLeg_def)
    moreover have "\<exists>res. Legs_FindLeg fleet_env 1 LegHaul d' = (Inr res, d')"
      using found by (simp add: Legs_FindLeg_def call_def query_def one_def fleet_env_def sample_env_def calm_def)
    ultimately show ?thesis by (auto simp: Reroute_def refuse_def andThen_def ok_def sample_planner_def)
  qed
  then obtain res where run: "Reroute fleet_env sample_planner True 1 LegHaul planning_db = (Inr res, d')" ..
  from reroute_paid [OF planning_sound run] have "pl_Cache res \<noteq> None" by simp
  moreover obtain r d2 where none: "Reroute fleet_env sample_planner False 1 LegHaul planning_db = (r, d2)" by fastforce
  from reroute_paid [OF planning_sound none] have "d2 = planning_db" by simp
  ultimately show ?thesis using run none by auto
qed

section \<open>The driver's advance\<close>

text \<open>
  C26. The evidence under an advance is what the planned roads of the order add up to: the distances are
  sums over the legs, the toll estimate is the fares of the truck's class where the gates were priced
  and the rate per kilometre where they were not, to the whole rupiah, and it says which; reading it
  changes nothing.
\<close>

theorem toll_evidence:
  assumes "evidence E i ord d = (Inr e, d')"
  defines "legs \<equiv> map (read_leg d) (filter (\<lambda>l. rt_OrderID l = i) (db_routes d))"
    and "class_key \<equiv> ''golongan_'' @ digits (nat (golonganForOrder E ord))"
  shows "d' = d \<and>
    en_TotalDistanceMeters e = sum_list (map rc_DistanceMeters (roads_of legs)) \<and>
    en_TollDistanceMeters e = sum_list (map rc_TollDistanceMeters (roads_of legs)) \<and>
    en_TollEstimate e = round_to 0 (of_int (sum_list (map (fare_of class_key) (filter priced_road (tolled_roads legs)))) +
      of_int (sum_list (map rc_TollDistanceMeters (filter (\<lambda>r. \<not> priced_road r) (tolled_roads legs)))) / 1000 * TollRatePerKm) \<and>
    en_TollEstimateSource e = (if tolled_roads legs = [] then ''none''
      else if \<forall>r\<in>set (tolled_roads legs). priced_road r then ''tariff'' else ''rate'') \<and>
    (en_TollDataComplete e \<longleftrightarrow> (\<forall>r\<in>set (tolled_roads legs). rc_TollDistanceMeters r \<noteq> 0)) \<and>
    en_TollGolongan e = (if tolled_roads legs = [] then 0 else golonganForOrder E ord)"
proof -
  have "d' = d" and e: "e = evidence_of (golonganForOrder E ord) legs"
    using assms(1) by (simp_all add: evidence_Inr legs_def)
  then show ?thesis
    unfolding e class_key_def using evidence_spec [of "golonganForOrder E ord" legs]
    by (simp add: filter_empty_conv)
qed

text \<open>Nine kilometres of toll road without a price.\<close>

theorem toll_evidence_witness:
  "\<exists>e. evidence calm 1 (sample_order OrderAssigned) road_db = (Inr e, road_db) \<and>
     en_TotalDistanceMeters e = 12000 \<and> en_TollEstimateSource e = ''rate''"
proof -
  obtain e where run: "evidence calm 1 (sample_order OrderAssigned) road_db = (Inr e, road_db)"
    by (simp add: evidence_Inr calm_def)
  have "roads_of (map (read_leg road_db) (filter (\<lambda>l. rt_OrderID l = 1) (db_routes road_db))) =
      [scanned_road (road_row ''a'' 5000)]"
    by (simp add: roads_of_def road_db_def road_leg_def road_row_def read_leg_def List.map_filter_def)
  with toll_evidence [OF run] have "en_TotalDistanceMeters e = 12000 \<and> en_TollEstimateSource e = ''rate''"
    by (simp add: tolled_roads_def scanned_road_def road_row_def priced_road_def tollPricesOf_def the_default_def)
  with run show ?thesis by blast
qed

text \<open>
  C27. An advance that was entered is that of an order of the caller's, without a contract allowance;
  every line has a code and is not negative, the total is their sum to the cent, and the distances and
  the toll estimate under it are the evidence of that moment. An advance already committed is only
  changed with a reason and stays committed; no other table changed.
\<close>

theorem advance_adds_up:
  assumes "Allowance_Save E actor i inp d = (Inr v, d')"
  shows "(\<exists>ord\<in>set (db_orders d). o_ID ord = i \<and> InvolvesCompany ord (a_CompanyID actor) \<and>
      contract_allowance E ord d = None \<and>
      (\<exists>a. vw_Allowance v = Some a \<and> advance_of i d' = Some a \<and> oa_Components a = ai_Components inp \<and>
        oa_Total a = round_to 2 (sum_list (map al_Amount (ai_Components inp))) \<and>
        oa_HaulDistanceMeters a = en_HaulDistanceMeters (evidence_on E ord d) \<and>
        oa_TollEstimate a = Some (round_to 2 (en_TollEstimate (evidence_on E ord d))) \<and>
        oa_EnteredByUserID a = Some (a_UserID actor) \<and>
        (\<forall>old. advance_of i d = Some old \<longrightarrow> oa_FinalisedAt a = oa_FinalisedAt old \<and>
          (oa_FinalisedAt old \<noteq> None \<longrightarrow> ai_Reason inp \<noteq> [])))) \<and>
    (\<forall>c\<in>set (ai_Components inp). al_Code c \<noteq> [] \<and> 0 \<le> al_Amount c) \<and>
    d' = d\<lparr>db_allowances := db_allowances d', db_allowance_history := db_allowance_history d'\<rparr>"
  using Allowance_Save_Inr [OF assms] by metis

definition advance_line :: "string \<Rightarrow> money \<Rightarrow> allowance_component" where
  "advance_line code amount = \<lparr>al_Code = code, al_Label = code, al_Amount = amount, al_Note = []\<rparr>"

definition advance_terms :: "money \<Rightarrow> string \<Rightarrow> allowance_input" where
  "advance_terms amount reason = \<lparr>ai_Components = [advance_line ''fuel'' amount, advance_line ''meal'' 100],
     ai_CurrencyID = [], ai_Note = [], ai_Reason = reason\<rparr>"

definition advance_db :: db where
  "advance_db = sample_db OrderAssigned ShipmentAssigned"

definition advance_row :: "money \<Rightarrow> time option \<Rightarrow> uuid option \<Rightarrow> order_allowance" where
  "advance_row amount t u = \<lparr>oa_OrderID = 1, oa_HaulDistanceMeters = None, oa_ApproachDistanceMeters = None,
     oa_TollEstimate = Some 0, oa_Components = [advance_line ''fuel'' amount, advance_line ''meal'' 100],
     oa_Total = amount + 100, oa_CurrencyID = None, oa_Note = None, oa_EnteredByUserID = Some 21,
     oa_EnteredAt = Some 1000, oa_FinalisedAt = t, oa_FinalisedByUserID = u\<rparr>"

text \<open>Entered, committed to the driver, and corrected afterwards.\<close>

definition entered_db :: db where
  "entered_db = advance_db\<lparr>db_allowances := [advance_row 400 None None]\<rparr>"

definition committed_db :: db where
  "committed_db = advance_db\<lparr>db_allowances := [advance_row 400 (Some 1000) (Some 21)]\<rparr>"

definition corrected_db :: db where
  "corrected_db = advance_db\<lparr>db_allowances := [advance_row 900 (Some 1000) (Some 21)],
     db_allowance_history := [superseded_version calm (advance_row 400 (Some 1000) (Some 21)) ''toll'' 21]\<rparr>"

lemmas advance_db_defs = entered_db_def committed_db_def corrected_db_def advance_db_def advance_row_def advance_line_def

lemma round_samples: "round_to 2 500 = (500 :: rat)" "round_to 2 1000 = (1000 :: rat)" "round_to 2 0 = (0 :: rat)"
  by code_simp+

lemma no_roads: "evidence_of (golonganForOrder calm (sample_order OrderAssigned)) [] =
    (no_evidence 0)\<lparr>en_TollEstimateSource := ''none''\<rparr>"
proof -
  have "round_to 0 0 = (0 :: rat)" by code_simp
  then show ?thesis by (simp add: evidence_of_def Let_def no_evidence_def)
qed

lemma advance_reads:
  assumes "d \<in> {advance_db, entered_db, committed_db, corrected_db}"
  shows "Orders_FindByID calm 20 1 d = (Inr (sample_order OrderAssigned), d)"
    and "evidence calm 1 (sample_order OrderAssigned) d = (Inr ((no_evidence 0)\<lparr>en_TollEstimateSource := ''none''\<rparr>), d)"
    and "snapshotFor calm (sample_order OrderAssigned) d = (Inr None, d)"
    and "\<exists>v. Allowance_Get calm sample_planner 1 d = (Inr v, d)"
proof -
  show 1: "Orders_FindByID calm 20 1 d = (Inr (sample_order OrderAssigned), d)"
    using assms by (auto simp: Orders_FindByID_def call_def query_def calm_def InvolvesCompany_def advance_db_defs sample_defs)
  have "filter (\<lambda>l. rt_OrderID l = 1) (db_routes d) = []"
    using assms by (auto simp: advance_db_defs sample_db_def empty_db_def)
  then show 2: "evidence calm 1 (sample_order OrderAssigned) d = (Inr ((no_evidence 0)\<lparr>en_TollEstimateSource := ''none''\<rparr>), d)"
    using no_roads by (simp add: evidence_Inr) (simp add: calm_def)
  show 3: "snapshotFor calm (sample_order OrderAssigned) d = (Inr None, d)"
    by (simp add: snapshotFor_eq contract_allowance_def sample_order_def)
  show "\<exists>v. Allowance_Get calm sample_planner 1 d = (Inr v, d)"
    using 1 2 3 by (auto simp: Allowance_Get_def sample_planner_def andThen_def attempt_def Allowances_FindByOrder_def
        call_def query_def ok_def fail_def calm_def one_def split: option.split)
qed

lemma advance_saved:
  assumes "d \<in> {advance_db, entered_db, committed_db}" "d' \<in> {entered_db, corrected_db}"
    and "Allowances_Save calm (entered_row calm sample_planner 1 ((no_evidence 0)\<lparr>en_TollEstimateSource := ''none''\<rparr>)
      [advance_line ''fuel'' amount, advance_line ''meal'' 100] (amount + 100)) reason 21 d = (Inr (), d')"
    and "0 \<le> amount"
  shows "\<exists>v. Allowance_Save calm sample_planner 1 (advance_terms amount reason) d = (Inr v, d')"
proof -
  obtain v where "Allowance_Get calm sample_planner 1 d' = (Inr v, d')" using advance_reads(4) assms(2) by auto
  moreover have "add_lines 0 (ai_Components (advance_terms amount reason)) = Inr (amount + 100)"
    using assms(4) by (simp add: advance_terms_def advance_line_def)
  ultimately show ?thesis
    using advance_reads(1-3) [of d] assms(1,3)
    by (auto simp: Allowance_Save_def sample_planner_def andThen_def ok_def from_result_def reword_def attempt_def
        advance_terms_def nonempty_def entered_row_def)
qed

lemma advance_entered: "\<exists>v. Allowance_Save calm sample_planner 1 (advance_terms 400 []) advance_db = (Inr v, entered_db)"
  by (rule advance_saved) (simp_all add: Allowances_Save_def call_def calm_def stored_allowance_def entered_row_def
      no_evidence_def round_samples allowance_accepted_def numeric_fits_def fits_def Let_def advance_db_defs sample_defs empty_db_def)

lemma advance_corrected: "\<exists>v. Allowance_Save calm sample_planner 1 (advance_terms 900 ''toll'') committed_db = (Inr v, corrected_db)"
  by (rule advance_saved) (simp_all add: Allowances_Save_def call_def calm_def stored_allowance_def entered_row_def
      no_evidence_def round_samples allowance_accepted_def numeric_fits_def fits_def Let_def entered_again_def superseded_version_def
      advance_db_defs sample_defs empty_db_def)

lemma advance_committed: "\<exists>v. Allowance_Finalise calm sample_planner 1 entered_db = (Inr v, committed_db)"
proof -
  have "Allowances_FindByOrder calm 1 entered_db = (Inr (advance_row 400 None None), entered_db)"
    by (simp add: Allowances_FindByOrder_def call_def query_def calm_def advance_db_defs)
  moreover have "Allowances_Finalise calm 1 21 entered_db = (Inr (), committed_db)"
    by (simp add: Allowances_Finalise_def call_def calm_def rows_affected_def advance_db_defs)
  moreover obtain v where "Allowance_Get calm sample_planner 1 committed_db = (Inr v, committed_db)"
    using advance_reads(4) by auto
  ultimately show ?thesis using advance_reads(1) [of entered_db]
    by (simp add: Allowance_Finalise_def sample_planner_def andThen_def ok_def reword_def attempt_def)
qed

theorem advance_adds_up_witness:
  "\<exists>a. advance_of 1 entered_db = Some a \<and> oa_Total a = 500"
proof -
  have total: "round_to 2 (sum_list (map al_Amount (ai_Components (advance_terms 400 [])))) = 500"
    by (simp add: advance_terms_def advance_line_def round_samples)
  from advance_entered obtain v where run: "Allowance_Save calm sample_planner 1 (advance_terms 400 []) advance_db = (Inr v, entered_db)" ..
  from advance_adds_up [OF run] show ?thesis unfolding total by blast
qed

text \<open>
  C28. Whatever is entered and committed, nothing an advance ever said is lost: the versions of an
  order's advance only grow, each adds up to the cent, an order has one current advance, and one that
  was committed to the driver stays committed when and by whom it was; what replaces it has a reason.
\<close>

theorem advances_kept_on_record:
  assumes "advance_step\<^sup>*\<^sup>* d d'" and "distinct (map oa_OrderID (db_allowances d))" and "advances_add_up d"
  shows "distinct (map oa_OrderID (db_allowances d')) \<and> (\<exists>later. versions i d' = versions i d @ later) \<and>
    (\<forall>v\<in>set (versions i d'). snd v = round_to 2 (sum_list (map al_Amount (fst v))) \<and> 0 \<le> snd v) \<and>
    (committed i d \<noteq> [] \<longrightarrow> committed i d' = committed i d) \<and>
    (\<exists>more. superseded i d' = superseded i d @ more \<and>
      (committed i d \<noteq> [] \<longrightarrow> (\<forall>h\<in>set more. ah_Reason h \<noteq> None)))"
proof -
  have "one_advance d" using assms(2) by (simp add: one_advance_def)
  with advance_steps_kept [OF assms(1)] have "one_advance d' \<and> (\<exists>later. versions i d' = versions i d @ later) \<and>
      (committed i d \<noteq> [] \<longrightarrow> committed i d' = committed i d) \<and>
      (\<exists>more. superseded i d' = superseded i d @ more \<and> (committed i d \<noteq> [] \<longrightarrow> (\<forall>h\<in>set more. ah_Reason h \<noteq> None)))"
    unfolding advances_kept_def by blast
  moreover have "\<forall>v\<in>set (versions i d'). snd v = round_to 2 (sum_list (map al_Amount (fst v))) \<and> 0 \<le> snd v"
    using advance_steps_add_up [OF assms(1,3)] unfolding advances_add_up_def sums_up_def by blast
  ultimately show ?thesis unfolding one_advance_def by blast
qed

theorem advances_kept_on_record_witness:
  "map snd (versions 1 corrected_db) = [500, 1000] \<and> map ah_Reason (superseded 1 corrected_db) = [Some ''toll''] \<and>
   committed 1 corrected_db = committed 1 committed_db \<and> committed 1 committed_db \<noteq> []"
proof -
  have "advance_step committed_db corrected_db" using advance_corrected advance_step.saved by blast
  then have step: "advance_step\<^sup>*\<^sup>* committed_db corrected_db" by simp
  have facts: "versions 1 committed_db = [([advance_line ''fuel'' 400, advance_line ''meal'' 100], 500)]"
    "map snd (versions 1 corrected_db) = [500, 1000]" "map ah_Reason (superseded 1 corrected_db) = [Some ''toll'']"
    "committed 1 committed_db \<noteq> []" "distinct (map oa_OrderID (db_allowances committed_db))"
    by (simp_all add: versions_def superseded_def current_def committed_def superseded_version_def nonempty_def
        advance_db_defs sample_db_def empty_db_def)
  have "advances_add_up committed_db"
    by (simp add: advances_add_up_rows sums_up_def advance_db_defs sample_db_def empty_db_def round_samples)
  from advances_kept_on_record [OF step facts(5) this, of 1] facts show ?thesis by simp
qed

text \<open>
  Committing an advance commits the open one as it stands, or, where none was entered, what the
  contract says as one line; it is stamped with who and when, and from then on committing it again is
  refused, for anybody and at any time, and changes nothing.
\<close>

theorem advance_committed_once:
  assumes "distinct (map oa_OrderID (db_allowances d))" and "Allowance_Finalise E actor i d = (Inr v, d')"
  shows "\<exists>ord\<in>set (db_orders d). o_ID ord = i \<and> InvolvesCompany ord (a_CompanyID actor) \<and>
    (\<exists>a. advance_of i d' = Some a \<and> vw_Allowance v = Some a \<and> oa_FinalisedAt a = Some (now E) \<and>
      oa_FinalisedByUserID a = Some (a_UserID actor) \<and>
      (\<forall>old. advance_of i d = Some old \<longrightarrow>
        oa_FinalisedAt old = None \<and> oa_Components a = oa_Components old \<and> oa_Total a = oa_Total old) \<and>
      (advance_of i d = None \<longrightarrow> (\<exists>s. contract_allowance E ord d = Some s \<and> oa_Components a = [contract_line s] \<and>
        oa_Total a = round_to 2 (as_Total s)))) \<and>
    (\<forall>E2 actor2. isl (fst (Allowance_Finalise E2 actor2 i d')) \<and> snd (Allowance_Finalise E2 actor2 i d') = d')"
proof -
  have one: "one_advance d" using assms(1) by (simp add: one_advance_def)
  have "advance_step d d'" using assms(2) by (rule advance_step.finalised)
  then have "advance_step\<^sup>*\<^sup>* d d'" by simp
  from advance_steps_kept [OF this] one have one': "one_advance d'" by (simp add: advances_kept_def)
  show ?thesis
    by (rule Allowance_Finalise_Inr [OF assms(2) one]) (use Allowance_Finalise_again [OF one'] in fastforce)
qed

theorem advance_committed_once_witness:
  "advance_of 1 committed_db \<noteq> None \<and>
   isl (fst (Allowance_Finalise calm sample_planner 1 committed_db)) \<and>
   snd (Allowance_Finalise calm sample_planner 1 committed_db) = committed_db"
proof -
  obtain v where run: "Allowance_Finalise calm sample_planner 1 entered_db = (Inr v, committed_db)"
    using advance_committed by blast
  have "distinct (map oa_OrderID (db_allowances entered_db))" by (simp add: advance_db_defs)
  from advance_committed_once [OF this run] show ?thesis by auto
qed

section \<open>Tracking\<close>

text \<open>
  C29. Whoever asks for tracking links, revokes and opens them: no two links share a token, an order has at
  most one that works and everybody who asks for it is given that one, and a link that was revoked is
  kept but never opens anything again: to the public page it is as unknown as a token never issued.
\<close>

theorem link_life:
  assumes "link_step\<^sup>*\<^sup>* d d'" and "links_sound d"
  shows "distinct (map tk_Token (db_tracking_links d')) \<and>
    length (filter (live_link i) (db_tracking_links d')) \<le> 1 \<and>
    (\<forall>l\<in>set (db_tracking_links d'). live_link i l \<longrightarrow>
       (\<forall>E actor m d''. Tracking_Link E actor i d' = (Inr m, d'') \<longrightarrow> m = l)) \<and>
    (\<forall>l\<in>set (db_tracking_links d). tk_RevokedAt l \<noteq> None \<longrightarrow> l \<in> set (db_tracking_links d') \<and>
       (\<forall>E token. trim_space token = tk_Token l \<longrightarrow>
         (\<exists>e. Snapshot E token d' = (Inl e, d') \<and> (\<not> down E (Dispatch LinksFindByToken) \<longrightarrow> err_class e = ErrNotFound))))"
proof (intro conjI ballI impI allI)
  have s: "links_sound d'" using assms by (rule link_steps_sound)
  then show "distinct (map tk_Token (db_tracking_links d'))" "length (filter (live_link i) (db_tracking_links d')) \<le> 1"
    by (simp_all add: links_sound_def)
  show "m = l" if l: "l \<in> set (db_tracking_links d')" "live_link i l"
    and run: "Tracking_Link E actor i d' = (Inr m, d'')" for l m E actor d''
    using run
  proof (rule Tracking_Link_run)
    assume "\<And>k. Inr m = Inr k \<Longrightarrow> k \<in> set (db_tracking_links d') \<and> live_link i k"
    then show "m = l" using live_link_unique [OF s _ _ l] by blast
  qed (use l in auto)
  fix l assume l: "l \<in> set (db_tracking_links d)" "tk_RevokedAt l \<noteq> None"
  show kept: "l \<in> set (db_tracking_links d')" using assms(1) l by (rule revoked_stays)
  show "\<exists>e. Snapshot E token d' = (Inl e, d') \<and> (\<not> down E (Dispatch LinksFindByToken) \<longrightarrow> err_class e = ErrNotFound)"
    if "trim_space token = tk_Token l" for E token
    using revoked_not_found [OF s kept l(2)] that by (intro Snapshot_unknown) simp
qed

definition link_env :: "string \<Rightarrow> env" where
  "link_env token = sample_env\<lparr>rand_token := Some token\<rparr>"

definition unlinked_db :: db where
  "unlinked_db = snd (Tracking_Revoke (link_env ''one'') sample_shipper 1
     (snd (Tracking_Link (link_env ''one'') sample_shipper 1 (sample_db OrderInTransit ShipmentToLoading))))"

definition relinked_db :: db where
  "relinked_db = snd (Tracking_Link (link_env ''two'') sample_planner 1 unlinked_db)"

text \<open>A link is issued, revoked and another one issued: the first stays dead.\<close>

theorem link_life_witness:
  "map tk_Token (db_tracking_links relinked_db) = [''one'', ''two''] \<and>
   (\<exists>e. Snapshot (link_env ''x'') ''one'' relinked_db = (Inl e, relinked_db) \<and> err_class e = ErrNotFound)"
proof -
  have step: "link_step\<^sup>*\<^sup>* unlinked_db relinked_db"
    unfolding relinked_db_def by (intro r_into_rtranclp) (metis link_step.linked prod.collapse)
  have revoked: "map (\<lambda>l. (tk_Token l, tk_RevokedAt l = None)) (db_tracking_links unlinked_db) = [(''one'', False)]"
    and tokens: "map tk_Token (db_tracking_links relinked_db) = [''one'', ''two'']" by code_simp+
  from revoked obtain l where l: "db_tracking_links unlinked_db = [l]" "tk_Token l = ''one''" "tk_RevokedAt l \<noteq> None"
    by (auto simp: map_eq_Cons_conv)
  then have "links_sound unlinked_db" by (simp add: links_sound_def)
  with link_life [OF step this, of 1] l have "\<forall>E token. trim_space token = tk_Token l \<longrightarrow>
      (\<exists>e. Snapshot E token relinked_db = (Inl e, relinked_db) \<and> (\<not> down E (Dispatch LinksFindByToken) \<longrightarrow> err_class e = ErrNotFound))"
    by simp
  moreover have "trim_space ''one'' = tk_Token l" unfolding l(2) by code_simp
  ultimately have "\<exists>e. Snapshot (link_env ''x'') ''one'' relinked_db = (Inl e, relinked_db) \<and>
      (\<not> down (link_env ''x'') (Dispatch LinksFindByToken) \<longrightarrow> err_class e = ErrNotFound)" by blast
  with tokens show ?thesis by (simp add: link_env_def sample_env_def calm_def)
qed

text \<open>
  A link that opens shows its own order and nothing changes; the truck's whereabouts are on the page only
  while the order is assigned or on the road, not before and not after.
\<close>

theorem link_shows:
  assumes "Snapshot E token d = (Inr sn, d')"
  shows "d' = d \<and> (\<exists>l\<in>set (db_tracking_links d). \<exists>ord\<in>set (db_orders d).
    tk_Token l = trim_space token \<and> tk_RevokedAt l = None \<and> o_ID ord = tk_OrderID l \<and>
    sn_OrderNumber sn = o_OrderNumber ord \<and> sn_OrderStatus sn = o_StatusCode ord \<and>
    (sn_Position sn \<noteq> None \<longrightarrow> o_StatusCode ord = OrderAssigned \<or> o_StatusCode ord = OrderInTransit))"
proof -
  have "d' = d" using assms by (rule readonlyD [OF readonly_Snapshot])
  moreover from assms obtain l ord where "l \<in> set (db_tracking_links d)" "tk_Token l = trim_space token"
    "tk_RevokedAt l = None" "ord \<in> set (db_orders d)" "o_ID ord = tk_OrderID l" "sn_OrderNumber sn = o_OrderNumber ord"
    "sn_OrderStatus sn = o_StatusCode ord"
    "sn_Position sn \<noteq> None \<Longrightarrow> o_StatusCode ord = OrderAssigned \<or> o_StatusCode ord = OrderInTransit"
    by (rule Snapshot_Inr) blast
  ultimately show ?thesis by blast
qed

theorem link_shows_witness:
  "\<exists>sn. Snapshot (link_env ''x'') '' two '' relinked_db = (Inr sn, relinked_db) \<and> sn_OrderStatus sn = OrderInTransit"
proof -
  have "\<exists>sn s. Snapshot (link_env ''x'') '' two '' relinked_db = (Inr sn, s)"
    by (rule answered) code_simp
  then obtain sn s where run: "Snapshot (link_env ''x'') '' two '' relinked_db = (Inr sn, s)" by blast
  have "map o_StatusCode (db_orders relinked_db) = [OrderInTransit]" by code_simp
  with link_shows [OF run] run show ?thesis by (auto simp: map_eq_Cons_conv)
qed



section \<open>The ledger\<close>

text \<open>
  C31. Whatever requests whichever companies make of their books, starting with none: ids are
  unique, a code names one account of a company, every account has a class, a code and a name without
  blanks around them, the accounts marked as the system's are those declared, and every journal line
  has a real date, debits one account and credits another, with an amount in whole cents that is not
  negative and fits its column.
\<close>

theorem books_stay_sound:
  assumes "ledger_steps no_ledger s"
  shows "ledger_sound s"
  using ledger_steps_sound [OF assms no_ledger_sound] .

definition books_env :: ledger_env where
  "books_env = \<lparr>lx_now = 5, lx_down = (\<lambda>_. False), lx_collate = (\<lambda>_. 0)\<rparr>"

definition fuel_account :: account_request where
  "fuel_account = \<lparr>aq_Kode = '' 5-3000 '', aq_Nama = ''Solar'', aq_Tipe = ''beban''\<rparr>"

definition fuel_bought :: entry_request where
  "fuel_bought = \<lparr>eq_Tanggal = ''2024-02-29'', eq_Keterangan = ''Solar '', eq_AkunDebitKode = ''5-3000'',
     eq_AkunKreditKode = ''1-1000'', eq_Jumlah = 1250 / 3\<rparr>"

definition books_opened :: ledger where
  "books_opened = fold (seed_account 10) SystemLedgerAccounts no_ledger"

definition books_extended :: ledger where
  "books_extended = snd (LedgerHandler_CreateAccount books_env (Inr sample_shipper) (Some fuel_account) books_opened)"

definition books_written :: ledger where
  "books_written = snd (LedgerHandler_CreateEntry books_env (Inr sample_shipper) (Some fuel_bought) books_extended)"

lemma books_run: "ledger_steps no_ledger books_opened" "ledger_step 10 books_opened books_extended"
    "ledger_step 10 books_extended books_written"
proof -
  have c: "a_CompanyID sample_shipper = 10" by (simp add: sample_shipper_def)
  have "LedgerHandler_ListAccounts books_env (Inr sample_shipper) no_ledger =
      (Inr (sort_key (\<lambda>_. 0 :: int) (filter (\<lambda>a. la_CompanyID a = 10) (lg_accounts books_opened))), books_opened)"
    by (auto simp: ListAccounts_Inr c books_env_def books_opened_def)
  from ledger_step.intros(1) [OF c this] have "ledger_step 10 no_ledger books_opened" .
  then show "ledger_steps no_ledger books_opened" by (rule ledger_more [OF ledger_still])
  show "ledger_step 10 books_opened books_extended"
    unfolding books_extended_def by (rule ledger_step.intros(2) [OF c]) (rule prod.collapse [symmetric])
  show "ledger_step 10 books_extended books_written"
    unfolding books_written_def by (rule ledger_step.intros(6) [OF c]) (rule prod.collapse [symmetric])
qed

theorem books_stay_sound_witness:
  "ledger_sound books_written \<and> length (lg_accounts books_written) = 10 \<and>
   map (\<lambda>e. (le_Tanggal e, le_Keterangan e, le_Jumlah e)) (lg_entries books_written) =
     [((2024, 2, 29), ''Solar'', 41667 / 100)]"
proof (intro conjI)
  show "ledger_sound books_written"
    by (rule books_stay_sound) (rule ledger_more [OF ledger_more [OF books_run(1,2)] books_run(3)])
qed code_simp+

text \<open>
  C32. A request about the books of one company leaves every account and line of every other
  company exactly as it was, and never changes or removes an account of the system, whoever's it is.
\<close>

theorem books_stay_own:
  assumes "ledger_steps no_ledger s" and "ledger_step c s s'"
  shows "filter (\<lambda>a. la_CompanyID a \<noteq> c) (lg_accounts s') = filter (\<lambda>a. la_CompanyID a \<noteq> c) (lg_accounts s) \<and>
    filter (\<lambda>e. le_CompanyID e \<noteq> c) (lg_entries s') = filter (\<lambda>e. le_CompanyID e \<noteq> c) (lg_entries s) \<and>
    (\<forall>a\<in>set (lg_accounts s). la_IsSystem a \<longrightarrow> a \<in> set (lg_accounts s'))"
  using ledger_step_kept [OF assms(2)] ledger_steps_sound [OF assms(1) no_ledger_sound]
  by (simp add: books_kept_def own_books_def)

theorem books_stay_own_witness:
  "filter (\<lambda>e. le_CompanyID e \<noteq> 10) (lg_entries books_extended) = [] \<and>
   length (filter la_IsSystem (lg_accounts books_opened)) = 9 \<and>
   set (filter la_IsSystem (lg_accounts books_opened)) \<subseteq> set (lg_accounts books_extended)"
proof -
  have "filter (\<lambda>e. le_CompanyID e \<noteq> 10) (lg_entries books_opened) = []"
    "length (filter la_IsSystem (lg_accounts books_opened)) = 9" by code_simp+
  with books_stay_own [OF books_run(1,2)] show ?thesis by auto
qed

text \<open>
  C33. Listing the accounts answers the company's own, in order; every code of the system has
  exactly one account among them; an account that was not there before is one of the system's, with
  the declared name and class, and only for a code the company did not have; and listing again adds
  nothing.
\<close>

theorem chart_seeded:
  assumes "ledger_sound s" and "LedgerHandler_ListAccounts E (Inr actor) s = (Inr rows, s')"
  shows "sorted (map (\<lambda>a. lx_collate E (la_Kode a)) rows) \<and> (\<forall>a\<in>set rows. la_CompanyID a = a_CompanyID actor) \<and>
    (\<forall>p\<in>set SystemLedgerAccounts. \<exists>!a. a \<in> set rows \<and> la_Kode a = fst p) \<and>
    (\<forall>a\<in>set rows. a \<in> set (lg_accounts s) \<or>
       la_IsSystem a \<and> (la_Kode a, la_Nama a, la_Tipe a) \<in> set SystemLedgerAccounts \<and>
       (\<forall>b\<in>set (lg_accounts s). la_CompanyID b = a_CompanyID actor \<longrightarrow> la_Kode b \<noteq> la_Kode a)) \<and>
    (\<forall>E' rows' s''. LedgerHandler_ListAccounts E' (Inr actor) s' = (Inr rows', s'') \<longrightarrow> s'' = s' \<and> set rows' = set rows)"
proof -
  let ?c = "a_CompanyID actor"
  have s': "s' = fold (seed_account ?c) SystemLedgerAccounts s"
    and rows: "rows = sort_key (\<lambda>a. lx_collate E (la_Kode a)) (filter (\<lambda>a. la_CompanyID a = ?c) (lg_accounts s'))"
    using assms(2) by (auto simp: ListAccounts_Inr)
  have members: "a \<in> set rows \<longleftrightarrow> a \<in> set (lg_accounts s') \<and> la_CompanyID a = ?c" for a by (auto simp: rows)
  have "ledger_sound s'" using books_kept_seeds [of SystemLedgerAccounts ?c s] assms(1) by (simp add: s' books_kept_def)
  then have keys: "distinct (map (\<lambda>a. (la_CompanyID a, la_Kode a)) (lg_accounts s'))" by (simp add: ledger_sound_def)
  have there: "has_kode ?c s' (fst p)" if "p \<in> set SystemLedgerAccounts" for p
    unfolding s' using that by (rule seeds_have)
  have unique: "\<exists>!a. a \<in> set rows \<and> la_Kode a = fst p" if p: "p \<in> set SystemLedgerAccounts" for p
  proof -
    obtain a where a: "a \<in> set (lg_accounts s')" "la_CompanyID a = ?c" "la_Kode a = fst p"
      using there [OF p] by (auto simp: has_kode_def)
    have "b = a" if "b \<in> set rows" "la_Kode b = fst p" for b
      using same_key [OF keys, of b a] that a by (simp add: members)
    with a show ?thesis by (auto simp: members)
  qed
  have new: "a \<in> set (lg_accounts s) \<or> la_IsSystem a \<and> (la_Kode a, la_Nama a, la_Tipe a) \<in> set SystemLedgerAccounts \<and>
      (\<forall>b\<in>set (lg_accounts s). la_CompanyID b = ?c \<longrightarrow> la_Kode b \<noteq> la_Kode a)" if "a \<in> set rows" for a
    using seeds_add [of a ?c SystemLedgerAccounts s] that by (auto simp: members s' has_kode_def)
  have "s'' = s' \<and> set rows' = set rows" if "LedgerHandler_ListAccounts E' (Inr actor) s' = (Inr rows', s'')" for E' rows' s''
    using that seeds_done [of SystemLedgerAccounts ?c s'] there by (auto simp: ListAccounts_Inr members)
  then show ?thesis using unique new by (simp add: members) (simp add: rows)
qed

text \<open>The chart is listed after an account was added: ten accounts, the nine of the system among them once.\<close>

theorem chart_seeded_witness:
  "\<exists>rows. LedgerHandler_ListAccounts books_env (Inr sample_shipper) books_extended = (Inr rows, books_extended) \<and>
     map la_Kode rows = [''1-1000'', ''1-1100'', ''2-1000'', ''3-1000'', ''4-1000'', ''4-9000'', ''5-1000'', ''5-2000'', ''5-9000'', ''5-3000''] \<and>
     fst ` set SystemLedgerAccounts \<subseteq> la_Kode ` set rows"
proof -
  have sound: "ledger_sound books_opened"
    using ledger_steps_sound [OF books_run(1) no_ledger_sound] .
  have sound2: "ledger_sound books_extended"
    using ledger_step_kept [OF books_run(2)] sound by (simp add: books_kept_def)
  have same: "(\<forall>p\<in>set SystemLedgerAccounts. has_kode 10 books_extended (fst p))" by code_simp
  have c: "a_CompanyID sample_shipper = 10" by (simp add: sample_shipper_def)
  let ?rows = "sort_key (\<lambda>_. 0 :: int) (filter (\<lambda>a. la_CompanyID a = 10) (lg_accounts books_extended))"
  have run: "LedgerHandler_ListAccounts books_env (Inr sample_shipper) books_extended = (Inr ?rows, books_extended)"
    using seeds_done [OF same] by (auto simp: ListAccounts_Inr c books_env_def)
  have "map la_Kode ?rows = [''1-1000'', ''1-1100'', ''2-1000'', ''3-1000'', ''4-1000'', ''4-9000'', ''5-1000'', ''5-2000'', ''5-9000'', ''5-3000'']"
    by code_simp
  moreover have "\<forall>p\<in>set SystemLedgerAccounts. \<exists>!a. a \<in> set ?rows \<and> la_Kode a = fst p"
    using chart_seeded [OF sound2 run] by (elim conjE)
  then have "fst ` set SystemLedgerAccounts \<subseteq> la_Kode ` set ?rows"
    by (force dest: bspec ex1_implies_ex)
  ultimately show ?thesis using run by (intro exI conjI)
qed

text \<open>A company that used a code of the system for an account of its own has no system account of that code.\<close>

definition taken_code :: ledger where
  "taken_code = snd (LedgerHandler_CreateAccount books_env (Inr sample_shipper)
     (Some \<lparr>aq_Kode = ''1-1000'', aq_Nama = ''Kas kecil'', aq_Tipe = ''aset''\<rparr>) no_ledger)"

theorem taken_code_stays:
  "\<exists>rows s'. LedgerHandler_ListAccounts books_env (Inr sample_shipper) taken_code = (Inr rows, s') \<and>
     length rows = 9 \<and> map la_Nama (filter (\<lambda>a. \<not> la_IsSystem a) rows) = [''Kas kecil'']"
proof -
  let ?s = "fold (seed_account 10) SystemLedgerAccounts taken_code"
  let ?rows = "sort_key (\<lambda>_. 0 :: int) (filter (\<lambda>a. la_CompanyID a = 10) (lg_accounts ?s))"
  have "LedgerHandler_ListAccounts books_env (Inr sample_shipper) taken_code = (Inr ?rows, ?s)"
    by (auto simp: ListAccounts_Inr books_env_def sample_shipper_def)
  moreover have "length ?rows = 9" "map la_Nama (filter (\<lambda>a. \<not> la_IsSystem a) ?rows) = [''Kas kecil'']" by code_simp+
  ultimately show ?thesis by (intro exI conjI)
qed

text \<open>
  C34. A journal line that was accepted is stored, alone and last, under the caller's company,
  with the date and the two different codes that were typed; its amount was positive, is kept to the
  cent, at most half a cent off, and is zero exactly where less than half a cent was asked for.
\<close>

theorem entry_recorded:
  assumes "LedgerHandler_CreateEntry E who body s = (Inr row, s')"
  shows "\<exists>actor req stored. who = Inr actor \<and> body = Some req \<and> lg_accounts s' = lg_accounts s \<and>
    lg_entries s' = lg_entries s @ [stored] \<and> le_CompanyID stored = a_CompanyID actor \<and>
    parse_date (eq_Tanggal req) = Some (le_Tanggal stored) \<and>
    le_AkunDebitKode stored = eq_AkunDebitKode req \<and> le_AkunKreditKode stored = eq_AkunKreditKode req \<and>
    le_AkunDebitKode stored \<noteq> le_AkunKreditKode stored \<and> 0 < eq_Jumlah req \<and> cents (le_Jumlah stored) \<and>
    \<bar>le_Jumlah stored - eq_Jumlah req\<bar> \<le> 1 / 200 \<and> \<bar>le_Jumlah stored\<bar> < 10 ^ 16 \<and>
    (le_Jumlah stored = 0 \<longleftrightarrow> eq_Jumlah req < 1 / 200)"
proof -
  from assms obtain actor req tanggal where w: "who = Inr actor" and b: "entry_bound body = Inr req"
    and p: "entry_parse req = Inr tanggal" and f: "entry_fits row"
    and row: "row = \<lparr>le_ID = lg_next s, le_CompanyID = a_CompanyID actor, le_Tanggal = tanggal,
          le_Keterangan = trim_space (eq_Keterangan req), le_AkunDebitKode = eq_AkunDebitKode req,
          le_AkunKreditKode = eq_AkunKreditKode req, le_Jumlah = eq_Jumlah req,
          le_CreatedByUserID = Some (a_UserID actor), le_CreatedAt = lx_now E\<rparr>"
    and s': "s' = s\<lparr>lg_entries := lg_entries s @ [stored_entry row], lg_next := lg_next s + 1\<rparr>"
    unfolding CreateEntry_Inr by blast
  have "body = Some req" using b by (auto simp: entry_bound_def bound_def split: option.splits if_splits)
  with w p f show ?thesis
    using round_to_error [of 2 "eq_Jumlah req"] round_zero [of "eq_Jumlah req"]
    by (auto simp: s' row stored_entry_def entry_parse_Inr entry_fits_def numeric_fits_def)
qed

theorem entry_recorded_witness:
  "\<exists>row s'. LedgerHandler_CreateEntry books_env (Inr sample_shipper) (Some (fuel_bought\<lparr>eq_Jumlah := 1 / 250\<rparr>)) books_extended = (Inr row, s') \<and>
     map le_Jumlah (lg_entries s') = [0]"
proof -
  let ?run = "LedgerHandler_CreateEntry books_env (Inr sample_shipper) (Some (fuel_bought\<lparr>eq_Jumlah := 1 / 250\<rparr>)) books_extended"
  have accepted: "\<not> isl (fst ?run)" and none: "lg_entries books_extended = []" by code_simp+
  then obtain row s' where run: "?run = (Inr row, s')" by (cases ?run; cases "fst ?run") auto
  from entry_recorded [OF run] obtain stored where "lg_entries s' = [stored]" "le_Jumlah stored = 0"
    by (auto simp: none fuel_bought_def)
  then have "map le_Jumlah (lg_entries s') = [0]" by simp
  with run show ?thesis by (intro exI conjI)
qed

section \<open>Lists\<close>


definition table_decoder :: decoder where
  "table_decoder = \<lparr>
     jd_filters = (\<lambda>s. if s = ''F'' then Some [\<lparr>rf_ID = ''statusCode'', rf_Value = Some (JStr ''draft, submitted''),
         rf_Operator = [], rf_Type = ''IN''\<rparr>]
       else if s = ''G'' then Some [\<lparr>rf_ID = ''driver'', rf_Value = None, rf_Operator = [], rf_Type = []\<rparr>] else None),
     jd_sorts = (\<lambda>s. Some [(''createdAt'', True)]), jd_float = (\<lambda>_. [])\<rparr>"

definition list_query :: "string \<Rightarrow> string \<Rightarrow> list_request" where
  "list_query page filters = \<lparr>lr_page = page, lr_pageSize = ''5000'', lr_filtered = filters, lr_sorted = ''S'', lr_search = '' ORD ''\<rparr>"


text \<open>
  C36. A client that turns the pages from the first to the last that the response counts sees
  every row of the list exactly once, in order: for any parameters the parser makes, as long as the
  rows do not change and are fewer than 2^62.
\<close>

theorem pages_cover:
  assumes "p = Query_Parse J r allowed \<or> p = FromProto q allowed" and "length rows < 2 ^ 62"
  shows "concat (map (\<lambda>i. page_rows (p\<lparr>p_Page := word_of_int (int i)\<rparr>) rows)
      [0..<nat (sint (TotalPages p (word_of_int (int (length rows)))))]) = rows"
proof (rule pages_cover_rows)
  have "confined allowed p" using assms(1) Parse_confined FromProto_confined by blast
  then show "1 \<le> sint (p_PageSize p)" "sint (p_PageSize p) \<le> MaxPageSize" by (simp_all add: confined_def)
qed (rule assms(2))

theorem pages_cover_witness:
  "\<exists>p. sint (p_PageSize p) = 20 \<and> sint (TotalPages p 45) = 3 \<and>
     concat (map (\<lambda>i. page_rows (p\<lparr>p_Page := word_of_int (int i)\<rparr>) [0..<45]) [0..<3]) = [0..<45]"
proof -
  let ?p = "FromProto None orderFieldSet"
  have p: "sint (p_PageSize ?p) = 20" "sint (TotalPages ?p 45) = 3" by code_simp+
  from pages_cover [of ?p table_decoder "list_query [] []" orderFieldSet None "[0..<45]"] p show ?thesis
    by (intro exI [of _ ?p]) simp
qed

text \<open>The product of a page and a size wraps: the last page there is a number for is the first one.\<close>

theorem huge_page_is_first:
  "page_rows (Query_Parse table_decoder (list_query ''9223372036854775807'' []) orderFieldSet\<lparr>p_Err := None\<rparr>) rows = take 200 rows"
proof -
  let ?p = "Query_Parse table_decoder (list_query ''9223372036854775807'' []) orderFieldSet\<lparr>p_Err := None\<rparr>"
  have "undigits ''9223372036854775807'' = 9223372036854775807" "undigits ''5000'' = 5000" by (simp_all add: undigits_def)
  then have "parsed_page ''9223372036854775807'' = 9223372036854775807" "parsed_size ''5000'' = 200"
    by (simp_all add: parsed_page_def parsed_size_def Atoi_def unsigned_digits_def is_digit_def)
  then have p: "p_Page ?p = 9223372036854775807" "p_PageSize ?p = 200"
    by (simp_all add: Query_Parse_def Let_def list_query_def split: sum.split)
  have "nat (sint (200 :: int64)) = 200" "nat (sint (9223372036854775807 * 200 :: int64)) = 0" by simp_all
  with p show ?thesis by (simp add: page_rows_def Params_Offset_def)
qed

text \<open>
  C37. The list of orders changes nothing, has at most 200 rows, and every one of them is an
  order the caller may see, a driver's own or one their company is a side of, for which each filter
  of the request holds, except a range that is not two bounds with a comma, which is left out.
\<close>

theorem orders_listed:
  assumes "OrderHandler_List J Q who r d = (Inr (rows, m), d')"
  shows "\<exists>actor. who = Inr actor \<and> d' = d \<and> length rows \<le> 200 \<and>
    (\<forall>ord\<in>set rows. ord \<in> set (db_orders d) \<and>
       (if a_Role actor = RoleDriver then o_DriverUserID ord = Some (a_UserID actor)
        else o_ShipperCompanyID ord = a_CompanyID actor \<or> o_TransporterCompanyID ord = Some (a_CompanyID actor)) \<and>
       (\<forall>f\<in>set (p_Filters (Query_Parse J r orderFieldSet)).
          case filter_cond f of Some c \<Rightarrow> sql_holds Q c ord
          | None \<Rightarrow> fc_Operator f = OpBetween \<and> CHR '','' \<notin> set (fc_Value f)))"
proof -
  let ?p = "Query_Parse J r orderFieldSet"
  from assms obtain actor n where who: "who = Inr actor" and l: "OrderService_List Q actor ?p d = (Inr (rows, n), d')"
    by (auto simp: OrderHandler_List_def paginated_Inr)
  have s: "nat (sint (p_PageSize ?p)) \<le> 200"
    using Parse_confined [of orderFieldSet J r] by (simp add: confined_def nat_le_iff)
  have d: "d' = d" and len: "length rows \<le> 200"
    and mine: "if a_Role actor = RoleDriver then o_DriverUserID ord = Some (a_UserID actor)
        else o_ShipperCompanyID ord = a_CompanyID actor \<or> o_TransporterCompanyID ord = Some (a_CompanyID actor)"
    and held: "ord \<in> set (db_orders d) \<and> (\<forall>c\<in>set (applyFilters ?p). sql_holds Q c ord)" if "ord \<in> set rows" for ord
    using l s Orders_List_Inr [of Q "a_CompanyID actor" ?p d rows n d'] Orders_ListForDriver_Inr [of Q "a_UserID actor" ?p d rows n d'] that
    by (auto simp: OrderService_List_def split: if_splits)
  show ?thesis
  proof (intro exI conjI ballI)
    show "who = Inr actor" by (rule who)
    show "d' = d" "length rows \<le> 200"
      using l s Orders_List_Inr(1,2) [of Q "a_CompanyID actor" ?p d rows n d'] Orders_ListForDriver_Inr(1,2) [of Q "a_UserID actor" ?p d rows n d']
      by (auto simp: OrderService_List_def split: if_splits)
    fix ord assume ord: "ord \<in> set rows"
    show "ord \<in> set (db_orders d)" using held [OF ord] by simp
    show "if a_Role actor = RoleDriver then o_DriverUserID ord = Some (a_UserID actor)
        else o_ShipperCompanyID ord = a_CompanyID actor \<or> o_TransporterCompanyID ord = Some (a_CompanyID actor)"
      by (rule mine [OF ord])
    fix f assume f: "f \<in> set (p_Filters ?p)"
    show "case filter_cond f of Some c \<Rightarrow> sql_holds Q c ord | None \<Rightarrow> fc_Operator f = OpBetween \<and> CHR '','' \<notin> set (fc_Value f)"
      using held [OF ord] applyFilters_each [OF f] filter_cond_None [of f] by (auto split: option.split)
  qed
qed

definition by_status :: "order sql" where
  "by_status = \<lparr>sql_casts = (\<lambda>_. True),
     sql_holds = (\<lambda>c ord. case c of SqlIn col vs \<Rightarrow> o_StatusCode ord \<in> set vs | _ \<Rightarrow> True),
     sql_rank = (\<lambda>_ ord. int (o_ID ord)), sql_count_down = False, sql_list_down = False\<rparr>"

text \<open>The status of the only order is looked for, and is not: then a filter that names it is tried.\<close>

theorem orders_listed_witness:
  "\<exists>rows m. OrderHandler_List table_decoder by_status (Inr sample_shipper) (list_query [] ''F'') (sample_db OrderSubmitted ShipmentAssigned) =
       (Inr (rows, m), sample_db OrderSubmitted ShipmentAssigned) \<and> map o_ID rows = [1] \<and>
     map (\<lambda>ord. o_ShipperCompanyID ord = 10 \<or> o_TransporterCompanyID ord = Some 10) rows = [True]"
proof -
  let ?run = "OrderHandler_List table_decoder by_status (Inr sample_shipper) (list_query [] ''F'') (sample_db OrderSubmitted ShipmentAssigned)"
  have answer: "(case fst ?run of Inr (rows, m) \<Rightarrow> map o_ID rows = [1] | Inl _ \<Rightarrow> False)" by code_simp
  then obtain rows m d' where run: "?run = (Inr (rows, m), d')" and ids: "map o_ID rows = [1]"
    by (cases ?run) (auto split: sum.splits prod.splits)
  from orders_listed [OF run] obtain actor where "Inr sample_shipper = (Inr actor :: actor result)"
      "d' = sample_db OrderSubmitted ShipmentAssigned"
      "\<forall>ord\<in>set rows. if a_Role actor = RoleDriver then o_DriverUserID ord = Some (a_UserID actor)
        else o_ShipperCompanyID ord = a_CompanyID actor \<or> o_TransporterCompanyID ord = Some (a_CompanyID actor)"
    by blast
  with run ids show ?thesis by (auto simp: sample_shipper_def)
qed

section \<open>Who is let in\<close>


definition suspended :: revocation where
  "suspended = \<lparr>ev_Kind = KindUser, ev_ID = ''u1'', ev_At = 1000\<rparr>"

definition old_token :: token where
  "old_token = \<lparr>to_SessionID = ''s1'', to_UserID = ''u1'', to_CompanyID = ''c1'', to_IssuedAt = 900\<rparr>"

definition told :: watcher where
  "told = watch_message (Store_Publish 500 True True suspended ((starting 100)\<lparr>wt_now := 1000\<rparr>))"

definition long_after :: watcher where
  "long_after = watch_prune 500 (watch_closed True (told\<lparr>wt_now := 1399\<rparr>))"


text \<open>Published out of order, an earlier cutoff replaces a later one: a suspended user is let in again.\<close>

theorem earlier_cutoff_wins:
  "let w = Store_Publish 500 True True (suspended\<lparr>ev_At := 800\<rparr>) (Store_Publish 500 True True suspended ((starting 100)\<lparr>wt_now := 1000\<rparr>))
   in Revoked (wt_list (watch_message (watch_message w))) old_token \<and>
      \<not> Revoked (wt_list (Store_resync True (watch_message (watch_message w)))) old_token"
  by code_simp

text \<open>
  C39. Outside Karlo's staff a person holds a permission exactly if they have access to the
  product, their role grants everything or they were given the permission, and it is one that an
  administrator of their company may grant at all: what is offered to grant, what may be granted and
  what is then allowed never disagree.
\<close>

theorem permission_grantable:
  assumes "\<not> pr_IsPlatformStaff p"
  shows "HasPermission p product key \<longleftrightarrow>
    (\<exists>access. pr_Access p product = Some access \<and> (pa_GrantsAll access \<or> key \<in> set (pa_Permissions access)) \<and>
       key \<in> ps_Key ` set (GrantablePermissions p product))"
  using HasPermission_grantable [OF assms] by (auto simp: image_iff)

definition planner_access :: product_access where
  "planner_access = \<lparr>pa_Role = ''transporter'', pa_Permissions = [''order.read'', ''accounting.read''],
     pa_Features = [''order'', ''dispatch''], pa_GrantsAll = False\<rparr>"

definition planner :: principal where
  "planner = \<lparr>pr_UserID = ''u31'', pr_CompanyID = ''c20'', pr_IsPlatformStaff = False,
     pr_Access = [ProductTMS \<mapsto> planner_access], pr_SingleDevice = False, pr_TokenID = ''s1''\<rparr>"

theorem permission_grantable_witness:
  "HasPermission planner ProductTMS ''order.read'' \<and> \<not> HasPermission planner ProductTMS ''accounting.read'' \<and>
   ''order.read'' \<in> ps_Key ` set (GrantablePermissions planner ProductTMS) \<and>
   ''accounting.read'' \<notin> ps_Key ` set (GrantablePermissions planner ProductTMS)"
proof -
  have s: "\<not> pr_IsPlatformStaff planner" by (simp add: planner_def)
  have "HasPermission planner ProductTMS ''order.read''" "\<not> HasPermission planner ProductTMS ''accounting.read''" by code_simp+
  then show ?thesis using permission_grantable [OF s] by (auto simp: planner_def planner_access_def)
qed

text \<open>
  C40. A request that passes authentication and a guard and acts, acts for a principal who holds
  the guard's permission and whose token, where it was verified here, is not among the revoked; it
  acts for the company of that principal, or for another one only if it is Karlo's staff that names it.
\<close>

theorem admitted_request:
  assumes "guarded A (Some key) r = Inr p" and "callerActor V (Some p) r = Inr actor"
  shows "HasPermission p ProductTMS key \<and>
    ((\<exists>issued. VerifyWithIssuedAt A (ExtractToken r) = Some (p, issued) \<and>
        (\<forall>l. au_revocations A = Some l \<longrightarrow> \<not> Revoked l (token_of p issued))) \<or>
     (\<exists>validate. au_remote A = Some validate \<and> validate (ExtractToken r) = Some p)) \<and>
    ae_uuid V (pr_UserID p) = Some (a_UserID actor) \<and>
    (pr_IsPlatformStaff p \<or> ae_uuid V (pr_CompanyID p) = Some (a_CompanyID actor) \<and> \<not> a_ActingFor actor \<and> \<not> a_PlatformStaff actor)"
proof -
  have auth: "RequireAuthWithRevocations A r = Inr p" and holds: "RequireModule key (Some p) = Inr ()"
    using assms(1) by (auto simp: guarded_def split: sum.splits)
  from RequireAuth_Inr [OF auth] RequireModule_Inr [of key p] holds callerActor_Inr [OF assms(2)] show ?thesis by auto
qed

definition desk :: authenticator where
  "desk = \<lparr>au_claims = (\<lambda>s. if s = ''T'' then Some (planner, Some 2000) else None), au_remote = None,
     au_revocations = Some (wt_list long_after)\<rparr>"

definition letterhead :: actor_env where
  "letterhead = \<lparr>ae_uuid = (\<lambda>s. if s = ''u31'' then Some 31 else if s = ''c20'' then Some 20 else None), ae_bypass_enabled = True\<rparr>"

definition plain_request :: http_request where
  "plain_request = \<lparr>rq_Authorization = ''Bearer T'', rq_TokenQuery = [], rq_ActingFor = [], rq_StatusBypass = ''1''\<rparr>"

theorem admitted_request_witness:
  "\<exists>p actor. guarded desk (Some ''order.read'') plain_request = Inr p \<and> callerActor letterhead (Some p) plain_request = Inr actor \<and>
     HasPermission p ProductTMS ''order.read'' \<and> a_CompanyID actor = 20 \<and> \<not> a_StatusBypass actor \<and>
     (case guarded desk (Some ''order.create'') plain_request of Inl e \<Rightarrow> e = Forbidden ''Access Denied'' | Inr _ \<Rightarrow> False)"
proof -
  have "(case guarded desk (Some ''order.read'') plain_request of Inr p \<Rightarrow>
      (case callerActor letterhead (Some p) plain_request of Inr actor \<Rightarrow> a_CompanyID actor = 20 \<and> \<not> a_StatusBypass actor | Inl _ \<Rightarrow> False)
      | Inl _ \<Rightarrow> False)"
    and no: "(case guarded desk (Some ''order.create'') plain_request of Inl e \<Rightarrow> e = Forbidden ''Access Denied'' | Inr _ \<Rightarrow> False)" by code_simp+
  then obtain p actor where g: "guarded desk (Some ''order.read'') plain_request = Inr p"
    and c: "callerActor letterhead (Some p) plain_request = Inr actor" and a: "a_CompanyID actor = 20 \<and> \<not> a_StatusBypass actor"
    by (auto split: sum.splits)
  from admitted_request [OF g c] g c a no show ?thesis by blast
qed

text \<open>
  A company that was just given the default features: its administrator passes every guard of the API
  and may move an order and a shipment to every status, so that no key of a guard is misspelt and no
  feature is missing from the defaults; someone without access to the product passes no guard.
\<close>

theorem administrators_reach:
  assumes "\<not> pr_IsPlatformStaff p"
  shows "(new_administrator u c p \<longrightarrow>
      (\<forall>(verb, path, guard)\<in>set api_routes. \<forall>key. guard = Some key \<longrightarrow> RequireModule key (Some p) = Inr ()) \<and>
      (\<forall>status\<in>fst ` set orderStatusPermission. callerMayReach (Some p) status)) \<and>
    (pr_Access p ProductTMS = None \<longrightarrow>
      (\<forall>(verb, path, guard)\<in>set api_routes. \<forall>key. guard = Some key \<longrightarrow> RequireModule key (Some p) \<noteq> Inr ()))"
proof -
  have dotted: "sold_by_default key \<Longrightarrow> CHR ''.'' \<in> set key" for key by (simp add: sold_by_default_def)
  have "callerMayReach (Some p) status" if n: "new_administrator u c p" and o: "(status, key) \<in> set orderStatusPermission" for status key
  proof -
    obtain key' where m: "map_of orderStatusPermission status = Some key'" using o by (metis weak_map_of_SomeI)
    then have "sold_by_default key'" using statuses_sold(1) by (auto simp: list_all_iff dest: map_of_SomeD)
    then show ?thesis
      using administrator_holds [OF n] cut_dotted [of key'] dotted [of key']
      by (auto simp: callerMayReach_def PermissionForOrderStatus_def m HasModule_cut split: option.splits)
  qed
  moreover have "RequireModule key (Some p) = Inr ()" if n: "new_administrator u c p" and g: "(verb, path, Some key) \<in> set api_routes" for verb path key
    using g guards_sold administrator_holds [OF n] dotted by (auto simp: list_all_iff RequireModule_Inr)
  moreover have "RequireModule key (Some p) \<noteq> Inr ()" if "pr_Access p ProductTMS = None" for key
    using no_access_no_permission [OF assms that] by (simp add: RequireModule_Inr)
  ultimately show ?thesis by auto
qed

end
